(* ===== verification/Prelude.thy ===== *)
theory Prelude
  imports Main "HOL-Library.AList" "HOL-Library.Multiset" "HOL-Library.Char_ord" "HOL-Library.List_Lexorder"
begin

text \<open>
  What every component of the gateway shares.

  \<^item> Errors: a Python exception is a value \<open>Raise kind message\<close> of type \<open>pyerr\<close>, and a
    computation that may raise returns \<open>'a res\<close>, with \<open>Inl\<close> for the exception.
  \<^item> Dictionaries: a Python \<open>dict\<close> keeps insertion order, and storing under a present key
    keeps its position. It is an association list with \<open>dget\<close>, \<open>dset\<close>, \<open>ddel\<close> and
    \<open>dupdate\<close>; the locale \<open>dict_ops\<close> is the interface its clients rely on.
  \<^item> Strings: a Python \<open>str\<close> is held as its UTF-8 bytes in a HOL \<open>string\<close>. All separators the
    source looks for are ASCII, so searching, splitting and prefix tests agree with the
    code-point view, and byte order is code-point order. White space is the ASCII white
    space of \<open>str.strip\<close>; case conversion is that of ASCII letters.
  \<^item> Values: \<open>pyval\<close> is the JSON-like value that tags, connection settings and payloads hold.
\<close>

named_theorems res_simps \<open>equations of the error monad\<close>
named_theorems dict_simps \<open>lookup equations of dictionaries\<close>
named_theorems str_simps \<open>evaluation of string helpers\<close>

section \<open>Exceptions\<close>

datatype exc_kind = ValueError | TypeError | KeyError | IndexError | RuntimeError
  | OverflowError | IntegrityError | StopIteration | AttributeError | CsvError
  | OperationalError

datatype pyerr = Raise exc_kind string

type_synonym 'a res = "pyerr + 'a"

fun err_text :: "pyerr \<Rightarrow> string" where
  "err_text (Raise k m) = m"

fun err_kind :: "pyerr \<Rightarrow> exc_kind" where
  "err_kind (Raise k m) = k"

definition rbind :: "'a res \<Rightarrow> ('a \<Rightarrow> 'b res) \<Rightarrow> 'b res" where
  "rbind r f = (case r of Inl e \<Rightarrow> Inl e | Inr x \<Rightarrow> f x)"

lemma rbind_simps [simp, res_simps]:
  "rbind (Inl e) f = Inl e"
  "rbind (Inr x) f = f x"
  by (simp_all add: rbind_def)

lemma rbind_Inr_iff: "rbind r f = Inr y \<longleftrightarrow> (\<exists>x. r = Inr x \<and> f x = Inr y)"
  by (cases r) auto

lemma rbind_Inl_iff: "rbind r f = Inl e \<longleftrightarrow> r = Inl e \<or> (\<exists>x. r = Inr x \<and> f x = Inl e)"
  by (cases r) auto

lemma rbind_cong [fundef_cong]:
  "r = r' \<Longrightarrow> (\<And>x. r' = Inr x \<Longrightarrow> f x = g x) \<Longrightarrow> rbind r f = rbind r' g"
  by (cases r') auto

fun rmap :: "('a \<Rightarrow> 'b res) \<Rightarrow> 'a list \<Rightarrow> 'b list res" where
  "rmap f [] = Inr []"
| "rmap f (x # xs) = rbind (f x) (\<lambda>y. rbind (rmap f xs) (\<lambda>ys. Inr (y # ys)))"

lemma rmap_Inr_map: "(\<And>x. x \<in> set xs \<Longrightarrow> f x = Inr (g x)) \<Longrightarrow> rmap f xs = Inr (map g xs)"
  by (induction xs) auto

lemma rmap_length: "rmap f xs = Inr ys \<Longrightarrow> length ys = length xs"
  by (induction xs arbitrary: ys) (auto simp: rbind_Inr_iff)

section \<open>Dictionaries\<close>

type_synonym ('k, 'v) pydict = "('k \<times> 'v) list"

definition dget :: "('k, 'v) pydict \<Rightarrow> 'k \<Rightarrow> 'v option" where
  "dget d k = map_of d k"

definition dset :: "'k \<Rightarrow> 'v \<Rightarrow> ('k, 'v) pydict \<Rightarrow> ('k, 'v) pydict" where
  "dset k v d = AList.update k v d"

definition ddel :: "'k \<Rightarrow> ('k, 'v) pydict \<Rightarrow> ('k, 'v) pydict" where
  "ddel k d = filter (\<lambda>p. fst p \<noteq> k) d"

fun dupdate :: "('k, 'v) pydict \<Rightarrow> ('k, 'v) pydict \<Rightarrow> ('k, 'v) pydict" where
  "dupdate d [] = d"
| "dupdate d ((k, v) # e) = dupdate (dset k v d) e"

definition dkeys :: "('k, 'v) pydict \<Rightarrow> 'k list" where
  "dkeys d = map fst d"

definition dvalues :: "('k, 'v) pydict \<Rightarrow> 'v list" where
  "dvalues d = map snd d"

definition dwf :: "('k, 'v) pydict \<Rightarrow> bool" where
  "dwf d \<longleftrightarrow> distinct (map fst d)"

lemma dget_Nil [simp, dict_simps]: "dget [] k = None"
  by (simp add: dget_def)

lemma dget_Cons [simp, dict_simps]: "dget ((k, v) # d) k' = (if k = k' then Some v else dget d k')"
  by (simp add: dget_def)

lemma dset_Nil [simp, dict_simps]: "dset k v [] = [(k, v)]"
  by (simp add: dset_def)

lemma dset_Cons [simp, dict_simps]:
  "dset k v ((k', v') # d) = (if k' = k then (k, v) # d else (k', v') # dset k v d)"
  by (simp add: dset_def)

lemma ddel_Nil [simp, dict_simps]: "ddel k [] = []"
  by (simp add: ddel_def)

lemma ddel_Cons [simp, dict_simps]:
  "ddel k ((k', v') # d) = (if k' = k then ddel k d else (k', v') # ddel k d)"
  by (simp add: ddel_def)

lemma dget_dset: "dget (dset k v d) k' = (if k = k' then Some v else dget d k')"
  by (simp add: dget_def dset_def update_conv')

lemma dget_dset_same [simp]: "dget (dset k v d) k = Some v"
  by (simp add: dget_dset)

lemma dget_dset_other [simp]: "k \<noteq> k' \<Longrightarrow> dget (dset k v d) k' = dget d k'"
  by (simp add: dget_dset)

lemma dget_ddel: "dget (ddel k d) k' = (if k = k' then None else dget d k')"
  by (induction d) auto

lemma fst_set_dset [simp]: "fst ` set (dset k v d) = insert k (fst ` set d)"
  by (simp add: dset_def dom_update)

lemma dkeys_dset: "map fst (dset k v d) = (if k \<in> fst ` set d then map fst d else map fst d @ [k])"
  by (induction d) (force split: if_splits)+

lemma dwf_Nil [simp]: "dwf []"
  by (simp add: dwf_def)

lemma dwf_dset [simp]: "dwf (dset k v d) \<longleftrightarrow> dwf d"
  by (simp add: dwf_def dkeys_dset)

lemma dwf_ddel [simp]: "dwf d \<Longrightarrow> dwf (ddel k d)"
  by (simp add: dwf_def ddel_def distinct_map_filter)

lemma dwf_tl: "dwf (p # d) \<Longrightarrow> dwf d"
  by (simp add: dwf_def)

lemma dset_known: "dget d k = Some v \<Longrightarrow> dset k v d = d"
  by (induction d) (auto split: if_splits)

lemma dset_fresh: "k \<notin> fst ` set d \<Longrightarrow> dset k v d = d @ [(k, v)]"
  by (induction d) auto

lemma dget_in_set: "dget d k = Some v \<Longrightarrow> (k, v) \<in> set d"
  by (simp add: dget_def map_of_SomeD)

lemma dget_of_member: "dwf d \<Longrightarrow> (k, v) \<in> set d \<Longrightarrow> dget d k = Some v"
  by (simp add: dget_def dwf_def)

lemma dget_None_iff: "dget d k = None \<longleftrightarrow> k \<notin> fst ` set d"
  by (simp add: dget_def map_of_eq_None_iff)

lemma set_dset: "dwf d \<Longrightarrow> set (dset k v d) = {p \<in> set d. fst p \<noteq> k} \<union> {(k, v)}"
  by (induction d) (auto simp: dwf_def rev_image_eqI split: if_splits)

lemma set_dset_subset: "set (dset k v d) \<subseteq> insert (k, v) (set d)"
  by (induction d) (auto split: if_splits)

lemma set_ddel_subset: "set (ddel k d) \<subseteq> set d"
  by (auto simp: ddel_def)

lemma dwf_dupdate [simp]: "dwf (dupdate d e) \<longleftrightarrow> dwf d"
  by (induction d e rule: dupdate.induct) auto

lemma dget_dupdate:
  "dget (dupdate d e) k = (case map_of (rev e) k of Some v \<Rightarrow> Some v | None \<Rightarrow> dget d k)"
  by (induction d e rule: dupdate.induct) (auto simp: map_add_def dget_dset split: option.splits)

lemma dget_dupdate_notin: "k \<notin> fst ` set e \<Longrightarrow> dget (dupdate d e) k = dget d k"
  by (induction d e rule: dupdate.induct) (auto simp: dget_dset)

lemma dget_dupdate_in:
  assumes "dwf e" "(k, v) \<in> set e"
  shows "dget (dupdate d e) k = Some v"
  using assms
proof (induction d e rule: dupdate.induct)
  case (2 d k' v' e)
  then show ?case
    by (cases "(k, v) = (k', v')")
      (auto simp: dwf_def dget_dset dget_dupdate_notin)
qed simp

text \<open>
  The interface a dictionary offers: a lookup that stores and deletions rewrite pointwise,
  and an invariant (no key twice) that they keep.
\<close>

locale dict_ops =
  fixes get :: "'m \<Rightarrow> 'k \<Rightarrow> 'v option"
    and put :: "'k \<Rightarrow> 'v \<Rightarrow> 'm \<Rightarrow> 'm"
    and del :: "'k \<Rightarrow> 'm \<Rightarrow> 'm"
    and inv :: "'m \<Rightarrow> bool"
  assumes get_put: "get (put k v d) k' = (if k = k' then Some v else get d k')"
    and get_del: "get (del k d) k' = (if k = k' then None else get d k')"
    and inv_put: "inv d \<Longrightarrow> inv (put k v d)"
    and inv_del: "inv d \<Longrightarrow> inv (del k d)"
begin

lemma get_move_to_end: "get (put k v (del k d)) k' = (if k = k' then Some v else get d k')"
  by (simp add: get_put get_del)

lemma inv_move_to_end: "inv d \<Longrightarrow> inv (put k v (del k d))"
  by (simp add: inv_put inv_del)

lemma get_fold_put:
  "get (fold (\<lambda>(k, v). put k v) kvs d) k' =
     (case map_of (rev kvs) k' of Some v \<Rightarrow> Some v | None \<Rightarrow> get d k')"
  by (induction kvs arbitrary: d)
    (auto simp: get_put map_add_def split: option.splits prod.splits)

end

interpretation pydict: dict_ops dget dset ddel dwf
  by unfold_locales (auto simp: dget_dset dget_ddel)

lemma move_to_end_append: "dset k v (ddel k d) = ddel k d @ [(k, v)]"
  by (rule dset_fresh) (auto simp: ddel_def)

section \<open>Grouping\<close>

text \<open>
  The loop \<open>for x in xs: groups.setdefault(f(x), []).append(x)\<close>, which the source uses to split
  tags by read function and by output group.
\<close>

definition group_add :: "('a \<Rightarrow> 'k) \<Rightarrow> 'a \<Rightarrow> ('k, 'a list) pydict \<Rightarrow> ('k, 'a list) pydict" where
  "group_add f x d = dset (f x) ((case dget d (f x) of None \<Rightarrow> [] | Some ys \<Rightarrow> ys) @ [x]) d"

definition group_by :: "('a \<Rightarrow> 'k) \<Rightarrow> 'a list \<Rightarrow> ('k, 'a list) pydict" where
  "group_by f xs = fold (group_add f) xs []"

lemma dwf_group_fold: "dwf d \<Longrightarrow> dwf (fold (group_add f) xs d)"
  by (induction xs arbitrary: d) (auto simp: group_add_def)

lemma dget_group_fold:
  "dget (fold (group_add f) xs d) k =
     (let ys = (case dget d k of None \<Rightarrow> [] | Some ys \<Rightarrow> ys) @ filter (\<lambda>x. f x = k) xs in
      if dget d k = None \<and> (\<forall>x \<in> set xs. f x \<noteq> k) then None else Some ys)"
  by (induction xs arbitrary: d) (auto simp: group_add_def dget_dset Let_def split: option.splits)

lemma dwf_group_by [simp]: "dwf (group_by f xs)"
  by (simp add: group_by_def dwf_group_fold)

lemma dget_group_by:
  "dget (group_by f xs) k = (if \<exists>x \<in> set xs. f x = k then Some (filter (\<lambda>x. f x = k) xs) else None)"
  by (auto simp: group_by_def dget_group_fold Let_def)

lemma group_by_member:
  assumes "(k, ys) \<in> set (group_by f xs)"
  shows "ys = filter (\<lambda>x. f x = k) xs" "ys \<noteq> []" "\<And>y. y \<in> set ys \<Longrightarrow> f y = k \<and> y \<in> set xs"
proof -
  have g: "dget (group_by f xs) k = Some ys"
    using assms by (simp add: dget_of_member)
  then have e: "\<exists>x \<in> set xs. f x = k" by (simp add: dget_group_by split: if_splits)
  with g show ys: "ys = filter (\<lambda>x. f x = k) xs" by (simp add: dget_group_by)
  with e show "ys \<noteq> []" by (auto simp: filter_empty_conv)
  show "\<And>y. y \<in> set ys \<Longrightarrow> f y = k \<and> y \<in> set xs" using ys by simp
qed

lemma group_by_cover: "x \<in> set xs \<Longrightarrow> \<exists>ys. (f x, ys) \<in> set (group_by f xs) \<and> x \<in> set ys"
  using dget_in_set [of "group_by f xs" "f x"] by (force simp: dget_group_by split: if_splits)

lemma mset_concat_dset:
  "mset (concat (map snd (dset k ((case dget d k of None \<Rightarrow> [] | Some ys \<Rightarrow> ys) @ [x]) d)))
     = mset (concat (map snd d)) + {#x#}"
  by (induction d) auto

lemma mset_group_fold:
  "mset (concat (map snd (fold (group_add f) xs d))) = mset (concat (map snd d)) + mset xs"
  by (induction xs arbitrary: d) (auto simp: group_add_def mset_concat_dset)

lemma mset_group_by: "mset (concat (map snd (group_by f xs))) = mset xs"
  by (simp add: group_by_def mset_group_fold)

lemma group_by_ne: "xs \<noteq> [] \<Longrightarrow> group_by f xs \<noteq> []"
  using mset_group_by [of f xs] by (cases "group_by f xs") auto

lemma set_dupdate_subset: "set (dupdate d e) \<subseteq> set d \<union> set e"
proof (induction d e rule: dupdate.induct)
  case (2 d k v e)
  then show ?case using set_dset_subset [of k v d] by auto
qed simp

lemma fst_set_dupdate [simp]: "fst ` set (dupdate d e) = fst ` set d \<union> fst ` set e"
  by (induction d e rule: dupdate.induct) auto

lemma dupdate_append_fresh: "distinct (map fst (d @ e)) \<Longrightarrow> dupdate d e = d @ e"
proof (induction d e rule: dupdate.induct)
  case (2 d k v e)
  then show ?case using dset_fresh [of k d v] by auto
qed simp

lemma dupdate_fresh: "distinct (map fst e) \<Longrightarrow> dupdate [] e = e"
  using dupdate_append_fresh [of "[]" e] by simp

end
