(* ===== verification/Py_Str.thy ===== *)
theory Py_Str
  imports Prelude
begin

text \<open>
  The parts of Python's \<open>str\<close> and of sequence slicing that the source uses, as functions on
  HOL strings and lists.
\<close>

section \<open>Trimming\<close>

definition is_space :: "char \<Rightarrow> bool" where
  "is_space c \<longleftrightarrow> (let n = of_char c :: nat in (9 \<le> n \<and> n \<le> 13) \<or> (28 \<le> n \<and> n \<le> 32))"

definition lstrip_if :: "(char \<Rightarrow> bool) \<Rightarrow> string \<Rightarrow> string" where
  "lstrip_if p s = dropWhile p s"

definition rstrip_if :: "(char \<Rightarrow> bool) \<Rightarrow> string \<Rightarrow> string" where
  "rstrip_if p s = rev (dropWhile p (rev s))"

definition strip_if :: "(char \<Rightarrow> bool) \<Rightarrow> string \<Rightarrow> string" where
  "strip_if p s = rstrip_if p (lstrip_if p s)"

definition py_strip :: "string \<Rightarrow> string" where
  "py_strip s = strip_if is_space s"

definition strip_slash :: "string \<Rightarrow> string" where
  "strip_slash s = strip_if (\<lambda>c. c = CHR ''/'') s"

definition rstrip_slash :: "string \<Rightarrow> string" where
  "rstrip_slash s = rstrip_if (\<lambda>c. c = CHR ''/'') s"

definition lstrip_slash :: "string \<Rightarrow> string" where
  "lstrip_slash s = lstrip_if (\<lambda>c. c = CHR ''/'') s"

lemmas strip_defs [str_simps] =
  py_strip_def strip_slash_def rstrip_slash_def lstrip_slash_def strip_if_def rstrip_if_def
  lstrip_if_def is_space_def

lemma strip_if_Nil [simp]: "strip_if p [] = []"
  by (simp add: strip_if_def rstrip_if_def lstrip_if_def)

lemma py_strip_Nil [simp]: "py_strip [] = []"
  by (simp add: py_strip_def)

lemma rstrip_if_id: "s = [] \<or> \<not> p (last s) \<Longrightarrow> rstrip_if p s = s"
  by (cases s rule: rev_cases) (auto simp: rstrip_if_def)

lemma strip_if_hd: "strip_if p s \<noteq> [] \<Longrightarrow> \<not> p (hd (strip_if p s))"
proof -
  assume ne: "strip_if p s \<noteq> []"
  let ?t = "dropWhile p s"
  have pre: "\<exists>u. ?t = rstrip_if p ?t @ u"
    by (metis append_take_drop_id dropWhile_eq_drop rev_append rev_rev_ident rstrip_if_def)
  then obtain u where u: "?t = rstrip_if p ?t @ u" by blast
  from ne have ne': "rstrip_if p ?t \<noteq> []" by (simp add: strip_if_def lstrip_if_def)
  then have "hd (rstrip_if p ?t) = hd ?t" using u by (metis hd_append2)
  moreover have "?t \<noteq> []" using ne' u by (metis append_is_Nil_conv)
  then have "\<not> p (hd ?t)" by (rule hd_dropWhile)
  ultimately show ?thesis by (simp add: strip_if_def lstrip_if_def)
qed

lemma strip_if_last: "strip_if p s \<noteq> [] \<Longrightarrow> \<not> p (last (strip_if p s))"
proof -
  assume ne: "strip_if p s \<noteq> []"
  let ?t = "rev (dropWhile p s)"
  have eq: "strip_if p s = rev (dropWhile p ?t)"
    by (simp add: strip_if_def rstrip_if_def lstrip_if_def)
  with ne have "dropWhile p ?t \<noteq> []" by auto
  then have "\<not> p (hd (dropWhile p ?t))" by (rule hd_dropWhile)
  with eq \<open>dropWhile p ?t \<noteq> []\<close> show ?thesis by (simp add: last_rev)
qed

lemma strip_if_idem: "strip_if p (strip_if p s) = strip_if p s"
proof (cases "strip_if p s = []")
  case False
  let ?r = "strip_if p s"
  have "dropWhile p ?r = ?r"
    using strip_if_hd [OF False] False by (cases ?r) auto
  then have "strip_if p ?r = rstrip_if p ?r" by (simp add: strip_if_def lstrip_if_def)
  also have "\<dots> = ?r" using strip_if_last [OF False] by (simp add: rstrip_if_id)
  finally show ?thesis .
qed simp

lemma py_strip_idem [simp]: "py_strip (py_strip s) = py_strip s"
  by (simp add: py_strip_def strip_if_idem)

lemma strip_slash_idem [simp]: "strip_slash (strip_slash s) = strip_slash s"
  by (simp add: strip_slash_def strip_if_idem)

section \<open>Searching, splitting, joining\<close>

definition starts_with :: "string \<Rightarrow> string \<Rightarrow> bool" where
  "starts_with p s \<longleftrightarrow> take (length p) s = p"

definition ends_with :: "string \<Rightarrow> string \<Rightarrow> bool" where
  "ends_with p s \<longleftrightarrow> starts_with (rev p) (rev s)"

text \<open>\<open>sep in s\<close>, and \<open>s.split(sep, 1)[1]\<close> when it is.\<close>

fun after_sub :: "string \<Rightarrow> string \<Rightarrow> string option" where
  "after_sub sep [] = (if sep = [] then Some [] else None)"
| "after_sub sep (c # s) =
     (if starts_with sep (c # s) then Some (drop (length sep) (c # s)) else after_sub sep s)"

text \<open>\<open>s.split(c)\<close> for a one-character separator.\<close>

fun split_char :: "char \<Rightarrow> string \<Rightarrow> string list" where
  "split_char c [] = [[]]"
| "split_char c (x # s) =
     (if x = c then [] # split_char c s
      else (case split_char c s of [] \<Rightarrow> [[x]] | p # ps \<Rightarrow> (x # p) # ps))"

fun py_join :: "string \<Rightarrow> string list \<Rightarrow> string" where
  "py_join sep [] = []"
| "py_join sep [p] = p"
| "py_join sep (p # ps) = p @ sep @ py_join sep ps"

definition replace_char :: "char \<Rightarrow> char \<Rightarrow> string \<Rightarrow> string" where
  "replace_char a b s = map (\<lambda>c. if c = a then b else c) s"

lemma split_char_ne [simp]: "split_char c s \<noteq> []"
  by (induction s) (auto split: list.splits)

lemma split_char_sep_free: "p \<in> set (split_char c s) \<Longrightarrow> c \<notin> set p"
proof (induction s arbitrary: p)
  case (Cons x s)
  show ?case
  proof (cases "x = c")
    case True
    with Cons show ?thesis by auto
  next
    case False
    obtain q qs where q: "split_char c s = q # qs"
      by (cases "split_char c s") auto
    from Cons.IH q have "c \<notin> set q" "\<And>r. r \<in> set qs \<Longrightarrow> c \<notin> set r" by auto
    with Cons.prems False q show ?thesis by auto
  qed
qed simp

lemma join_split_char: "py_join [c] (split_char c s) = s"
proof (induction s)
  case (Cons x s)
  obtain q qs where q: "split_char c s = q # qs"
    by (cases "split_char c s") auto
  with Cons show ?case by (cases qs) auto
qed simp

lemma split_char_free: "c \<notin> set s \<Longrightarrow> split_char c s = [s]"
  by (induction s) auto

lemma py_join_append:
  "ps \<noteq> [] \<Longrightarrow> qs \<noteq> [] \<Longrightarrow> py_join sep (ps @ qs) = py_join sep ps @ sep @ py_join sep qs"
proof (induction ps)
  case (Cons p ps)
  then show ?case
    by (cases ps; cases qs) auto
qed simp

section \<open>Case and numbers\<close>

definition lower_char :: "char \<Rightarrow> char" where
  "lower_char c = (let n = of_char c :: nat in if 65 \<le> n \<and> n \<le> 90 then char_of (n + 32) else c)"

definition upper_char :: "char \<Rightarrow> char" where
  "upper_char c = (let n = of_char c :: nat in if 97 \<le> n \<and> n \<le> 122 then char_of (n - 32) else c)"

definition py_lower :: "string \<Rightarrow> string" where
  "py_lower s = map lower_char s"

definition py_upper :: "string \<Rightarrow> string" where
  "py_upper s = map upper_char s"

definition digit_char :: "nat \<Rightarrow> char" where
  "digit_char d = char_of (48 + d)"

fun show_nat :: "nat \<Rightarrow> string" where
  "show_nat n = (if n < 10 then [digit_char n] else show_nat (n div 10) @ [digit_char (n mod 10)])"

declare show_nat.simps [simp del]

definition show_int :: "int \<Rightarrow> string" where
  "show_int i = (if i < 0 then CHR ''-'' # show_nat (nat (- i)) else show_nat (nat i))"

text \<open>\<open>f"{n:0wd}"\<close> for a number that is not negative.\<close>

definition pad_nat :: "nat \<Rightarrow> nat \<Rightarrow> string" where
  "pad_nat w n = replicate (w - length (show_nat n)) (CHR ''0'') @ show_nat n"

definition is_digit :: "char \<Rightarrow> bool" where
  "is_digit c \<longleftrightarrow> (let n = of_char c :: nat in 48 \<le> n \<and> n \<le> 57)"

definition digit_val :: "char \<Rightarrow> nat" where
  "digit_val c = of_char c - 48"

text \<open>The digits of a Python integer literal: single underscores may stand between digits.\<close>

fun parse_digits :: "nat \<Rightarrow> string \<Rightarrow> nat option" where
  "parse_digits acc [] = Some acc"
| "parse_digits acc (c # s) =
     (if is_digit c then parse_digits (10 * acc + digit_val c) s
      else if c = CHR ''_'' then
        (case s of [] \<Rightarrow> None
         | d # s' \<Rightarrow> if is_digit d then parse_digits (10 * acc + digit_val d) s' else None)
      else None)"

definition parse_nat :: "string \<Rightarrow> nat option" where
  "parse_nat s = (case s of [] \<Rightarrow> None | c # _ \<Rightarrow> if is_digit c then parse_digits 0 s else None)"

definition parse_int :: "string \<Rightarrow> int option" where
  "parse_int s = (case py_strip s of
       [] \<Rightarrow> None
     | c # r \<Rightarrow> if c = CHR ''-'' then map_option (\<lambda>n. - int n) (parse_nat r)
               else if c = CHR ''+'' then map_option int (parse_nat r)
               else map_option int (parse_nat (c # r)))"

lemma show_nat_ne [simp]: "show_nat n \<noteq> []"
  by (subst show_nat.simps) simp

lemma digit_char_props:
  "d < 10 \<Longrightarrow> is_digit (digit_char d)" "d < 10 \<Longrightarrow> digit_val (digit_char d) = d"
  by (simp_all add: is_digit_def digit_char_def digit_val_def)

lemma show_nat_digits: "\<forall>c \<in> set (show_nat n). is_digit c"
proof (induction n rule: show_nat.induct)
  case (1 n)
  then show ?case
    by (subst show_nat.simps) (auto simp: digit_char_props)
qed

lemma parse_digits_append:
  "\<forall>c \<in> set s. is_digit c \<Longrightarrow>
   parse_digits acc (s @ t) = parse_digits (fold (\<lambda>c a. 10 * a + digit_val c) s acc) t"
  by (induction s arbitrary: acc) auto

lemma fold_show_nat: "fold (\<lambda>c a. 10 * a + digit_val c) (show_nat n) 0 = n"
proof (induction n rule: show_nat.induct)
  case (1 n)
  show ?case
  proof (cases "n < 10")
    case True
    then show ?thesis by (subst show_nat.simps) (simp add: digit_char_props)
  next
    case False
    then show ?thesis using 1 by (subst show_nat.simps) (simp add: digit_char_props)
  qed
qed

lemma parse_nat_show_nat [simp]: "parse_nat (show_nat n) = Some n"
proof -
  obtain c r where cr: "show_nat n = c # r" by (cases "show_nat n") auto
  have "is_digit c" using show_nat_digits [of n] cr by simp
  then have "parse_nat (show_nat n) = parse_digits 0 (show_nat n)"
    using cr by (simp add: parse_nat_def)
  also have "\<dots> = parse_digits 0 (show_nat n @ [])" by simp
  also have "\<dots> = Some n"
    by (subst parse_digits_append) (auto simp: show_nat_digits fold_show_nat)
  finally show ?thesis .
qed

lemma is_digit_not_space: "is_digit c \<Longrightarrow> \<not> is_space c"
  by (auto simp: is_digit_def is_space_def Let_def)

lemma py_strip_show_nat: "py_strip (show_nat n) = show_nat n"
proof -
  have d: "\<forall>c \<in> set (show_nat n). \<not> is_space c"
    using show_nat_digits is_digit_not_space by blast
  then have "dropWhile is_space (show_nat n) = show_nat n"
    by (cases "show_nat n") auto
  moreover have "\<not> is_space (last (show_nat n))" using d by simp
  ultimately show ?thesis
    by (simp add: py_strip_def strip_if_def lstrip_if_def rstrip_if_id)
qed

lemma py_strip_minus_show_nat: "py_strip (CHR ''-'' # show_nat n) = CHR ''-'' # show_nat n"
proof -
  have "\<not> is_space (last (CHR ''-'' # show_nat n))"
    using show_nat_digits [of n] is_digit_not_space by simp
  moreover have "\<not> is_space (CHR ''-'')" by (simp add: is_space_def)
  ultimately show ?thesis
    by (simp add: py_strip_def strip_if_def lstrip_if_def rstrip_if_id)
qed

lemma parse_int_show_int [simp]: "parse_int (show_int i) = Some i"
proof (cases "i < 0")
  case True
  then show ?thesis by (simp add: parse_int_def show_int_def py_strip_minus_show_nat)
next
  case False
  obtain c r where cr: "show_nat (nat i) = c # r" by (cases "show_nat (nat i)") auto
  have "is_digit c" using show_nat_digits [of "nat i"] cr by simp
  then have "c \<noteq> CHR ''-''" "c \<noteq> CHR ''+''" by (auto simp: is_digit_def)
  moreover have "py_strip (c # r) = c # r" "parse_nat (c # r) = Some (nat i)"
    using py_strip_show_nat [of "nat i"] parse_nat_show_nat [of "nat i"] cr by simp_all
  ultimately show ?thesis using False cr by (simp add: parse_int_def show_int_def)
qed

lemma show_int_inj: "show_int i = show_int j \<longleftrightarrow> i = j"
  by (metis parse_int_show_int option.inject)

section \<open>Slices\<close>

text \<open>\<open>xs[a:b]\<close>: a negative bound counts from the end, and bounds are clamped to the list.\<close>

definition clamp_index :: "nat \<Rightarrow> int \<Rightarrow> nat" where
  "clamp_index n i = (let j = (if i < 0 then i + int n else i) in
     if j < 0 then 0 else min n (nat j))"

definition py_slice :: "'a list \<Rightarrow> int \<Rightarrow> int \<Rightarrow> 'a list" where
  "py_slice xs a b = (let i = clamp_index (length xs) a; j = clamp_index (length xs) b in
     take (j - i) (drop i xs))"

lemma py_slice_nat:
  "0 \<le> a \<Longrightarrow> a \<le> b \<Longrightarrow> nat b \<le> length xs \<Longrightarrow> py_slice xs a b = take (nat (b - a)) (drop (nat a) xs)"
  by (simp add: py_slice_def clamp_index_def Let_def nat_diff_distrib min_def)

text \<open>\<open>xs[i]\<close> for an index that is not negative raises \<open>IndexError\<close> past the end.\<close>

definition py_index :: "'a list \<Rightarrow> nat \<Rightarrow> 'a res" where
  "py_index xs i = (if i < length xs then Inr (xs ! i) else Inl (Raise IndexError ''list index out of range''))"

lemma py_index_ok [simp]: "i < length xs \<Longrightarrow> py_index xs i = Inr (xs ! i)"
  by (simp add: py_index_def)

end
