(* ===== verification/Py_Float.thy ===== *)
theory Py_Float
  imports Prelude "HOL-Library.Word"
begin

text \<open>
  Python's \<open>float\<close>, IEEE binary64: NaN, the two infinities, and \<open>FFin s m e\<close> for
  \<open>(-1)^s * m * 2^e\<close>. Multiplication and addition compute the exact result and round it to
  nearest, ties to even; \<open>fl_wf\<close> says that a finite value is in the canonical form of a
  binary64 number, which rounding always produces. \<open>float32_of_bits\<close> and \<open>float64_of_bits\<close>
  are \<open>struct.unpack\<close> with the formats \<open>>f\<close> and \<open>>d\<close>.
\<close>

datatype pyfloat = FNan | FInf bool | FFin bool nat int

fun bit_length :: "nat \<Rightarrow> nat" where
  "bit_length n = (if n = 0 then 0 else Suc (bit_length (n div 2)))"

declare bit_length.simps [simp del]

definition round_half_even :: "nat \<Rightarrow> nat \<Rightarrow> nat" where
  "round_half_even m k =
     (let q = m div 2 ^ k; r = m mod 2 ^ k in
      if 2 * r < 2 ^ k then q else if 2 * r > 2 ^ k then q + 1 else q + q mod 2)"

definition fl_pack :: "bool \<Rightarrow> nat \<Rightarrow> int \<Rightarrow> pyfloat" where
  "fl_pack s m e = (if m = 0 then FFin s 0 (-1074) else if 971 < e then FInf s else FFin s m e)"

definition fl_exp :: "nat \<Rightarrow> int \<Rightarrow> int" where
  "fl_exp m e = max (e + int (bit_length m) - 53) (-1074)"

text \<open>The binary64 number nearest to \<open>(-1)^s * m * 2^e\<close>.\<close>

definition fl_round :: "bool \<Rightarrow> nat \<Rightarrow> int \<Rightarrow> pyfloat" where
  "fl_round s m e =
     (if m = 0 then FFin s 0 (-1074) else
      let e' = fl_exp m e;
          m' = (if e' \<le> e then m * 2 ^ nat (e - e') else round_half_even m (nat (e' - e)))
      in if m' = 2 ^ 53 then fl_pack s (2 ^ 52) (e' + 1) else fl_pack s m' e')"

fun fl_mult :: "pyfloat \<Rightarrow> pyfloat \<Rightarrow> pyfloat" where
  "fl_mult FNan y = FNan"
| "fl_mult x FNan = FNan"
| "fl_mult (FInf s) (FInf t) = FInf (s \<noteq> t)"
| "fl_mult (FInf s) (FFin t m e) = (if m = 0 then FNan else FInf (s \<noteq> t))"
| "fl_mult (FFin s m e) (FInf t) = (if m = 0 then FNan else FInf (s \<noteq> t))"
| "fl_mult (FFin s m e) (FFin t n f) = fl_round (s \<noteq> t) (m * n) (e + f)"

definition signed :: "bool \<Rightarrow> nat \<Rightarrow> int" where
  "signed s m = (if s then - int m else int m)"

fun fl_add :: "pyfloat \<Rightarrow> pyfloat \<Rightarrow> pyfloat" where
  "fl_add FNan y = FNan"
| "fl_add x FNan = FNan"
| "fl_add (FInf s) (FInf t) = (if s = t then FInf s else FNan)"
| "fl_add (FInf s) (FFin t m e) = FInf s"
| "fl_add (FFin s m e) (FInf t) = FInf t"
| "fl_add (FFin s m e) (FFin t n f) =
     (let g = min e f;
          z = signed s (m * 2 ^ nat (e - g)) + signed t (n * 2 ^ nat (f - g))
      in if z = 0 then FFin (s \<and> t) 0 (-1074) else fl_round (z < 0) (nat \<bar>z\<bar>) g)"

fun fl_neg :: "pyfloat \<Rightarrow> pyfloat" where
  "fl_neg FNan = FNan"
| "fl_neg (FInf s) = FInf (\<not> s)"
| "fl_neg (FFin s m e) = FFin (\<not> s) m e"

definition fl_sub :: "pyfloat \<Rightarrow> pyfloat \<Rightarrow> pyfloat" where
  "fl_sub x y = fl_add x (fl_neg y)"

text \<open>\<open>float(i)\<close> for an integer; \<open>None\<close> is its \<open>OverflowError\<close>.\<close>

definition fl_of_int :: "int \<Rightarrow> pyfloat option" where
  "fl_of_int i = (case fl_round (i < 0) (nat \<bar>i\<bar>) 0 of FFin s m e \<Rightarrow> Some (FFin s m e) | _ \<Rightarrow> None)"

text \<open>The number nearest to \<open>p / q\<close>: a quotient with more than 54 significant bits and a sticky bit.\<close>

definition fl_ratio :: "bool \<Rightarrow> nat \<Rightarrow> nat \<Rightarrow> pyfloat" where
  "fl_ratio s p q =
     (let j = bit_length q + 55; n = p * 2 ^ j in
      fl_round s (2 * (n div q) + (if n mod q = 0 then 0 else 1)) (- int j - 1))"

fun fl_le :: "pyfloat \<Rightarrow> pyfloat \<Rightarrow> bool" where
  "fl_le FNan y = False"
| "fl_le x FNan = False"
| "fl_le (FInf s) (FInf t) = (s \<or> \<not> t)"
| "fl_le (FInf s) (FFin t m e) = s"
| "fl_le (FFin s m e) (FInf t) = (\<not> t)"
| "fl_le (FFin s m e) (FFin t n f) =
     (let g = min e f in
      signed s (m * 2 ^ nat (e - g)) \<le> signed t (n * 2 ^ nat (f - g)))"

definition fl_lt :: "pyfloat \<Rightarrow> pyfloat \<Rightarrow> bool" where
  "fl_lt x y \<longleftrightarrow> fl_le x y \<and> \<not> fl_le y x"

text \<open>\<open>int(x)\<close> for a finite float: truncation towards zero.\<close>

definition fl_trunc :: "bool \<Rightarrow> nat \<Rightarrow> int \<Rightarrow> int" where
  "fl_trunc s m e = signed s (if 0 \<le> e then m * 2 ^ nat e else m div 2 ^ nat (- e))"

definition fl_one :: pyfloat where
  "fl_one = FFin False (2 ^ 52) (-52)"

definition fl_zero :: pyfloat where
  "fl_zero = FFin False 0 (-1074)"

fun fl_is_zero :: "pyfloat \<Rightarrow> bool" where
  "fl_is_zero (FFin s m e) = (m = 0)"
| "fl_is_zero _ = False"

fun fl_is_nan :: "pyfloat \<Rightarrow> bool" where
  "fl_is_nan FNan = True"
| "fl_is_nan _ = False"

fun fl_wf :: "pyfloat \<Rightarrow> bool" where
  "fl_wf (FFin s m e) =
     (m < 2 ^ 53 \<and> -1074 \<le> e \<and> e \<le> 971 \<and> (2 ^ 52 \<le> m \<or> e = -1074))"
| "fl_wf _ = True"

definition float32_of_bits :: "nat \<Rightarrow> pyfloat" where
  "float32_of_bits n =
     (let s = (n div 2 ^ 31) mod 2 = 1; x = (n div 2 ^ 23) mod 2 ^ 8; f = n mod 2 ^ 23 in
      if x = 255 then (if f = 0 then FInf s else FNan)
      else if x = 0 then fl_round s f (-149)
      else fl_round s (2 ^ 23 + f) (int x - 150))"

definition float64_of_bits :: "nat \<Rightarrow> pyfloat" where
  "float64_of_bits n =
     (let s = (n div 2 ^ 63) mod 2 = 1; x = (n div 2 ^ 52) mod 2 ^ 11; f = n mod 2 ^ 52 in
      if x = 2047 then (if f = 0 then FInf s else FNan)
      else if x = 0 then FFin s f (-1074)
      else FFin s (2 ^ 52 + f) (int x - 1075))"

section \<open>Bit lengths\<close>

lemma bit_length_0 [simp]: "bit_length 0 = 0"
  by (subst bit_length.simps) simp

lemma bit_length_pos: "0 < n \<Longrightarrow> bit_length n = Suc (bit_length (n div 2))"
  by (subst bit_length.simps) simp

lemma bit_length_upper: "n < 2 ^ bit_length n"
proof (induction n rule: bit_length.induct)
  case (1 n)
  show ?case
  proof (cases "n = 0")
    case False
    with 1 have "n div 2 < 2 ^ bit_length (n div 2)" by simp
    then have "n < 2 * 2 ^ bit_length (n div 2)" by linarith
    with False show ?thesis by (simp add: bit_length_pos)
  qed simp
qed

lemma bit_length_lower: "0 < n \<Longrightarrow> 2 ^ (bit_length n - 1) \<le> n"
proof (induction n rule: bit_length.induct)
  case (1 n)
  show ?case
  proof (cases "n div 2 = 0")
    case True
    with 1 have "n = 1" by linarith
    then show ?thesis by (simp add: bit_length_pos)
  next
    case False
    with 1 have IH: "2 ^ (bit_length (n div 2) - 1) \<le> n div 2" by simp
    from False have "bit_length (n div 2) = Suc (bit_length (n div 2) - 1)"
      by (simp add: bit_length_pos [of "n div 2"])
    with IH have "2 ^ bit_length (n div 2) \<le> 2 * (n div 2)"
      by (metis mult_le_mono2 power_Suc)
    also have "\<dots> \<le> n" by simp
    finally show ?thesis using 1 by (simp add: bit_length_pos [of n])
  qed
qed

lemma bit_length_eqI:
  assumes "2 ^ k \<le> n" "n < 2 ^ Suc k"
  shows "bit_length n = Suc k"
proof -
  have pos: "0 < n" using assms(1) by (metis gr0I not_le zero_less_numeral zero_less_power)
  have "2 ^ k < (2::nat) ^ bit_length n" using assms(1) bit_length_upper [of n] by linarith
  then have "k < bit_length n" by (simp add: power_strict_increasing_iff)
  moreover have "(2::nat) ^ (bit_length n - 1) < 2 ^ Suc k"
    using bit_length_lower [OF pos] assms(2) by linarith
  then have "bit_length n - 1 < Suc k" by (simp only: power_strict_increasing_iff one_less_numeral_iff semiring_norm)
  ultimately show ?thesis by linarith
qed

lemma bit_length_shift:
  assumes "0 < m"
  shows "bit_length (m * 2 ^ k) = bit_length m + k"
proof -
  obtain b where b: "bit_length m = Suc b" using assms by (simp add: bit_length_pos)
  have "2 ^ (b + k) \<le> m * 2 ^ k"
    using bit_length_lower [OF assms] b by (simp add: power_add)
  moreover have "m * 2 ^ k < 2 ^ Suc (b + k)"
    using bit_length_upper [of m] b by (simp add: power_add)
  ultimately have "bit_length (m * 2 ^ k) = Suc (b + k)" by (rule bit_length_eqI)
  with b show ?thesis by simp
qed

section \<open>Rounding\<close>

lemma round_half_even_0 [simp]: "round_half_even m 0 = m"
  by (simp add: round_half_even_def)

lemma round_half_even_exact: "round_half_even (m * 2 ^ k) k = m"
  by (simp add: round_half_even_def)

lemma round_half_even_shift: "round_half_even (m * 2 ^ j) (k + j) = round_half_even m k"
proof -
  have q: "m * 2 ^ j div 2 ^ (k + j) = m div 2 ^ k"
    by (simp add: power_add)
  have r: "m * 2 ^ j mod 2 ^ (k + j) = (m mod 2 ^ k) * 2 ^ j"
    by (simp add: power_add mult_mod_left)
  have p: "(0::nat) < 2 ^ j" by simp
  show ?thesis
    unfolding round_half_even_def Let_def q r
    using p by (simp add: power_add flip: mult.assoc)
qed

text \<open>Only the value counts: trailing zero bits of the mantissa may move into the exponent.\<close>

lemma fl_exp_shift: "0 < m \<Longrightarrow> fl_exp (m * 2 ^ j) (e - int j) = fl_exp m e"
  by (simp add: fl_exp_def bit_length_shift)

lemma fl_round_shift: "fl_round s (m * 2 ^ j) (e - int j) = fl_round s m e"
proof (cases "m = 0")
  case False
  let ?f = "fl_exp m e"
  have "(if ?f \<le> e - int j then m * 2 ^ j * 2 ^ nat (e - int j - ?f)
         else round_half_even (m * 2 ^ j) (nat (?f - (e - int j)))) =
        (if ?f \<le> e then m * 2 ^ nat (e - ?f) else round_half_even m (nat (?f - e)))"
  proof -
    consider (a) "?f \<le> e - int j" | (b) "e - int j < ?f" "?f \<le> e" | (c) "e < ?f" by linarith
    then show ?thesis
    proof cases
      case a
      then have "j + nat (e - int j - ?f) = nat (e - ?f)" by linarith
      then have "m * 2 ^ j * 2 ^ nat (e - int j - ?f) = m * 2 ^ nat (e - ?f)"
        by (simp flip: power_add add: mult.assoc)
      with a show ?thesis by simp
    next
      case b
      let ?i = "nat (?f - (e - int j))"
      have "j = nat (e - ?f) + ?i" using b by linarith
      then have "m * 2 ^ j = (m * 2 ^ nat (e - ?f)) * 2 ^ ?i"
        by (metis mult.assoc power_add)
      then have "round_half_even (m * 2 ^ j) ?i = m * 2 ^ nat (e - ?f)"
        by (simp only: round_half_even_exact)
      with b show ?thesis by simp
    next
      case c
      then have "nat (?f - (e - int j)) = nat (?f - e) + j" by linarith
      with c show ?thesis by (simp add: round_half_even_shift)
    qed
  qed
  with False show ?thesis
    by (simp add: fl_round_def fl_exp_shift)
qed (simp add: fl_round_def)

lemma fl_round_canonical:
  assumes "fl_wf (FFin s m e)" "m \<noteq> 0"
  shows "fl_round s m e = FFin s m e"
proof (cases "2 ^ 52 \<le> m")
  case True
  with assms have "bit_length m = Suc 52" by (intro bit_length_eqI) simp_all
  with assms have "fl_exp m e = e" by (simp add: fl_exp_def)
  with assms show ?thesis by (simp add: fl_round_def fl_pack_def)
next
  case False
  with assms have e: "e = -1074" by simp
  have "(2::nat) ^ (bit_length m - 1) < 2 ^ 52"
    using bit_length_lower [of m] assms(2) False by simp
  then have "bit_length m - 1 < 52" by (simp only: power_strict_increasing_iff one_less_numeral_iff semiring_norm)
  then have "fl_exp m e = e" using e by (simp add: fl_exp_def)
  with assms False show ?thesis by (simp add: fl_round_def fl_pack_def)
qed

lemma round_half_even_le: "round_half_even m k \<le> m div 2 ^ k + 1"
proof -
  have "m div 2 ^ k mod 2 \<le> 1" by simp
  then show ?thesis by (simp add: round_half_even_def Let_def)
qed

lemma fl_round_wf: "fl_wf (fl_round s m e)"
proof (cases "m = 0")
  case False
  define b where "b = bit_length m"
  define f where "f = fl_exp m e"
  define n where "n = (if f \<le> e then m * 2 ^ nat (e - f) else round_half_even m (nat (f - e)))"
  have lo: "2 ^ (b - 1) \<le> m" and hi: "m < 2 ^ b" and b0: "0 < b"
    using False bit_length_lower [of m] bit_length_upper [of m] bit_length_pos [of m]
    by (auto simp: b_def)
  have fe: "f = max (e + int b - 53) (-1074)" by (simp add: f_def fl_exp_def b_def)
  have bound: "n \<le> 2 ^ 53 \<and> (f = -1074 \<or> 2 ^ 52 \<le> n)"
  proof (cases "f \<le> e")
    case True
    then have n: "n = m * 2 ^ nat (e - f)" by (simp add: n_def)
    have le: "b + nat (e - f) \<le> 53" using fe True by linarith
    have "n < 2 ^ (b + nat (e - f))" using hi by (simp add: n power_add)
    also have "\<dots> \<le> 2 ^ 53" using le by (intro power_increasing) simp_all
    finally have u: "n \<le> 2 ^ 53" by simp
    have "2 ^ 52 \<le> n" if "f \<noteq> -1074"
    proof -
      have "b - 1 + nat (e - f) = 52" using that fe True b0 by linarith
      then have "(2::nat) ^ 52 = 2 ^ (b - 1) * 2 ^ nat (e - f)" by (metis power_add)
      also have "\<dots> \<le> n" using lo by (simp only: n mult_le_mono1)
      finally show ?thesis .
    qed
    with u show ?thesis by blast
  next
    case False
    define k where "k = nat (f - e)"
    have n: "n = round_half_even m k" using False by (simp add: n_def k_def)
    have le: "b \<le> 53 + k" using fe False by (simp add: k_def) 
    have "m < 2 ^ (53 + k)" using hi le
      by (meson less_le_trans one_le_numeral power_increasing)
    then have "m div 2 ^ k < 2 ^ 53" by (simp add: power_add less_mult_imp_div_less)
    then have u: "n \<le> 2 ^ 53" using round_half_even_le [of m k] n by linarith
    have "2 ^ 52 \<le> n" if "f \<noteq> -1074"
    proof -
      have "b - 1 = 52 + k" using that fe False b0 by (simp add: k_def)
      then have "2 ^ 52 * 2 ^ k \<le> m" using lo by (simp add: power_add)
      then have "2 ^ 52 \<le> m div 2 ^ k" by (simp add: less_eq_div_iff_mult_less_eq)
      then show ?thesis by (simp add: n round_half_even_def Let_def)
    qed
    with u show ?thesis by blast
  qed
  have f0: "-1074 \<le> f" by (simp add: fe)
  have "fl_round s m e = (if n = 2 ^ 53 then fl_pack s (2 ^ 52) (f + 1) else fl_pack s n f)"
    using False by (simp add: fl_round_def f_def n_def Let_def)
  with bound f0 show ?thesis by (auto simp: fl_pack_def)
qed (simp add: fl_round_def)

lemma fl_mult_wf: "fl_wf (fl_mult x y)"
  by (cases "(x, y)" rule: fl_mult.cases) (auto simp: fl_round_wf)

lemma fl_add_wf: "fl_wf (fl_add x y)"
  by (cases "(x, y)" rule: fl_add.cases) (auto simp: fl_round_wf Let_def)

section \<open>Scaling by one, adding zero\<close>

lemma fl_mult_one:
  assumes "fl_wf x"
  shows "fl_mult x fl_one = (case x of FFin s m e \<Rightarrow> if m = 0 then FFin s 0 (-1074) else x | _ \<Rightarrow> x)"
proof (cases x)
  case (FFin s m e)
  have "fl_mult x fl_one = fl_round s (m * 2 ^ 52) (e - int 52)"
    by (simp add: FFin fl_one_def)
  also have "\<dots> = fl_round s m e" by (rule fl_round_shift)
  finally show ?thesis
    using assms FFin fl_round_canonical [of s m e] by (simp add: fl_round_def)
qed (simp_all add: fl_one_def)

lemma signed_simps [simp]:
  "nat \<bar>signed s m\<bar> = m" "signed s m < 0 \<longleftrightarrow> s \<and> m \<noteq> 0" "signed s m = 0 \<longleftrightarrow> m = 0" "signed s 0 = 0"
  by (simp_all add: signed_def)

lemma fl_round_neg_zero: "m \<noteq> 0 \<Longrightarrow> fl_round (s \<and> m \<noteq> 0) m e = fl_round s m e"
  by simp

lemma fl_add_zero:
  assumes "fl_wf x"
  shows "fl_add x fl_zero = (case x of FFin s m e \<Rightarrow> if m = 0 then fl_zero else x | _ \<Rightarrow> x)"
proof (cases x)
  case (FFin s m e)
  show ?thesis
  proof (cases "m = 0")
    case True
    then show ?thesis by (simp add: FFin fl_zero_def)
  next
    case False
    have e: "-1074 \<le> e" using assms FFin by simp
    then have g: "min e (-1074) = -1074" by simp
    have "fl_add x fl_zero = fl_round s (m * 2 ^ nat (e + 1074)) (-1074)"
      using False by (simp add: FFin fl_zero_def g Let_def)
    also have "-1074 = e - int (nat (e + 1074))" using e by simp
    also have "fl_round s (m * 2 ^ nat (e + 1074)) \<dots> = fl_round s m e" by (rule fl_round_shift)
    also have "\<dots> = x" using assms FFin False fl_round_canonical [of s m e] by simp
    finally show ?thesis using FFin False by simp
  qed
qed (simp_all add: fl_zero_def)

lemma fl_scale_default:
  assumes "fl_wf x"
  shows "fl_add (fl_mult x fl_one) fl_zero = (if fl_is_zero x then fl_zero else x)"
proof -
  have wf0: "fl_wf (FFin s 0 (-1074))" for s by simp
  show ?thesis
    using assms fl_add_zero [OF assms] fl_add_zero [OF wf0]
    by (cases x) (auto simp: fl_mult_one fl_zero_def simp del: fl_add.simps)
qed

section \<open>Integers as floats\<close>

lemmas fl_eval = fl_of_int_def fl_round_def fl_exp_def fl_pack_def bit_length_pos fl_one_def
  fl_zero_def signed_def

lemma bit_length_le: "n < 2 ^ k \<Longrightarrow> bit_length n \<le> k"
proof (cases "n = 0")
  case False
  assume "n < 2 ^ k"
  moreover have "2 ^ (bit_length n - 1) \<le> n" using False bit_length_lower [of n] by simp
  ultimately have "(2::nat) ^ (bit_length n - 1) < 2 ^ k" by linarith
  then have "bit_length n - 1 < k" by (simp only: power_strict_increasing_iff one_less_numeral_iff semiring_norm)
  with False show ?thesis by (simp add: bit_length_pos [of n])
qed simp

lemma fl_of_int_exact:
  assumes "\<bar>i\<bar> < 2 ^ 53"
  obtains s m e where "fl_of_int i = Some (FFin s m e)" "fl_trunc s m e = i" "fl_wf (FFin s m e)" "m = 0 \<longleftrightarrow> i = 0"
proof -
  define n where "n = nat \<bar>i\<bar>"
  have n53: "n < 2 ^ 53" using assms by (simp add: n_def nat_less_iff)
  show ?thesis
  proof (cases "n = 0")
    case True
    then have "i = 0" by (simp add: n_def)
    then have "fl_of_int i = Some (FFin False 0 (-1074))" by (simp add: fl_of_int_def fl_round_def)
    with \<open>i = 0\<close> show ?thesis by (intro that [of False 0 "-1074"]) (simp_all add: fl_trunc_def)
  next
    case False
    define b where "b = bit_length n"
    have b: "1 \<le> b" "b \<le> 53" using False n53 bit_length_le [of n 53] by (simp_all add: b_def bit_length_pos [of n])
    have ex: "fl_exp n 0 = int b - 53" using b by (simp add: fl_exp_def b_def)
    have hi: "n * 2 ^ (53 - b) < 2 ^ 53"
    proof -
      have "n * 2 ^ (53 - b) < 2 ^ b * 2 ^ (53 - b)" using bit_length_upper [of n] by (simp add: b_def)
      also have "\<dots> = 2 ^ 53" using b by (simp flip: power_add)
      finally show ?thesis .
    qed
    have nt: "nat (53 - int b) = 53 - b" using b by linarith
    have rd: "fl_round (i < 0) n 0 = FFin (i < 0) (n * 2 ^ (53 - b)) (int b - 53)"
      using False hi b by (simp add: fl_round_def ex nt fl_pack_def Let_def)
    have "fl_of_int i = Some (FFin (i < 0) (n * 2 ^ (53 - b)) (int b - 53))"
      using rd by (simp add: fl_of_int_def n_def)
    moreover have "fl_trunc (i < 0) (n * 2 ^ (53 - b)) (int b - 53) = i"
    proof (cases "b = 53")
      case True
      then show ?thesis by (simp add: fl_trunc_def signed_def n_def)
    next
      case False
      with b have "\<not> 0 \<le> int b - 53" "nat (- (int b - 53)) = 53 - b" by linarith+
      then show ?thesis by (simp add: fl_trunc_def signed_def n_def)
    qed
    moreover have "fl_wf (FFin (i < 0) (n * 2 ^ (53 - b)) (int b - 53))"
      using fl_round_wf [of "i < 0" n 0] rd by simp
    ultimately show ?thesis using False by (intro that) (auto simp: n_def)
  qed
qed

end
