(* ===== verification/Py_Value.thy ===== *)
theory Py_Value
  imports Py_Str Py_Float
begin

text \<open>
  Dynamically typed values (what JSON documents, connection settings, tag values and payload
  dictionaries hold), the conversions \<open>bool\<close>, \<open>int\<close> and \<open>float\<close> on them, and aware
  \<open>datetime\<close> values with their differences and text forms.
\<close>

datatype pyval = VNone | VBool bool | VInt int | VFloat pyfloat | VStr string
  | VList "pyval list" | VDict "(string \<times> pyval) list"

type_synonym settings = "(string, pyval) pydict"

fun truthy :: "pyval \<Rightarrow> bool" where
  "truthy VNone = False"
| "truthy (VBool b) = b"
| "truthy (VInt i) = (i \<noteq> 0)"
| "truthy (VFloat x) = (\<not> fl_is_zero x)"
| "truthy (VStr s) = (s \<noteq> [])"
| "truthy (VList xs) = (xs \<noteq> [])"
| "truthy (VDict d) = (d \<noteq> [])"

text \<open>\<open>d.get(k, default)\<close> and \<open>x or default\<close>.\<close>

definition get_or :: "settings \<Rightarrow> string \<Rightarrow> pyval \<Rightarrow> pyval" where
  "get_or d k v = (case dget d k of None \<Rightarrow> v | Some w \<Rightarrow> w)"

definition item_get :: "settings \<Rightarrow> string \<Rightarrow> pyval" where
  "item_get d k = get_or d k VNone"

definition or_val :: "pyval \<Rightarrow> pyval \<Rightarrow> pyval" where
  "or_val a b = (if truthy a then a else b)"

definition opt_val :: "pyval option \<Rightarrow> pyval" where
  "opt_val v = (case v of None \<Rightarrow> VNone | Some w \<Rightarrow> w)"

definition str_val :: "string option \<Rightarrow> pyval" where
  "str_val v = (case v of None \<Rightarrow> VNone | Some s \<Rightarrow> VStr s)"

definition int_val :: "int option \<Rightarrow> pyval" where
  "int_val v = (case v of None \<Rightarrow> VNone | Some i \<Rightarrow> VInt i)"

fun type_name :: "pyval \<Rightarrow> string" where
  "type_name VNone = ''NoneType''"
| "type_name (VBool b) = ''bool''"
| "type_name (VInt i) = ''int''"
| "type_name (VFloat x) = ''float''"
| "type_name (VStr s) = ''str''"
| "type_name (VList xs) = ''list''"
| "type_name (VDict d) = ''dict''"

definition quoted :: "string \<Rightarrow> string" where
  "quoted s = [char_of (39 :: nat)] @ s @ [char_of (39 :: nat)]"

fun py_int :: "pyval \<Rightarrow> int res" where
  "py_int (VInt i) = Inr i"
| "py_int (VBool b) = Inr (if b then 1 else 0)"
| "py_int (VFloat FNan) = Inl (Raise ValueError ''cannot convert float NaN to integer'')"
| "py_int (VFloat (FInf s)) = Inl (Raise OverflowError ''cannot convert float infinity to integer'')"
| "py_int (VFloat (FFin s m e)) = Inr (fl_trunc s m e)"
| "py_int (VStr s) = (case parse_int s of Some i \<Rightarrow> Inr i
     | None \<Rightarrow> Inl (Raise ValueError (''invalid literal for int() with base 10: '' @ quoted s)))"
| "py_int v = Inl (Raise TypeError
     (''int() argument must be a string, a bytes-like object or a real number, not '' @ quoted (type_name v)))"

section \<open>Decimal literals\<close>

text \<open>
  \<open>float(s)\<close>: optional sign, then digits with at most one point and an optional exponent, or
  one of the words for infinity and NaN; underscores may stand between digits. The mantissa
  and exponent denote a rational that is rounded once.
\<close>

definition fl_decimal :: "bool \<Rightarrow> nat \<Rightarrow> int \<Rightarrow> pyfloat" where
  "fl_decimal s m x = (if 0 \<le> x then fl_round s (m * 10 ^ nat x) 0 else fl_ratio s m (10 ^ nat (- x)))"

definition digits_or_none :: "string \<Rightarrow> nat option" where
  "digits_or_none s = (if s = [] then Some 0 else parse_nat s)"

definition count_digits :: "string \<Rightarrow> nat" where
  "count_digits s = length (filter is_digit s)"

definition parse_exponent :: "string \<Rightarrow> int option" where
  "parse_exponent s = (case s of [] \<Rightarrow> Some 0
     | c # r \<Rightarrow> (case r of
          [] \<Rightarrow> None
        | d # t \<Rightarrow> if d = CHR ''-'' then map_option (\<lambda>n. - int n) (parse_nat t)
                 else if d = CHR ''+'' then map_option int (parse_nat t)
                 else map_option int (parse_nat r)))"

definition parse_unsigned_float :: "bool \<Rightarrow> string \<Rightarrow> pyfloat option" where
  "parse_unsigned_float neg s =
     (let l = py_lower s in
      if l = ''nan'' then Some FNan
      else if l = ''inf'' \<or> l = ''infinity'' then Some (FInf neg)
      else let mant = takeWhile (\<lambda>c. c \<noteq> CHR ''e'') l;
               rest = dropWhile (\<lambda>c. c \<noteq> CHR ''e'') l;
               whole = takeWhile (\<lambda>c. c \<noteq> CHR ''.'') mant;
               frac = drop 1 (dropWhile (\<lambda>c. c \<noteq> CHR ''.'') mant)
           in if count_digits (whole @ frac) = 0 then None
              else (case (digits_or_none whole, digits_or_none frac, parse_exponent rest) of
                  (Some a, Some b, Some x) \<Rightarrow>
                    Some (fl_decimal neg (a * 10 ^ count_digits frac + b) (x - int (count_digits frac)))
                | _ \<Rightarrow> None))"

definition parse_float :: "string \<Rightarrow> pyfloat option" where
  "parse_float s = (case py_strip s of
       [] \<Rightarrow> None
     | c # r \<Rightarrow> if c = CHR ''-'' then parse_unsigned_float True r
               else if c = CHR ''+'' then parse_unsigned_float False r
               else parse_unsigned_float False (c # r))"

definition int_to_float :: "int \<Rightarrow> pyfloat res" where
  "int_to_float i = (case fl_of_int i of Some x \<Rightarrow> Inr x
     | None \<Rightarrow> Inl (Raise OverflowError ''int too large to convert to float''))"

fun py_float :: "pyval \<Rightarrow> pyfloat res" where
  "py_float (VFloat x) = Inr x"
| "py_float (VInt i) = int_to_float i"
| "py_float (VBool b) = Inr (if b then fl_one else fl_zero)"
| "py_float (VStr s) = (case parse_float s of Some x \<Rightarrow> Inr x
     | None \<Rightarrow> Inl (Raise ValueError (''could not convert string to float: '' @ quoted s)))"
| "py_float v = Inl (Raise TypeError
     (''float() argument must be a string or a real number, not '' @ quoted (type_name v)))"

section \<open>Dates\<close>

text \<open>
  A \<open>datetime\<close> with its civil fields and its UTC offset in minutes (\<open>None\<close> for a naive one).
  Differences go through the proleptic Gregorian ordinal, as in the standard library.
\<close>

record datetime =
  dt_year :: nat
  dt_month :: nat
  dt_day :: nat
  dt_hour :: nat
  dt_minute :: nat
  dt_second :: nat
  dt_micro :: nat
  dt_tz :: "int option"

definition leap_year :: "nat \<Rightarrow> bool" where
  "leap_year y \<longleftrightarrow> y mod 4 = 0 \<and> (y mod 100 \<noteq> 0 \<or> y mod 400 = 0)"

definition days_before_month :: "nat \<Rightarrow> nat \<Rightarrow> nat" where
  "days_before_month y m =
     [0, 0, 31, 59, 90, 120, 151, 181, 212, 243, 273, 304, 334] ! m
       + (if 2 < m \<and> leap_year y then 1 else 0)"

definition ordinal :: "datetime \<Rightarrow> int" where
  "ordinal t = (let y = int (dt_year t) - 1 in
     365 * y + y div 4 - y div 100 + y div 400
       + int (days_before_month (dt_year t) (dt_month t)) + int (dt_day t))"

definition dt_micros :: "datetime \<Rightarrow> int" where
  "dt_micros t =
     (((ordinal t * 24 + int (dt_hour t)) * 60 + int (dt_minute t)
        - (case dt_tz t of None \<Rightarrow> 0 | Some z \<Rightarrow> z)) * 60 + int (dt_second t)) * 1000000
       + int (dt_micro t)"

text \<open>\<open>(a - b).total_seconds()\<close>.\<close>

definition seconds_between :: "datetime \<Rightarrow> datetime \<Rightarrow> pyfloat" where
  "seconds_between a b =
     (let d = dt_micros a - dt_micros b in fl_ratio (d < 0) (nat \<bar>d\<bar>) 1000000)"

definition date_part :: "datetime \<Rightarrow> string" where
  "date_part t = pad_nat 4 (dt_year t) @ ''-'' @ pad_nat 2 (dt_month t) @ ''-'' @ pad_nat 2 (dt_day t)"

definition clock_part :: "datetime \<Rightarrow> string" where
  "clock_part t = pad_nat 2 (dt_hour t) @ '':'' @ pad_nat 2 (dt_minute t) @ '':'' @ pad_nat 2 (dt_second t)"

definition millis_part :: "datetime \<Rightarrow> string" where
  "millis_part t = pad_nat 3 (dt_micro t div 1000)"

definition offset_part :: "string \<Rightarrow> datetime \<Rightarrow> string" where
  "offset_part sep t = (case dt_tz t of None \<Rightarrow> []
     | Some z \<Rightarrow> (if z < 0 then ''-'' else ''+'') @ pad_nat 2 (nat \<bar>z\<bar> div 60) @ sep @ pad_nat 2 (nat \<bar>z\<bar> mod 60))"

text \<open>\<open>isoformat()\<close>, and \<open>isoformat(timespec="milliseconds")\<close>.\<close>

definition isoformat :: "datetime \<Rightarrow> string" where
  "isoformat t = date_part t @ ''T'' @ clock_part t
     @ (if dt_micro t = 0 then [] else ''.'' @ pad_nat 6 (dt_micro t)) @ offset_part '':'' t"

definition isoformat_millis :: "datetime \<Rightarrow> string" where
  "isoformat_millis t = date_part t @ ''T'' @ clock_part t @ ''.'' @ millis_part t @ offset_part '':'' t"

definition assume_utc :: "datetime \<Rightarrow> datetime" where
  "assume_utc t = (if dt_tz t = None then t\<lparr>dt_tz := Some 0\<rparr> else t)"

lemma dt_micros_assume_utc [simp]: "dt_micros (assume_utc t) = dt_micros t"
  by (simp add: assume_utc_def dt_micros_def ordinal_def)

lemma get_or_simps [simp]:
  "get_or [] k v = v"
  "get_or ((k', w) # d) k v = (if k' = k then w else get_or d k v)"
  by (simp_all add: get_or_def)

end
