(* ===== verification/Models.thy ===== *)
theory Models
  imports Py_Value
begin

text \<open>
  \<^verbatim>\<open>src/industrial_gateway/models.py\<close>: the frozen dataclasses as records, the payload of a
  tag result, the batch message of a device, and tag validation. \<open>tag_ok\<close> is the abstract
  condition that validation decides; \<open>validate_tag_ok\<close> links the two.
\<close>

section \<open>Records\<close>

record device_spec =
  dev_id :: "int option"
  dev_name :: string
  dev_driver_type :: string
  dev_enabled :: bool
  dev_poll_interval_ms :: int
  dev_group :: string
  dev_connection :: settings

record tag_spec =
  tag_name :: string
  tag_address :: int
  tag_function :: string
  tag_data_type :: string
  tag_group :: string
  tag_id :: "int option"
  tag_device_id :: "int option"
  tag_scale :: pyfloat
  tag_offset :: pyfloat
  tag_enabled :: bool
  tag_unit_id :: "int option"
  tag_word_count :: "int option"
  tag_byte_order :: string
  tag_word_order :: string
  tag_node_id :: "string option"

record mqtt_config =
  mq_host :: string
  mq_port :: int
  mq_base_topic :: string
  mq_username :: "string option"
  mq_password :: "string option"
  mq_client_id :: string
  mq_qos :: int
  mq_enabled :: bool

record sink_config =
  sk_sink_type :: string
  sk_enabled :: bool
  sk_config :: settings

record output_route_config =
  rt_id :: "int option"
  rt_device_id :: "int option"
  rt_tag_group :: string
  rt_sink_type :: string
  rt_enabled :: bool
  rt_config :: settings

datatype quality = Good | Bad

record tag_result =
  res_name :: string
  res_address :: int
  res_value :: pyval
  res_quality :: quality
  res_error :: "string option"
  res_timestamp :: datetime
  res_node_id :: "string option"
  res_tag_group :: string

record read_result =
  rr_device :: device_spec
  rr_timestamp :: datetime
  rr_tags :: "tag_result list"
  rr_error :: "string option"

record batch_message =
  msg_topic :: string
  msg_payload :: settings
  msg_qos :: int
  msg_use_topic :: bool

text \<open>The defaults of the dataclass fields.\<close>

definition default_mqtt_config :: mqtt_config where
  "default_mqtt_config = \<lparr>mq_host = ''localhost'', mq_port = 1883, mq_base_topic = ''industrial'',
     mq_username = None, mq_password = None, mq_client_id = ''industrial-gateway'', mq_qos = 0,
     mq_enabled = True\<rparr>"

definition new_tag :: "string \<Rightarrow> int \<Rightarrow> string \<Rightarrow> string \<Rightarrow> tag_spec" where
  "new_tag name address fn dtype = \<lparr>tag_name = name, tag_address = address, tag_function = fn,
     tag_data_type = dtype, tag_group = '''', tag_id = None, tag_device_id = None,
     tag_scale = fl_one, tag_offset = fl_zero, tag_enabled = True, tag_unit_id = None,
     tag_word_count = None, tag_byte_order = ''big'', tag_word_order = ''big'', tag_node_id = None\<rparr>"

section \<open>Payloads and messages\<close>

fun quality_text :: "quality \<Rightarrow> string" where
  "quality_text Good = ''good''"
| "quality_text Bad = ''bad''"

definition iso :: "datetime \<Rightarrow> string" where
  "iso t = isoformat_millis (assume_utc t)"

definition topic_token :: "string \<Rightarrow> string" where
  "topic_token v = replace_char (CHR '' '') (CHR ''-'') (py_strip v)"

definition to_payload :: "tag_result \<Rightarrow> settings" where
  "to_payload r =
     [(''name'', VStr (res_name r)), (''address'', VInt (res_address r)), (''value'', res_value r),
      (''quality'', VStr (quality_text (res_quality r))), (''error'', str_val (res_error r)),
      (''timestamp'', VStr (iso (res_timestamp r)))]
     @ (case res_node_id r of None \<Rightarrow> [] | Some n \<Rightarrow> [(''node_id'', VStr n)])
     @ (if res_tag_group r = [] then [] else [(''tag_group'', VStr (res_tag_group r))])"

definition from_results :: "device_spec \<Rightarrow> tag_result list \<Rightarrow> datetime \<Rightarrow> mqtt_config \<Rightarrow> batch_message" where
  "from_results d tags ts mqtt = \<lparr>
     msg_topic = strip_slash (mq_base_topic mqtt) @ ''/'' @ topic_token (dev_name d) @ ''/data'',
     msg_payload =
       [(''device'', VDict [(''id'', int_val (dev_id d)), (''name'', VStr (dev_name d))]),
        (''timestamp'', VStr (iso ts)),
        (''tags'', VList (map (\<lambda>t. VDict (to_payload t)) tags))],
     msg_qos = mq_qos mqtt,
     msg_use_topic = False\<rparr>"

section \<open>Tag validation\<close>

definition value_error :: "string \<Rightarrow> 'a res" where
  "value_error m = Inl (Raise ValueError m)"

definition data_types :: "string list" where
  "data_types = [''auto'', ''bool'', ''int16'', ''uint16'', ''int32'', ''uint32'', ''float32'', ''float64'', ''string'']"

definition modbus_functions :: "string list" where
  "modbus_functions = [''holding_register'', ''input_register'', ''coil'', ''discrete_input'']"

definition count_ok :: "tag_spec \<Rightarrow> bool" where
  "count_ok t = (case tag_word_count t of None \<Rightarrow> tag_data_type t \<noteq> ''string'' | Some n \<Rightarrow> 1 \<le> n)"

definition validate_common :: "tag_spec \<Rightarrow> unit res" where
  "validate_common t =
     (if tag_data_type t \<notin> set data_types
      then value_error (''unsupported tag data type: '' @ tag_data_type t)
      else if fl_is_zero (tag_scale t) then value_error ''tag scale cannot be zero''
      else if tag_data_type t = ''string'' \<and> (case tag_word_count t of None \<Rightarrow> True | Some n \<Rightarrow> n < 1)
      then value_error ''string tag count must be at least 1''
      else if tag_data_type t \<noteq> ''string'' \<and> (case tag_word_count t of None \<Rightarrow> False | Some n \<Rightarrow> n < 1)
      then value_error ''tag count must be at least 1''
      else if tag_byte_order t \<notin> {''big'', ''little''}
      then value_error ''tag byte_order must be big or little''
      else if tag_word_order t \<notin> {''big'', ''little''}
      then value_error ''tag word_order must be big or little''
      else Inr ())"

definition validate_modbus_tag :: "tag_spec \<Rightarrow> unit res" where
  "validate_modbus_tag t =
     (if py_strip (tag_name t) = [] then value_error ''tag name is required''
      else if tag_address t < 0 then value_error ''tag address must be zero or greater''
      else if tag_function t \<notin> set modbus_functions
      then value_error (''unsupported Modbus function: '' @ tag_function t)
      else if (case tag_unit_id t of None \<Rightarrow> False | Some u \<Rightarrow> \<not> (1 \<le> u \<and> u \<le> 247))
      then value_error ''tag unit_id must be between 1 and 247''
      else validate_common t)"

definition blank_node :: "tag_spec \<Rightarrow> bool" where
  "blank_node t = (case tag_node_id t of None \<Rightarrow> True | Some n \<Rightarrow> n = [] \<or> py_strip n = [])"

definition validate_opcua_tag :: "tag_spec \<Rightarrow> unit res" where
  "validate_opcua_tag t =
     (if py_strip (tag_name t) = [] then value_error ''tag name is required''
      else if tag_function t \<noteq> ''opcua_node''
      then value_error (''unsupported OPC UA function: '' @ tag_function t)
      else if blank_node t then value_error ''OPC UA tag node_id is required''
      else validate_common t)"

definition validate_mqtt_tag :: "tag_spec \<Rightarrow> unit res" where
  "validate_mqtt_tag t =
     (if py_strip (tag_name t) = [] then value_error ''tag name is required''
      else if tag_function t \<noteq> ''json_field''
      then value_error (''unsupported MQTT function: '' @ tag_function t)
      else if blank_node t then value_error ''MQTT tag JSON field is required''
      else validate_common t)"

definition validate_tag :: "string \<Rightarrow> tag_spec \<Rightarrow> unit res" where
  "validate_tag driver_type t =
     (if driver_type = ''opcua'' then validate_opcua_tag t
      else if driver_type = ''mqtt'' then validate_mqtt_tag t
      else validate_modbus_tag t)"

text \<open>What validation promises: the conditions every accepted tag satisfies, per driver.\<close>

definition common_ok :: "tag_spec \<Rightarrow> bool" where
  "common_ok t \<longleftrightarrow> py_strip (tag_name t) \<noteq> [] \<and> tag_data_type t \<in> set data_types
     \<and> \<not> fl_is_zero (tag_scale t) \<and> count_ok t
     \<and> tag_byte_order t \<in> {''big'', ''little''} \<and> tag_word_order t \<in> {''big'', ''little''}"

definition tag_ok :: "string \<Rightarrow> tag_spec \<Rightarrow> bool" where
  "tag_ok dt t \<longleftrightarrow> common_ok t \<and>
     (if dt = ''opcua'' then tag_function t = ''opcua_node'' \<and> \<not> blank_node t
      else if dt = ''mqtt'' then tag_function t = ''json_field'' \<and> \<not> blank_node t
      else 0 \<le> tag_address t \<and> tag_function t \<in> set modbus_functions
        \<and> (\<forall>u. tag_unit_id t = Some u \<longrightarrow> 1 \<le> u \<and> u \<le> 247))"

lemma value_error_neq [simp]: "value_error m \<noteq> Inr x" "Inr x \<noteq> value_error m"
  by (simp_all add: value_error_def)

lemma validate_common_ok:
  "validate_common t = Inr () \<longleftrightarrow>
     tag_data_type t \<in> set data_types \<and> \<not> fl_is_zero (tag_scale t) \<and> count_ok t
     \<and> tag_byte_order t \<in> {''big'', ''little''} \<and> tag_word_order t \<in> {''big'', ''little''}"
  by (auto simp: validate_common_def count_ok_def split: option.splits)

lemma validate_tag_ok: "validate_tag dt t = Inr () \<longleftrightarrow> tag_ok dt t"
  by (auto simp: validate_tag_def validate_modbus_tag_def validate_opcua_tag_def validate_mqtt_tag_def
      tag_ok_def common_ok_def validate_common_ok split: option.splits)

lemma validate_tag_error_kind: "validate_tag dt t = Inl e \<Longrightarrow> err_kind e = ValueError"
  by (auto simp: validate_tag_def validate_modbus_tag_def validate_opcua_tag_def validate_mqtt_tag_def
      validate_common_def value_error_def split: if_splits)

lemma tag_ok_modbus_count: "tag_ok dt t \<Longrightarrow> tag_word_count t = Some n \<Longrightarrow> 1 \<le> n"
  by (simp add: tag_ok_def common_ok_def count_ok_def)

lemma to_payload_fields:
  "dget (to_payload r) ''name'' = Some (VStr (res_name r))"
  "dget (to_payload r) ''value'' = Some (res_value r)"
  "dget (to_payload r) ''quality'' = Some (VStr (quality_text (res_quality r)))"
  "dget (to_payload r) ''error'' = Some (str_val (res_error r))"
  "dget (to_payload r) ''address'' = Some (VInt (res_address r))"
  "dget (to_payload r) ''timestamp'' = Some (VStr (iso (res_timestamp r)))"
  by (simp_all add: to_payload_def)

text \<open>Sample values, used by the witnesses.\<close>

definition sample_device :: "settings \<Rightarrow> device_spec" where
  "sample_device conn = \<lparr>dev_id = Some 7, dev_name = ''boiler plc'', dev_driver_type = ''modbus_tcp'',
     dev_enabled = True, dev_poll_interval_ms = 1000, dev_group = '''', dev_connection = conn\<rparr>"

definition noon :: datetime where
  "noon = \<lparr>dt_year = 2026, dt_month = 5, dt_day = 16, dt_hour = 12, dt_minute = 0, dt_second = 0,
     dt_micro = 0, dt_tz = Some 0\<rparr>"

definition sample_reading :: "string \<Rightarrow> quality \<Rightarrow> tag_result" where
  "sample_reading name q = \<lparr>res_name = name, res_address = 0, res_value = VInt 1, res_quality = q,
     res_error = (if q = Good then None else Some ''timeout''), res_timestamp = noon, res_node_id = None,
     res_tag_group = []\<rparr>"

definition sample_result :: "tag_result list \<Rightarrow> read_result" where
  "sample_result tags = \<lparr>rr_device = sample_device [], rr_timestamp = noon, rr_tags = tags, rr_error = None\<rparr>"

end
