(* ===== verification/Modbus.thy ===== *)
theory Modbus
  imports Models
begin

unbundle bit_operations_syntax

text \<open>
  \<^verbatim>\<open>src/industrial_gateway/drivers/modbus.py\<close>: grouping tags into read blocks, one read per
  block, decoding registers and bits, scaling, and the result list in tag order.

  The pymodbus client is a parameter: \<open>client c method start count unit\<close> is its answer to one
  request in state \<open>c\<close>, and its next state. \<open>now\<close> is the clock reading of the poll.
\<close>

section \<open>Counts\<close>

definition value_count :: "tag_spec \<Rightarrow> int" where
  "value_count t = (case tag_word_count t of None \<Rightarrow> 1 | Some n \<Rightarrow> if n = 0 then 1 else n)"

definition words_per_value :: "tag_spec \<Rightarrow> int" where
  "words_per_value t =
     (if tag_data_type t = ''float64'' then 4
      else if tag_data_type t \<in> {''int32'', ''uint32'', ''float32''} then 2 else 1)"

definition register_count :: "tag_spec \<Rightarrow> int" where
  "register_count t =
     (if tag_data_type t = ''string'' then value_count t else words_per_value t * value_count t)"

definition item_count :: "tag_spec \<Rightarrow> int" where
  "item_count t = (if tag_function t \<in> {''coil'', ''discrete_input''} then value_count t else register_count t)"

section \<open>Planning\<close>

record rblock =
  blk_function :: string
  blk_unit :: int
  blk_start :: int
  blk_count :: int
  blk_tags :: "tag_spec list"

definition max_register_read :: int where "max_register_read = 125"

definition max_bit_read :: int where "max_bit_read = 2000"

definition default_max_counts :: "(string, int) pydict" where
  "default_max_counts = [(''holding_register'', max_register_read), (''input_register'', max_register_read),
     (''coil'', max_bit_read), (''discrete_input'', max_bit_read)]"

definition positive_int :: "pyval \<Rightarrow> int \<Rightarrow> int res" where
  "positive_int v d =
     (if v = VNone then Inr d
      else rbind (py_int v) (\<lambda>n. if n < 1 then value_error ''Modbus read limit must be at least 1'' else Inr n))"

definition max_counts_from_connection :: "settings \<Rightarrow> (string, int) pydict res" where
  "max_counts_from_connection conn =
     rbind (positive_int (get_or conn ''max_registers_per_read'' VNone) max_register_read) (\<lambda>r.
     rbind (positive_int (get_or conn ''max_bits_per_read'' VNone) max_bit_read) (\<lambda>b.
       let rl = min r max_register_read; bl = min b max_bit_read in
       Inr [(''holding_register'', rl), (''input_register'', rl), (''coil'', bl), (''discrete_input'', bl)]))"

type_synonym plan_state = "rblock list \<times> tag_spec list \<times> int \<times> int"

definition mk_block :: "string \<Rightarrow> int \<Rightarrow> tag_spec list \<Rightarrow> int \<Rightarrow> int \<Rightarrow> rblock" where
  "mk_block fn unit cur start en =
     \<lparr>blk_function = fn, blk_unit = unit, blk_start = start, blk_count = en - start, blk_tags = cur\<rparr>"

fun plan_step :: "string \<Rightarrow> int \<Rightarrow> int \<Rightarrow> int \<Rightarrow> tag_spec \<Rightarrow> plan_state \<Rightarrow> plan_state" where
  "plan_step fn unit gap maxc t (blocks, cur, start, en) =
     (let tag_end = tag_address t + item_count t in
      if cur = [] then (blocks, [t], tag_address t, tag_end)
      else let next_end = max en tag_end in
        if tag_address t \<le> en + gap \<and> next_end - start \<le> maxc
        then (blocks, cur @ [t], start, next_end)
        else (blocks @ [mk_block fn unit cur start en], [t], tag_address t, tag_end))"

fun plan_flush :: "string \<Rightarrow> int \<Rightarrow> plan_state \<Rightarrow> rblock list" where
  "plan_flush fn unit (blocks, cur, start, en) =
     (if cur \<noteq> [] then blocks @ [mk_block fn unit cur start en] else blocks)"

definition plan_group :: "string \<Rightarrow> int \<Rightarrow> int \<Rightarrow> int \<Rightarrow> tag_spec list \<Rightarrow> rblock list" where
  "plan_group fn unit gap maxc tags =
     plan_flush fn unit (fold (plan_step fn unit gap maxc) (sort_key tag_address tags) ([], [], 0, 0))"

definition unit_or :: "int option \<Rightarrow> int \<Rightarrow> int" where
  "unit_or u d = (case u of None \<Rightarrow> d | Some n \<Rightarrow> if n = 0 then d else n)"

definition group_key :: "int \<Rightarrow> tag_spec \<Rightarrow> string \<times> int" where
  "group_key d t = (tag_function t, unit_or (tag_unit_id t) d)"

definition plan_blocks ::
  "tag_spec list \<Rightarrow> int \<Rightarrow> int \<Rightarrow> (string, int) pydict option \<Rightarrow> rblock list res" where
  "plan_blocks tags default_unit gap counts =
     (let mc = (case counts of None \<Rightarrow> default_max_counts | Some c \<Rightarrow> if c = [] then default_max_counts else c)
      in map_sum id concat
          (rmap (\<lambda>((fn, unit), ts).
             case dget mc fn of None \<Rightarrow> Inl (Raise KeyError (quoted fn))
             | Some maxc \<Rightarrow> Inr (plan_group fn unit gap maxc ts))
           (group_by (group_key default_unit) tags)))"

section \<open>Decoding\<close>

fun registers_to_int_from :: "int \<Rightarrow> int list \<Rightarrow> int" where
  "registers_to_int_from raw [] = raw"
| "registers_to_int_from raw (r # rs) = registers_to_int_from (push_bit 16 raw OR (r AND 0xFFFF)) rs"

definition registers_to_int :: "int list \<Rightarrow> int" where
  "registers_to_int rs = registers_to_int_from 0 rs"

definition apply_word_order :: "int list \<Rightarrow> tag_spec \<Rightarrow> int list" where
  "apply_word_order rs t = (if tag_word_order t = ''little'' \<and> 1 < length rs then rev rs else rs)"

definition register_bytes :: "string \<Rightarrow> int \<Rightarrow> nat list" where
  "register_bytes order r =
     (let high = nat ((drop_bit 8 r) AND 0xFF); low = nat (r AND 0xFF) in
      if order = ''little'' then [low, high] else [high, low])"

text \<open>\<open>decode("ascii", errors="replace")\<close>: a byte above 127 becomes U+FFFD, three bytes of UTF-8.\<close>

definition ascii_char :: "nat \<Rightarrow> string" where
  "ascii_char b = (if b < 128 then [char_of b] else map char_of [0xEF :: nat, 0xBF, 0xBD])"

definition decode_string :: "int list \<Rightarrow> tag_spec \<Rightarrow> string" where
  "decode_string rs t =
     concat (map ascii_char (takeWhile (\<lambda>b. b \<noteq> 0) (concat (map (register_bytes (tag_byte_order t)) rs))))"

definition to_bytes_fits :: "nat \<Rightarrow> int \<Rightarrow> int res" where
  "to_bytes_fits n raw =
     (if raw < 2 ^ (8 * n) then Inr raw else Inl (Raise OverflowError ''int too big to convert''))"

definition decode_single :: "int list \<Rightarrow> tag_spec \<Rightarrow> pyval res" where
  "decode_single rs t =
     (if tag_data_type t = ''bool'' then rbind (py_index rs 0) (\<lambda>r. Inr (VBool (r \<noteq> 0)))
      else let ordered = apply_word_order rs t in
        if tag_data_type t = ''int16'' then
          rbind (py_index ordered 0) (\<lambda>v. Inr (VInt (if v AND 0x8000 \<noteq> 0 then v - 0x10000 else v)))
        else if tag_data_type t = ''uint16'' then rbind (py_index ordered 0) (\<lambda>v. Inr (VInt v))
        else if tag_data_type t = ''string'' then Inr (VStr (decode_string ordered t))
        else let raw = registers_to_int ordered in
          if tag_data_type t = ''int32'' then
            Inr (VInt (if raw AND 0x80000000 \<noteq> 0 then raw - 0x100000000 else raw))
          else if tag_data_type t = ''uint32'' then Inr (VInt raw)
          else if tag_data_type t = ''float32'' then
            rbind (to_bytes_fits 4 raw) (\<lambda>r. Inr (VFloat (float32_of_bits (nat r))))
          else if tag_data_type t = ''float64'' then
            rbind (to_bytes_fits 8 raw) (\<lambda>r. Inr (VFloat (float64_of_bits (nat r))))
          else value_error (''unsupported data type '' @ tag_data_type t))"

definition decode_registers :: "int list \<Rightarrow> tag_spec \<Rightarrow> pyval res" where
  "decode_registers rs t =
     (if int (length rs) < register_count t then value_error (''not enough registers for '' @ tag_name t)
      else if tag_data_type t \<noteq> ''string'' \<and> 1 < value_count t then
        let w = words_per_value t in
        map_sum id VList (rmap (\<lambda>i. decode_single (py_slice rs (i * w) (i * w + w)) t) [0..value_count t - 1])
      else decode_single rs t)"

fun apply_scale :: "pyval \<Rightarrow> pyfloat \<Rightarrow> pyfloat \<Rightarrow> pyval res"
  and apply_scale_list :: "pyval list \<Rightarrow> pyfloat \<Rightarrow> pyfloat \<Rightarrow> pyval list res" where
  "apply_scale (VBool b) sc off = Inr (VBool b)"
| "apply_scale (VInt i) sc off = rbind (int_to_float i) (\<lambda>x. Inr (VFloat (fl_add (fl_mult x sc) off)))"
| "apply_scale (VFloat x) sc off = Inr (VFloat (fl_add (fl_mult x sc) off))"
| "apply_scale (VList vs) sc off = map_sum id VList (apply_scale_list vs sc off)"
| "apply_scale v sc off = Inr v"
| "apply_scale_list [] sc off = Inr []"
| "apply_scale_list (v # vs) sc off =
     rbind (apply_scale v sc off) (\<lambda>w. rbind (apply_scale_list vs sc off) (\<lambda>ws. Inr (w # ws)))"

definition good_result :: "tag_spec \<Rightarrow> datetime \<Rightarrow> pyval \<Rightarrow> tag_result" where
  "good_result t now v = \<lparr>res_name = tag_name t, res_address = tag_address t, res_value = v,
     res_quality = Good, res_error = None, res_timestamp = now, res_node_id = None,
     res_tag_group = tag_group t\<rparr>"

definition bad :: "tag_spec \<Rightarrow> datetime \<Rightarrow> string \<Rightarrow> tag_result" where
  "bad t now e = \<lparr>res_name = tag_name t, res_address = tag_address t, res_value = VNone,
     res_quality = Bad, res_error = Some e, res_timestamp = now, res_node_id = None,
     res_tag_group = tag_group t\<rparr>"

text \<open>\<open>try: ... TagResult(good) except Exception as exc: _bad(str(exc))\<close>.\<close>

definition result_of :: "tag_spec \<Rightarrow> datetime \<Rightarrow> pyval res \<Rightarrow> tag_result" where
  "result_of t now r = (case r of Inl e \<Rightarrow> bad t now (err_text e) | Inr v \<Rightarrow> good_result t now v)"

definition register_value :: "int list \<Rightarrow> int \<Rightarrow> tag_spec \<Rightarrow> pyval res" where
  "register_value regs offset t =
     rbind (decode_registers (py_slice regs offset (offset + register_count t)) t)
       (\<lambda>v. apply_scale v (tag_scale t) (tag_offset t))"

definition bit_value :: "bool list \<Rightarrow> int \<Rightarrow> tag_spec \<Rightarrow> pyval res" where
  "bit_value bits offset t =
     (let n = value_count t; vs = py_slice bits offset (offset + n) in
      if int (length vs) < n then value_error (''not enough bits for '' @ tag_name t)
      else if n = 1 then rbind (py_index vs 0) (\<lambda>b. Inr (VBool b)) else Inr (VList (map VBool vs)))"

definition decode_register_block :: "int list \<Rightarrow> rblock \<Rightarrow> datetime \<Rightarrow> (string, tag_result) pydict" where
  "decode_register_block regs b now =
     fold (\<lambda>t d. dset (tag_name t) (result_of t now (register_value regs (tag_address t - blk_start b) t)) d)
       (blk_tags b) []"

definition decode_bit_block :: "bool list \<Rightarrow> rblock \<Rightarrow> datetime \<Rightarrow> (string, tag_result) pydict" where
  "decode_bit_block bits b now =
     fold (\<lambda>t d. dset (tag_name t) (result_of t now (bit_value bits (tag_address t - blk_start b) t)) d)
       (blk_tags b) []"

section \<open>Reading\<close>

record read_response =
  rsp_error :: "string option"
  rsp_registers :: "int list"
  rsp_bits :: "bool list"

datatype client_answer = Raised string | Answer read_response

type_synonym 'c client = "'c \<Rightarrow> string \<Rightarrow> int \<Rightarrow> int \<Rightarrow> int \<Rightarrow> client_answer \<times> 'c"

definition all_bad :: "rblock \<Rightarrow> datetime \<Rightarrow> (tag_spec \<Rightarrow> string) \<Rightarrow> (string, tag_result) pydict" where
  "all_bad b now e = fold (\<lambda>t d. dset (tag_name t) (bad t now (e t)) d) (blk_tags b) []"

definition read_block :: "'c client \<Rightarrow> datetime \<Rightarrow> 'c \<Rightarrow> rblock \<Rightarrow> (string, tag_result) pydict \<times> 'c" where
  "read_block client now c b =
     (if blk_function b \<in> set modbus_functions then
        (case client c (blk_function b) (blk_start b) (blk_count b) (blk_unit b) of
           (Raised e, c') \<Rightarrow> (all_bad b now (\<lambda>t. e), c')
         | (Answer r, c') \<Rightarrow>
             ((case rsp_error r of Some e \<Rightarrow> all_bad b now (\<lambda>t. e)
               | None \<Rightarrow>
                 if blk_function b \<in> {''holding_register'', ''input_register''}
                 then decode_register_block (rsp_registers r) b now
                 else decode_bit_block (rsp_bits r) b now), c'))
      else (all_bad b now (\<lambda>t. ''unsupported function '' @ tag_function t), c))"

fun read_blocks :: "'c client \<Rightarrow> datetime \<Rightarrow> 'c \<Rightarrow> (string, tag_result) pydict \<Rightarrow> rblock list
    \<Rightarrow> (string, tag_result) pydict \<times> 'c" where
  "read_blocks client now c d [] = (d, c)"
| "read_blocks client now c d (b # bs) =
     (let (r, c') = read_block client now c b in read_blocks client now c' (dupdate d r) bs)"

definition read_plan :: "device_spec \<Rightarrow> tag_spec list \<Rightarrow> rblock list res" where
  "read_plan dev tags =
     rbind (py_int (get_or (dev_connection dev) ''max_block_gap'' (VInt 4))) (\<lambda>gap.
     rbind (max_counts_from_connection (dev_connection dev)) (\<lambda>counts.
     rbind (py_int (get_or (dev_connection dev) ''unit_id'' (VInt 1))) (\<lambda>unit.
       plan_blocks tags unit gap (Some counts))))"

definition collect_results :: "(string, tag_result) pydict \<Rightarrow> datetime \<Rightarrow> tag_spec list \<Rightarrow> tag_result list" where
  "collect_results d now tags =
     map (\<lambda>t. case dget d (tag_name t) of Some r \<Rightarrow> r | None \<Rightarrow> bad t now ''tag was not read'') tags"

definition read_tags_grouped ::
  "'c client option \<Rightarrow> datetime \<Rightarrow> 'c \<Rightarrow> device_spec \<Rightarrow> tag_spec list \<Rightarrow> tag_result list res \<times> 'c" where
  "read_tags_grouped client now c dev tags =
     (case client of
        None \<Rightarrow> (Inr (map (\<lambda>t. bad t now ''Modbus client is not connected'') tags), c)
      | Some cl \<Rightarrow>
          (case read_plan dev tags of
             Inl e \<Rightarrow> (Inl e, c)
           | Inr blocks \<Rightarrow>
               (let (d, c') = read_blocks cl now c [] blocks in (Inr (collect_results d now tags), c'))))"

end
