(* ===== verification/Modbus_Plan.thy ===== *)
theory Modbus_Plan
  imports Modbus
begin

text \<open>
  What the block planner of \<^verbatim>\<open>drivers/modbus.py\<close> guarantees. The invariant \<open>plan_inv\<close> of its
  loop says that the blocks built so far and the current run, put together, are the tags
  processed so far, and that each of them is a \<open>good_run\<close>: it starts at its first tag, ends at
  the furthest tag end, holds every tag, stays within the read limit unless it is a single
  tag, and wastes at most the allowed gap per additional tag.
\<close>

definition tag_end :: "tag_spec \<Rightarrow> int" where
  "tag_end t = tag_address t + item_count t"

definition good_run :: "int \<Rightarrow> int \<Rightarrow> tag_spec list \<Rightarrow> int \<Rightarrow> int \<Rightarrow> bool" where
  "good_run gap maxc ts start en \<longleftrightarrow>
     ts \<noteq> [] \<and> start = tag_address (hd ts)
     \<and> (\<forall>t \<in> set ts. start \<le> tag_address t \<and> tag_end t \<le> en)
     \<and> (\<exists>t \<in> set ts. en = tag_end t)
     \<and> (en - start \<le> maxc \<or> length ts = 1)
     \<and> en - start \<le> sum_list (map item_count ts) + gap * (int (length ts) - 1)"

definition good_block :: "int \<Rightarrow> int \<Rightarrow> rblock \<Rightarrow> bool" where
  "good_block gap maxc b \<longleftrightarrow> good_run gap maxc (blk_tags b) (blk_start b) (blk_start b + blk_count b)"

fun plan_inv :: "string \<Rightarrow> int \<Rightarrow> int \<Rightarrow> int \<Rightarrow> tag_spec list \<Rightarrow> plan_state \<Rightarrow> bool" where
  "plan_inv fn unit gap maxc seen (blocks, cur, start, en) \<longleftrightarrow>
     concat (map blk_tags blocks) @ cur = seen
     \<and> (\<forall>b \<in> set blocks. blk_function b = fn \<and> blk_unit b = unit \<and> good_block gap maxc b)
     \<and> (cur = [] \<longrightarrow> seen = [])
     \<and> (cur \<noteq> [] \<longrightarrow> good_run gap maxc cur start en)"

lemma good_run_single: "good_run gap maxc [t] (tag_address t) (tag_end t)"
  by (simp add: good_run_def tag_end_def)

lemma good_run_extend:
  assumes run: "good_run gap maxc ts start en"
    and pos: "0 \<le> item_count t" and gap: "0 \<le> gap"
    and le: "start \<le> tag_address t" "tag_address t \<le> en + gap"
    and lim: "max en (tag_end t) - start \<le> maxc"
  shows "good_run gap maxc (ts @ [t]) start (max en (tag_end t))"
proof -
  from run have ne: "ts \<noteq> []" and hd: "start = tag_address (hd ts)"
    and mem: "\<forall>u \<in> set ts. start \<le> tag_address u \<and> tag_end u \<le> en"
    and ex: "\<exists>u \<in> set ts. en = tag_end u"
    and waste: "en - start \<le> sum_list (map item_count ts) + gap * (int (length ts) - 1)"
    by (auto simp: good_run_def)
  have "max en (tag_end t) - start \<le> sum_list (map item_count (ts @ [t])) + gap * (int (length (ts @ [t])) - 1)"
    using waste pos gap le(2) by (auto simp: tag_end_def algebra_simps max_def)
  with ne hd mem ex le lim show ?thesis
    by (auto simp: good_run_def hd_append max_def)
qed

lemma good_block_mk:
  "good_run gap maxc cur start en \<Longrightarrow> good_block gap maxc (mk_block fn unit cur start en)"
  by (simp add: good_block_def mk_block_def)

lemma plan_step_inv:
  assumes inv: "plan_inv fn unit gap maxc seen st"
    and pos: "0 \<le> item_count t" and gap: "0 \<le> gap"
    and ord: "\<forall>u \<in> set seen. tag_address u \<le> tag_address t"
  shows "plan_inv fn unit gap maxc (seen @ [t]) (plan_step fn unit gap maxc t st)"
proof -
  obtain blocks cur start en where st: "st = (blocks, cur, start, en)" by (cases st)
  show ?thesis
  proof (cases "cur = []")
    case True
    with inv st show ?thesis
      using good_run_single [of gap maxc t] by (auto simp: tag_end_def)
  next
    case False
    with inv st have run: "good_run gap maxc cur start en" by simp
    have "hd cur \<in> set seen" using False inv st by auto
    with ord run have le: "start \<le> tag_address t" by (auto simp: good_run_def)
    show ?thesis
      using inv st False good_run_extend [OF run pos gap le]
        good_run_single [of gap maxc t] good_block_mk [OF run]
      by (auto simp: Let_def tag_end_def mk_block_def)
  qed
qed

lemma plan_fold_inv:
  assumes "plan_inv fn unit gap maxc seen st"
    and "\<forall>t \<in> set ts. 0 \<le> item_count t" "0 \<le> gap"
    and "sorted (map tag_address (seen @ ts))"
  shows "plan_inv fn unit gap maxc (seen @ ts) (fold (plan_step fn unit gap maxc) ts st)"
  using assms
proof (induction ts arbitrary: seen st)
  case (Cons t ts)
  have "plan_inv fn unit gap maxc (seen @ [t]) (plan_step fn unit gap maxc t st)"
    using Cons.prems by (intro plan_step_inv) (auto simp: sorted_append)
  from Cons.IH [OF this] Cons.prems show ?case by simp
qed simp

lemma plan_group_spec:
  assumes "\<forall>t \<in> set ts. 0 \<le> item_count t" "0 \<le> gap"
  shows "concat (map blk_tags (plan_group fn unit gap maxc ts)) = sort_key tag_address ts"
    and "\<And>b. b \<in> set (plan_group fn unit gap maxc ts) \<Longrightarrow>
           blk_function b = fn \<and> blk_unit b = unit \<and> good_block gap maxc b"
proof -
  let ?st = "fold (plan_step fn unit gap maxc) (sort_key tag_address ts) ([], [], 0, 0)"
  obtain blocks cur start en where st: "?st = (blocks, cur, start, en)" by (cases ?st)
  have "plan_inv fn unit gap maxc ([] @ sort_key tag_address ts) ?st"
    using assms by (intro plan_fold_inv) auto
  then have inv: "plan_inv fn unit gap maxc (sort_key tag_address ts) (blocks, cur, start, en)"
    by (simp add: st)
  have pg: "plan_group fn unit gap maxc ts = plan_flush fn unit (blocks, cur, start, en)"
    by (simp add: plan_group_def st)
  show "concat (map blk_tags (plan_group fn unit gap maxc ts)) = sort_key tag_address ts"
    using inv by (auto simp: pg mk_block_def)
  show "\<And>b. b \<in> set (plan_group fn unit gap maxc ts) \<Longrightarrow>
           blk_function b = fn \<and> blk_unit b = unit \<and> good_block gap maxc b"
    using inv good_block_mk by (fastforce simp: pg mk_block_def split: if_splits)
qed

section \<open>The whole plan\<close>

definition positive_counts :: "tag_spec list \<Rightarrow> bool" where
  "positive_counts tags \<longleftrightarrow> list_all (\<lambda>t. 0 \<le> item_count t) tags"

lemma tag_ok_item_count: "tag_ok dt t \<Longrightarrow> 1 \<le> item_count t"
  using tag_ok_modbus_count [of dt t]
  by (cases "tag_word_count t")
    (auto simp: item_count_def register_count_def value_count_def words_per_value_def)

lemma plan_blocks_defined:
  assumes "\<forall>t \<in> set tags. dget mc (tag_function t) \<noteq> None" "mc \<noteq> []"
  shows "plan_blocks tags unit gap (Some mc) =
    Inr (concat (map (\<lambda>((fn, u), ts). plan_group fn u gap (the (dget mc fn)) ts) (group_by (group_key unit) tags)))"
proof -
  let ?f = "\<lambda>((fn, u), ts). case dget mc fn of None \<Rightarrow> Inl (Raise KeyError (quoted fn))
             | Some maxc \<Rightarrow> Inr (plan_group fn u gap maxc ts)"
  let ?g = "\<lambda>((fn, u), ts). plan_group fn u gap (the (dget mc fn)) ts"
  have "rmap ?f (group_by (group_key unit) tags) = Inr (map ?g (group_by (group_key unit) tags))"
  proof (rule rmap_Inr_map)
    fix x assume x: "x \<in> set (group_by (group_key unit) tags)"
    obtain fn u ts where xe: "x = ((fn, u), ts)" by (cases x) auto
    from group_by_member [OF x [unfolded xe]] obtain t where "t \<in> set ts" "group_key unit t = (fn, u)" "t \<in> set tags"
      by (metis list.set_intros(1) neq_Nil_conv)
    with assms(1) have "dget mc fn \<noteq> None" by (auto simp: group_key_def)
    with xe show "?f x = Inr (?g x)" by auto
  qed
  with assms(2) show ?thesis by (simp add: plan_blocks_def)
qed

lemma plan_blocks_members:
  assumes ok: "plan_blocks tags unit gap (Some mc) = Inr blocks"
    and defd: "\<forall>t \<in> set tags. dget mc (tag_function t) \<noteq> None" "mc \<noteq> []"
    and pos: "positive_counts tags" and gap: "0 \<le> gap"
    and b: "b \<in> set blocks"
  shows "\<exists>maxc. dget mc (blk_function b) = Some maxc \<and> good_block gap maxc b
    \<and> (\<forall>t \<in> set (blk_tags b). t \<in> set tags \<and> group_key unit t = (blk_function b, blk_unit b))"
proof -
  from ok plan_blocks_defined [OF defd] b obtain fn u ts where
    x: "((fn, u), ts) \<in> set (group_by (group_key unit) tags)"
    and bg: "b \<in> set (plan_group fn u gap (the (dget mc fn)) ts)" by auto
  note mem = group_by_member [OF x]
  have cnt: "\<forall>t \<in> set ts. 0 \<le> item_count t"
    using mem(3) pos by (auto simp: positive_counts_def list_all_iff)
  note spec = plan_group_spec [OF cnt gap]
  have "set (blk_tags b) \<subseteq> set (concat (map blk_tags (plan_group fn u gap (the (dget mc fn)) ts)))"
    using bg by auto
  then have sub: "set (blk_tags b) \<subseteq> set ts" by (simp only: spec(1) set_sort)
  from spec(2) [OF bg] have bf: "blk_function b = fn" "blk_unit b = u"
    and good: "good_block gap (the (dget mc fn)) b" by auto
  obtain t where "t \<in> set ts" using mem(2) by (cases ts) auto
  with mem(3) defd(1) have "dget mc fn \<noteq> None" by (force simp: group_key_def)
  moreover have "\<forall>t \<in> set (blk_tags b). t \<in> set tags \<and> group_key unit t = (fn, u)"
    using sub mem(3) by blast
  ultimately show ?thesis using good bf by auto
qed

lemma plan_blocks_mset:
  assumes ok: "plan_blocks tags unit gap (Some mc) = Inr blocks"
    and defd: "\<forall>t \<in> set tags. dget mc (tag_function t) \<noteq> None" "mc \<noteq> []"
    and pos: "positive_counts tags" and gap: "0 \<le> gap"
  shows "mset (concat (map blk_tags blocks)) = mset tags"
proof -
  let ?g = "\<lambda>((fn, u), ts). plan_group fn u gap (the (dget mc fn)) ts"
  let ?G = "group_by (group_key unit) tags"
  have each: "mset (concat (map blk_tags (?g x))) = mset (snd x)" if "x \<in> set ?G" for x
  proof -
    obtain fn u ts where xe: "x = ((fn, u), ts)" by (cases x) auto
    have "\<forall>t \<in> set ts. 0 \<le> item_count t"
      using group_by_member(3) [OF that [unfolded xe]] pos by (auto simp: positive_counts_def list_all_iff)
    from plan_group_spec(1) [OF this gap] show ?thesis by (simp add: xe)
  qed
  have "mset (concat (map blk_tags (concat (map ?g xs)))) = mset (concat (map snd xs))"
    if "set xs \<subseteq> set ?G" for xs
    using that by (induction xs) (auto simp: each)
  then have "mset (concat (map blk_tags (concat (map ?g ?G)))) = mset (concat (map snd ?G))" by simp
  with ok plan_blocks_defined [OF defd] show ?thesis by (simp add: mset_group_by)
qed

lemma default_counts_cover:
  "t_fn \<in> set modbus_functions \<Longrightarrow> dget default_max_counts t_fn \<noteq> None"
  by (auto simp: modbus_functions_def default_max_counts_def)

text \<open>The protocol's limit for one request: 2000 bits or 125 registers.\<close>

definition read_limit :: "string \<Rightarrow> int" where
  "read_limit fn = (if fn \<in> {''coil'', ''discrete_input''} then max_bit_read else max_register_read)"

lemma connection_counts:
  assumes "max_counts_from_connection conn = Inr mc"
  shows "mc \<noteq> []"
    and "\<And>fn. fn \<in> set modbus_functions \<Longrightarrow> dget mc fn \<noteq> None"
    and "\<And>fn n. dget mc fn = Some n \<Longrightarrow>
           1 \<le> n \<and> n \<le> read_limit fn"
proof -
  from assms obtain r b where rb:
    "positive_int (get_or conn ''max_registers_per_read'' VNone) max_register_read = Inr r"
    "positive_int (get_or conn ''max_bits_per_read'' VNone) max_bit_read = Inr b"
    and mc: "mc = [(''holding_register'', min r max_register_read), (''input_register'', min r max_register_read),
      (''coil'', min b max_bit_read), (''discrete_input'', min b max_bit_read)]"
    by (auto simp: max_counts_from_connection_def rbind_Inr_iff Let_def)
  have pi: "1 \<le> n" if "positive_int v d = Inr n" "1 \<le> d" for v d n
    using that by (auto simp: positive_int_def rbind_Inr_iff split: if_splits)
  have "1 \<le> r" "1 \<le> b"
    using pi [OF rb(1)] pi [OF rb(2)] by (simp_all add: max_register_read_def max_bit_read_def)
  then have lim: "1 \<le> min r max_register_read" "1 \<le> min b max_bit_read"
    by (simp_all add: max_register_read_def max_bit_read_def)
  show "mc \<noteq> []" by (simp add: mc)
  show "\<And>fn. fn \<in> set modbus_functions \<Longrightarrow> dget mc fn \<noteq> None"
    by (auto simp: mc modbus_functions_def)
  fix fn n
  assume "dget mc fn = Some n"
  then consider "fn = ''holding_register''" "n = min r max_register_read"
    | "fn = ''input_register''" "n = min r max_register_read"
    | "fn = ''coil''" "n = min b max_bit_read"
    | "fn = ''discrete_input''" "n = min b max_bit_read"
    unfolding mc dget_Cons dget_Nil by (auto split: if_split_asm)
  then show "1 \<le> n \<and> n \<le> read_limit fn"
    using lim by cases (simp_all add: read_limit_def)
qed

section \<open>Properties\<close>

definition modbus_tags_ok :: "tag_spec list \<Rightarrow> bool" where
  "modbus_tags_ok tags \<longleftrightarrow> list_all (\<lambda>t. validate_modbus_tag t = Inr ()) tags"

lemma modbus_tags_ok_iff: "modbus_tags_ok tags \<longleftrightarrow> (\<forall>t \<in> set tags. tag_ok ''modbus_tcp'' t)"
proof -
  have "validate_modbus_tag t = Inr () \<longleftrightarrow> tag_ok ''modbus_tcp'' t" for t
    using validate_tag_ok [of "''modbus_tcp''" t] by (simp add: validate_tag_def)
  then show ?thesis by (simp add: modbus_tags_ok_def list_all_iff)
qed

lemma modbus_tags_ok_positive: "modbus_tags_ok tags \<Longrightarrow> positive_counts tags"
  using tag_ok_item_count [of "''modbus_tcp''"]
  by (fastforce simp: modbus_tags_ok_iff positive_counts_def list_all_iff)

lemma modbus_tags_ok_function: "modbus_tags_ok tags \<Longrightarrow> t \<in> set tags \<Longrightarrow> tag_function t \<in> set modbus_functions"
  by (auto simp: modbus_tags_ok_iff tag_ok_def)

lemma read_plan_blocks:
  assumes ok: "read_plan dev tags = Inr blocks" and tags: "modbus_tags_ok tags"
    and gap: "py_int (get_or (dev_connection dev) ''max_block_gap'' (VInt 4)) = Inr gap" "0 \<le> gap"
    and unit: "py_int (get_or (dev_connection dev) ''unit_id'' (VInt 1)) = Inr unit"
  shows "mset (concat (map blk_tags blocks)) = mset tags"
    and "\<And>b. b \<in> set blocks \<Longrightarrow> \<exists>maxc. 1 \<le> maxc
           \<and> maxc \<le> read_limit (blk_function b)
           \<and> good_block gap maxc b
           \<and> (\<forall>t \<in> set (blk_tags b). t \<in> set tags \<and> group_key unit t = (blk_function b, blk_unit b))"
proof -
  from ok gap(1) unit obtain mc where
    mc: "max_counts_from_connection (dev_connection dev) = Inr mc"
    and pb: "plan_blocks tags unit gap (Some mc) = Inr blocks"
    by (auto simp: read_plan_def rbind_Inr_iff)
  note cc = connection_counts [OF mc]
  have defd: "\<forall>t \<in> set tags. dget mc (tag_function t) \<noteq> None"
    using cc(2) modbus_tags_ok_function [OF tags] by auto
  note pos = modbus_tags_ok_positive [OF tags]
  show "mset (concat (map blk_tags blocks)) = mset tags"
    by (rule plan_blocks_mset [OF pb defd cc(1) pos gap(2)])
  fix b assume "b \<in> set blocks"
  from plan_blocks_members [OF pb defd cc(1) pos gap(2) this] obtain maxc where
    d: "dget mc (blk_function b) = Some maxc" and g: "good_block gap maxc b"
    and m: "\<forall>t \<in> set (blk_tags b). t \<in> set tags \<and> group_key unit t = (blk_function b, blk_unit b)"
    by blast
  with cc(3) [OF d] show "\<exists>maxc. 1 \<le> maxc \<and> maxc \<le> read_limit (blk_function b)
           \<and> good_block gap maxc b
           \<and> (\<forall>t \<in> set (blk_tags b). t \<in> set tags \<and> group_key unit t = (blk_function b, blk_unit b))"
    by (intro exI [of _ maxc]) simp
qed

text \<open>C6: The planner partitions the tags.  For validated tags, the blocks of a read plan together
  hold every tag exactly once, and every tag sits in a block of its own function and unit whose
  address range contains all the registers or bits the tag needs.\<close>

theorem read_plan_covers_tags:
  assumes "read_plan dev tags = Inr blocks" and "modbus_tags_ok tags"
    and "py_int (get_or (dev_connection dev) ''max_block_gap'' (VInt 4)) = Inr gap" and "0 \<le> gap"
    and "py_int (get_or (dev_connection dev) ''unit_id'' (VInt 1)) = Inr unit"
  shows "mset (concat (map blk_tags blocks)) = mset tags \<and>
    list_all (\<lambda>b. list_all (\<lambda>t. blk_function b = tag_function t \<and> blk_unit b = unit_or (tag_unit_id t) unit
        \<and> blk_start b \<le> tag_address t \<and> tag_end t \<le> blk_start b + blk_count b) (blk_tags b)) blocks"
proof -
  note blk = read_plan_blocks [OF assms]
  have "list_all (\<lambda>t. blk_function b = tag_function t \<and> blk_unit b = unit_or (tag_unit_id t) unit
        \<and> blk_start b \<le> tag_address t \<and> tag_end t \<le> blk_start b + blk_count b) (blk_tags b)"
    if "b \<in> set blocks" for b
    using blk(2) [OF that] by (auto simp: list_all_iff group_key_def good_block_def good_run_def)
  with blk(1) show ?thesis by (simp add: list_all_iff)
qed

definition sample_tags :: "tag_spec list" where
  "sample_tags = [new_tag ''pressure'' 8 ''holding_register'' ''uint16'',
     new_tag ''temperature'' 0 ''holding_register'' ''float32'', new_tag ''pump'' 3 ''coil'' ''bool'']"

definition sample_plan :: "rblock list" where
  "sample_plan =
     [mk_block ''holding_register'' 1 [new_tag ''temperature'' 0 ''holding_register'' ''float32''] 0 2,
      mk_block ''holding_register'' 1 [new_tag ''pressure'' 8 ''holding_register'' ''uint16''] 8 9,
      mk_block ''coil'' 1 [new_tag ''pump'' 3 ''coil'' ''bool''] 3 4]"

lemmas plan_eval = read_plan_def max_counts_from_connection_def positive_int_def Let_def
  max_register_read_def max_bit_read_def plan_blocks_def group_by_def group_add_def group_key_def
  unit_or_def new_tag_def plan_group_def mk_block_def item_count_def register_count_def
  value_count_def words_per_value_def sample_device_def

lemmas tag_eval = modbus_tags_ok_def validate_modbus_tag_def validate_common_def new_tag_def
  modbus_functions_def data_types_def fl_one_def str_simps

lemma sample_plan_eq: "read_plan (sample_device []) sample_tags = Inr sample_plan"
  by (simp add: sample_tags_def sample_plan_def plan_eval)

lemma sample_tags_ok: "modbus_tags_ok sample_tags"
  by (simp add: sample_tags_def tag_eval)

lemma sample_settings:
  "py_int (get_or (dev_connection (sample_device [])) ''max_block_gap'' (VInt 4)) = Inr 4"
  "py_int (get_or (dev_connection (sample_device [])) ''unit_id'' (VInt 1)) = Inr 1"
  by (simp_all add: sample_device_def)

theorem read_plan_covers_tags_witness:
  "mset (concat (map blk_tags sample_plan)) = mset sample_tags \<and>
    list_all (\<lambda>b. list_all (\<lambda>t. blk_function b = tag_function t \<and> blk_unit b = unit_or (tag_unit_id t) 1
        \<and> blk_start b \<le> tag_address t \<and> tag_end t \<le> blk_start b + blk_count b) (blk_tags b)) sample_plan"
  by (rule read_plan_covers_tags [OF sample_plan_eq sample_tags_ok sample_settings(1) _ sample_settings(2)]) simp

text \<open>C27: Every request of a plan starts at an address that is not negative, asks for at least one
  item, wastes at most the permitted gap per tag after the first, and stays within the protocol's
  limit for its function (125 registers, 2000 bits) unless it serves a single tag that is larger
  than the limit by itself.\<close>

theorem read_plan_requests_bounded:
  assumes "read_plan dev tags = Inr blocks" and "modbus_tags_ok tags"
    and "py_int (get_or (dev_connection dev) ''max_block_gap'' (VInt 4)) = Inr gap" and "0 \<le> gap"
    and "py_int (get_or (dev_connection dev) ''unit_id'' (VInt 1)) = Inr unit"
  shows "list_all (\<lambda>b. 0 \<le> blk_start b \<and> 1 \<le> blk_count b
      \<and> blk_count b \<le> sum_list (map item_count (blk_tags b)) + gap * (int (length (blk_tags b)) - 1)
      \<and> (blk_count b \<le> read_limit (blk_function b)
         \<or> (\<exists>t. blk_tags b = [t] \<and> blk_count b = item_count t))) blocks"
proof -
  note blk = read_plan_blocks [OF assms]
  have "0 \<le> blk_start b \<and> 1 \<le> blk_count b
      \<and> blk_count b \<le> sum_list (map item_count (blk_tags b)) + gap * (int (length (blk_tags b)) - 1)
      \<and> (blk_count b \<le> read_limit (blk_function b)
         \<or> (\<exists>t. blk_tags b = [t] \<and> blk_count b = item_count t))"
    if b: "b \<in> set blocks" for b
  proof -
    from blk(2) [OF b] obtain maxc where lim: "maxc \<le> read_limit (blk_function b)"
      and run: "good_run gap maxc (blk_tags b) (blk_start b) (blk_start b + blk_count b)"
      and mem: "\<And>t. t \<in> set (blk_tags b) \<Longrightarrow> t \<in> set tags"
      by (auto simp: good_block_def)
    from run have hd: "hd (blk_tags b) \<in> set (blk_tags b)" and st: "blk_start b = tag_address (hd (blk_tags b))"
      and fits: "tag_end (hd (blk_tags b)) \<le> blk_start b + blk_count b"
      by (auto simp: good_run_def)
    from mem [OF hd] assms(2) have ok: "tag_ok ''modbus_tcp'' (hd (blk_tags b))"
      by (simp add: modbus_tags_ok_iff)
    have single: "\<exists>t. blk_tags b = [t] \<and> blk_count b = item_count t" if "length (blk_tags b) = 1"
      using run that by (cases "blk_tags b") (auto simp: good_run_def tag_end_def)
    from ok have "0 \<le> tag_address (hd (blk_tags b))" by (simp add: tag_ok_def)
    with run lim single st fits tag_ok_item_count [OF ok] show ?thesis
      by (auto simp: good_run_def tag_end_def)
  qed
  then show ?thesis by (simp add: list_all_iff)
qed

theorem read_plan_requests_bounded_witness:
  "list_all (\<lambda>b. 0 \<le> blk_start b \<and> 1 \<le> blk_count b
      \<and> blk_count b \<le> sum_list (map item_count (blk_tags b)) + 4 * (int (length (blk_tags b)) - 1)
      \<and> (blk_count b \<le> read_limit (blk_function b)
         \<or> (\<exists>t. blk_tags b = [t] \<and> blk_count b = item_count t))) sample_plan"
  by (rule read_plan_requests_bounded [OF sample_plan_eq sample_tags_ok sample_settings(1) _ sample_settings(2)]) simp

text \<open>The cap is not absolute: one long string tag is requested whole.\<close>

lemma oversized_tag_exceeds_cap:
  "read_plan (sample_device [])
     [(new_tag ''log'' 10 ''holding_register'' ''string'')\<lparr>tag_word_count := Some 200\<rparr>] =
   Inr [mk_block ''holding_register'' 1
     [(new_tag ''log'' 10 ''holding_register'' ''string'')\<lparr>tag_word_count := Some 200\<rparr>] 10 210]"
  by (simp add: plan_eval)

end
