(* ===== verification/Modbus_Read.thy ===== *)
theory Modbus_Read
  imports Modbus_Plan
begin

unbundle bit_operations_syntax

text \<open>
  What a grouped Modbus read returns. The device is a data table: \<open>regs fn unit a\<close> is the
  register, \<open>bits fn unit a\<close> the bit at address \<open>a\<close>. \<open>coherent\<close> is what pymodbus documents of its
  client: a request the protocol allows is answered, a register read with exactly the registers
  asked for, a bit read with \<open>.bits\<close> that begin with the bits asked for and go on to the end of the
  last byte. Nothing is said of other requests, nor of the list the other kind of read fills.
  \<open>read_alone\<close> is the reference: the value of a tag read by itself. The grouped read is proved equal
  to reading every tag alone.

  The second half is the decoding of registers as machine integers and as text.
\<close>

section \<open>Slices of the data table\<close>

type_synonym 'a table = "string \<Rightarrow> int \<Rightarrow> int \<Rightarrow> 'a"

definition table_slice :: "'a table \<Rightarrow> string \<Rightarrow> int \<Rightarrow> int \<Rightarrow> int \<Rightarrow> 'a list" where
  "table_slice tab fn unit start len = map (tab fn unit) [start..start + len - 1]"

definition bit_function :: "string \<Rightarrow> bool" where
  "bit_function fn \<longleftrightarrow> fn = ''coil'' \<or> fn = ''discrete_input''"

definition legal_request :: "string \<Rightarrow> int \<Rightarrow> int \<Rightarrow> int \<Rightarrow> bool" where
  "legal_request fn start len unit \<longleftrightarrow>
     fn \<in> {''coil'', ''discrete_input'', ''holding_register'', ''input_register''}
     \<and> 0 \<le> start \<and> 1 \<le> len \<and> start + len \<le> 65536 \<and> len \<le> (if bit_function fn then 2000 else 125)
     \<and> 0 \<le> unit \<and> unit \<le> 255"

definition answers_slice :: "int table \<Rightarrow> bool table \<Rightarrow> string \<Rightarrow> int \<Rightarrow> int \<Rightarrow> int \<Rightarrow> client_answer \<Rightarrow> bool" where
  "answers_slice regs bits fn start len unit ans \<longleftrightarrow>
     (\<exists>rsp. ans = Answer rsp \<and> rsp_error rsp = None \<and>
        (if bit_function fn then \<exists>padding. rsp_bits rsp = table_slice bits fn unit start len @ padding
         else rsp_registers rsp = table_slice regs fn unit start len))"

definition coherent :: "'c client \<Rightarrow> int table \<Rightarrow> bool table \<Rightarrow> bool" where
  "coherent client regs bits \<longleftrightarrow> (\<forall>c fn start len unit. legal_request fn start len unit \<longrightarrow>
     answers_slice regs bits fn start len unit (fst (client c fn start len unit)))"

text \<open>The tags a request can serve at all: inside the address space, and each within the limit of
  one request.\<close>

definition tags_requestable :: "tag_spec list \<Rightarrow> bool" where
  "tags_requestable tags \<longleftrightarrow> list_all (\<lambda>t. tag_address t + item_count t \<le> 65536
     \<and> item_count t \<le> (if bit_function (tag_function t) then 2000 else 125)) tags"

lemma length_table_slice [simp]: "length (table_slice tab fn unit a n) = nat n"
  by (simp add: table_slice_def)

lemma py_slice_padded:
  assumes "0 \<le> i" "i \<le> j" "j \<le> int (length xs)"
  shows "py_slice (xs @ ys) i j = py_slice xs i j"
  using assms by (simp add: py_slice_nat)

lemma py_slice_table:
  assumes "0 \<le> i" "0 \<le> n" "i + n \<le> c"
  shows "py_slice (table_slice tab fn unit a c) i (i + n) = table_slice tab fn unit (a + i) n"
proof -
  have nth: "[a..a + c - 1] ! k = a + int k" if "k < nat c" for k
    using that by (simp add: nth_upto)
  have "py_slice (table_slice tab fn unit a c) i (i + n)
      = take (nat n) (drop (nat i) (table_slice tab fn unit a c))"
    using assms by (subst py_slice_nat) auto
  also have "\<dots> = table_slice tab fn unit (a + i) n"
    using assms by (intro nth_equalityI) (auto simp: table_slice_def nth_upto add.assoc)
  finally show ?thesis .
qed

section \<open>Reading a tag alone\<close>

definition tag_value :: "int table \<Rightarrow> bool table \<Rightarrow> int \<Rightarrow> tag_spec \<Rightarrow> pyval res" where
  "tag_value regs bits unit t =
     (let fn = tag_function t; u = unit_or (tag_unit_id t) unit; n = item_count t in
      if fn \<in> {''coil'', ''discrete_input''}
      then bit_value (table_slice bits fn u (tag_address t) n) 0 t
      else register_value (table_slice regs fn u (tag_address t) n) 0 t)"

definition read_alone :: "int table \<Rightarrow> bool table \<Rightarrow> int \<Rightarrow> datetime \<Rightarrow> tag_spec \<Rightarrow> tag_result" where
  "read_alone regs bits unit now t = result_of t now (tag_value regs bits unit t)"

lemma register_value_slice:
  assumes "a \<le> tag_address t" "tag_address t + register_count t \<le> a + c" "0 \<le> register_count t"
  shows "register_value (table_slice tab fn u a c) (tag_address t - a) t =
    register_value (table_slice tab fn u (tag_address t) (register_count t)) 0 t"
  using assms py_slice_table [of "tag_address t - a" "register_count t" c tab fn u a]
    py_slice_table [of 0 "register_count t" "register_count t" tab fn u "tag_address t"]
  by (simp add: register_value_def)

lemma bit_value_slice:
  assumes "a \<le> tag_address t" "tag_address t + value_count t \<le> a + c" "0 \<le> value_count t"
  shows "bit_value (table_slice tab fn u a c) (tag_address t - a) t =
    bit_value (table_slice tab fn u (tag_address t) (value_count t)) 0 t"
  using assms py_slice_table [of "tag_address t - a" "value_count t" c tab fn u a]
    py_slice_table [of 0 "value_count t" "value_count t" tab fn u "tag_address t"]
  by (simp add: bit_value_def)

lemma bit_value_padded:
  assumes "a \<le> tag_address t" "tag_address t + value_count t \<le> a + c" "0 \<le> value_count t"
  shows "bit_value (table_slice tab fn u a c @ padding) (tag_address t - a) t =
    bit_value (table_slice tab fn u (tag_address t) (value_count t)) 0 t"
  using assms bit_value_slice [OF assms, of tab fn u]
    py_slice_padded [of "tag_address t - a" "tag_address t - a + value_count t" "table_slice tab fn u a c" padding]
  by (simp add: bit_value_def)

text \<open>The dictionaries a block fills: one entry per tag, under its name.\<close>

lemma name_fold_sets:
  "set (fold (\<lambda>t d. dset (tag_name t) (f t) d) ts d) \<subseteq> set d \<union> (\<lambda>t. (tag_name t, f t)) ` set ts"
  "fst ` set (fold (\<lambda>t d. dset (tag_name t) (f t) d) ts d) = fst ` set d \<union> tag_name ` set ts"
proof (induction ts arbitrary: d)
  case (Cons t ts)
  { case 1 show ?case using Cons(1) [of "dset (tag_name t) (f t) d"] set_dset_subset [of "tag_name t" "f t" d] by auto }
  { case 2 show ?case using Cons(2) [of "dset (tag_name t) (f t) d"] by auto }
qed simp_all

lemma read_block_names:
  "fst ` set (fst (read_block client now c b)) = tag_name ` set (blk_tags b)"
  by (auto simp: read_block_def all_bad_def decode_register_block_def decode_bit_block_def
      name_fold_sets(2) split: prod.splits client_answer.splits option.splits)

definition block_serves :: "int \<Rightarrow> rblock \<Rightarrow> bool" where
  "block_serves unit b \<longleftrightarrow> blk_function b \<in> set modbus_functions
     \<and> legal_request (blk_function b) (blk_start b) (blk_count b) (blk_unit b) \<and>
     (\<forall>t \<in> set (blk_tags b). blk_function b = tag_function t \<and> blk_unit b = unit_or (tag_unit_id t) unit
        \<and> blk_start b \<le> tag_address t \<and> tag_end t \<le> blk_start b + blk_count b \<and> 0 \<le> item_count t)"

lemma read_block_entries:
  assumes coh: "coherent client regs bits" and srv: "block_serves unit b"
  shows "set (fst (read_block client now c b)) \<subseteq>
    (\<lambda>t. (tag_name t, read_alone regs bits unit now t)) ` set (blk_tags b)"
proof -
  from coh srv have "answers_slice regs bits (blk_function b) (blk_start b) (blk_count b) (blk_unit b)
      (fst (client c (blk_function b) (blk_start b) (blk_count b) (blk_unit b)))"
    unfolding coherent_def block_serves_def by blast
  then obtain rsp c' padding where ans: "client c (blk_function b) (blk_start b) (blk_count b) (blk_unit b) = (Answer rsp, c')"
      "rsp_error rsp = None"
    and slice: "if bit_function (blk_function b)
      then rsp_bits rsp = table_slice bits (blk_function b) (blk_unit b) (blk_start b) (blk_count b) @ padding
      else rsp_registers rsp = table_slice regs (blk_function b) (blk_unit b) (blk_start b) (blk_count b)"
    unfolding answers_slice_def by (metis prod.collapse)
  note defs = read_alone_def tag_value_def Let_def tag_end_def item_count_def
  show ?thesis
  proof (cases "blk_function b \<in> {''coil'', ''discrete_input''}")
    case True
    have eq: "result_of t now (bit_value (rsp_bits rsp) (tag_address t - blk_start b) t) = read_alone regs bits unit now t"
      if "t \<in> set (blk_tags b)" for t
      using srv that True slice by (simp add: bit_function_def, subst bit_value_padded) (auto simp: block_serves_def defs)
    have rb: "fst (read_block client now c b) = decode_bit_block (rsp_bits rsp) b now"
      using srv True ans by (auto simp: read_block_def block_serves_def)
    show ?thesis
      using name_fold_sets(1) [of "\<lambda>t. result_of t now (bit_value (rsp_bits rsp) (tag_address t - blk_start b) t)"
        "blk_tags b" "[]"]
      by (auto simp: rb decode_bit_block_def eq)
  next
    case False
    have eq: "result_of t now (register_value (rsp_registers rsp) (tag_address t - blk_start b) t) =
        read_alone regs bits unit now t" if "t \<in> set (blk_tags b)" for t
      using srv that False slice by (simp add: bit_function_def, subst register_value_slice) (auto simp: block_serves_def defs)
    have "blk_function b \<in> {''holding_register'', ''input_register''}"
      using srv False by (auto simp: block_serves_def modbus_functions_def)
    then have rb: "fst (read_block client now c b) =
        decode_register_block (rsp_registers rsp) b now"
      using srv ans by (auto simp: read_block_def block_serves_def)
    show ?thesis
      using name_fold_sets(1) [of "\<lambda>t. result_of t now (register_value (rsp_registers rsp) (tag_address t - blk_start b) t)"
        "blk_tags b" "[]"]
      by (auto simp: rb decode_register_block_def eq)
  qed
qed

lemma read_blocks_names:
  "fst ` set (fst (read_blocks client now c d bs)) = fst ` set d \<union> tag_name ` set (concat (map blk_tags bs))"
proof (induction bs arbitrary: c d)
  case (Cons b bs)
  obtain r c' where "read_block client now c b = (r, c')" by (cases "read_block client now c b")
  with Cons [of c' "dupdate d r"] read_block_names [of client now c b] show ?case by auto
qed simp

lemma read_blocks_entries:
  assumes "coherent client regs bits" "\<forall>b \<in> set bs. block_serves unit b"
  shows "set (fst (read_blocks client now c d bs)) \<subseteq>
    set d \<union> (\<lambda>t. (tag_name t, read_alone regs bits unit now t)) ` set (concat (map blk_tags bs))"
  using assms(2)
proof (induction bs arbitrary: c d)
  case (Cons b bs)
  obtain r c' where rc: "read_block client now c b = (r, c')" by (cases "read_block client now c b")
  from read_block_entries [OF assms(1), of unit b now c] Cons.prems rc
  have "set r \<subseteq> (\<lambda>t. (tag_name t, read_alone regs bits unit now t)) ` set (blk_tags b)" by simp
  with Cons.IH [of c' "dupdate d r"] Cons.prems set_dupdate_subset [of d r]
  have "set (fst (read_blocks client now c' (dupdate d r) bs)) \<subseteq>
    set d \<union> (\<lambda>t. (tag_name t, read_alone regs bits unit now t)) ` set (concat (map blk_tags (b # bs)))"
    by fastforce
  with rc show ?case by simp
qed simp

lemma unit_or_range:
  assumes "tag_ok ''modbus_tcp'' t" "0 \<le> unit" "unit \<le> 255"
  shows "0 \<le> unit_or (tag_unit_id t) unit \<and> unit_or (tag_unit_id t) unit \<le> 255"
  using assms by (auto simp: tag_ok_def unit_or_def split: option.splits)

text \<open>A block of validated and requestable tags is a request the protocol allows.\<close>

lemma block_legal:
  assumes g: "good_block gap maxc b" and lim: "maxc \<le> read_limit (blk_function b)"
    and fn: "blk_function b \<in> set modbus_functions"
    and m: "\<And>t. t \<in> set (blk_tags b) \<Longrightarrow> t \<in> set tags \<and> group_key unit t = (blk_function b, blk_unit b)"
    and ok: "\<And>t. t \<in> set tags \<Longrightarrow> tag_ok ''modbus_tcp'' t" and fit: "tags_requestable tags"
    and unit: "0 \<le> unit" "unit \<le> 255"
  shows "legal_request (blk_function b) (blk_start b) (blk_count b) (blk_unit b)"
proof -
  let ?h = "hd (blk_tags b)" and ?stop = "blk_start b + blk_count b"
  from g have run: "good_run gap maxc (blk_tags b) (blk_start b) ?stop" by (simp add: good_block_def)
  then have h: "?h \<in> set (blk_tags b)" and st: "blk_start b = tag_address ?h" and fits: "tag_end ?h \<le> ?stop"
    by (auto simp: good_run_def)
  from run obtain l where l: "l \<in> set (blk_tags b)" "?stop = tag_end l" by (auto simp: good_run_def)
  have req: "tag_end t \<le> 65536 \<and> item_count t \<le> (if bit_function (blk_function b) then 2000 else 125)"
    if "t \<in> set (blk_tags b)" for t
    using fit m [OF that] by (auto simp: tags_requestable_def list_all_iff tag_end_def group_key_def)
  have okh: "tag_ok ''modbus_tcp'' ?h" using ok m [OF h] by blast
  have single: "blk_count b = item_count ?h" if "length (blk_tags b) = 1"
    using run that by (cases "blk_tags b") (auto simp: good_run_def tag_end_def)
  have limit: "read_limit (blk_function b) = (if bit_function (blk_function b) then 2000 else 125)"
    by (simp add: read_limit_def bit_function_def max_bit_read_def max_register_read_def)
  have "blk_count b \<le> (if bit_function (blk_function b) then 2000 else 125)"
    using run lim limit single req [OF h] by (auto simp: good_run_def)
  moreover have "0 \<le> blk_start b" using okh st by (simp add: tag_ok_def)
  moreover have "1 \<le> blk_count b" using fits st tag_ok_item_count [OF okh] by (simp add: tag_end_def)
  moreover have "?stop \<le> 65536" using l req by simp
  moreover have "0 \<le> blk_unit b \<and> blk_unit b \<le> 255"
    using unit_or_range [OF okh unit] m [OF h] by (simp add: group_key_def)
  ultimately show ?thesis using fn by (auto simp: legal_request_def modbus_functions_def)
qed

lemma plan_serves:
  assumes ok: "read_plan dev tags = Inr blocks" and tags: "modbus_tags_ok tags"
    and gap: "py_int (get_or (dev_connection dev) ''max_block_gap'' (VInt 4)) = Inr gap" "0 \<le> gap"
    and unit: "py_int (get_or (dev_connection dev) ''unit_id'' (VInt 1)) = Inr unit" "0 \<le> unit" "unit \<le> 255"
    and fit: "tags_requestable tags"
    and b: "b \<in> set blocks"
  shows "block_serves unit b"
proof -
  note blk = read_plan_blocks [OF ok tags gap unit(1)]
  from blk(2) [OF b] obtain maxc where lim: "maxc \<le> read_limit (blk_function b)" and g: "good_block gap maxc b"
    and m: "\<And>t. t \<in> set (blk_tags b) \<Longrightarrow> t \<in> set tags \<and> group_key unit t = (blk_function b, blk_unit b)"
    by blast
  from g have ne: "blk_tags b \<noteq> []" by (simp add: good_block_def good_run_def)
  then have hd: "hd (blk_tags b) \<in> set (blk_tags b)" by simp
  with m modbus_tags_ok_function [OF tags] have fn: "blk_function b \<in> set modbus_functions"
    by (metis fst_conv group_key_def)
  have pos: "0 \<le> item_count t" if "t \<in> set (blk_tags b)" for t
    using modbus_tags_ok_positive [OF tags] m [OF that] by (auto simp: positive_counts_def list_all_iff)
  have "legal_request (blk_function b) (blk_start b) (blk_count b) (blk_unit b)"
    by (rule block_legal [OF g lim fn]) (use m tags fit unit in \<open>auto simp: modbus_tags_ok_iff\<close>)
  then show ?thesis
    using g m fn pos by (auto simp: block_serves_def group_key_def good_block_def good_run_def)
qed

lemma read_tags_run:
  assumes "read_plan dev tags = Inr blocks"
  shows "fst (read_tags_grouped (Some client) now c dev tags) =
    Inr (collect_results (fst (read_blocks client now c [] blocks)) now tags)"
  using assms by (simp add: read_tags_grouped_def split: prod.splits)

lemma grouped_reads_alone:
  assumes "read_plan dev tags = Inr blocks" and "modbus_tags_ok tags"
    and "py_int (get_or (dev_connection dev) ''max_block_gap'' (VInt 4)) = Inr gap" and "0 \<le> gap"
    and "py_int (get_or (dev_connection dev) ''unit_id'' (VInt 1)) = Inr unit" and "0 \<le> unit" and "unit \<le> 255"
    and "tags_requestable tags" and "coherent client regs bits" and "distinct (map tag_name tags)"
  shows "fst (read_tags_grouped (Some client) now c dev tags) = Inr (map (read_alone regs bits unit now) tags)"
proof -
  let ?d = "fst (read_blocks client now c [] blocks)"
  have cover: "set (concat (map blk_tags blocks)) = set tags"
    using read_plan_blocks(1) [OF assms(1-5)] by (metis set_mset_mset)
  have srv: "\<forall>b \<in> set blocks. block_serves unit b" using plan_serves [OF assms(1-8)] by blast
  have "dget ?d (tag_name t) = Some (read_alone regs bits unit now t)" if t: "t \<in> set tags" for t
  proof -
    have "tag_name t \<in> fst ` set ?d" using t cover by (simp add: read_blocks_names)
    then obtain r where r: "dget ?d (tag_name t) = Some r"
      using dget_None_iff [of ?d "tag_name t"] by auto
    then have "(tag_name t, r) \<in> set ?d" by (rule dget_in_set)
    with read_blocks_entries [OF assms(9) srv, of now c "[]"] cover obtain u where
      "u \<in> set tags" "tag_name u = tag_name t" "r = read_alone regs bits unit now u" by auto
    with assms(10) t r show ?thesis by (metis distinct_map inj_onD)
  qed
  then have "collect_results ?d now tags = map (read_alone regs bits unit now) tags"
    by (simp add: collect_results_def)
  with read_tags_run [OF assms(1), of client now c] show ?thesis by simp
qed

text \<open>C3: Grouping is transparent.  The tags are validated, have distinct names, lie inside the address
  space and fit one request each; the default unit is between 0 and 255 and the permitted gap not
  negative. The client answers every request the protocol allows from fixed tables, bits padded as
  pymodbus pads them. Then the grouped read returns, in tag order, exactly what reading every tag by
  itself returns.\<close>

theorem read_tags_grouped_alone:
  assumes "read_plan dev tags = Inr blocks" and "modbus_tags_ok tags"
    and "py_int (get_or (dev_connection dev) ''max_block_gap'' (VInt 4)) = Inr gap" and "0 \<le> gap"
    and "py_int (get_or (dev_connection dev) ''unit_id'' (VInt 1)) = Inr unit" and "0 \<le> unit" and "unit \<le> 255"
    and "tags_requestable tags" and "coherent client regs bits" and "distinct (map tag_name tags)"
  shows "fst (read_tags_grouped (Some client) now c dev tags) = Inr (map (read_alone regs bits unit now) tags)"
  using assms by (rule grouped_reads_alone)

text \<open>A client of this kind: bits are padded with zeros to whole bytes, only the list of the read's kind
  is filled, and a request outside the protocol raises.\<close>

definition pad_bits :: "bool list \<Rightarrow> bool list" where
  "pad_bits bs = bs @ replicate ((8 - length bs mod 8) mod 8) False"

definition table_client :: "int table \<Rightarrow> bool table \<Rightarrow> unit client" where
  "table_client regs bits c fn start len unit =
     (if \<not> legal_request fn start len unit then Raised ''invalid request''
      else if bit_function fn
      then Answer \<lparr>rsp_error = None, rsp_registers = [], rsp_bits = pad_bits (table_slice bits fn unit start len)\<rparr>
      else Answer \<lparr>rsp_error = None, rsp_registers = table_slice regs fn unit start len, rsp_bits = []\<rparr>, ())"

lemma coherent_table_client: "coherent (table_client regs bits) regs bits"
  by (auto simp: coherent_def table_client_def answers_slice_def pad_bits_def)

lemma sample_tags_requestable: "tags_requestable sample_tags"
  by (simp add: sample_tags_def tags_requestable_def new_tag_def item_count_def register_count_def
      value_count_def words_per_value_def bit_function_def)

theorem read_tags_grouped_alone_witness:
  "fst (read_tags_grouped (Some (table_client (\<lambda>fn u a. 100 + a) (\<lambda>fn u a. a = 3))) noon ()
      (sample_device []) sample_tags) =
   Inr (map (read_alone (\<lambda>fn u a. 100 + a) (\<lambda>fn u a. a = 3) 1 noon) sample_tags)"
  by (rule read_tags_grouped_alone [OF sample_plan_eq sample_tags_ok sample_settings(1) _ sample_settings(2) _ _
        sample_tags_requestable coherent_table_client]) (simp_all add: sample_tags_def new_tag_def)

text \<open>Results are keyed by tag name alone.  Whatever the client answers, two tags of one device
  with the same name (which the store accepts when their tag groups differ) get the identical
  result, so at least one of them reports the other tag's address, value and group.\<close>

theorem same_name_same_result:
  assumes "fst (read_tags_grouped (Some client) now c dev tags) = Inr results" and "modbus_tags_ok tags"
    and "py_int (get_or (dev_connection dev) ''max_block_gap'' (VInt 4)) = Inr gap" and "0 \<le> gap"
    and "py_int (get_or (dev_connection dev) ''unit_id'' (VInt 1)) = Inr unit"
    and "i < length tags" and "j < length tags" and "tag_name (tags ! i) = tag_name (tags ! j)"
  shows "results ! i = results ! j"
proof -
  from assms(1) obtain blocks where plan: "read_plan dev tags = Inr blocks"
    by (auto simp: read_tags_grouped_def split: sum.splits prod.splits)
  let ?d = "fst (read_blocks client now c [] blocks)"
  have res: "results = collect_results ?d now tags"
    using assms(1) read_tags_run [OF plan, of client now c] by simp
  have "set (concat (map blk_tags blocks)) = set tags"
    using read_plan_blocks(1) [OF plan assms(2-5)] by (metis set_mset_mset)
  then have "tag_name (tags ! i) \<in> fst ` set ?d" using assms(6) by (simp add: read_blocks_names)
  then obtain r where "dget ?d (tag_name (tags ! i)) = Some r"
    using dget_None_iff [of ?d "tag_name (tags ! i)"] by auto
  with assms(6-8) res show ?thesis by (simp add: collect_results_def)
qed

definition twin_tags :: "tag_spec list" where
  "twin_tags = [(new_tag ''level'' 0 ''coil'' ''bool'')\<lparr>tag_group := ''A''\<rparr>,
     (new_tag ''level'' 9 ''coil'' ''bool'')\<lparr>tag_group := ''B''\<rparr>]"

definition twin_result :: tag_result where
  "twin_result = \<lparr>res_name = ''level'', res_address = 9,
     res_value = VBool True, res_quality = Good, res_error = None,
     res_timestamp = noon, res_node_id = None, res_tag_group = ''B''\<rparr>"

lemma twin_tags_ok: "modbus_tags_ok twin_tags"
  by (simp add: twin_tags_def tag_eval)

lemma twin_read:
  "fst (read_tags_grouped (Some (table_client (\<lambda>fn u a. 0) (\<lambda>fn u a. a = 9))) noon ()
      (sample_device []) twin_tags) = Inr [twin_result, twin_result]"
proof -
  have plan: "read_plan (sample_device []) twin_tags =
      Inr [mk_block ''coil'' 1 [twin_tags ! 0] 0 1, mk_block ''coil'' 1 [twin_tags ! 1] 9 10]"
    by (simp add: twin_tags_def plan_eval)
  have one: "fst (read_block (table_client (\<lambda>fn u a. 0) (\<lambda>fn u a. a = 9)) noon ()
      (mk_block ''coil'' 1 [twin_tags ! 1] 9 10)) = [(''level'', twin_result)]"
    by (simp add: twin_tags_def twin_result_def mk_block_def read_block_def modbus_functions_def table_client_def table_slice_def
      legal_request_def bit_function_def pad_bits_def
      decode_bit_block_def bit_value_def new_tag_def value_count_def 
      py_slice_def clamp_index_def  result_of_def
      good_result_def Let_def)
  have "\<exists>r. fst (read_block (table_client (\<lambda>fn u a. 0) (\<lambda>fn u a. a = 9)) noon ()
      (mk_block ''coil'' 1 [twin_tags ! 0] 0 1)) = [(''level'', r)]"
    by (simp add: twin_tags_def twin_result_def mk_block_def read_block_def modbus_functions_def table_client_def table_slice_def
      legal_request_def bit_function_def pad_bits_def
      decode_bit_block_def bit_value_def new_tag_def value_count_def 
      py_slice_def clamp_index_def  result_of_def
      good_result_def Let_def)
  with one show ?thesis
    unfolding read_tags_run [OF plan]
    by (auto simp: Let_def twin_tags_def collect_results_def new_tag_def split: prod.splits)
qed

theorem same_name_same_result_witness:
  "[twin_result, twin_result] ! 0 = [twin_result, twin_result] ! 1"
  by (rule same_name_same_result [OF twin_read twin_tags_ok sample_settings(1) _ sample_settings(2)])
    (simp_all add: twin_tags_def new_tag_def)

section \<open>Decoding integers\<close>

text \<open>
  The specification side: \<open>reg_words n v\<close> is \<open>v\<close> in two's complement as \<open>n\<close> registers, most
  significant first, and \<open>int_range\<close> is the range of each integer type.
\<close>

fun reg_words :: "nat \<Rightarrow> int \<Rightarrow> int list" where
  "reg_words 0 v = []"
| "reg_words (Suc n) v = reg_words n (v div 65536) @ [v mod 65536]"

definition int_range :: "string \<Rightarrow> int \<times> int" where
  "int_range dt =
     (if dt = ''int16'' then (- (2 ^ 15), 2 ^ 15) else if dt = ''uint16'' then (0, 2 ^ 16)
      else if dt = ''int32'' then (- (2 ^ 31), 2 ^ 31) else (0, 2 ^ 32))"

lemma push_or_add:
  assumes "0 \<le> (x::int)" "x < 65536"
  shows "push_bit 16 a OR x = a * 65536 + x"
proof -
  have x: "x = take_bit 16 x" using assms by (simp add: take_bit_int_eq_self)
  have "push_bit 16 a AND x = 0"
    by (subst x, rule bit_eqI) (auto simp: bit_simps)
  then have "push_bit 16 a + x = push_bit 16 a OR x" by (rule disjunctive_add_eq_or)
  then show ?thesis by (simp add: push_bit_eq_mult)
qed

lemma and_ffff: "(r::int) AND 0xFFFF = r mod 65536"
proof -
  have "(0xFFFF :: int) = mask 16" by (simp add: mask_eq_exp_minus_1)
  then show ?thesis by (simp only: take_bit_eq_mask [symmetric] take_bit_eq_mod) simp
qed

lemma registers_to_int_from_eq:
  "registers_to_int_from raw (rs @ [r]) = registers_to_int_from raw rs * 65536 + r mod 65536"
  by (induction raw rs rule: registers_to_int_from.induct) (simp_all add: and_ffff push_or_add)

lemma registers_to_int_snoc: "registers_to_int (rs @ [r]) = registers_to_int rs * 65536 + r mod 65536"
  by (simp add: registers_to_int_def registers_to_int_from_eq)

lemma length_reg_words [simp]: "length (reg_words n v) = n"
  by (induction n v rule: reg_words.induct) auto

lemma registers_to_int_reg_words: "registers_to_int (reg_words n v) = v mod 65536 ^ n"
proof (induction n v rule: reg_words.induct)
  case (2 n v)
  have "v mod 65536 ^ Suc n = (v div 65536 mod 65536 ^ n) * 65536 + v mod 65536"
    by (simp add: zmod_zmult2_eq)
  with 2 show ?case by (simp add: registers_to_int_snoc)
qed (simp add: registers_to_int_def)

lemma and_bit_set: "((x::int) AND 2 ^ n \<noteq> 0) \<longleftrightarrow> odd (x div 2 ^ n)"
  by (simp add: and_exp_eq_0_iff_not_bit bit_iff_odd)

lemma twos_complement:
  assumes "0 < h" "- h \<le> v" "v < (h::int)" and M: "M = 2 * h"
  shows "(if odd (v mod M div h) then v mod M - M else v mod M) = v"
proof (cases "0 \<le> v")
  case True
  with assms have "v mod (2 * h) = v" "v div h = 0" by (simp_all add: div_pos_pos_trivial)
  then show ?thesis using M by simp
next
  case False
  have "v mod (2 * h) = (v + 2 * h) mod (2 * h)" by simp
  also have "\<dots> = v + 2 * h" using False assms by (intro mod_pos_pos_trivial) linarith+
  finally have m: "v mod (2 * h) = v + 2 * h" .
  have "(v + 2 * h) div h = (v + h) div h + 1" using assms(1)
    by (metis add.assoc div_add_self2 less_irrefl mult_2)
  also have "(v + h) div h = 0" using False assms by (simp add: div_pos_pos_trivial)
  finally show ?thesis using m M by simp
qed
lemma sign_correct_16:
  assumes "- 32768 \<le> v" "v < 32768"
  shows "(if v mod 65536 AND 0x8000 \<noteq> 0 then v mod 65536 - 0x10000 else v mod 65536) = (v::int)"
  using twos_complement [of 32768 v 65536] assms and_bit_set [of "v mod 65536" 15] by simp

lemma sign_correct_32:
  assumes "- 2147483648 \<le> v" "v < 2147483648"
  shows "(if v mod 4294967296 AND 0x80000000 \<noteq> 0 then v mod 4294967296 - 0x100000000 else v mod 4294967296) = (v::int)"
  using twos_complement [of 2147483648 v 4294967296] assms and_bit_set [of "v mod 4294967296" 31] by simp
text \<open>How the device lays a value out: the most significant register first, or the least when the tag's
  word order is \<open>little\<close>.\<close>

definition device_registers :: "string \<Rightarrow> nat \<Rightarrow> int \<Rightarrow> int list" where
  "device_registers order n v = (if order = ''little'' then rev (reg_words n v) else reg_words n v)"

lemma length_device_registers [simp]: "length (device_registers order n v) = n"
  by (simp add: device_registers_def)

lemma device_registers_one: "device_registers order (Suc 0) v = [v mod 65536]"
  by (simp add: device_registers_def)

lemma registers_to_int_device:
  "registers_to_int (apply_word_order (device_registers (tag_word_order t) n v) t) = v mod 65536 ^ n"
proof -
  have "rev (reg_words n v) = reg_words n v" if "\<not> 1 < n"
    using that by (cases "reg_words n v") (auto simp: length_Suc_conv dest: arg_cong [of _ _ length])
  then show ?thesis
    by (auto simp: device_registers_def apply_word_order_def registers_to_int_reg_words)
qed

lemma decode_integer:
  assumes "tag_data_type t \<in> {''int16'', ''uint16'', ''int32'', ''uint32''}" and "value_count t = 1"
    and "fst (int_range (tag_data_type t)) \<le> v" and "v < snd (int_range (tag_data_type t))"
  shows "decode_registers (device_registers (tag_word_order t) (nat (words_per_value t)) v) t = Inr (VInt v)"
proof -
  let ?rs = "device_registers (tag_word_order t) (nat (words_per_value t)) v"
  have cnt: "register_count t = words_per_value t"
    using assms by (auto simp: register_count_def)
  then have "decode_registers ?rs t = decode_single ?rs t"
    using assms(2) by (auto simp: decode_registers_def words_per_value_def)
  also have "\<dots> = Inr (VInt v)"
  proof -
    have one: "device_registers (tag_word_order t) (nat 1) v = [v mod 65536]"
      by (simp add: device_registers_one)
    have two: "registers_to_int (apply_word_order (device_registers (tag_word_order t) (nat 2) v) t) = v mod 4294967296"
      using registers_to_int_device [of t "nat 2" v] by simp
    from assms(1) consider "tag_data_type t = ''int16''" | "tag_data_type t = ''uint16''"
      | "tag_data_type t = ''int32''" | "tag_data_type t = ''uint32''" by blast
    then show ?thesis
    proof cases
      case 1
      with assms(3,4) sign_correct_16 [of v] one show ?thesis
        by (simp add: decode_single_def words_per_value_def apply_word_order_def int_range_def)
    next
      case 2
      with assms(3,4) one show ?thesis
        by (simp add: decode_single_def words_per_value_def apply_word_order_def int_range_def)
    next
      case 3
      with assms(3,4) sign_correct_32 [of v] two show ?thesis
        by (simp add: decode_single_def words_per_value_def int_range_def)
    next
      case 4
      with assms(3,4) two show ?thesis
        by (simp add: decode_single_def words_per_value_def int_range_def)
    qed
  qed
  finally show ?thesis .
qed

text \<open>C26: Integer decoding inverts two's complement.  For each integer data type, a single value in the
  type's range, laid out by the device in 16-bit registers, the least significant first when the tag's
  word order is \<open>little\<close> and the most significant first otherwise, decodes to itself.\<close>

theorem decode_integer_roundtrip:
  assumes "tag_data_type t \<in> {''int16'', ''uint16'', ''int32'', ''uint32''}" and "value_count t = 1"
    and "fst (int_range (tag_data_type t)) \<le> v" and "v < snd (int_range (tag_data_type t))"
  shows "decode_registers (device_registers (tag_word_order t) (nat (words_per_value t)) v) t = Inr (VInt v)"
  using assms by (rule decode_integer)

theorem decode_integer_roundtrip_witness:
  "decode_registers (device_registers ''little'' 2 (-70000))
    ((new_tag ''x'' 0 ''holding_register'' ''int32'')\<lparr>tag_word_order := ''little''\<rparr>) = Inr (VInt (-70000))"
  using decode_integer_roundtrip [of "(new_tag ''x'' 0 ''holding_register'' ''int32'')\<lparr>tag_word_order := ''little''\<rparr>" "-70000"]
  by (simp add: new_tag_def value_count_def int_range_def words_per_value_def)

lemma apply_scale_default_int:
  assumes "\<bar>v\<bar> < 2 ^ 53"
  shows "\<exists>x. apply_scale (VInt v) fl_one fl_zero = Inr (VFloat x) \<and> py_int (VFloat x) = Inr v"
proof -
  obtain s m e where f: "fl_of_int v = Some (FFin s m e)" "fl_trunc s m e = v" "fl_wf (FFin s m e)" "m = 0 \<longleftrightarrow> v = 0"
    by (rule fl_of_int_exact [OF assms])
  then show ?thesis
    using fl_scale_default [OF f(3)]
    by (cases "v = 0") (simp_all add: int_to_float_def fl_zero_def fl_trunc_def)
qed

text \<open>With the default scale 1.0 and offset 0.0 the published value of an integer tag is numerically
  exact: the registers holding \<open>v\<close> give a float whose integer value is \<open>v\<close>.\<close>

theorem integer_value_exact:
  assumes "tag_data_type t \<in> {''int16'', ''uint16'', ''int32'', ''uint32''}" and "value_count t = 1"
    and "fst (int_range (tag_data_type t)) \<le> v" and "v < snd (int_range (tag_data_type t))"
    and "tag_scale t = fl_one" and "tag_offset t = fl_zero"
  shows "\<exists>x. register_value (device_registers (tag_word_order t) (nat (words_per_value t)) v) 0 t = Inr (VFloat x)
    \<and> py_int (VFloat x) = Inr v"
proof -
  let ?rs = "device_registers (tag_word_order t) (nat (words_per_value t)) v"
  have cnt: "register_count t = words_per_value t" "0 \<le> words_per_value t"
    using assms(1,2) by (auto simp: register_count_def words_per_value_def)
  then have sl: "py_slice ?rs 0 (0 + register_count t) = ?rs"
    by (subst py_slice_nat) auto
  have "\<bar>v\<bar> < 2 ^ 53" using assms(1,3,4) by (auto simp: int_range_def split: if_splits)
  with apply_scale_default_int sl decode_integer [OF assms(1-4)] assms(5,6) show ?thesis
    by (simp add: register_value_def)
qed

theorem integer_value_exact_witness:
  "\<exists>x. register_value (device_registers ''big'' 1 (-3)) 0
      (new_tag ''x'' 0 ''holding_register'' ''int16'') = Inr (VFloat x) \<and> py_int (VFloat x) = Inr (-3)"
  using integer_value_exact [of "new_tag ''x'' 0 ''holding_register'' ''int16''" "-3"]
  by (simp add: new_tag_def value_count_def int_range_def words_per_value_def)

section \<open>Decoding text\<close>

text \<open>The specification side: a text as registers, two bytes each, padded with zero bytes.\<close>

definition pair_register :: "string \<Rightarrow> nat \<Rightarrow> nat \<Rightarrow> int" where
  "pair_register order a b = (if order = ''little'' then int b * 256 + int a else int a * 256 + int b)"

fun pack_bytes :: "string \<Rightarrow> nat \<Rightarrow> nat list \<Rightarrow> int list" where
  "pack_bytes order 0 bs = []"
| "pack_bytes order (Suc n) [] = 0 # pack_bytes order n []"
| "pack_bytes order (Suc n) [a] = pair_register order a 0 # pack_bytes order n []"
| "pack_bytes order (Suc n) (a # b # bs) = pair_register order a b # pack_bytes order n bs"

lemma and_ff: "(r::int) AND 0xFF = r mod 256"
proof -
  have "(0xFF :: int) = mask 8" by (simp add: mask_eq_exp_minus_1)
  then show ?thesis by (simp only: take_bit_eq_mask [symmetric] take_bit_eq_mod) simp
qed

lemma register_bytes_pair: "a < 256 \<Longrightarrow> b < 256 \<Longrightarrow> register_bytes order (pair_register order a b) = [a, b]"
  by (auto simp: register_bytes_def pair_register_def and_ff drop_bit_eq_div Let_def nat_mod_distrib
      nat_div_distrib nat_add_distrib nat_mult_distrib)

lemma register_bytes_zero: "register_bytes order 0 = [0, 0]"
  by (simp add: register_bytes_def)

lemma unpack_bytes:
  "\<forall>b \<in> set bs. b < 256 \<Longrightarrow> length bs \<le> 2 * n \<Longrightarrow>
   \<exists>k. concat (map (register_bytes order) (pack_bytes order n bs)) = bs @ replicate k 0"
proof (induction order n bs rule: pack_bytes.induct)
  case (2 order n)
  then obtain k where "concat (map (register_bytes order) (pack_bytes order n [])) = replicate k 0" by auto
  then show ?case by (auto simp: register_bytes_zero intro: exI [of _ "Suc (Suc k)"])
next
  case (3 order n a)
  then obtain k where "concat (map (register_bytes order) (pack_bytes order n [])) = replicate k 0" by auto
  with 3 show ?case by (auto simp: register_bytes_pair intro: exI [of _ "Suc k"])
next
  case (4 order n a b bs)
  then show ?case by (auto simp: register_bytes_pair)
qed auto

lemma takeWhile_zeros: "\<forall>b \<in> set bs. b \<noteq> 0 \<Longrightarrow> takeWhile (\<lambda>b. b \<noteq> (0::nat)) (bs @ replicate k 0) = bs"
  by (induction bs) (auto simp: takeWhile_replicate)

text \<open>String decoding inverts packing.  An ASCII text without NUL that fits into the tag's registers
  is decoded to itself, in either byte order (with the default word order).\<close>

theorem decode_string_roundtrip:
  assumes "list_all (\<lambda>c. 0 < (of_char c :: nat) \<and> (of_char c :: nat) < 128) s" and "length s \<le> 2 * n"
    and "tag_data_type t = ''string''" and "tag_word_count t = Some (int n)" and "0 < n"
    and "tag_word_order t = ''big''"
  shows "decode_registers (pack_bytes (tag_byte_order t) n (map of_char s)) t = Inr (VStr s)"
proof -
  let ?bs = "map of_char s :: nat list"
  have len: "length (pack_bytes order m bs) = m" for order m bs
    by (induction order m bs rule: pack_bytes.induct) auto
  have small: "\<forall>b \<in> set ?bs. b < 256" and nz: "\<forall>b \<in> set ?bs. b \<noteq> 0"
    using assms(1) by (auto simp: list_all_iff)
  obtain k where k: "concat (map (register_bytes (tag_byte_order t)) (pack_bytes (tag_byte_order t) n ?bs)) = ?bs @ replicate k 0"
    using unpack_bytes [OF small, of n "tag_byte_order t"] assms(2) by auto
  have "concat (map ascii_char ?bs) = s"
    using assms(1) by (induction s) (auto simp: ascii_char_def)
  then have "decode_string (pack_bytes (tag_byte_order t) n ?bs) t = s"
    unfolding decode_string_def k takeWhile_zeros [OF nz] .
  then show ?thesis
    using assms(3-6) by (simp add: decode_registers_def decode_single_def register_count_def value_count_def
        apply_word_order_def len)
qed

theorem decode_string_roundtrip_witness:
  "decode_registers (pack_bytes ''little'' 2 (map of_char ''AB7''))
    ((new_tag ''x'' 0 ''holding_register'' ''string'')\<lparr>tag_word_count := Some 2, tag_byte_order := ''little''\<rparr>)
    = Inr (VStr ''AB7'')"
  using decode_string_roundtrip [of "''AB7''" 2
      "(new_tag ''x'' 0 ''holding_register'' ''string'')\<lparr>tag_word_count := Some 2, tag_byte_order := ''little''\<rparr>"]
  by (simp add: new_tag_def)

text \<open>The type \<open>auto\<close> passes validation for a Modbus tag, and no register content decodes under it.\<close>

lemma auto_type_never_decodes:
  "validate_modbus_tag (new_tag ''x'' 0 ''holding_register'' ''auto'') = Inr () \<and>
   decode_registers [r] (new_tag ''x'' 0 ''holding_register'' ''auto'') =
     Inl (Raise ValueError ''unsupported data type auto'')"
  by (simp add: tag_eval decode_registers_def decode_single_def register_count_def value_count_def
      words_per_value_def value_error_def apply_word_order_def)

end
