(* ===== verification/Rtu.thy ===== *)
theory Rtu
  imports Modbus
begin

unbundle bit_operations_syntax

text \<open>
  \<^verbatim>\<open>src/industrial_gateway/drivers/modbus_rtu_monitor.py\<close>: the CRC, the frame parser, the scan
  for frames in a captured byte stream, the pairing of read requests with their responses, the
  capture and probe loops and the tag results.

  Bytes are \<open>8 word\<close> and the CRC register is a \<open>16 word\<close> (the source's integer never leaves 16
  bits). A parsed frame is a record; a key the source leaves out of its dictionary is \<open>None\<close>.
\<close>

type_synonym byte = "8 word"

section \<open>CRC\<close>

definition crc_bit :: "16 word \<Rightarrow> 16 word" where
  "crc_bit crc = (if crc AND 1 \<noteq> 0 then drop_bit 1 crc XOR 0xA001 else drop_bit 1 crc)"

definition crc_byte :: "byte \<Rightarrow> 16 word \<Rightarrow> 16 word" where
  "crc_byte b crc = (crc_bit ^^ 8) (crc XOR ucast b)"

definition crc16_modbus :: "byte list \<Rightarrow> 16 word" where
  "crc16_modbus data = fold crc_byte data 0xFFFF"

section \<open>Parsing a frame\<close>

record rtu_frame =
  fr_slave :: int
  fr_function :: int
  fr_function_name :: string
  fr_raw_hex :: string
  fr_length :: int
  fr_exception_code :: "int option"
  fr_start_address :: "int option"
  fr_quantity :: "int option"
  fr_byte_count :: "int option"
  fr_registers :: "int list option"
  fr_data_hex :: "string option"
  fr_value :: "int option"

definition read_functions :: "(int \<times> string) list" where
  "read_functions = [(1, ''read_coils''), (2, ''read_discrete_inputs''),
     (3, ''read_holding_registers''), (4, ''read_input_registers'')]"

definition tag_functions_by_code :: "(int \<times> string) list" where
  "tag_functions_by_code = [(1, ''coil''), (2, ''discrete_input''),
     (3, ''holding_register''), (4, ''input_register'')]"

definition write_functions :: "(int \<times> string) list" where
  "write_functions = [(5, ''write_single_coil''), (6, ''write_single_register''),
     (15, ''write_multiple_coils''), (16, ''write_multiple_registers'')]"

definition is_read_code :: "int \<Rightarrow> bool" where
  "is_read_code f \<longleftrightarrow> dget read_functions f \<noteq> None"

definition u16 :: "byte \<Rightarrow> byte \<Rightarrow> int" where
  "u16 high low = push_bit 8 (uint high) OR uint low"

definition hex_digit :: "nat \<Rightarrow> char" where
  "hex_digit d = (if d < 10 then char_of (48 + d) else char_of (55 + d))"

definition hex_byte :: "byte \<Rightarrow> string" where
  "hex_byte b = [hex_digit (unat b div 16), hex_digit (unat b mod 16)]"

definition hex_text :: "byte list \<Rightarrow> string" where
  "hex_text data = py_join '' '' (map hex_byte data)"

definition hex_word :: "16 word \<Rightarrow> string" where
  "hex_word w = map (\<lambda>k. hex_digit (unat w div 16 ^ k mod 16)) [3, 2, 1, 0]"

definition function_name :: "int \<Rightarrow> byte list \<Rightarrow> string" where
  "function_name f frame =
     (if f AND 0x80 \<noteq> 0 then ''exception_response''
      else (case dget read_functions f of
          Some base \<Rightarrow> base @ (if length frame = 8 then ''_request'' else ''_response'')
        | None \<Rightarrow> (case dget write_functions f of Some n \<Rightarrow> n | None \<Rightarrow> ''unknown'')))"

fun pair_words :: "byte list \<Rightarrow> int list res" where
  "pair_words [] = Inr []"
| "pair_words [b] = Inl (Raise IndexError ''index out of range'')"
| "pair_words (a # b # r) = rbind (pair_words r) (\<lambda>ws. Inr (u16 a b # ws))"

definition base_frame :: "int \<Rightarrow> int \<Rightarrow> byte list \<Rightarrow> rtu_frame" where
  "base_frame slave f frame = \<lparr>fr_slave = slave, fr_function = f,
     fr_function_name = function_name f frame, fr_raw_hex = hex_text frame,
     fr_length = int (length frame), fr_exception_code = None, fr_start_address = None,
     fr_quantity = None, fr_byte_count = None, fr_registers = None, fr_data_hex = None,
     fr_value = None\<rparr>"

definition word_at :: "byte list \<Rightarrow> nat \<Rightarrow> int res" where
  "word_at frame i = rbind (py_index frame i) (\<lambda>h. rbind (py_index frame (Suc i)) (\<lambda>l. Inr (u16 h l)))"

definition parse_read_frame :: "rtu_frame \<Rightarrow> int \<Rightarrow> byte list \<Rightarrow> rtu_frame res" where
  "parse_read_frame result f frame =
     (if length frame = 8 then
        rbind (word_at frame 2) (\<lambda>start. rbind (word_at frame 4) (\<lambda>quantity.
          Inr (result\<lparr>fr_start_address := Some start, fr_quantity := Some quantity\<rparr>)))
      else rbind (py_index frame 2) (\<lambda>bc.
        let byte_count = uint bc; data = drop 3 (take (length frame - 2) frame) in
        if int (length frame) \<noteq> byte_count + 5
        then value_error ''Modbus read response length does not match byte count''
        else let result' = result\<lparr>fr_byte_count := Some byte_count\<rparr> in
          if int (length data) = byte_count \<and> f \<in> {3, 4} \<and> byte_count mod 2 = 0 then
            rbind (pair_words data) (\<lambda>ws. Inr (result'\<lparr>fr_registers := Some ws\<rparr>))
          else if int (length data) = byte_count then Inr (result'\<lparr>fr_data_hex := Some (hex_text data)\<rparr>)
          else Inr result'))"

definition parse_rtu_frame :: "byte list \<Rightarrow> rtu_frame res" where
  "parse_rtu_frame frame =
     (let n = length frame in
      if n < 4 then value_error ''Modbus RTU frame must be at least 4 bytes''
      else let expected = crc16_modbus (take (n - 2) frame) in
        rbind (py_index frame (n - 2)) (\<lambda>lo. rbind (py_index frame (n - 1)) (\<lambda>hi.
        let actual = (ucast lo OR push_bit 8 (ucast hi) :: 16 word) in
        if expected \<noteq> actual
        then value_error (''CRC mismatch: expected 0x'' @ hex_word expected @ '', got 0x'' @ hex_word actual)
        else rbind (py_index frame 0) (\<lambda>s. rbind (py_index frame 1) (\<lambda>fb.
          let f = uint fb; result = base_frame (uint s) f frame in
          if f AND 0x80 \<noteq> 0 then
            (if n \<noteq> 5 then value_error ''Modbus exception response must be exactly 5 bytes''
             else rbind (py_index frame 2) (\<lambda>c. Inr (result\<lparr>fr_exception_code := Some (uint c)\<rparr>)))
          else if is_read_code f \<and> 5 \<le> n then parse_read_frame result f frame
          else if f \<in> {5, 6, 15, 16} \<and> 8 \<le> n then
            (if n \<noteq> 8 then value_error ''Modbus write acknowledgement must be exactly 8 bytes''
             else rbind (word_at frame 2) (\<lambda>start. rbind (word_at frame 4) (\<lambda>v.
               Inr (result\<lparr>fr_start_address := Some start, fr_value := Some v\<rparr>))))
          else if \<not> is_read_code f then value_error (''unsupported Modbus function '' @ show_int f)
          else Inr result)))))"

definition is_read_response :: "rtu_frame \<Rightarrow> bool" where
  "is_read_response fr \<longleftrightarrow> is_read_code (fr_function fr) \<and> fr_byte_count fr \<noteq> None"

definition is_read_request :: "rtu_frame \<Rightarrow> bool" where
  "is_read_request fr \<longleftrightarrow>
     is_read_code (fr_function fr) \<and> fr_start_address fr \<noteq> None \<and> fr_quantity fr \<noteq> None"

definition with_response_value :: "rtu_frame \<Rightarrow> rtu_frame" where
  "with_response_value fr = (case fr_registers fr of Some [r] \<Rightarrow> fr\<lparr>fr_value := Some r\<rparr> | _ \<Rightarrow> fr)"

section \<open>Scanning a byte stream\<close>

text \<open>The windows \<open>data[start:end]\<close> in the order of the two nested loops.\<close>

definition windows :: "nat \<Rightarrow> (nat \<times> nat) list" where
  "windows n = concat (map (\<lambda>s. map (Pair s) [s + 4..<n + 1]) [0..<n])"

definition window :: "byte list \<Rightarrow> nat \<Rightarrow> nat \<Rightarrow> byte list" where
  "window data s e = take (e - s) (drop s data)"

type_synonym span_result = "(rtu_frame \<times> nat \<times> nat) option \<times> string"

fun scan_windows :: "(rtu_frame \<Rightarrow> bool) \<Rightarrow> byte list \<Rightarrow> string \<Rightarrow> (nat \<times> nat) list \<Rightarrow> span_result" where
  "scan_windows accept data last_error [] = (None, last_error)"
| "scan_windows accept data last_error ((s, e) # ws) =
     (case parse_rtu_frame (window data s e) of
        Inl er \<Rightarrow> scan_windows accept data (err_text er) ws
      | Inr fr \<Rightarrow> if accept fr then (Some (fr, s, e), []) else scan_windows accept data last_error ws)"

definition first_valid_frame_span :: "byte list \<Rightarrow> span_result" where
  "first_valid_frame_span data = scan_windows (\<lambda>fr. True) data [] (windows (length data))"

definition first_response_frame_span :: "byte list \<Rightarrow> span_result" where
  "first_response_frame_span data = scan_windows is_read_response data [] (windows (length data))"

text \<open>
  The interface of a scanner: a found frame is the parse of an accepted window of at least four
  bytes inside the data, and nothing is found only when no window is accepted.
\<close>

locale frame_scanner =
  fixes scan :: "byte list \<Rightarrow> span_result" and accept :: "rtu_frame \<Rightarrow> bool"
  assumes found: "fst (scan data) = Some (fr, s, e) \<Longrightarrow>
      s + 4 \<le> e \<and> e \<le> length data \<and> parse_rtu_frame (window data s e) = Inr fr \<and> accept fr"
    and complete: "fst (scan data) = None \<Longrightarrow> s + 4 \<le> e \<Longrightarrow> e \<le> length data \<Longrightarrow>
      parse_rtu_frame (window data s e) = Inr fr \<Longrightarrow> \<not> accept fr"
begin

lemma consumes: "fst (scan data) = Some (fr, s, e) \<Longrightarrow> length data - e < length data"
  using found [of data fr s e] by linarith

lemma empty_scan: "fst (scan []) = None"
  using found [of "[]"] by (cases "fst (scan [])") force+

lemma detects:
  "s + 4 \<le> e \<Longrightarrow> e \<le> length data \<Longrightarrow> parse_rtu_frame (window data s e) = Inr fr \<Longrightarrow> accept fr \<Longrightarrow>
   fst (scan data) \<noteq> None"
  using complete by blast

end

lemma set_windows: "(s, e) \<in> set (windows n) \<longleftrightarrow> s + 4 \<le> e \<and> e \<le> n"
proof -
  have "(s, e) \<in> set (windows n) \<longleftrightarrow> s < n \<and> s + 4 \<le> e \<and> e < n + 1"
    by (auto simp: windows_def image_iff simp del: upt_Suc)
  then show ?thesis by auto
qed

lemma scan_windows_found:
  "fst (scan_windows accept data er ws) = Some (fr, s, e) \<Longrightarrow>
   (s, e) \<in> set ws \<and> parse_rtu_frame (window data s e) = Inr fr \<and> accept fr"
  by (induction accept data er ws rule: scan_windows.induct) (auto split: sum.splits if_splits)

lemma scan_windows_complete:
  "fst (scan_windows accept data er ws) = None \<Longrightarrow> (s, e) \<in> set ws \<Longrightarrow>
   parse_rtu_frame (window data s e) = Inr fr \<Longrightarrow> \<not> accept fr"
  by (induction accept data er ws rule: scan_windows.induct) (auto split: sum.splits if_splits)

interpretation valid_scan: frame_scanner first_valid_frame_span "\<lambda>fr. True"
proof unfold_locales
  fix data fr s e
  show "fst (first_valid_frame_span data) = Some (fr, s, e) \<Longrightarrow>
      s + 4 \<le> e \<and> e \<le> length data \<and> parse_rtu_frame (window data s e) = Inr fr \<and> True"
    by (simp add: first_valid_frame_span_def) (drule scan_windows_found, simp add: set_windows)
  show "fst (first_valid_frame_span data) = None \<Longrightarrow> s + 4 \<le> e \<Longrightarrow> e \<le> length data \<Longrightarrow>
      parse_rtu_frame (window data s e) = Inr fr \<Longrightarrow> \<not> True"
    unfolding first_valid_frame_span_def by (drule scan_windows_complete) (auto simp: set_windows)
qed

interpretation response_scan: frame_scanner first_response_frame_span is_read_response
proof unfold_locales
  fix data fr s e
  show "fst (first_response_frame_span data) = Some (fr, s, e) \<Longrightarrow>
      s + 4 \<le> e \<and> e \<le> length data \<and> parse_rtu_frame (window data s e) = Inr fr \<and> is_read_response fr"
    by (simp add: first_response_frame_span_def) (drule scan_windows_found, simp add: set_windows)
  show "fst (first_response_frame_span data) = None \<Longrightarrow> s + 4 \<le> e \<Longrightarrow> e \<le> length data \<Longrightarrow>
      parse_rtu_frame (window data s e) = Inr fr \<Longrightarrow> \<not> is_read_response fr"
    unfolding first_response_frame_span_def by (drule scan_windows_complete) (auto simp: set_windows)
qed

section \<open>Draining the buffer\<close>

lemma fst_of_pair: "(a, b) = p \<Longrightarrow> fst p = a"
  by auto

definition trim_buffer :: "byte list \<Rightarrow> byte list" where
  "trim_buffer b = (if 512 < length b then drop (length b - 512) b else b)"

definition or_text :: "string \<Rightarrow> string \<Rightarrow> string" where
  "or_text a b = (if a = [] then b else a)"

function drain_response_frames ::
  "byte list \<Rightarrow> (int, rtu_frame) pydict \<Rightarrow> string \<Rightarrow> (int, rtu_frame) pydict \<times> byte list \<times> string" where
  "drain_response_frames buffer responses last_error =
     (if buffer = [] then (responses, buffer, last_error)
      else (case first_response_frame_span buffer of
          (None, er) \<Rightarrow> (responses, trim_buffer buffer, or_text er last_error)
        | (Some (fr, s, e), er) \<Rightarrow>
            drain_response_frames (drop e buffer) (dset (fr_slave fr) (with_response_value fr) responses)
              (or_text er last_error)))"
  by pat_completeness auto
termination
  by (relation "measure (\<lambda>(b, r, l). length b)")
    (auto intro!: response_scan.consumes dest: fst_of_pair)

type_synonym frame_pair = "rtu_frame \<times> rtu_frame"
type_synonym pending = "(int \<times> int, rtu_frame) pydict"

definition frame_key :: "rtu_frame \<Rightarrow> int \<times> int" where
  "frame_key fr = (fr_slave fr, fr_function fr)"

text \<open>One frame found in the stream: it becomes the pending request of its slave and function, or
  completes the pending one, or is skipped.\<close>

definition take_frame :: "rtu_frame \<Rightarrow> pending \<Rightarrow> frame_pair list \<Rightarrow> pending \<times> frame_pair list" where
  "take_frame fr pending pairs =
     (if is_read_request fr then (dset (frame_key fr) fr pending, pairs)
      else if is_read_response fr then
        (case dget pending (frame_key fr) of
           None \<Rightarrow> (pending, pairs)
         | Some request \<Rightarrow> (ddel (frame_key fr) pending, pairs @ [(request, with_response_value fr)]))
      else (pending, pairs))"

function drain_request_response_pairs ::
  "byte list \<Rightarrow> pending \<Rightarrow> frame_pair list \<Rightarrow> frame_pair list \<times> byte list \<times> pending" where
  "drain_request_response_pairs buffer pending pairs =
     (if buffer = [] then (pairs, buffer, pending)
      else (case fst (first_valid_frame_span buffer) of
          None \<Rightarrow> (pairs, trim_buffer buffer, pending)
        | Some (fr, s, e) \<Rightarrow>
            (let (pending', pairs') = take_frame fr pending pairs in
             drain_request_response_pairs (drop e buffer) pending' pairs')))"
  by pat_completeness auto
termination
  by (relation "measure (\<lambda>(b, p, q). length b)") (auto dest: valid_scan.consumes)

declare drain_response_frames.simps [simp del] drain_request_response_pairs.simps [simp del]

section \<open>Capturing and probing\<close>

text \<open>
  The environment of a capture: for each round of the loop, the reading of the monotonic clock
  and the chunk that \<open>read(256)\<close> returns. A loop that has used up its feed has not returned yet:
  the result is \<open>None\<close>.
\<close>

type_synonym feed = "(pyfloat \<times> byte list) list"

fun capture_loop :: "pyfloat \<Rightarrow> bool \<Rightarrow> feed \<Rightarrow> byte list \<Rightarrow> pending \<Rightarrow> frame_pair list \<Rightarrow> frame_pair list option" where
  "capture_loop deadline once [] buffer pending pairs = None"
| "capture_loop deadline once ((clk, chunk) # rest) buffer pending pairs =
     (if \<not> fl_le clk deadline then Some pairs
      else let (found, buffer', pending') = drain_request_response_pairs (buffer @ chunk) pending [];
               pairs' = pairs @ found
           in if chunk = [] \<and> once then Some pairs'
              else capture_loop deadline once rest buffer' pending' pairs')"

definition capture_wait :: "settings \<Rightarrow> pyfloat res" where
  "capture_wait conn = py_float (get_or conn ''capture_wait_s'' (VInt 5))"

definition capture_request_response_pairs :: "settings \<Rightarrow> pyfloat \<Rightarrow> feed \<Rightarrow> frame_pair list option res" where
  "capture_request_response_pairs conn t0 feed =
     map_sum id (\<lambda>w. capture_loop (fl_add t0 w) (fl_le w fl_zero) feed [] [] []) (capture_wait conn)"

type_synonym probe_state = "byte list \<times> string \<times> (int, rtu_frame) pydict"

definition probe_drain :: "probe_state \<Rightarrow> probe_state" where
  "probe_drain st = (case st of (buffer, last_error, responses) \<Rightarrow>
     (case drain_response_frames buffer [] [] of (found, buffer', er) \<Rightarrow>
       (buffer', or_text er last_error, dupdate responses found)))"

fun probe_loop :: "pyfloat \<Rightarrow> bool \<Rightarrow> feed \<Rightarrow> probe_state \<Rightarrow> probe_state option" where
  "probe_loop deadline once [] st = None"
| "probe_loop deadline once ((clk, chunk) # rest) (buffer, last_error, responses) =
     (if \<not> fl_le clk deadline then Some (buffer, last_error, responses)
      else if chunk = [] then
        (let st = (if buffer \<noteq> [] then probe_drain (buffer, last_error, responses)
                   else (buffer, last_error, responses))
         in if once then Some st else probe_loop deadline once rest st)
      else probe_loop deadline once rest (probe_drain (buffer @ chunk, last_error, responses)))"

datatype probe_result = ProbeOk "rtu_frame list" | ProbeTimeout nat "byte list" string

definition probe_outcome :: "probe_state \<Rightarrow> probe_result" where
  "probe_outcome st = (case st of (buffer, last_error, responses) \<Rightarrow>
     if responses \<noteq> [] then ProbeOk (map (\<lambda>s. the (dget responses s)) (sort (map fst responses)))
     else ProbeTimeout (length buffer) (drop (length buffer - 80) buffer) last_error)"

text \<open>The keyword arguments of the serial port.\<close>

definition open_serial :: "settings \<Rightarrow> settings res" where
  "open_serial conn =
     rbind (py_int (get_or conn ''baudrate'' (VInt 9600))) (\<lambda>baud.
     rbind (py_int (get_or conn ''stopbits'' (VInt 1))) (\<lambda>stop.
     rbind (py_int (get_or conn ''bytesize'' (VInt 8))) (\<lambda>size.
     rbind (py_float (get_or conn ''timeout'' (VFloat (fl_ratio False 1 10)))) (\<lambda>tmo.
       Inr [(''port'', get_or conn ''port'' (VStr ''COM1'')), (''baudrate'', VInt baud),
            (''parity'', get_or conn ''parity'' (VStr ''N'')), (''stopbits'', VInt stop),
            (''bytesize'', VInt size), (''timeout'', VFloat tmo)]))))"

definition probe_responses :: "settings \<Rightarrow> pyfloat \<Rightarrow> feed \<Rightarrow> probe_result option res" where
  "probe_responses conn t0 feed =
     rbind (capture_wait conn) (\<lambda>w.
     rbind (open_serial conn) (\<lambda>port.
       Inr (map_option probe_outcome (probe_loop (fl_add t0 w) (fl_le w fl_zero) feed ([], [], [])))))"

section \<open>Tag results\<close>

type_synonym pair_key = "int \<times> string \<times> int"

definition latest_pairs :: "frame_pair list \<Rightarrow> (pair_key, frame_pair) pydict" where
  "latest_pairs pairs = fold (\<lambda>p d.
     (case dget tag_functions_by_code (fr_function (fst p)) of
        None \<Rightarrow> d
      | Some fn \<Rightarrow> dset (fr_slave (fst p), fn, the (fr_start_address (fst p))) p d)) pairs []"

fun tag_result_from_pairs ::
  "tag_spec \<Rightarrow> int \<Rightarrow> (pair_key, frame_pair) pydict \<Rightarrow> datetime \<Rightarrow> tag_result option" where
  "tag_result_from_pairs t unit [] now = None"
| "tag_result_from_pairs t unit (((u, fn, start), (request, response)) # rest) now =
     (if u \<noteq> unit \<or> fn \<noteq> tag_function t then tag_result_from_pairs t unit rest now
      else (case fr_registers response of
          None \<Rightarrow> tag_result_from_pairs t unit rest now
        | Some regs \<Rightarrow>
            (let quantity = (case fr_quantity request of Some q \<Rightarrow> q | None \<Rightarrow> int (length regs)) in
             if \<not> (start \<le> tag_address t \<and> tag_address t < start + quantity)
             then tag_result_from_pairs t unit rest now
             else Some (result_of t now (register_value regs (tag_address t - start) t)))))"

definition not_observed :: string where
  "not_observed = ''tag was not observed in captured Modbus RTU traffic''"

definition monitor_result ::
  "(pair_key, frame_pair) pydict \<Rightarrow> int \<Rightarrow> datetime \<Rightarrow> tag_spec \<Rightarrow> tag_result" where
  "monitor_result latest default_unit now t =
     (case tag_result_from_pairs t (unit_or (tag_unit_id t) default_unit) latest now of
        None \<Rightarrow> bad t now not_observed
      | Some r \<Rightarrow> r)"

definition tag_results_from_pairs ::
  "device_spec \<Rightarrow> tag_spec list \<Rightarrow> frame_pair list \<Rightarrow> datetime \<Rightarrow> tag_result list res" where
  "tag_results_from_pairs dev tags pairs now =
     map_sum id (\<lambda>default_unit. map (monitor_result (latest_pairs pairs) default_unit now) tags)
       (py_int (get_or (dev_connection dev) ''unit_id'' (VInt 1)))"

definition monitor_read_tags ::
  "bool \<Rightarrow> device_spec \<Rightarrow> tag_spec list \<Rightarrow> pyfloat \<Rightarrow> feed \<Rightarrow> datetime \<Rightarrow> tag_result list option res" where
  "monitor_read_tags connected dev tags t0 feed now =
     (if \<not> connected then Inl (Raise RuntimeError ''Modbus RTU monitor is not connected'')
      else rbind (capture_request_response_pairs (dev_connection dev) t0 feed) (\<lambda>captured.
        (case captured of
           None \<Rightarrow> Inr None
         | Some pairs \<Rightarrow> map_sum id Some (tag_results_from_pairs dev tags pairs now))))"

end
