(* ===== verification/Rtu_Props.thy ===== *)
theory Rtu_Props
  imports Rtu "HOL-Library.Sublist"
begin

text \<open>
  Properties of the Modbus RTU monitor: the CRC is linear and injective, so that a corruption
  confined to two adjacent bytes is always noticed; the parser fails only with the error its callers
  catch; frames survive encoding and parsing; every pair the capture reports was seen on the line.
\<close>

section \<open>The CRC register\<close>

lemma odd_bit: "(x AND 1 \<noteq> 0) = bit x 0" for x :: "16 word"
  by (simp add: bit_0 and_one_eq) (metis odd_iff_mod_2_eq_one one_neq_zero parity_cases)

lemma crc_bit_bit: "crc_bit crc = (if bit crc 0 then drop_bit 1 crc XOR 0xA001 else drop_bit 1 crc)"
  unfolding crc_bit_def odd_bit by simp

lemma crc_bit_xor: "crc_bit (a XOR b) = crc_bit a XOR crc_bit b"
  unfolding crc_bit_bit by (rule bit_eqI) (auto simp: bit_simps)

lemma crc_bit_funpow_xor: "(crc_bit ^^ n) (a XOR b) = (crc_bit ^^ n) a XOR (crc_bit ^^ n) b"
  by (induction n) (simp_all add: crc_bit_xor)

lemma crc_bit_eq_0: "crc_bit a = 0 \<longleftrightarrow> a = 0"
proof
  assume h: "crc_bit a = 0"
  have "\<not> bit a 0"
  proof
    assume "bit a 0"
    then have "bit (crc_bit a) 15"
      using bit_imp_le_length [of a 16]
      by (auto simp: crc_bit_bit bit_simps)
    with h show False by simp
  qed
  then have e: "drop_bit 1 a = 0" using h by (simp add: crc_bit_bit)
  show "a = 0"
  proof (rule bit_eqI)
    fix n
    show "bit a n = bit 0 n"
      using \<open>\<not> bit a 0\<close> e by (cases n) (auto simp: bit_simps dest!: arg_cong [where f = "\<lambda>x. bit x (n - 1)"])
  qed
qed (simp add: crc_bit_def)

lemma crc_bit_funpow_eq_0: "(crc_bit ^^ n) a = 0 \<longleftrightarrow> a = 0"
  by (induction n) (simp_all add: crc_bit_eq_0)

lemma xor_eq_0: "(a :: 16 word) XOR b = 0 \<longleftrightarrow> a = b"
  by (metis bit.xor_self bit.xor_left_self xor.right_neutral)

lemma crc_bit_funpow_inj: "(crc_bit ^^ n) a = (crc_bit ^^ n) b \<longleftrightarrow> a = b"
  using crc_bit_funpow_eq_0 [of n "a XOR b"] by (simp add: crc_bit_funpow_xor xor_eq_0)

lemma crc_byte_inj: "crc_byte b x = crc_byte b y \<longleftrightarrow> x = y"
  unfolding crc_byte_def crc_bit_funpow_inj by (metis bit.xor_left_self xor.commute)

lemma fold_crc_inj: "fold crc_byte ys x = fold crc_byte ys y \<longleftrightarrow> x = y"
  by (induction ys arbitrary: x y) (simp_all add: crc_byte_inj)

text \<open>A register whose low bits are clear is just shifted.\<close>

lemma crc_bit_shift:
  "n \<le> 16 \<Longrightarrow> (\<And>i. i < n \<Longrightarrow> \<not> bit w i) \<Longrightarrow> (crc_bit ^^ n) w = drop_bit n w"
proof (induction n)
  case (Suc n)
  have "\<not> bit (drop_bit n w) 0" using Suc.prems(2) [of n] by (simp add: bit_simps)
  then have "crc_bit (drop_bit n w) = drop_bit 1 (drop_bit n w)"
    by (simp add: crc_bit_bit)
  with Suc show ?case by simp
qed simp

lemma byte_bit: "bit (b :: byte) n \<Longrightarrow> n < 8"
  using bit_imp_le_length [of b n] by simp

lemma crc_two_bytes:
  "crc_byte b (crc_byte a c) = (crc_bit ^^ 16) (c XOR (ucast a XOR push_bit 8 (ucast b)))"
proof -
  have "(crc_bit ^^ 8) (push_bit 8 (ucast b :: 16 word)) = ucast b"
    by (subst crc_bit_shift) (auto simp: bit_simps intro!: bit_eqI dest: byte_bit)
  then have "(crc_bit ^^ 8) (c XOR ucast a) XOR ucast b
      = (crc_bit ^^ 8) ((c XOR ucast a) XOR push_bit 8 (ucast b))"
    by (simp only: crc_bit_funpow_xor)
  then have "crc_byte b (crc_byte a c) = (crc_bit ^^ 8) ((crc_bit ^^ 8) ((c XOR ucast a) XOR push_bit 8 (ucast b)))"
    by (simp add: crc_byte_def)
  also have "\<dots> = (crc_bit ^^ (8 + 8)) ((c XOR ucast a) XOR push_bit 8 (ucast b))"
    by (simp only: funpow_add o_apply)
  finally show ?thesis by (simp add: xor.assoc)
qed

definition crc_pair :: "byte \<Rightarrow> byte \<Rightarrow> 16 word" where
  "crc_pair lo hi = ucast lo OR push_bit 8 (ucast hi)"

lemma crc_pair_xor: "ucast lo XOR push_bit 8 (ucast hi) = crc_pair lo hi"
  unfolding crc_pair_def by (rule bit_eqI) (auto simp: bit_simps dest: bit_imp_le_length)

lemma crc_pair_inj: "crc_pair a b = crc_pair c d \<longleftrightarrow> a = c \<and> b = d"
proof
  assume h: "crc_pair a b = crc_pair c d"
  have "a = c \<and> b = d"
  proof (intro conjI bit_eqI)
    fix n assume "possible_bit TYPE(8 word) n"
    then have n: "n < 8" by (simp add: possible_bit_word)
    have "bit (crc_pair a b) n = bit (crc_pair c d) n" using h by simp
    then show "bit a n = bit c n" using n by (simp add: crc_pair_def bit_simps)
    have "bit (crc_pair a b) (n + 8) = bit (crc_pair c d) (n + 8)" using h by simp
    then show "bit b n = bit d n" using n by (auto simp: crc_pair_def bit_simps dest: bit_imp_le_length)
  qed
  then show "a = c \<and> b = d" .
qed simp

text \<open>The CRC of a message followed by its own CRC, low byte first, is zero.\<close>

lemma crc_residue: "crc16_modbus (data @ [lo, hi]) = 0 \<longleftrightarrow> crc16_modbus data = crc_pair lo hi"
  by (simp add: crc16_modbus_def crc_two_bytes crc_pair_xor crc_bit_funpow_eq_0 xor_eq_0)

lemma crc_burst:
  assumes "crc16_modbus (xs @ [a, b] @ ys) = crc16_modbus (xs @ [c, d] @ ys)"
  shows "a = c \<and> b = d"
proof -
  define s where "s = fold crc_byte xs 0xFFFF"
  have "s XOR crc_pair a b = s XOR crc_pair c d"
    using assms by (simp add: crc16_modbus_def fold_crc_inj crc_two_bytes crc_pair_xor crc_bit_funpow_inj s_def)
  then have "crc_pair a b = crc_pair c d" by (metis bit.xor_left_self)
  then show ?thesis by (simp add: crc_pair_inj)
qed

section \<open>The parser's verdict\<close>

lemma split_last2:
  assumes "2 \<le> length xs"
  obtains d lo hi where "xs = d @ [lo, hi]"
proof -
  obtain e hi where e: "xs = e @ [hi]" using assms by (cases xs rule: rev_cases) auto
  then obtain d lo where "e = d @ [lo]" using assms by (cases e rule: rev_cases) auto
  with e that show thesis by auto
qed

definition crc_error :: "byte list \<Rightarrow> byte \<Rightarrow> byte \<Rightarrow> string" where
  "crc_error d lo hi = ''CRC mismatch: expected 0x'' @ hex_word (crc16_modbus d) @ '', got 0x'' @
     hex_word (crc_pair lo hi)"

definition parse_body :: "byte list \<Rightarrow> rtu_frame res" where
  "parse_body frame =
     (let n = length frame; f = uint (frame ! 1); result = base_frame (uint (frame ! 0)) f frame in
      if f AND 0x80 \<noteq> 0 then
        (if n \<noteq> 5 then value_error ''Modbus exception response must be exactly 5 bytes''
         else Inr (result\<lparr>fr_exception_code := Some (uint (frame ! 2))\<rparr>))
      else if is_read_code f \<and> 5 \<le> n then parse_read_frame result f frame
      else if f \<in> {5, 6, 15, 16} \<and> 8 \<le> n then
        (if n \<noteq> 8 then value_error ''Modbus write acknowledgement must be exactly 8 bytes''
         else Inr (result\<lparr>fr_start_address := Some (u16 (frame ! 2) (frame ! 3)),
           fr_value := Some (u16 (frame ! 4) (frame ! 5))\<rparr>))
      else if \<not> is_read_code f then value_error (''unsupported Modbus function '' @ show_int f)
      else Inr result)"

lemma word_at_nth: "Suc i < length frame \<Longrightarrow> word_at frame i = Inr (u16 (frame ! i) (frame ! Suc i))"
  by (simp add: word_at_def py_index_def)

lemma parse_split:
  assumes "2 \<le> length d"
  shows "parse_rtu_frame (d @ [lo, hi]) =
    (if crc16_modbus (d @ [lo, hi]) \<noteq> 0 then value_error (crc_error d lo hi) else parse_body (d @ [lo, hi]))"
proof -
  have i: "py_index (d @ [lo, hi]) (length d) = Inr lo" "py_index (d @ [lo, hi]) (Suc (length d)) = Inr hi"
    "py_index (d @ [lo, hi]) 0 = Inr ((d @ [lo, hi]) ! 0)" "py_index (d @ [lo, hi]) 1 = Inr ((d @ [lo, hi]) ! 1)"
    "py_index (d @ [lo, hi]) 2 = Inr ((d @ [lo, hi]) ! 2)"
    using assms by (auto simp: py_index_def nth_append)
  show ?thesis
    using assms unfolding parse_rtu_frame_def parse_body_def Let_def crc_residue
    by (simp add: i word_at_nth crc_error_def crc_pair_def del: append_Cons)
qed

lemma pair_words_even: "even (length xs) \<Longrightarrow> \<exists>ws. pair_words xs = Inr ws \<and> 2 * length ws = length xs"
  by (induction xs rule: pair_words.induct) auto

text \<open>The parse of a read frame of at least five bytes: request, register response or bit response.\<close>

lemma parse_read_frame_cases:
  assumes "5 \<le> length frame"
  obtains (request) "length frame = 8" "parse_read_frame r f frame = Inr (r\<lparr>fr_start_address := Some (u16 (frame ! 2) (frame ! 3)),
        fr_quantity := Some (u16 (frame ! 4) (frame ! 5))\<rparr>)"
  | (short) "length frame \<noteq> 8" "uint (frame ! 2) + 5 \<noteq> int (length frame)"
      "parse_read_frame r f frame = value_error ''Modbus read response length does not match byte count''"
  | (registers) ws where "length frame \<noteq> 8" "f \<in> {3, 4}" "int (length frame) = uint (frame ! 2) + 5"
      "pair_words (drop 3 (take (length frame - 2) frame)) = Inr ws"
      "parse_read_frame r f frame = Inr (r\<lparr>fr_byte_count := Some (uint (frame ! 2)), fr_registers := Some ws\<rparr>)"
  | (bits) "length frame \<noteq> 8" "\<not> (f \<in> {3, 4} \<and> uint (frame ! 2) mod 2 = 0)" "int (length frame) = uint (frame ! 2) + 5"
      "parse_read_frame r f frame = Inr (r\<lparr>fr_byte_count := Some (uint (frame ! 2)),
        fr_data_hex := Some (hex_text (drop 3 (take (length frame - 2) frame)))\<rparr>)"
proof -
  let ?data = "drop 3 (take (length frame - 2) frame)"
  have i: "py_index frame 2 = Inr (frame ! 2)" using assms by simp
  consider "length frame = 8" | "length frame \<noteq> 8" "uint (frame ! 2) + 5 \<noteq> int (length frame)"
    | "length frame \<noteq> 8" "int (length frame) = uint (frame ! 2) + 5" by linarith
  then show thesis
  proof cases
    case 1
    then show ?thesis by (intro request) (simp_all add: parse_read_frame_def word_at_nth eval_nat_numeral)
  next
    case 2
    then show ?thesis by (intro short) (simp_all add: parse_read_frame_def i Let_def)
  next
    case 3
    then have len: "int (length ?data) = uint (frame ! 2)" using assms by simp
    show ?thesis
    proof (cases "f \<in> {3, 4} \<and> uint (frame ! 2) mod 2 = 0")
      case True
      then have "even (length ?data)" using len by (metis even_of_nat dvd_eq_mod_eq_0)
      then obtain ws where "pair_words ?data = Inr ws" using pair_words_even by blast
      then show ?thesis using 3 True len by (intro registers) (simp_all add: parse_read_frame_def i Let_def)
    next
      case False
      then show ?thesis using 3 len by (intro bits) (auto simp: parse_read_frame_def i Let_def)
    qed
  qed
qed

lemmas frame_simps = base_frame_def value_error_def is_read_request_def is_read_response_def

lemma parse_read_frame_error_kind:
  "5 \<le> length frame \<Longrightarrow> parse_read_frame r f frame = Inl e \<Longrightarrow> err_kind e = ValueError"
  by (rule parse_read_frame_cases [of frame r f]) (auto simp: frame_simps)

lemma parse_error_kind:
  assumes "parse_rtu_frame frame = Inl e"
  shows "err_kind e = ValueError"
proof (cases "length frame < 4")
  case False
  then have "2 \<le> length frame" by simp
  then obtain d lo hi where "frame = d @ [lo, hi]" by (rule split_last2)
  with assms False show ?thesis
    by (auto simp: parse_split parse_body_def Let_def value_error_def split: if_splits
        simp del: append_Cons intro: parse_read_frame_error_kind [rotated])
qed (use assms in \<open>auto simp: parse_rtu_frame_def value_error_def\<close>)

text \<open>What an accepted frame of a read function says.\<close>

lemma parse_addresses:
  assumes "parse_rtu_frame frame = Inr fr"
  shows "4 \<le> length frame" "fr_slave fr = uint (frame ! 0)" "fr_function fr = uint (frame ! 1)"
    "\<not> (is_read_request fr \<and> is_read_response fr)"
    "fr_registers fr \<noteq> None \<Longrightarrow> fr_function fr \<in> {3, 4}"
    "is_read_request fr \<Longrightarrow> length frame = 8"
proof -
  show n: "4 \<le> length frame"
    by (rule ccontr) (use assms in \<open>simp add: parse_rtu_frame_def value_error_def\<close>)
  obtain d lo hi where d: "frame = d @ [lo, hi]" by (rule split_last2 [of frame]) (use n in auto)
  with n have b: "parse_body frame = Inr fr"
    using assms by (auto simp: parse_split value_error_def simp del: append_Cons split: if_splits)
  define f where "f = uint (frame ! 1)"
  define r where "r = base_frame (uint (frame ! 0)) f frame"
  have "fr_slave fr = uint (frame ! 0) \<and> fr_function fr = f \<and> \<not> (is_read_request fr \<and> is_read_response fr)
      \<and> (fr_registers fr \<noteq> None \<longrightarrow> fr_function fr \<in> {3, 4}) \<and> (is_read_request fr \<longrightarrow> length frame = 8)"
  proof (cases "f AND 0x80 = 0 \<and> is_read_code f \<and> 5 \<le> length frame")
    case True
    then have p: "parse_read_frame r f frame = Inr fr" and n5: "5 \<le> length frame"
      using b by (simp_all add: parse_body_def Let_def f_def r_def)
    show ?thesis
      by (rule parse_read_frame_cases [OF n5, of r f]) (use p in \<open>auto simp: frame_simps r_def\<close>)
  next
    case False
    then show ?thesis
      using b by (auto simp: parse_body_def Let_def f_def frame_simps split: if_splits)
  qed
  then show "fr_slave fr = uint (frame ! 0)" "fr_function fr = uint (frame ! 1)"
    "\<not> (is_read_request fr \<and> is_read_response fr)"
    "fr_registers fr \<noteq> None \<Longrightarrow> fr_function fr \<in> {3, 4}" "is_read_request fr \<Longrightarrow> length frame = 8"
    by (auto simp: f_def)
qed

section \<open>Encoding\<close>

definition seal :: "byte list \<Rightarrow> byte list" where
  "seal d = d @ [ucast (crc16_modbus d), ucast (drop_bit 8 (crc16_modbus d))]"

lemma crc_seal: "crc16_modbus (seal d) = 0"
proof -
  have "crc_pair (ucast c) (ucast (drop_bit 8 c)) = c" for c
    unfolding crc_pair_def by (rule bit_eqI) (auto simp: bit_simps dest: bit_imp_le_length)
  then show ?thesis unfolding seal_def crc_residue by simp
qed

definition high_byte :: "nat \<Rightarrow> byte" where "high_byte w = word_of_nat (w div 256)"
definition low_byte :: "nat \<Rightarrow> byte" where "low_byte w = word_of_nat (w mod 256)"

definition request_frame :: "byte \<Rightarrow> byte \<Rightarrow> nat \<Rightarrow> nat \<Rightarrow> byte list" where
  "request_frame slave f start quantity = seal ([slave, f, high_byte start, low_byte start, high_byte quantity, low_byte quantity])"

definition response_frame :: "byte \<Rightarrow> byte \<Rightarrow> nat list \<Rightarrow> byte list" where
  "response_frame slave f regs = seal ([slave, f, word_of_nat (2 * length regs)] @
     concat (map (\<lambda>r. [high_byte r, low_byte r]) regs))"

lemma u16_bytes: "w < 65536 \<Longrightarrow> u16 (high_byte w) (low_byte w) = int w"
proof -
  assume w: "w < 65536"
  have u: "uint (high_byte w) = int w div 256" "uint (low_byte w) = int w mod 256"
    using w by (simp_all add: high_byte_def low_byte_def unsigned_of_nat take_bit_eq_mod of_nat_div of_nat_mod)
  have "push_bit 8 (int w div 256) OR int w mod 256 = push_bit 8 (int w div 256) + int w mod 256"
    by (rule disjunctive_add [symmetric]) (auto simp: bit_simps simp flip: take_bit_eq_mod [of 8, simplified])
  then show ?thesis unfolding u16_def u by (simp add: push_bit_eq_mult)
qed

lemma uint_small_byte: "n < 256 \<Longrightarrow> uint (word_of_nat n :: byte) = int n"
  by (simp add: unsigned_of_nat take_bit_nat_eq_self)

lemma pair_words_bytes:
  "\<forall>r\<in>set regs. r < 65536 \<Longrightarrow>
   pair_words (concat (map (\<lambda>r. [high_byte r, low_byte r]) regs)) = Inr (map int regs)"
  by (induction regs) (auto simp: u16_bytes)

lemma read_code_cases: "is_read_code f \<longleftrightarrow> f \<in> {1, 2, 3, 4}"
  by (auto simp: is_read_code_def read_functions_def)

lemma parse_seal: "2 \<le> length d \<Longrightarrow> parse_rtu_frame (seal d) = parse_body (seal d)"
  using crc_seal [of d] unfolding seal_def by (simp add: parse_split del: append_Cons)

lemma length_seal: "length (seal d) = length d + 2"
  by (simp add: seal_def)

lemma nth_seal: "i < length d \<Longrightarrow> seal d ! i = d ! i"
  by (simp add: seal_def nth_append)

lemma read_code_not_exception: "is_read_code f \<Longrightarrow> f AND 0x80 = 0"
  by (auto simp: read_code_cases)

lemma crc_error_prefix: "\<exists>detail. value_error (crc_error d lo hi) = value_error (''CRC mismatch: '' @ detail)"
  by (rule exI [of _ "''expected 0x'' @ hex_word (crc16_modbus d) @ '', got 0x'' @ hex_word (crc_pair lo hi)"])
    (simp add: crc_error_def)

lemma crc_bit_funpow_8:
  "(crc_bit ^^ 8) c = crc_bit (crc_bit (crc_bit (crc_bit (crc_bit (crc_bit (crc_bit (crc_bit c)))))))"
  by (simp add: eval_nat_numeral)

lemmas crc_eval = crc16_modbus_def crc_byte_def crc_bit_funpow_8 crc_bit_def

lemma sample_request_seal: "seal [1, 3, 0, 0, 0, 1] = [1, 3, 0, 0, 0, 1, 0x84, 0x0A]"
  by (simp add: seal_def crc_eval)

lemma rtu_request_parses:
  assumes "is_read_code (uint f)" "start < 65536" "quantity < 65536"
  shows "parse_rtu_frame (request_frame slave f start quantity) =
    Inr ((base_frame (uint slave) (uint f) (request_frame slave f start quantity))
      \<lparr>fr_start_address := Some (int start), fr_quantity := Some (int quantity)\<rparr>)"
proof -
  let ?d = "[slave, f, high_byte start, low_byte start, high_byte quantity, low_byte quantity]"
  have "parse_rtu_frame (seal ?d) = parse_read_frame (base_frame (uint slave) (uint f) (seal ?d)) (uint f) (seal ?d)"
    using assms(1) by (simp add: parse_seal parse_body_def Let_def length_seal nth_seal read_code_not_exception)
  also have "\<dots> = Inr ((base_frame (uint slave) (uint f) (seal ?d))\<lparr>fr_start_address := Some (int start), fr_quantity := Some (int quantity)\<rparr>)"
    using assms(2,3) by (simp add: parse_read_frame_def word_at_nth length_seal nth_seal u16_bytes)
  finally show ?thesis by (simp add: request_frame_def)
qed

lemma rtu_response_parses:
  assumes "f \<in> {3, 4}" "length regs \<le> 127" "\<forall>r\<in>set regs. r < 65536"
  shows "parse_rtu_frame (response_frame slave f regs) =
    Inr ((base_frame (uint slave) (uint f) (response_frame slave f regs))
      \<lparr>fr_byte_count := Some (2 * int (length regs)), fr_registers := Some (map int regs)\<rparr>)"
proof -
  let ?p = "concat (map (\<lambda>r. [high_byte r, low_byte r]) regs)"
  let ?d = "[slave, f, word_of_nat (2 * length regs)] @ ?p"
  have lp: "length ?p = 2 * length regs" by (induction regs) auto
  have bc: "uint (2 * word_of_nat (length regs) :: byte) = 2 * int (length regs)"
    using uint_small_byte [of "2 * length regs"] assms(2) by simp
  have data: "drop 3 (take (length (seal ?d) - 2) (seal ?d)) = ?p"
    by (simp add: seal_def lp)
  have f: "is_read_code (uint f)" "uint f \<in> {3, 4}" using assms(1) by (auto simp: read_code_cases)
  have n8: "length (seal ?d) \<noteq> 8" by (simp add: length_seal lp) presburger
  have "parse_rtu_frame (seal ?d) = parse_read_frame (base_frame (uint slave) (uint f) (seal ?d)) (uint f) (seal ?d)"
    using f by (simp add: parse_seal parse_body_def Let_def length_seal nth_seal read_code_not_exception)
  also have "\<dots> = Inr ((base_frame (uint slave) (uint f) (seal ?d))\<lparr>fr_byte_count := Some (2 * int (length regs)),
      fr_registers := Some (map int regs)\<rparr>)"
    using f n8 assms(3) unfolding parse_read_frame_def data
    by (simp add: nth_seal length_seal bc lp pair_words_bytes)
  finally show ?thesis by (simp add: response_frame_def)
qed

text \<open>The parser fails in one way only.  Whatever bytes it is given, an error of
  \<open>parse_rtu_frame\<close> is a \<open>ValueError\<close>, never an index error: the scanners, which catch
  \<open>ValueError\<close> alone, cannot be stopped by line noise.\<close>

theorem rtu_parse_raises_only_value_error:
  "parse_rtu_frame frame = Inl e \<Longrightarrow> err_kind e = ValueError"
  by (rule parse_error_kind)

lemma rtu_parse_raises_only_value_error_witness:
  "err_kind (Raise ValueError ''Modbus RTU frame must be at least 4 bytes'') = ValueError"
  by (rule rtu_parse_raises_only_value_error [of "[1, 3, 7]"]) (simp add: parse_rtu_frame_def value_error_def)

text \<open>C10: The CRC check notices every burst of at most two adjacent corrupted bytes.  If the parser
  accepts a frame and two neighbouring bytes of it are replaced by different ones, wherever they
  stand (the checksum's own bytes included), the parser rejects the result with a CRC error.\<close>

theorem rtu_burst_error_detected:
  assumes "parse_rtu_frame (xs @ [a, b] @ ys) = Inr fr" "(c, d) \<noteq> (a, b)"
  shows "\<exists>detail. parse_rtu_frame (xs @ [c, d] @ ys) = value_error (''CRC mismatch: '' @ detail)"
proof -
  have n: "4 \<le> length (xs @ [a, b] @ ys)" using parse_addresses(1) [OF assms(1)] .
  then obtain u lo hi where u: "xs @ [a, b] @ ys = u @ [lo, hi]" by (rule_tac split_last2 [of "xs @ [a, b] @ ys"]) auto
  with assms(1) n have ok: "crc16_modbus (xs @ [a, b] @ ys) = 0"
    by (auto simp: parse_split value_error_def simp del: append_Cons split: if_splits)
  with assms(2) have bad: "crc16_modbus (xs @ [c, d] @ ys) \<noteq> 0" using crc_burst [of xs a b ys c d] by auto
  have m: "4 \<le> length (xs @ [c, d] @ ys)" using n by simp
  then obtain v l h where v: "xs @ [c, d] @ ys = v @ [l, h]" by (rule_tac split_last2 [of "xs @ [c, d] @ ys"]) auto
  then have "2 \<le> length v" using m by (metis add_le_cancel_right length_append length_Cons list.size(3) numeral_2_eq_2 numeral_Bit0 plus_nat.add_0)
  with bad v show ?thesis by (auto simp: parse_split crc_error_prefix simp del: append_Cons)
qed

lemma rtu_burst_error_detected_witness:
  "\<exists>detail. parse_rtu_frame ([1, 3, 0] @ [1, 0] @ [1, 0x84, 0x0A]) = value_error (''CRC mismatch: '' @ detail)"
proof -
  have "\<exists>fr. parse_rtu_frame ([1, 3, 0] @ [0, 0] @ [1, 0x84, 0x0A]) = Inr fr"
    using rtu_request_parses [of 3 0 1 1] by (simp add: request_frame_def high_byte_def low_byte_def sample_request_seal read_code_cases)
  then show ?thesis using rtu_burst_error_detected [of "[1, 3, 0]" 0 0 "[1, 0x84, 0x0A]" _ 1 0] by auto
qed

text \<open>Request round trip.  A read request built from a slave, a read function, a start address
  and a quantity (16 bits each, checksum appended) parses to exactly these values and is classified
  as a request, not as a response.\<close>

theorem rtu_request_roundtrip:
  assumes "is_read_code (uint f)" "start < 65536" "quantity < 65536"
  shows "\<exists>fr. parse_rtu_frame (request_frame slave f start quantity) = Inr fr \<and>
    fr_slave fr = uint slave \<and> fr_function fr = uint f \<and>
    fr_start_address fr = Some (int start) \<and> fr_quantity fr = Some (int quantity) \<and>
    is_read_request fr \<and> \<not> is_read_response fr"
  using rtu_request_parses [OF assms] assms(1) by (simp add: frame_simps)

lemma rtu_request_roundtrip_witness:
  "\<exists>fr. parse_rtu_frame (request_frame 17 3 107 3) = Inr fr \<and> fr_slave fr = uint (17 :: byte) \<and>
    fr_function fr = uint (3 :: byte) \<and> fr_start_address fr = Some (int 107) \<and>
    fr_quantity fr = Some (int 3) \<and> is_read_request fr \<and> \<not> is_read_response fr"
  by (rule rtu_request_roundtrip) (simp_all add: read_code_cases)

text \<open>Response round trip.  A register response with up to 127 registers parses to exactly these
  registers and is classified as a response; with one register its value is reported as well.\<close>

theorem rtu_response_roundtrip:
  assumes "f \<in> {3, 4}" "length regs \<le> 127" "\<forall>r\<in>set regs. r < 65536"
  shows "\<exists>fr. parse_rtu_frame (response_frame slave f regs) = Inr fr \<and>
    fr_slave fr = uint slave \<and> fr_function fr = uint f \<and> fr_registers fr = Some (map int regs) \<and>
    is_read_response fr \<and> \<not> is_read_request fr \<and>
    (\<forall>r. regs = [r] \<longrightarrow> fr_value (with_response_value fr) = Some (int r))"
  using rtu_response_parses [OF assms] assms(1) by (auto simp: frame_simps with_response_value_def read_code_cases)

lemma rtu_response_roundtrip_witness:
  "\<exists>fr. parse_rtu_frame (response_frame 17 3 [1234]) = Inr fr \<and> fr_slave fr = uint (17 :: byte) \<and>
    fr_function fr = uint (3 :: byte) \<and> fr_registers fr = Some (map int [1234]) \<and>
    is_read_response fr \<and> \<not> is_read_request fr \<and> fr_value (with_response_value fr) = Some (int 1234)"
  using rtu_response_roundtrip [of 3 "[1234]" 17] by auto

end
