(* ===== verification/Rtu_Stream.thy ===== *)
theory Rtu_Stream
  imports Rtu_Props
begin

text \<open>
  Properties of the monitor's capture: every pair it reports stands in the traffic it was fed, its
  buffers stay bounded, it returns when the clock passes the deadline, and the tag results read
  values only out of matching pairs.
\<close>

section \<open>Traffic\<close>

text \<open>A frame was seen in a stream when some stretch of the stream parses to it.\<close>

definition seen :: "byte list \<Rightarrow> rtu_frame \<Rightarrow> bool" where
  "seen stream fr \<longleftrightarrow> (\<exists>xs w zs. stream = xs @ w @ zs \<and> parse_rtu_frame w = Inr fr)"

text \<open>A pair is backed by a stream that holds a read request and, after it, a read response of the
  same slave and function.\<close>

definition backed :: "byte list \<Rightarrow> frame_pair \<Rightarrow> bool" where
  "backed stream p \<longleftrightarrow> (\<exists>xs w1 ys w2 zs resp. stream = xs @ w1 @ ys @ w2 @ zs \<and>
     parse_rtu_frame w1 = Inr (fst p) \<and> parse_rtu_frame w2 = Inr resp \<and>
     is_read_request (fst p) \<and> is_read_response resp \<and> frame_key (fst p) = frame_key resp \<and>
     snd p = with_response_value resp)"

definition pending_ok :: "byte list \<Rightarrow> pending \<Rightarrow> bool" where
  "pending_ok stream pend \<longleftrightarrow>
     (\<forall>(k, fr) \<in> set pend. k = frame_key fr \<and> is_read_request fr \<and> seen stream fr)"

lemma seen_append: "seen c fr \<Longrightarrow> seen (c @ x) fr"
  unfolding seen_def by (metis append.assoc)

lemma backed_append: "backed c p \<Longrightarrow> backed (c @ x) p"
  unfolding backed_def by (metis append.assoc)

lemma pending_ok_append: "pending_ok c p \<Longrightarrow> pending_ok (c @ x) p"
  by (auto simp: pending_ok_def seen_append)

lemma pending_ok_Nil [simp]: "pending_ok c []"
  by (simp add: pending_ok_def)

lemma pending_ok_dset: "pending_ok c p \<Longrightarrow> is_read_request fr \<Longrightarrow> seen c fr \<Longrightarrow> pending_ok c (dset (frame_key fr) fr p)"
  using set_dset_subset [of "frame_key fr" fr p] by (auto simp: pending_ok_def)

lemma pending_ok_ddel: "pending_ok c p \<Longrightarrow> pending_ok c (ddel k p)"
  using set_ddel_subset [of k p] by (auto simp: pending_ok_def)

lemma take_frame_ok:
  assumes p: "pending_ok c p" and q: "list_all (backed c) q" and fr: "parse_rtu_frame w = Inr fr"
    and t: "take_frame fr p q = (p', q')"
  shows "pending_ok (c @ gap @ w) p' \<and> list_all (backed (c @ gap @ w)) q'"
proof -
  have up: "pending_ok (c @ gap @ w) p" "list_all (backed (c @ gap @ w)) q"
    using p q backed_append by (auto simp: pending_ok_append list_all_iff)
  have s: "seen (c @ gap @ w) fr" unfolding seen_def using fr by (metis append.assoc append_Nil2)
  show ?thesis
  proof (cases "\<not> is_read_request fr \<and> is_read_response fr \<and> dget p (frame_key fr) \<noteq> None")
    case False
    then show ?thesis using t up s by (auto simp: take_frame_def pending_ok_dset split: if_splits option.splits)
  next
    case True
    then obtain req where r: "dget p (frame_key fr) = Some req" by auto
    then have "frame_key req = frame_key fr" "is_read_request req" "seen c req"
      using p by (auto simp: pending_ok_def dest!: dget_in_set)
    moreover from this obtain xs w1 ys where "c = xs @ w1 @ ys" "parse_rtu_frame w1 = Inr req"
      by (auto simp: seen_def)
    ultimately have "backed (c @ gap @ w) (req, with_response_value fr)"
      unfolding backed_def using fr True
      by (intro exI [of _ xs] exI [of _ w1] exI [of _ "ys @ gap"] exI [of _ w] exI [of _ "[]"] exI [of _ fr]) simp
    then show ?thesis using t up r True by (auto simp: take_frame_def pending_ok_ddel)
  qed
qed

lemma window_split:
  assumes "s \<le> e" "e \<le> length b"
  shows "b = take s b @ window b s e @ drop e b"
  by (metis append_take_drop_id assms(1) drop_drop le_add_diff_inverse2 window_def)

lemma trim_suffix: "\<exists>a. b = a @ trim_buffer b"
  by (simp add: trim_buffer_def) (metis append_take_drop_id append_Nil)

lemma trim_length: "length (trim_buffer b) \<le> 512"
  by (simp add: trim_buffer_def)

lemma drain_pairs_stop:
  "fst (first_valid_frame_span b) = None \<Longrightarrow> drain_request_response_pairs b p q = (q, trim_buffer b, p)"
  by (simp add: drain_request_response_pairs.simps [of b] trim_buffer_def)

lemma drain_pairs_step:
  assumes "fst (first_valid_frame_span b) = Some (fr, s, e)" "take_frame fr p q = (p1, q1)"
  shows "drain_request_response_pairs b p q = drain_request_response_pairs (drop e b) p1 q1"
proof -
  have "b \<noteq> []" using assms(1) valid_scan.empty_scan by auto
  then show ?thesis using assms by (simp add: drain_request_response_pairs.simps [of b])
qed

lemma drain_pairs_ok:
  "drain_request_response_pairs b p q = (q', b', p') \<Longrightarrow> pending_ok c p \<Longrightarrow> list_all (backed c) q \<Longrightarrow>
   \<exists>c'. c' @ b' = c @ b \<and> pending_ok c' p' \<and> list_all (backed c') q'"
proof (induction b p q arbitrary: c rule: drain_request_response_pairs.induct)
  case (1 b p q)
  show ?case
  proof (cases "fst (first_valid_frame_span b)")
    case None
    obtain a where a: "b = a @ trim_buffer b" using trim_suffix by blast
    have "q' = q" "b' = trim_buffer b" "p' = p" using 1(2) drain_pairs_stop [OF None] by auto
    moreover have "(c @ a) @ trim_buffer b = c @ b" using a by simp
    ultimately show ?thesis using 1(3,4) pending_ok_append backed_append by (metis list.pred_mono_strong)
  next
    case (Some x)
    then obtain fr s e where f: "fst (first_valid_frame_span b) = Some (fr, s, e)" by (cases x) auto
    obtain p1 q1 where t: "take_frame fr p q = (p1, q1)" by fastforce
    note v = valid_scan.found [OF f]
    have b: "b = take s b @ window b s e @ drop e b" by (rule window_split) (use v in auto)
    have ne: "b \<noteq> []" using f valid_scan.empty_scan by auto
    have "pending_ok (c @ take s b @ window b s e) p1 \<and> list_all (backed (c @ take s b @ window b s e)) q1"
      using take_frame_ok 1(3,4) v t by blast
    then obtain c' where "c' @ b' = (c @ take s b @ window b s e) @ drop e b"
        "pending_ok c' p'" "list_all (backed c') q'"
      using 1(1) [OF ne f refl refl t [symmetric]] 1(2) drain_pairs_step [OF f t] by metis
    then show ?thesis using b by (metis append.assoc)
  qed
qed

lemma drain_pairs_buffer: "drain_request_response_pairs b p q = (q', b', p') \<Longrightarrow> length b' \<le> 512"
proof (induction b p q rule: drain_request_response_pairs.induct)
  case (1 b p q)
  show ?case
  proof (cases "fst (first_valid_frame_span b)")
    case None
    then show ?thesis using 1(2) drain_pairs_stop [OF None] trim_length by auto
  next
    case (Some x)
    then obtain fr s e where f: "fst (first_valid_frame_span b) = Some (fr, s, e)" by (cases x) auto
    obtain p1 q1 where t: "take_frame fr p q = (p1, q1)" by fastforce
    have ne: "b \<noteq> []" using f valid_scan.empty_scan by auto
    show ?thesis using 1(1) [OF ne f refl refl t [symmetric]] 1(2) drain_pairs_step [OF f t] by metis
  qed
qed

section \<open>The capture loop\<close>

definition feed_bytes :: "feed \<Rightarrow> byte list" where
  "feed_bytes feed = concat (map snd feed)"

lemma feed_bytes_Cons [simp]: "feed_bytes ((clk, chunk) # rest) = chunk @ feed_bytes rest"
  by (simp add: feed_bytes_def)

lemma list_all_backed_append: "list_all (backed c) q \<Longrightarrow> list_all (backed (c @ x)) q"
  by (auto simp: list_all_iff backed_append)

lemma capture_loop_ok:
  "capture_loop dl once feed b p q = Some r \<Longrightarrow> pending_ok c p \<Longrightarrow> list_all (backed (c @ b)) q \<Longrightarrow>
   list_all (backed (c @ b @ feed_bytes feed)) r"
proof (induction dl once feed b p q arbitrary: c rule: capture_loop.induct)
  case (2 dl once clk chunk rest b p q)
  obtain found b1 p1 where d: "drain_request_response_pairs (b @ chunk) p [] = (found, b1, p1)"
    using prod_cases3 by blast
  obtain c1 where c1: "c1 @ b1 = c @ b @ chunk" "pending_ok c1 p1" "list_all (backed c1) found"
    using drain_pairs_ok [OF d 2(3)] by auto
  have q: "list_all (backed (c1 @ b1)) (q @ found)"
    using list_all_backed_append [OF c1(3), of b1] list_all_backed_append [OF 2(4), of chunk] c1(1) by simp
  show ?case
  proof (cases "fl_le clk dl")
    case False
    then show ?thesis using 2(2) list_all_backed_append [OF 2(4)] by simp
  next
    case True
    show ?thesis
    proof (cases "chunk = [] \<and> once")
      case True
      then have "r = q @ found" using 2(2) d \<open>fl_le clk dl\<close> by simp
      then show ?thesis using list_all_backed_append [OF q, of "feed_bytes rest"] c1(1) by simp
    next
      case False
      then have "capture_loop dl once rest b1 p1 (q @ found) = Some r"
        using 2(2) d \<open>fl_le clk dl\<close> by (auto split: if_splits)
      then have "list_all (backed (c1 @ b1 @ feed_bytes rest)) r"
        using 2(1) [of "(found, b1, p1)" found "(b1, p1)" b1 p1 "q @ found"] c1 q True False d by auto
      then show ?thesis using c1(1) by (metis append.assoc feed_bytes_Cons)
    qed
  qed
qed simp

lemma capture_loop_returns:
  "\<exists>(clk, chunk) \<in> set feed. \<not> fl_le clk dl \<Longrightarrow> \<exists>r. capture_loop dl once feed b p q = Some r"
  by (induction dl once feed b p q rule: capture_loop.induct) (auto simp: Let_def split: prod.splits)

lemma capture_backed:
  assumes "capture_request_response_pairs conn t0 feed = Inr (Some pairs)"
  shows "list_all (backed (feed_bytes feed)) pairs"
proof -
  obtain w where "capture_loop (fl_add t0 w) (fl_le w fl_zero) feed [] [] [] = Some pairs"
    using assms by (cases "capture_wait conn") (auto simp: capture_request_response_pairs_def)
  from capture_loop_ok [OF this, of "[]"] show ?thesis by simp
qed

section \<open>Frames found at the head of the buffer\<close>

text \<open>No proper prefix of at least four bytes passes the CRC check by accident.\<close>

definition no_early_frame :: "byte list \<Rightarrow> bool" where
  "no_early_frame frame \<longleftrightarrow> list_all (\<lambda>k. crc16_modbus (take k frame) \<noteq> 0) [4..<length frame]"

lemma scan_windows_append:
  "\<forall>(s, e)\<in>set ws. \<exists>er. parse_rtu_frame (window data s e) = Inl er \<Longrightarrow>
   fst (scan_windows accept data le (ws @ vs)) = fst (scan_windows accept data le' vs)"
proof (induction ws arbitrary: le le')
  case Nil
  have "fst (scan_windows accept data le vs) = fst (scan_windows accept data le' vs)" for le le'
    by (induction vs arbitrary: le le') (auto split: sum.splits)
  then show ?case by simp
next
  case (Cons w ws)
  then show ?case by (cases w) auto
qed

lemma windows_head:
  assumes "4 \<le> e" "e \<le> n"
  shows "\<exists>vs. windows n = map (Pair 0) [4..<e] @ (0, e) # vs"
proof -
  have n: "[0..<n] = 0 # [1..<n]" using assms by (simp add: upt_rec)
  have "[4..<n + 1] = [4..<e] @ e # [Suc e..<n + 1]"
    using assms upt_add_eq_append [of 4 e "n + 1 - e"] by (simp add: upt_conv_Cons del: upt_Suc)
  then show ?thesis unfolding windows_def n by (simp del: upt_Suc)
qed

lemma parse_early:
  assumes "4 \<le> length w" "crc16_modbus w \<noteq> 0"
  shows "\<exists>er. parse_rtu_frame w = Inl er"
proof -
  have "2 \<le> length w" using assms by simp
  then obtain d lo hi where "w = d @ [lo, hi]" by (rule split_last2)
  with assms show ?thesis by (auto simp: parse_split value_error_def simp del: append_Cons)
qed

lemma scan_head:
  assumes "no_early_frame frame" "parse_rtu_frame frame = Inr fr"
  shows "fst (first_valid_frame_span (frame @ rest)) = Some (fr, 0, length frame)"
proof -
  let ?e = "length frame"
  have e: "4 \<le> ?e" using parse_addresses(1) [OF assms(2)] .
  then obtain vs where vs: "windows (length (frame @ rest)) = map (Pair 0) [4..<?e] @ (0, ?e) # vs"
    using windows_head [of ?e "length (frame @ rest)"] by auto
  have early: "\<forall>(s, e)\<in>set (map (Pair 0) [4..<?e]). \<exists>er. parse_rtu_frame (window (frame @ rest) s e) = Inl er"
    using assms(1) by (auto simp: no_early_frame_def list_all_iff window_def intro!: parse_early)
  have "fst (first_valid_frame_span (frame @ rest))
      = fst (scan_windows (\<lambda>fr. True) (frame @ rest) [] ((0, ?e) # vs))"
    unfolding first_valid_frame_span_def vs by (rule scan_windows_append [OF early])
  then show ?thesis by (simp add: window_def assms(2))
qed

lemma drain_head:
  assumes "no_early_frame frame" "parse_rtu_frame frame = Inr fr" "take_frame fr p q = (p1, q1)"
  shows "drain_request_response_pairs (frame @ rest) p q = drain_request_response_pairs rest p1 q1"
  using drain_pairs_step [OF scan_head [OF assms(1,2)] assms(3)] by simp

section \<open>A clean transcript\<close>

text \<open>A master's read of holding or input registers and the slave's answer, as bytes and as the pair
  of frames the monitor reports.\<close>

record exchange =
  ex_slave :: byte
  ex_function :: byte
  ex_start :: nat
  ex_registers :: "nat list"

definition ex_request :: "exchange \<Rightarrow> byte list" where
  "ex_request x = request_frame (ex_slave x) (ex_function x) (ex_start x) (length (ex_registers x))"

definition ex_response :: "exchange \<Rightarrow> byte list" where
  "ex_response x = response_frame (ex_slave x) (ex_function x) (ex_registers x)"

definition exchange_ok :: "exchange \<Rightarrow> bool" where
  "exchange_ok x \<longleftrightarrow> ex_function x \<in> {3, 4} \<and> ex_start x < 65536 \<and> length (ex_registers x) \<le> 125 \<and>
     list_all (\<lambda>r. r < 65536) (ex_registers x) \<and> no_early_frame (ex_request x) \<and> no_early_frame (ex_response x)"

definition exchange_pair :: "exchange \<Rightarrow> frame_pair" where
  "exchange_pair x =
     ((base_frame (uint (ex_slave x)) (uint (ex_function x)) (ex_request x))
        \<lparr>fr_start_address := Some (int (ex_start x)), fr_quantity := Some (int (length (ex_registers x)))\<rparr>,
      with_response_value ((base_frame (uint (ex_slave x)) (uint (ex_function x)) (ex_response x))
        \<lparr>fr_byte_count := Some (2 * int (length (ex_registers x))),
         fr_registers := Some (map int (ex_registers x))\<rparr>))"

lemma drain_exchange:
  assumes "exchange_ok x"
  shows "drain_request_response_pairs (ex_request x @ ex_response x @ rest) [] q =
    drain_request_response_pairs rest [] (q @ [exchange_pair x])"
proof -
  let ?req = "fst (exchange_pair x)"
  let ?rsp = "(base_frame (uint (ex_slave x)) (uint (ex_function x)) (ex_response x))
        \<lparr>fr_byte_count := Some (2 * int (length (ex_registers x))), fr_registers := Some (map int (ex_registers x))\<rparr>"
  have f: "is_read_code (uint (ex_function x))" using assms by (auto simp: exchange_ok_def read_code_cases)
  have req: "parse_rtu_frame (ex_request x) = Inr ?req"
    using assms f rtu_request_parses [of "ex_function x" "ex_start x" "length (ex_registers x)" "ex_slave x"]
    by (simp add: exchange_ok_def ex_request_def exchange_pair_def)
  have rsp: "parse_rtu_frame (ex_response x) = Inr ?rsp"
    using assms rtu_response_parses [of "ex_function x" "ex_registers x" "ex_slave x"]
    by (simp add: exchange_ok_def ex_response_def list_all_iff)
  have t1: "take_frame ?req [] q = ([(frame_key ?req, ?req)], q)"
    using f by (simp add: take_frame_def frame_simps exchange_pair_def)
  have t2: "take_frame ?rsp [(frame_key ?req, ?req)] q = ([], q @ [exchange_pair x])"
    using f by (simp add: take_frame_def frame_simps exchange_pair_def frame_key_def)
  show ?thesis
    using drain_head [OF _ req t1] drain_head [OF _ rsp t2] assms by (simp add: exchange_ok_def)
qed

lemma drain_transcript:
  "list_all exchange_ok xs \<Longrightarrow>
   drain_request_response_pairs (concat (map (\<lambda>x. ex_request x @ ex_response x) xs)) [] q = (q @ map exchange_pair xs, [], [])"
  by (induction xs arbitrary: q) (simp_all add: drain_exchange drain_request_response_pairs.simps [of "[]"])

definition sample_exchange :: exchange where
  "sample_exchange = \<lparr>ex_slave = 1, ex_function = 3, ex_start = 0, ex_registers = [1234]\<rparr>"

lemma sample_exchange_ok: "exchange_ok sample_exchange"
proof -
  have "ex_response sample_exchange = [1, 3, 2, 4, 0xD2, 0x3A, 0xD9]"
    by (simp add: sample_exchange_def ex_response_def response_frame_def high_byte_def low_byte_def seal_def crc_eval)
  moreover have "ex_request sample_exchange = [1, 3, 0, 0, 0, 1, 0x84, 0x0A]"
    by (simp add: sample_exchange_def ex_request_def request_frame_def high_byte_def low_byte_def sample_request_seal)
  ultimately show ?thesis
    unfolding exchange_ok_def no_early_frame_def
    by (simp add: sample_exchange_def crc_eval)
qed

lemma sample_capture:
  "capture_request_response_pairs [(''capture_wait_s'', VInt 0)] fl_zero
     [(fl_zero, ex_request sample_exchange @ ex_response sample_exchange), (fl_zero, [])]
   = Inr (Some [exchange_pair sample_exchange])"
  using drain_transcript [of "[sample_exchange]" "[]"] sample_exchange_ok
  by (simp add: capture_request_response_pairs_def capture_wait_def get_or_def int_to_float_def fl_zero_def fl_eval
      drain_request_response_pairs.simps [of "[]"])

lemma sample_feed_bytes:
  "feed_bytes [(fl_zero, ex_request sample_exchange @ ex_response sample_exchange), (fl_zero, [])] =
   ex_request sample_exchange @ ex_response sample_exchange"
  by (simp add: feed_bytes_def)

section \<open>Tag results\<close>

lemma latest_pairs_snoc:
  "latest_pairs (ps @ [p]) = (case dget tag_functions_by_code (fr_function (fst p)) of
     None \<Rightarrow> latest_pairs ps
   | Some fn \<Rightarrow> dset (fr_slave (fst p), fn, the (fr_start_address (fst p))) p (latest_pairs ps))"
  by (simp add: latest_pairs_def split: option.split)

lemma latest_pairs_member:
  "((u, fn, start), p) \<in> set (latest_pairs ps) \<Longrightarrow>
   p \<in> set ps \<and> u = fr_slave (fst p) \<and> dget tag_functions_by_code (fr_function (fst p)) = Some fn \<and>
   start = the (fr_start_address (fst p))"
proof (induction ps rule: rev_induct)
  case (snoc q ps)
  then show ?case
    using set_dset_subset [of _ q "latest_pairs ps"]
    by (fastforce simp: latest_pairs_snoc split: option.splits)
qed (simp add: latest_pairs_def)

definition entry_hit :: "tag_spec \<Rightarrow> int \<Rightarrow> pair_key \<times> frame_pair \<Rightarrow> bool" where
  "entry_hit t unit entry = (case entry of ((u, fn, start), (request, response)) \<Rightarrow>
     u = unit \<and> fn = tag_function t \<and> (case fr_registers response of None \<Rightarrow> False | Some regs \<Rightarrow>
       start \<le> tag_address t \<and>
       tag_address t < start + (case fr_quantity request of Some q \<Rightarrow> q | None \<Rightarrow> int (length regs))))"

lemma tag_result_Cons:
  "tag_result_from_pairs t unit (((u, fn, start), (request, response)) # rest) now =
     (if entry_hit t unit ((u, fn, start), (request, response))
      then Some (result_of t now (register_value (the (fr_registers response)) (tag_address t - start) t))
      else tag_result_from_pairs t unit rest now)"
  by (cases "fr_registers response"; cases "fr_quantity request")
    (simp_all add: entry_hit_def Let_def)

lemma tag_result_hit:
  "tag_result_from_pairs t unit latest now = Some r \<Longrightarrow>
   \<exists>k p. (k, p) \<in> set latest \<and> entry_hit t unit (k, p) \<and>
     r = result_of t now (register_value (the (fr_registers (snd p))) (tag_address t - snd (snd k)) t)"
proof (induction latest)
  case (Cons entry latest)
  obtain u fn start request response where e: "entry = ((u, fn, start), (request, response))"
    by (metis prod.exhaust)
  show ?case
  proof (cases "entry_hit t unit entry")
    case True
    with Cons(2) e show ?thesis
      by (intro exI [of _ "(u, fn, start)"] exI [of _ "(request, response)"]) (simp add: tag_result_Cons del: tag_result_from_pairs.simps)
  next
    case False
    then have "tag_result_from_pairs t unit latest now = Some r"
      using Cons(2) e by (simp add: tag_result_Cons del: tag_result_from_pairs.simps)
    then obtain k p where "(k, p) \<in> set latest" "entry_hit t unit (k, p)"
        "r = result_of t now (register_value (the (fr_registers (snd p))) (tag_address t - snd (snd k)) t)"
      using Cons(1) by blast
    then show ?thesis by (intro exI [of _ k] exI [of _ p]) simp
  qed
qed simp

lemma tag_result_some:
  "tag_result_from_pairs t unit latest now = Some r \<Longrightarrow>
   \<exists>start request response regs. ((unit, tag_function t, start), (request, response)) \<in> set latest \<and>
     fr_registers response = Some regs \<and> start \<le> tag_address t \<and>
     (\<forall>q. fr_quantity request = Some q \<longrightarrow> tag_address t < start + q) \<and>
     r = result_of t now (register_value regs (tag_address t - start) t)"
  by (drule tag_result_hit) (fastforce simp: entry_hit_def split: option.splits)

text \<open>The unit a tag is read from: its own unless it has none or zero, then the device's.\<close>

definition own_unit :: "int \<Rightarrow> tag_spec \<Rightarrow> int" where
  "own_unit dflt t = (if tag_unit_id t = None \<or> tag_unit_id t = Some 0 then dflt else the (tag_unit_id t))"

definition observes :: "frame_pair \<Rightarrow> int \<Rightarrow> tag_spec \<Rightarrow> bool" where
  "observes p unit t \<longleftrightarrow> (case (fr_start_address (fst p), fr_quantity (fst p)) of
     (Some start, Some q) \<Rightarrow> fr_slave (fst p) = unit \<and>
       (fr_function (fst p), tag_function t) \<in>
         {(1, ''coil''), (2, ''discrete_input''), (3, ''holding_register''), (4, ''input_register'')} \<and>
       start \<le> tag_address t \<and> tag_address t < start + q
   | _ \<Rightarrow> False)"

definition pair_value :: "frame_pair \<Rightarrow> tag_spec \<Rightarrow> pyval res" where
  "pair_value p t = register_value (the (fr_registers (snd p)))
     (tag_address t - the (fr_start_address (fst p))) t"

lemma backed_request: "backed c p \<Longrightarrow> \<exists>a q. fr_start_address (fst p) = Some a \<and> fr_quantity (fst p) = Some q"
  by (auto simp: backed_def is_read_request_def)

lemma with_response_value_simps [simp]:
  "fr_registers (with_response_value fr) = fr_registers fr"
  "fr_slave (with_response_value fr) = fr_slave fr" "fr_function (with_response_value fr) = fr_function fr"
  by (simp_all add: with_response_value_def split: option.splits list.splits)

lemma backed_registers:
  assumes "backed c p" "fr_registers (snd p) \<noteq> None"
  shows "fr_function (fst p) \<in> {3, 4}"
proof -
  obtain w resp where "parse_rtu_frame w = Inr resp" "frame_key (fst p) = frame_key resp"
    "snd p = with_response_value resp" using assms(1) by (auto simp: backed_def)
  with assms(2) show ?thesis using parse_addresses(5) [of w resp] by (auto simp: frame_key_def)
qed

lemma own_unit_eq: "own_unit dflt t = unit_or (tag_unit_id t) dflt"
  by (simp add: own_unit_def unit_or_def split: option.split)

lemma function_name_iff:
  "dget tag_functions_by_code c = Some f \<longleftrightarrow>
     (c, f) \<in> {(1, ''coil''), (2, ''discrete_input''), (3, ''holding_register''), (4, ''input_register'')}"
  by (auto simp: tag_functions_by_code_def)

lemma observes_iff:
  "fr_start_address (fst p) = Some a \<Longrightarrow> fr_quantity (fst p) = Some q \<Longrightarrow>
   observes p unit t \<longleftrightarrow> fr_slave (fst p) = unit \<and> dget tag_functions_by_code (fr_function (fst p)) = Some (tag_function t)
     \<and> a \<le> tag_address t \<and> tag_address t < a + q"
  by (simp only: observes_def function_name_iff option.case prod.case)

lemma monitor_result_cases:
  assumes "list_all (backed c) pairs"
  shows "monitor_result (latest_pairs pairs) dflt now t = bad t now not_observed \<or>
    (\<exists>p\<in>set pairs. observes p (unit_or (tag_unit_id t) dflt) t \<and> fr_registers (snd p) \<noteq> None \<and>
       monitor_result (latest_pairs pairs) dflt now t = result_of t now (pair_value p t))"
proof (cases "tag_result_from_pairs t (unit_or (tag_unit_id t) dflt) (latest_pairs pairs) now")
  case (Some r)
  then obtain start request response regs where
    m: "((unit_or (tag_unit_id t) dflt, tag_function t, start), (request, response)) \<in> set (latest_pairs pairs)"
    and r: "fr_registers response = Some regs" "start \<le> tag_address t"
      "\<forall>q. fr_quantity request = Some q \<longrightarrow> tag_address t < start + q"
      "r = result_of t now (register_value regs (tag_address t - start) t)"
    using tag_result_some by blast
  note l = latest_pairs_member [OF m]
  then have "backed c (request, response)" using assms by (simp add: list_all_iff)
  then obtain a q where aq: "fr_start_address request = Some a" "fr_quantity request = Some q"
    using backed_request by fastforce
  with l r Some show ?thesis
    by (auto simp: monitor_result_def observes_iff pair_value_def intro!: bexI [of _ "(request, response)"])
qed (simp add: monitor_result_def)

lemma monitor_read_tags_ok:
  assumes "monitor_read_tags True dev tags t0 feed now = Inr (Some rs)"
  obtains pairs dflt where "capture_request_response_pairs (dev_connection dev) t0 feed = Inr (Some pairs)"
    "py_int (get_or (dev_connection dev) ''unit_id'' (VInt 1)) = Inr dflt"
    "rs = map (monitor_result (latest_pairs pairs) dflt now) tags"
  using assms that
  by (cases "py_int (get_or (dev_connection dev) ''unit_id'' (VInt 1))")
    (auto simp: monitor_read_tags_def tag_results_from_pairs_def rbind_Inr_iff split: option.splits)

lemma result_of_good: "res_quality (result_of t now r) = Good \<Longrightarrow> r = Inr (res_value (result_of t now r))"
  by (auto simp: result_of_def bad_def good_result_def split: sum.splits)

lemma result_of_name: "res_name (result_of t now r) = tag_name t"
  by (auto simp: result_of_def bad_def good_result_def split: sum.splits)

section \<open>Properties\<close>

text \<open>C9: A clean transcript is decoded completely.  The line carries nothing but reads of at most 125
  registers (functions 3 and 4) and their answers, and no proper prefix of a frame of at least four
  bytes passes the CRC check by accident (\<open>no_early_frame\<close>; \<open>rtu_request_shadowed\<close> below shows what
  happens otherwise). Then draining the buffer yields exactly the request and response pairs, in
  order, and leaves nothing behind.\<close>

theorem rtu_clean_transcript_decoded:
  "list_all exchange_ok xs \<Longrightarrow>
   drain_request_response_pairs (concat (map (\<lambda>x. ex_request x @ ex_response x) xs)) [] [] =
     (map exchange_pair xs, [], [])"
  using drain_transcript [of xs "[]"] by simp

lemma rtu_clean_transcript_decoded_witness:
  "drain_request_response_pairs (concat (map (\<lambda>x. ex_request x @ ex_response x) [sample_exchange, sample_exchange])) [] [] =
     (map exchange_pair [sample_exchange, sample_exchange], [], [])"
  by (rule rtu_clean_transcript_decoded) (simp add: sample_exchange_ok)

text \<open>C11: No pair is invented.  However the bytes are cut into chunks and whatever noise surrounds
  them, every pair a capture returns stands in the captured bytes: a stretch that parses to the read
  request, followed later by a stretch that parses to the read response of the same slave and
  function.\<close>

theorem rtu_capture_pairs_backed:
  "capture_request_response_pairs conn t0 feed = Inr (Some pairs) \<Longrightarrow>
   list_all (backed (feed_bytes feed)) pairs"
  by (rule capture_backed)

lemma rtu_capture_pairs_backed_witness:
  "list_all (backed (ex_request sample_exchange @ ex_response sample_exchange)) [exchange_pair sample_exchange]"
  using rtu_capture_pairs_backed [OF sample_capture] unfolding sample_feed_bytes .

text \<open>The capture returns.  Whatever is on the line, once a clock reading has passed the deadline
  the loop has ended with a list of pairs.\<close>

theorem rtu_capture_returns:
  assumes "capture_wait conn = Inr w" "(clk, chunk) \<in> set feed" "\<not> fl_le clk (fl_add t0 w)"
  shows "\<exists>pairs. capture_request_response_pairs conn t0 feed = Inr (Some pairs)"
  using capture_loop_returns [of feed "fl_add t0 w"] assms
  by (fastforce simp: capture_request_response_pairs_def)

lemma rtu_capture_returns_witness:
  "\<exists>pairs. capture_request_response_pairs [(''capture_wait_s'', VInt 0)] fl_zero
     [(fl_zero, [1, 2, 3]), (FFin False 1 0, [])] = Inr (Some pairs)"
proof -
  have "fl_add fl_zero fl_zero = fl_zero" by (simp add: fl_zero_def fl_eval)
  moreover have "\<not> fl_le (FFin False 1 0) fl_zero" by (simp add: fl_zero_def Py_Float.signed_def)
  ultimately show ?thesis
    by (intro rtu_capture_returns [of _ fl_zero "FFin False 1 0" "[]"])
      (simp_all add: capture_wait_def get_or_def int_to_float_def fl_zero_def fl_eval)
qed

text \<open>The buffer is bounded.  After a drain at most 512 bytes of unparsed traffic are kept.\<close>

theorem rtu_drain_buffer_bounded:
  "length (fst (snd (drain_request_response_pairs buffer pend pairs))) \<le> 512"
  using drain_pairs_buffer [of buffer pend pairs] by (metis prod.collapse)

definition sample_feed :: feed where
  "sample_feed = [(fl_zero, ex_request sample_exchange @ ex_response sample_exchange), (fl_zero, [])]"

definition monitor_device :: device_spec where
  "monitor_device = sample_device [(''capture_wait_s'', VInt 0)]"

definition sample_results :: "tag_spec list \<Rightarrow> tag_result list" where
  "sample_results tags = map (monitor_result (latest_pairs [exchange_pair sample_exchange]) 1 noon) tags"

definition flow_tag :: tag_spec where "flow_tag = new_tag ''flow'' 0 ''holding_register'' ''uint16''"
definition pump_tag :: tag_spec where "pump_tag = new_tag ''pump'' 0 ''coil'' ''bool''"

lemma sample_read:
  "monitor_read_tags True monitor_device tags fl_zero sample_feed noon =
   Inr (Some (sample_results tags))"
  using sample_capture
  by (simp add: sample_results_def monitor_read_tags_def monitor_device_def sample_device_def sample_feed_def
      tag_results_from_pairs_def get_or_def)

lemma sample_result_good: "res_quality (sample_results [flow_tag] ! 0) = Good"
proof -
  have "register_value [1234] 0 flow_tag = apply_scale (VInt 1234) fl_one fl_zero"
    by (simp add: register_value_def flow_tag_def new_tag_def register_count_def value_count_def words_per_value_def
        decode_registers_def decode_single_def py_slice_def clamp_index_def apply_word_order_def registers_to_int_def Let_def)
  moreover have "\<exists>v. apply_scale (VInt 1234) fl_one fl_zero = Inr v"
    by (simp add: int_to_float_def fl_eval split: option.splits)
  moreover have "sample_results [flow_tag] ! 0 = result_of flow_tag noon (register_value [1234] 0 flow_tag)"
    by (simp add: sample_results_def flow_tag_def new_tag_def monitor_result_def latest_pairs_def exchange_pair_def
        sample_exchange_def tag_functions_by_code_def unit_or_def base_frame_def with_response_value_def)
  ultimately show ?thesis by (auto simp: result_of_def good_result_def)
qed

text \<open>C12: The monitor reports what it saw.  A read returns one result per tag, in the order of the
  tags; a good result is the decoded value of the tag at its place in the registers of a captured
  pair whose request has the tag's function, covers its address, and was sent to the tag's unit: its
  own, or the number in the connection's \<open>unit_id\<close> (1 without one) when the tag has none or zero.\<close>

theorem rtu_monitor_results_sound:
  assumes "monitor_read_tags True dev tags t0 feed now = Inr (Some rs)" "i < length tags"
  shows "length rs = length tags \<and> res_name (rs ! i) = tag_name (tags ! i) \<and>
    (\<exists>dflt. py_int (get_or (dev_connection dev) ''unit_id'' (VInt 1)) = Inr dflt \<and>
      (res_quality (rs ! i) = Good \<longrightarrow> (\<exists>p. backed (feed_bytes feed) p \<and>
         observes p (own_unit dflt (tags ! i)) (tags ! i) \<and> pair_value p (tags ! i) = Inr (res_value (rs ! i)))))"
proof -
  obtain pairs dflt where c: "capture_request_response_pairs (dev_connection dev) t0 feed = Inr (Some pairs)"
    and u: "py_int (get_or (dev_connection dev) ''unit_id'' (VInt 1)) = Inr dflt"
    and rs: "rs = map (monitor_result (latest_pairs pairs) dflt now) tags"
    using monitor_read_tags_ok [OF assms(1)] by blast
  have b: "list_all (backed (feed_bytes feed)) pairs" by (rule capture_backed [OF c])
  have "rs ! i = monitor_result (latest_pairs pairs) dflt now (tags ! i)" using rs assms(2) by simp
  with monitor_result_cases [OF b, of dflt now "tags ! i"] have "res_name (rs ! i) = tag_name (tags ! i) \<and>
      (res_quality (rs ! i) = Good \<longrightarrow> (\<exists>p. backed (feed_bytes feed) p \<and>
         observes p (own_unit dflt (tags ! i)) (tags ! i) \<and> pair_value p (tags ! i) = Inr (res_value (rs ! i))))"
    using b rs assms(2) result_of_good
    by (fastforce simp: own_unit_eq list_all_iff result_of_name bad_def not_observed_def)
  with u show ?thesis using rs by simp
qed

lemma rtu_monitor_results_sound_witness:
  "length (sample_results [flow_tag]) = length [flow_tag] \<and>
   res_name (sample_results [flow_tag] ! 0) = tag_name ([flow_tag] ! 0) \<and>
   (\<exists>dflt. py_int (get_or (dev_connection monitor_device) ''unit_id'' (VInt 1)) = Inr dflt \<and>
     (\<exists>p. backed (feed_bytes sample_feed) p \<and> observes p (own_unit dflt ([flow_tag] ! 0)) ([flow_tag] ! 0) \<and>
        pair_value p ([flow_tag] ! 0) = Inr (res_value (sample_results [flow_tag] ! 0))))"
  using rtu_monitor_results_sound [OF sample_read, of 0 "[flow_tag]"] sample_result_good by simp

text \<open>Bit tags are never observed.  The capture keeps the registers of a response for the register
  functions only, so a coil or discrete input tag of a monitor device is bad on every read, whatever
  traffic was seen.\<close>

theorem rtu_monitor_never_observes_bits:
  assumes "monitor_read_tags True dev tags t0 feed now = Inr (Some rs)" "i < length tags"
    and "tag_function (tags ! i) \<in> {''coil'', ''discrete_input''}"
  shows "rs ! i = bad (tags ! i) now not_observed"
proof -
  obtain pairs dflt where c: "capture_request_response_pairs (dev_connection dev) t0 feed = Inr (Some pairs)"
    and rs: "rs = map (monitor_result (latest_pairs pairs) dflt now) tags"
    using monitor_read_tags_ok [OF assms(1)] by blast
  have b: "list_all (backed (feed_bytes feed)) pairs" by (rule capture_backed [OF c])
  have "\<not> observes p u (tags ! i)" if "p \<in> set pairs" "fr_registers (snd p) \<noteq> None" for p u
    using backed_registers [of "feed_bytes feed" p] that b assms(3)
    by (auto simp: list_all_iff observes_def split: option.splits)
  then show ?thesis using monitor_result_cases [OF b, of dflt now "tags ! i"] rs assms(2) by auto
qed

lemma rtu_monitor_never_observes_bits_witness:
  "sample_results [pump_tag] ! 0 = bad ([pump_tag] ! 0) noon not_observed"
  by (rule rtu_monitor_never_observes_bits [OF sample_read]) (simp_all add: pump_tag_def new_tag_def)

text \<open>Some requests are never paired.  Four bytes whose last two are the checksum of the first two
  are accepted as a frame, so a read request whose start address has the same two bytes as that
  checksum is cut after four bytes: the scan goes on behind it and the request does not become
  pending.\<close>

theorem rtu_request_shadowed:
  assumes "is_read_code (uint f)"
    and "start = 256 * unat (ucast (crc16_modbus [slave, f]) :: byte) + unat (ucast (drop_bit 8 (crc16_modbus [slave, f])) :: byte)"
  shows "drain_request_response_pairs (request_frame slave f start quantity @ rest) pend pairs =
    drain_request_response_pairs (drop 4 (request_frame slave f start quantity) @ rest) pend pairs"
proof -
  let ?hi = "ucast (crc16_modbus [slave, f]) :: byte"
  let ?lo = "ucast (drop_bit 8 (crc16_modbus [slave, f])) :: byte"
  have lt: "unat ?lo < 256" using unsigned_less [of ?lo, where 'a = nat] by simp
  have "high_byte start = ?hi" "low_byte start = ?lo"
    using lt by (simp_all add: assms(2) high_byte_def low_byte_def)
  then have cut: "request_frame slave f start quantity = seal [slave, f] @ drop 4 (request_frame slave f start quantity)"
    by (simp add: request_frame_def seal_def)
  have p: "parse_rtu_frame (seal [slave, f]) = Inr (base_frame (uint slave) (uint f) (seal [slave, f]))"
    using assms(1) by (simp add: parse_seal parse_body_def Let_def length_seal nth_seal read_code_not_exception)
  have "no_early_frame (seal [slave, f])" by (simp add: no_early_frame_def length_seal)
  from drain_head [OF this p, of pend pairs pend pairs "drop 4 (request_frame slave f start quantity) @ rest"]
  show ?thesis by (simp add: take_frame_def frame_simps flip: append_assoc cut)
qed

lemma rtu_request_shadowed_witness:
  "drain_request_response_pairs (request_frame 1 3 0x4021 2 @ []) [] [] =
   drain_request_response_pairs (drop 4 (request_frame 1 3 0x4021 2) @ []) [] []"
  by (rule rtu_request_shadowed) (simp_all add: read_code_cases crc_eval)

end
