(* ===== verification/Queues.thy ===== *)
theory Queues
  imports Models
begin

text \<open>
  The two coalescing queues of \<^verbatim>\<open>src/industrial_gateway/services/runtime_manager.py\<close>,
  \<open>_LatestReadResultQueue\<close> and \<open>_LatestStatusQueue\<close>: an ordered dictionary in which a new item
  supersedes the waiting one with the same key and goes to the end. The condition variable is not
  modelled: each operation is atomic under its lock, and a \<open>get\<close> that finds nothing raises \<open>Empty\<close>.

  The locale \<open>latest_queue\<close> states the contract of one keyed store and take; both queues are
  interpretations of it. The specification of a sequence of stores is \<open>keep_last\<close>.
\<close>

section \<open>Superseded items removed\<close>

fun keep_last :: "('k \<times> 'v) list \<Rightarrow> ('k \<times> 'v) list" where
  "keep_last [] = []"
| "keep_last ((k, v) # r) = (if k \<in> fst ` set r then keep_last r else (k, v) # keep_last r)"

lemma keep_last_keys: "fst ` set (keep_last kvs) = fst ` set kvs"
  by (induction kvs rule: keep_last.induct) auto

lemma dwf_Cons: "dwf ((k, v) # d) \<longleftrightarrow> k \<notin> fst ` set d \<and> dwf d"
  by (simp add: dwf_def)

lemma keep_last_dwf [simp]: "dwf (keep_last kvs)"
  by (induction kvs rule: keep_last.induct) (simp_all add: keep_last_keys dwf_Cons)

lemma keep_last_id: "dwf kvs \<Longrightarrow> keep_last kvs = kvs"
  by (induction kvs rule: keep_last.induct) (simp_all add: dwf_Cons)

lemma ddel_absent: "k \<notin> fst ` set d \<Longrightarrow> ddel k d = d"
  by (auto simp: ddel_def intro!: filter_True)

lemma keep_last_snoc: "keep_last (kvs @ [(k, v)]) = ddel k (keep_last kvs) @ [(k, v)]"
  by (induction kvs rule: keep_last.induct) auto

lemma keep_last_subset: "set (keep_last kvs) \<subseteq> set kvs"
  by (induction kvs rule: keep_last.induct) auto

section \<open>The contract of a coalescing queue\<close>

datatype ('k, 'v) queue_op = Put 'k 'v | Take

fun run_queue ::
  "('k \<Rightarrow> 'v \<Rightarrow> 'q \<Rightarrow> 'q) \<Rightarrow> ('q \<Rightarrow> ('v \<times> 'q) option) \<Rightarrow> ('k, 'v) queue_op list \<Rightarrow> 'q \<Rightarrow> 'v list \<times> 'q" where
  "run_queue put take_first [] q = ([], q)"
| "run_queue put take_first (Put k v # ops) q = run_queue put take_first ops (put k v q)"
| "run_queue put take_first (Take # ops) q =
     (case take_first q of
        None \<Rightarrow> run_queue put take_first ops q
      | Some (v, q') \<Rightarrow> (let (vs, r) = run_queue put take_first ops q' in (v # vs, r)))"

locale latest_queue =
  fixes entries :: "'q \<Rightarrow> ('k \<times> 'v) list"
    and put :: "'k \<Rightarrow> 'v \<Rightarrow> 'q \<Rightarrow> 'q"
    and take_first :: "'q \<Rightarrow> ('v \<times> 'q) option"
  assumes entries_put: "entries (put k v q) = ddel k (entries q) @ [(k, v)]"
    and take_none: "take_first q = None \<longleftrightarrow> entries q = []"
    and take_some: "take_first q = Some (v, q') \<Longrightarrow> \<exists>k. entries q = (k, v) # entries q'"
begin

lemma keys_put: "dwf (entries q) \<Longrightarrow> dwf (entries (put k v q))"
  using keep_last_snoc [of "entries q" k v] keep_last_dwf [of "entries q @ [(k, v)]"]
  by (simp add: entries_put keep_last_id)

lemma keys_take: "dwf (entries q) \<Longrightarrow> take_first q = Some (v, q') \<Longrightarrow> dwf (entries q')"
  using take_some [of q v q'] by (auto simp: dwf_Cons)

lemma latest_wins: "dget (entries (put k v q)) k' = (if k = k' then Some v else dget (entries q) k')"
  by (simp add: entries_put dget_dset dget_ddel flip: move_to_end_append)

text \<open>A sequence of stores leaves the sequence with its superseded items removed.\<close>

lemma put_all: "dwf (entries q) \<Longrightarrow> entries (fold (\<lambda>(k, v). put k v) kvs q) = keep_last (entries q @ kvs)"
proof (induction kvs rule: rev_induct)
  case (snoc p kvs)
  obtain k v where p: "p = (k, v)" by (cases p)
  then have "entries (fold (\<lambda>(k, v). put k v) (kvs @ [p]) q) = ddel k (keep_last (entries q @ kvs)) @ [(k, v)]"
    using snoc by (simp add: entries_put)
  then show ?case using keep_last_snoc [of "entries q @ kvs" k v] p by simp
qed (simp add: keep_last_id)

text \<open>Under any interleaving a waiting item is delivered, still waiting, or superseded by a later
  store of its key; and only stored items are delivered.\<close>

lemma no_loss:
  "(k, v) \<in> set (entries q) \<Longrightarrow> \<forall>w. Put k w \<notin> set ops \<Longrightarrow> run_queue put take_first ops q = (vs, r) \<Longrightarrow>
   v \<in> set vs \<or> (k, v) \<in> set (entries r)"
proof (induction ops arbitrary: q vs)
  case (Cons op ops)
  show ?case
  proof (cases op)
    case (Put k' v')
    then have "(k, v) \<in> set (entries (put k' v' q))" using Cons(2,3) by (auto simp: entries_put ddel_def)
    with Cons Put show ?thesis by fastforce
  next
    case Take
    show ?thesis
    proof (cases "take_first q")
      case None
      then show ?thesis using Cons(2) take_none by force
    next
      case (Some p)
      obtain v1 q1 where q1: "take_first q = Some (v1, q1)" using Some by (cases p) auto
      obtain us where us: "run_queue put take_first ops q1 = (us, r)" "vs = v1 # us"
        using Cons(4) Take q1 by (cases "run_queue put take_first ops q1") auto
      obtain k1 where "entries q = (k1, v1) # entries q1" using take_some [OF q1] by blast
      then have "v = v1 \<or> (k, v) \<in> set (entries q1)" using Cons(2) by auto
      then show ?thesis using Cons(1) [of q1 us] Cons(3) us by auto
    qed
  qed
qed auto

lemma nothing_invented:
  "run_queue put take_first ops q = (vs, r) \<Longrightarrow> v \<in> set vs \<Longrightarrow>
   (\<exists>k. (k, v) \<in> set (entries q) \<or> Put k v \<in> set ops)"
proof (induction ops arbitrary: q vs)
  case (Cons op ops)
  show ?case
  proof (cases op)
    case (Put k' v')
    have "set (entries (put k' v' q)) \<subseteq> insert (k', v') (set (entries q))" by (auto simp: entries_put ddel_def)
    then show ?thesis using Cons(1) [of "put k' v' q" vs] Cons(2,3) Put by auto
  next
    case Take
    show ?thesis
    proof (cases "take_first q")
      case None
      then show ?thesis using Cons Take by auto
    next
      case (Some p)
      obtain v1 q1 where q1: "take_first q = Some (v1, q1)" using Some by (cases p) auto
      obtain us where us: "run_queue put take_first ops q1 = (us, r)" "vs = v1 # us"
        using Cons(2) Take q1 by (cases "run_queue put take_first ops q1") auto
      obtain k1 where "entries q = (k1, v1) # entries q1" using take_some [OF q1] by blast
      then show ?thesis using Cons(1) [of q1 us] Cons(3) us by auto
    qed
  qed
qed simp

end

section \<open>Read results\<close>

type_synonym device_ident = "int option \<times> string \<times> string"

datatype read_key = ResultKey device_ident | TagKey device_ident string string

definition device_ident :: "device_spec \<Rightarrow> device_ident" where
  "device_ident d = (dev_id d, dev_group d, dev_name d)"

text \<open>\<open>tag.node_id or tag.name\<close>.\<close>

definition or_opt :: "string option \<Rightarrow> string \<Rightarrow> string" where
  "or_opt v d = (case v of None \<Rightarrow> d | Some s \<Rightarrow> if s = [] then d else s)"

definition has_text :: "string option \<Rightarrow> bool" where
  "has_text v \<longleftrightarrow> (case v of None \<Rightarrow> False | Some s \<Rightarrow> s \<noteq> [])"

definition split_items :: "read_result \<Rightarrow> (read_key \<times> read_result) list" where
  "split_items item =
     (if has_text (rr_error item) \<or> rr_tags item = [] then [(ResultKey (device_ident (rr_device item)), item)]
      else map (\<lambda>t. (TagKey (device_ident (rr_device item)) (res_tag_group t) (or_opt (res_node_id t) (res_name t)),
                     item\<lparr>rr_tags := [t]\<rparr>)) (rr_tags item))"

type_synonym read_queue = "(read_key, read_result) pydict"

definition rq_put1 :: "read_key \<Rightarrow> read_result \<Rightarrow> read_queue \<Rightarrow> read_queue" where
  "rq_put1 k r q = dset k r (if dget q k \<noteq> None then ddel k q else q)"

definition rq_put :: "read_result \<Rightarrow> read_queue \<Rightarrow> read_queue" where
  "rq_put item q = fold (\<lambda>(k, r). rq_put1 k r) (split_items item) q"

definition rq_get :: "read_queue \<Rightarrow> (read_result \<times> read_queue) option" where
  "rq_get q = (case q of [] \<Rightarrow> None | (k, r) # rest \<Rightarrow> Some (r, rest))"

definition rq_get_nowait :: "read_queue \<Rightarrow> (read_result \<times> read_queue) option" where
  "rq_get_nowait q = rq_get q"

definition rq_empty :: "read_queue \<Rightarrow> bool" where
  "rq_empty q \<longleftrightarrow> q = []"

text \<open>Taking until nothing waits.\<close>

function clear_results :: "read_queue \<Rightarrow> read_queue" where
  "clear_results q = (case rq_get_nowait q of None \<Rightarrow> q | Some (r, q') \<Rightarrow> clear_results q')"
  by pat_completeness auto
termination
  by (relation "measure length") (auto simp: rq_get_nowait_def rq_get_def split: list.splits)

declare clear_results.simps [simp del]

lemma clear_results_empty [simp]: "clear_results q = []"
  by (induction q rule: clear_results.induct, subst clear_results.simps)
    (auto simp: rq_get_nowait_def rq_get_def split: list.split)

lemma rq_empty_iff: "rq_empty q \<longleftrightarrow> rq_get_nowait q = None"
  by (simp add: rq_empty_def rq_get_nowait_def rq_get_def split: list.split)

lemma move_if_present: "dset k v (if dget q k \<noteq> None then ddel k q else q) = ddel k q @ [(k, v)]"
  using move_to_end_append [of k v q] by (simp add: dget_None_iff ddel_absent dset_fresh)

lemma rq_put1_append: "rq_put1 k r q = ddel k q @ [(k, r)]"
  by (simp only: rq_put1_def move_if_present)

interpretation read_queue: latest_queue id rq_put1 rq_get
  by unfold_locales (auto simp: rq_put1_append rq_get_def split: list.splits)

section \<open>Status items\<close>

datatype status_item = StText string | StDict settings

datatype status_key = TagUpdateKey pyval pyval | ServerKey pyval | EventKey nat

record status_queue =
  sq_items :: "(status_key, status_item) pydict"
  sq_sequence :: nat

definition status_key :: "status_item \<Rightarrow> nat \<Rightarrow> status_key \<times> nat" where
  "status_key item seq = (case item of
     StText s \<Rightarrow> (EventKey (Suc seq), Suc seq)
   | StDict d \<Rightarrow>
       if item_get d ''type'' = VStr ''tag_update''
       then (TagUpdateKey (item_get d ''device'') (or_val (item_get d ''node_id'') (item_get d ''tag'')), seq)
       else if item_get d ''type'' = VStr ''server_status'' then (ServerKey (item_get d ''device''), seq)
       else (EventKey (Suc seq), Suc seq))"

definition sq_put1 :: "status_key \<Rightarrow> status_item \<Rightarrow> status_queue \<Rightarrow> status_queue" where
  "sq_put1 k i q = q\<lparr>sq_items := dset k i (if dget (sq_items q) k \<noteq> None then ddel k (sq_items q) else sq_items q)\<rparr>"

definition sq_put :: "status_item \<Rightarrow> status_queue \<Rightarrow> status_queue" where
  "sq_put item q = (case status_key item (sq_sequence q) of (k, n) \<Rightarrow> sq_put1 k item (q\<lparr>sq_sequence := n\<rparr>))"

definition sq_get :: "status_queue \<Rightarrow> (status_item \<times> status_queue) option" where
  "sq_get q = (case sq_items q of [] \<Rightarrow> None | (k, i) # rest \<Rightarrow> Some (i, q\<lparr>sq_items := rest\<rparr>))"

definition sq_empty :: "status_queue \<Rightarrow> bool" where
  "sq_empty q \<longleftrightarrow> sq_items q = []"

function clear_statuses :: "status_queue \<Rightarrow> status_queue" where
  "clear_statuses q = (case sq_get q of None \<Rightarrow> q | Some (i, q') \<Rightarrow> clear_statuses q')"
  by pat_completeness auto
termination
  by (relation "measure (length \<circ> sq_items)") (auto simp: sq_get_def split: list.splits)

declare clear_statuses.simps [simp del]

lemma clear_statuses_empty [simp]: "clear_statuses q = q\<lparr>sq_items := []\<rparr>"
  by (induction q rule: clear_statuses.induct, subst clear_statuses.simps)
    (auto simp: sq_get_def split: list.split)

lemma sq_empty_iff: "sq_empty q \<longleftrightarrow> sq_get q = None"
  by (simp add: sq_empty_def sq_get_def split: list.split)

lemma sq_put1_append: "sq_put1 k i q = q\<lparr>sq_items := ddel k (sq_items q) @ [(k, i)]\<rparr>"
  by (simp only: sq_put1_def move_if_present)

interpretation status_queue: latest_queue sq_items sq_put1 sq_get
  by unfold_locales (auto simp: sq_put1_append sq_get_def split: list.splits)

text \<open>A tag update as the publisher emits it.\<close>

definition is_event :: "status_item \<Rightarrow> bool" where
  "is_event item = (case item of StText s \<Rightarrow> True
     | StDict d \<Rightarrow> item_get d ''type'' \<noteq> VStr ''tag_update'' \<and> item_get d ''type'' \<noteq> VStr ''server_status'')"

fun is_event_key :: "status_key \<Rightarrow> bool" where
  "is_event_key (EventKey n) = True"
| "is_event_key k = False"

definition sq_inv :: "status_queue \<Rightarrow> bool" where
  "sq_inv q \<longleftrightarrow> dwf (sq_items q) \<and> list_all (\<lambda>(k, i). is_event_key k = is_event i \<and>
     (\<forall>n. k = EventKey n \<longrightarrow> n \<le> sq_sequence q)) (sq_items q)"

definition empty_status_queue :: status_queue where
  "empty_status_queue = \<lparr>sq_items = [], sq_sequence = 0\<rparr>"

definition waiting_events :: "status_queue \<Rightarrow> status_item list" where
  "waiting_events q = filter is_event (map snd (sq_items q))"

lemma status_key_cases:
  "status_key i n = (k, m) \<Longrightarrow> (is_event i \<and> k = EventKey (Suc n) \<and> m = Suc n) \<or> (\<not> is_event i \<and> \<not> is_event_key k \<and> m = n)"
  by (auto simp: status_key_def is_event_def split: status_item.splits if_splits)

lemma sq_put_step:
  assumes "sq_inv q"
  shows "sq_inv (sq_put i q) \<and> waiting_events (sq_put i q) = waiting_events q @ (if is_event i then [i] else [])"
proof -
  obtain k m where km: "status_key i (sq_sequence q) = (k, m)" by fastforce
  have put: "sq_put i q = q\<lparr>sq_sequence := m, sq_items := ddel k (sq_items q) @ [(k, i)]\<rparr>"
    by (simp add: sq_put_def km sq_put1_append)
  have wf: "dwf (ddel k (sq_items q) @ [(k, i)])"
    using assms status_queue.keys_put [of q k i] by (simp add: sq_inv_def sq_put1_append)
  have members: "(k', i') \<in> set (sq_items q) \<Longrightarrow> is_event_key k' = is_event i' \<and> (\<forall>n. k' = EventKey n \<longrightarrow> n \<le> sq_sequence q)" for k' i'
    using assms by (auto simp: sq_inv_def list_all_iff)
  have inv: "sq_inv (sq_put i q)"
    using wf members status_key_cases [OF km] unfolding sq_inv_def put
    by (fastforce simp: list_all_iff ddel_def)
  have "filter is_event (map snd (ddel k (sq_items q))) = filter is_event (map snd (sq_items q))"
  proof -
    have "\<not> is_event i'" if "(k, i') \<in> set (sq_items q)" for i'
      using members [OF that] status_key_cases [OF km] by auto
    then have "filter (\<lambda>p. is_event (snd p)) (ddel k (sq_items q)) = filter (\<lambda>p. is_event (snd p)) (sq_items q)"
      by (auto simp: ddel_def intro!: filter_cong)
    then show ?thesis by (simp add: filter_map o_def)
  qed
  then show ?thesis using inv by (simp add: waiting_events_def put)
qed

section \<open>Properties\<close>

text \<open>The read queue refines the sequence of its stores.  After any sequence of \<open>put\<close>s, the queue
  holds the split items in the order of their last store, each key once with its latest value.\<close>

theorem read_queue_coalesces:
  "fold rq_put items [] = keep_last (concat (map split_items items))"
proof -
  have "fold rq_put items q = fold (\<lambda>(k, r). rq_put1 k r) (concat (map split_items items)) q" for q
    by (induction items arbitrary: q) (simp_all add: rq_put_def)
  then show ?thesis using read_queue.put_all [of "[]" "concat (map split_items items)"] by simp
qed

text \<open>No reading is lost unread.  Once a result is put, each of its split items is delivered by a
  later \<open>get\<close>, still waits in the queue, or a later item with the same key has superseded it,
  whatever stores and takes come in between.\<close>

theorem read_queue_no_loss:
  assumes "(k, v) \<in> set (split_items item)" "distinct (map fst (split_items item))"
    and "\<forall>w. Put k w \<notin> set ops" and "run_queue rq_put1 rq_get ops (rq_put item q) = (delivered, rest)"
  shows "v \<in> set delivered \<or> (k, v) \<in> set rest"
proof -
  have "(k, v) \<in> set (fold (\<lambda>(k, r). rq_put1 k r) kvs q)" if "(k, v) \<in> set kvs" "distinct (map fst kvs)" for kvs
    using that
  proof (induction kvs arbitrary: q rule: rev_induct)
    case (snoc p kvs)
    then show ?case by (cases p) (force simp: rq_put1_append ddel_def)
  qed simp
  then have "(k, v) \<in> set (id (rq_put item q))" using assms(1,2) by (simp add: rq_put_def)
  from read_queue.no_loss [OF this assms(3,4)] show ?thesis by simp
qed

lemma read_queue_no_loss_witness:
  "sample_result [sample_reading ''level'' Bad] \<in> set [sample_result [sample_reading ''flow'' Good]] \<or>
   (TagKey (device_ident (sample_device [])) [] ''level'', sample_result [sample_reading ''level'' Bad]) \<in>
     set [(TagKey (device_ident (sample_device [])) [] ''level'', sample_result [sample_reading ''level'' Bad])]"
  by (rule read_queue_no_loss [of _ _ "sample_result [sample_reading ''flow'' Good, sample_reading ''level'' Bad]" "[Take]" "[]"])
    (simp_all add: split_items_def sample_result_def sample_reading_def has_text_def or_opt_def rq_put_def
      rq_put1_def rq_get_def)

text \<open>Event messages are never coalesced.  However many status items are put, the texts and other
  plain events wait in the queue in their order, none replaced by a tag update, a server status or
  another event.\<close>

theorem status_events_kept:
  "waiting_events (fold sq_put items empty_status_queue) = filter is_event items"
proof -
  have "sq_inv (fold sq_put items empty_status_queue) \<and>
      waiting_events (fold sq_put items empty_status_queue) = filter is_event items"
  proof (induction items rule: rev_induct)
    case Nil
    then show ?case by (simp add: sq_inv_def empty_status_queue_def waiting_events_def)
  next
    case (snoc i items)
    then show ?case using sq_put_step by auto
  qed
  then show ?thesis by simp
qed

end
