(* ===== verification/Publisher.thy ===== *)
theory Publisher
  imports Queues
begin

text \<open>
  \<open>SinkPublisher\<close> of \<^verbatim>\<open>src/industrial_gateway/workers.py\<close> and its helper functions: the cache of
  the latest readings per device, the connection status of each device with its transitions and
  heartbeats, the choice of an output route and the messages handed to the sink.

  The publisher's mutable attributes are the record \<open>publisher\<close>; its constructor arguments the
  record \<open>pub_config\<close>. Every operation is a function on the state. The sink is a parameter: for
  the messages it was handed before and the next one it answers with success or an exception.
  \<open>_heartbeat_published_at\<close>, keyed by \<open>id(route)\<close> in the source, is keyed by the route's position.
\<close>

section \<open>Helper functions\<close>

record output_route =
  or_device_id :: "int option"
  or_tag_group :: string
  or_sink_type :: string
  or_mqtt :: mqtt_config
  or_topic :: string
  or_kind :: string
  or_interval :: pyfloat
  or_sensor :: string

datatype device_key = ById string | ByName string

definition device_key :: "device_spec \<Rightarrow> device_key" where
  "device_key d = (case dev_id d of Some i \<Rightarrow> ById (show_int i) | None \<Rightarrow> ByName (dev_name d))"

definition tag_key :: "tag_result \<Rightarrow> string" where
  "tag_key t = or_opt (res_node_id t) (res_name t @ '':'' @ show_int (res_address t))"

definition tag_topic_group :: "tag_result \<Rightarrow> string option" where
  "tag_topic_group t =
     (if \<not> has_text (res_node_id t) then None
      else let node = the (res_node_id t);
               text = (case after_sub '';s='' node of Some r \<Rightarrow> r | None \<Rightarrow> node);
               first = py_strip (takeWhile (\<lambda>c. c \<noteq> CHR ''.'') text)
           in if starts_with ''PHH'' (py_upper first) then Some first else None)"

definition tag_output_group :: "tag_result \<Rightarrow> string option" where
  "tag_output_group t = (if res_tag_group t \<noteq> [] then Some (res_tag_group t) else tag_topic_group t)"

definition topic_with_group :: "string \<Rightarrow> string \<Rightarrow> string" where
  "topic_with_group topic grp =
     (let parts = split_char (CHR ''/'') (strip_slash topic) in
      if 2 \<le> length parts then py_join ''/'' (butlast parts @ [grp, last parts])
      else strip_slash topic @ ''/'' @ grp)"

definition runtime_mode :: "device_spec \<Rightarrow> string" where
  "runtime_mode d =
     (if dev_driver_type d = ''modbus_rtu_monitor'' then ''Monitoring''
      else if dev_driver_type d = ''mqtt'' \<or>
        (dev_driver_type d = ''opcua'' \<and> dget (dev_connection d) ''mode'' = Some (VStr ''subscription''))
      then ''Subscription'' else ''Polling'')"

definition iso_millis :: "datetime \<Rightarrow> string" where
  "iso_millis t = isoformat_millis (assume_utc t)"

definition telegraf_status_time :: "datetime \<Rightarrow> string" where
  "telegraf_status_time t =
     (let v = assume_utc t; offset = offset_part [] v in
      date_part v @ '' '' @ clock_part v @ ''.'' @ millis_part v @ (if 3 \<le> length offset then take 3 offset else offset))"

definition good_tag :: "tag_result \<Rightarrow> bool" where
  "good_tag t \<longleftrightarrow> res_quality t = Good \<and> \<not> has_text (res_error t)"

definition full_health :: pyval where "full_health = VFloat (fl_ratio False 100 1)"
definition no_health :: pyval where "no_health = VFloat fl_zero"

definition sensor_status :: "string \<Rightarrow> string option \<Rightarrow> string \<Rightarrow> tag_result \<Rightarrow> pyval" where
  "sensor_status conn error_msg update_time t = VDict
     [(''sensor_code'', VStr (res_name t)),
      (''conn_status'', VStr (if good_tag t then conn else ''off'')),
      (''last_seen'', VStr (iso_millis (res_timestamp t))),
      (''health_score'', if conn = ''on'' \<and> good_tag t then full_health else no_health),
      (''error_msg'', if has_text (res_error t) then str_val (res_error t) else str_val error_msg),
      (''update_time'', VStr update_time)]"

definition ctm_status_message ::
  "batch_message \<Rightarrow> tag_result list \<Rightarrow> string \<Rightarrow> string option \<Rightarrow> datetime \<Rightarrow> batch_message" where
  "ctm_status_message m tags conn error_msg ts = \<lparr>
     msg_topic = rstrip_slash (msg_topic m) @ ''/status'',
     msg_payload = [(''timestamp'', get_or (msg_payload m) ''timestamp'' (VStr (iso_millis ts))),
       (''sensors'', VList (map (sensor_status conn error_msg (iso_millis ts)) tags))],
     msg_qos = msg_qos m, msg_use_topic = True\<rparr>"

definition system_heartbeat_status_message :: "output_route \<Rightarrow> datetime \<Rightarrow> batch_message" where
  "system_heartbeat_status_message r ts =
     (let update_time = telegraf_status_time ts in \<lparr>
       msg_topic = rstrip_slash (or_topic r) @ ''/status'',
       msg_payload = [(''timestamp'', VStr update_time),
         (''sensors'', VList [VDict
           [(''sensor_code'', VStr (if or_sensor r = [] then ''SYSTEM'' else or_sensor r)),
            (''conn_status'', VStr ''on''), (''last_seen'', VStr update_time),
            (''health_score'', full_health), (''error_msg'', VNone), (''update_time'', VStr update_time)]])],
       msg_qos = mq_qos (or_mqtt r), msg_use_topic = True\<rparr>)"

definition heartbeat_device :: device_spec where
  "heartbeat_device = \<lparr>dev_id = None, dev_name = ''System Heartbeat'', dev_driver_type = ''system'',
     dev_enabled = True, dev_poll_interval_ms = 0, dev_group = [], dev_connection = []\<rparr>"

text \<open>An exception as the log shows it: its text, type name, representation and traceback frames (file,
  line, function).\<close>

record exn =
  ex_text :: string
  ex_type :: string
  ex_repr :: string
  ex_frames :: "(string \<times> nat \<times> string) list"

definition base_name :: "string \<Rightarrow> string" where
  "base_name path = rev (takeWhile (\<lambda>c. c \<noteq> CHR ''/'') (rev path))"

definition compact_traceback :: "exn \<Rightarrow> string" where
  "compact_traceback e =
     (if ex_frames e = [] then ex_type e
      else py_join '' <- '' (map (\<lambda>(file, line, name). base_name file @ '':'' @ show_nat line @ '' in '' @ name) (ex_frames e)))"

definition exception_data :: "exn \<Rightarrow> settings" where
  "exception_data e = [(''error'', VStr (ex_text e)), (''exception_type'', VStr (ex_type e)),
     (''exception_repr'', VStr (ex_repr e)), (''traceback'', VStr (compact_traceback e))]"

section \<open>State\<close>

datatype link_status = LGood | LBad | LStale | LDisconnected

fun link_text :: "link_status \<Rightarrow> string" where
  "link_text LGood = ''good''"
| "link_text LBad = ''bad''"
| "link_text LStale = ''stale''"
| "link_text LDisconnected = ''disconnected''"

record snapshot =
  sn_device :: device_spec
  sn_tags :: "(string, tag_result) pydict"
  sn_received :: "datetime option"
  sn_source :: "datetime option"

record link_state =
  ls_device :: device_spec
  ls_status :: link_status
  ls_reason :: string
  ls_changed_at :: datetime
  ls_published_at :: "datetime option"
  ls_received :: "datetime option"
  ls_source :: "datetime option"

record log_entry =
  lg_level :: string
  lg_source :: string
  lg_message :: string
  lg_data :: settings

record pub_config =
  pc_mqtt :: mqtt_config
  pc_plugin_type :: string
  pc_routes :: "output_route list"
  pc_stale_timeout :: pyfloat
  pc_status_interval :: pyfloat
  pc_has_status :: bool
  pc_has_log :: bool

record publisher =
  pb_latest :: "(device_key, snapshot) pydict"
  pb_statuses :: "(device_key, link_state) pydict"
  pb_heartbeats :: "(nat, datetime) pydict"
  pb_status_out :: "status_item list"
  pb_log_out :: "log_entry list"
  pb_handed :: "batch_message list"

type_synonym sink = "batch_message list \<Rightarrow> batch_message \<Rightarrow> exn option"

definition new_publisher :: publisher where
  "new_publisher = \<lparr>pb_latest = [], pb_statuses = [], pb_heartbeats = [], pb_status_out = [],
     pb_log_out = [], pb_handed = []\<rparr>"

definition emit_status :: "pub_config \<Rightarrow> status_item \<Rightarrow> publisher \<Rightarrow> publisher" where
  "emit_status c m s = (if pc_has_status c then s\<lparr>pb_status_out := pb_status_out s @ [m]\<rparr> else s)"

definition emit_log :: "pub_config \<Rightarrow> string \<Rightarrow> string \<Rightarrow> string \<Rightarrow> settings \<Rightarrow> publisher \<Rightarrow> publisher" where
  "emit_log c level source message data s =
     (if pc_has_log c
      then let data' = (if source \<in> {''sink'', ''plugin''}
                        then dupdate [(''plugin'', VStr (pc_plugin_type c))] data else data)
           in s\<lparr>pb_log_out := pb_log_out s @ [\<lparr>lg_level = level, lg_source = source, lg_message = message, lg_data = data'\<rparr>]\<rparr>
      else s)"

section \<open>Messages\<close>

definition data_routes :: "pub_config \<Rightarrow> (output_route \<Rightarrow> bool) \<Rightarrow> output_route list" where
  "data_routes c P = filter (\<lambda>r. or_kind r = ''data'' \<and> P r) (pc_routes c)"

definition route_for :: "pub_config \<Rightarrow> device_spec \<Rightarrow> string \<Rightarrow> output_route option" where
  "route_for c d grp =
     (let exact = data_routes c (\<lambda>r. or_device_id r = dev_id d \<and> or_tag_group r = grp);
          device_default = data_routes c (\<lambda>r. or_device_id r = dev_id d \<and> or_tag_group r = []);
          group_default = data_routes c (\<lambda>r. or_device_id r = None \<and> or_tag_group r = grp)
      in if exact \<noteq> [] then Some (hd exact)
         else if device_default \<noteq> [] then Some (hd device_default)
         else if group_default \<noteq> [] then Some (hd group_default)
         else None)"

definition measurement_message ::
  "pub_config \<Rightarrow> device_spec \<Rightarrow> tag_result list \<Rightarrow> string option \<Rightarrow> datetime \<Rightarrow> batch_message \<times> string" where
  "measurement_message c d tags grp ts =
     (let route = route_for c d (case grp of None \<Rightarrow> [] | Some g \<Rightarrow> g);
          mqtt = (case route of None \<Rightarrow> pc_mqtt c | Some r \<Rightarrow> or_mqtt r);
          m = from_results d tags ts mqtt;
          m1 = (if has_text grp \<and> (case route of None \<Rightarrow> True | Some r \<Rightarrow> or_tag_group r \<noteq> the grp)
                then m\<lparr>msg_topic := topic_with_group (msg_topic m) (the grp)\<rparr> else m)
      in (case route of
            None \<Rightarrow> (m1, pc_plugin_type c)
          | Some r \<Rightarrow> (m1\<lparr>msg_topic := (if or_topic r = [] then msg_topic m1 else or_topic r), msg_use_topic := True\<rparr>,
                       or_sink_type r)))"

definition publish_message ::
  "pub_config \<Rightarrow> sink \<Rightarrow> string \<Rightarrow> batch_message \<Rightarrow> device_spec \<Rightarrow> publisher \<Rightarrow> publisher" where
  "publish_message c sink plugin_type m d s =
     (let s1 = s\<lparr>pb_handed := pb_handed s @ [m]\<rparr> in
      case sink (pb_handed s) m of
        None \<Rightarrow> s1
      | Some e \<Rightarrow> emit_log c ''ERROR'' ''plugin'' ''sink publish failed''
          (dupdate [(''device'', VStr (dev_name d)), (''plugin'', VStr plugin_type)] (exception_data e))
          (emit_status c (StText (dev_name d @ '': publish failed: '' @ ex_text e)) s1))"

section \<open>Device status\<close>

definition device_status :: "device_spec \<Rightarrow> publisher \<Rightarrow> link_status option" where
  "device_status d s = map_option ls_status (dget (pb_statuses s) (device_key d))"

definition tag_update :: "device_spec \<Rightarrow> tag_result \<Rightarrow> string \<Rightarrow> string \<Rightarrow> string option \<Rightarrow> status_item" where
  "tag_update d t timestamp quality error = StDict
     [(''type'', VStr ''tag_update''), (''device'', VStr (dev_name d)), (''tag_group'', VStr (res_tag_group t)),
      (''tag'', VStr (res_name t)), (''node_id'', VStr (or_opt (res_node_id t) [])),
      (''mode'', VStr (runtime_mode d)), (''timestamp'', VStr timestamp), (''quality'', VStr quality),
      (''error'', str_val error)]"

definition emit_runtime_tag_status ::
  "pub_config \<Rightarrow> device_spec \<Rightarrow> link_status \<Rightarrow> string \<Rightarrow> datetime \<Rightarrow> publisher \<Rightarrow> publisher" where
  "emit_runtime_tag_status c d quality error ts s =
     (case dget (pb_latest s) (device_key d) of
        None \<Rightarrow> s
      | Some sn \<Rightarrow> fold (\<lambda>t. emit_status c (tag_update d t (isoformat ts) (link_text quality)
            (if quality = LGood then None else Some error))) (dvalues (sn_tags sn)) s)"

definition tag_groups :: "snapshot \<Rightarrow> (string option, tag_result list) pydict" where
  "tag_groups sn = group_by tag_output_group (dvalues (sn_tags sn))"

definition publish_group_status ::
  "pub_config \<Rightarrow> sink \<Rightarrow> device_spec \<Rightarrow> link_state \<Rightarrow> datetime \<Rightarrow> string option \<times> tag_result list \<Rightarrow> publisher \<Rightarrow> publisher" where
  "publish_group_status c sink d st now gt s =
     (let conn = (if ls_status st = LGood then ''on'' else ''off'');
          error_msg = (if conn = ''on'' then None else Some (ls_reason st));
          (m, plugin_type) = measurement_message c d (snd gt) (fst gt) now
      in publish_message c sink plugin_type (ctm_status_message m (snd gt) conn error_msg now) d s)"

definition publish_device_status :: "pub_config \<Rightarrow> sink \<Rightarrow> device_spec \<Rightarrow> datetime \<Rightarrow> publisher \<Rightarrow> publisher" where
  "publish_device_status c sink d now s =
     (case dget (pb_statuses s) (device_key d) of
        None \<Rightarrow> s
      | Some st \<Rightarrow>
          (let s1 = s\<lparr>pb_statuses := dset (device_key d) (st\<lparr>ls_published_at := Some now\<rparr>) (pb_statuses s)\<rparr> in
           case dget (pb_latest s) (device_key d) of
             None \<Rightarrow> s1
           | Some sn \<Rightarrow> fold (publish_group_status c sink d st now) (tag_groups sn) s1))"

definition publish_status_heartbeat_if_due ::
  "pub_config \<Rightarrow> sink \<Rightarrow> device_spec \<Rightarrow> datetime \<Rightarrow> publisher \<Rightarrow> publisher" where
  "publish_status_heartbeat_if_due c sink d now s =
     (if fl_le (pc_status_interval c) fl_zero then s
      else (case dget (pb_statuses s) (device_key d) of
          None \<Rightarrow> s
        | Some st \<Rightarrow>
            (let started = (case ls_published_at st of Some t \<Rightarrow> t | None \<Rightarrow> ls_changed_at st) in
             if fl_le (pc_status_interval c) (seconds_between now started)
             then publish_device_status c sink d now s else s)))"

definition set_device_status ::
  "pub_config \<Rightarrow> sink \<Rightarrow> device_spec \<Rightarrow> link_status \<Rightarrow> string \<Rightarrow> datetime \<Rightarrow> datetime option \<Rightarrow> datetime option
    \<Rightarrow> publisher \<Rightarrow> publisher" where
  "set_device_status c sink d status reason now received source s =
     (let k = device_key d; current = dget (pb_statuses s) k in
      if map_option ls_status current = Some status
      then publish_status_heartbeat_if_due c sink d now
        (s\<lparr>pb_statuses := dset k ((the current)\<lparr>ls_reason := reason, ls_received := received, ls_source := source\<rparr>)
            (pb_statuses s)\<rparr>)
      else let s1 = s\<lparr>pb_statuses := dset k \<lparr>ls_device = d, ls_status = status, ls_reason = reason,
                 ls_changed_at = now, ls_published_at = None, ls_received = received, ls_source = source\<rparr>
                 (pb_statuses s)\<rparr>
           in if current \<noteq> None \<or> status \<noteq> LGood
              then publish_device_status c sink d now (emit_runtime_tag_status c d status reason now s1)
              else s1)"

definition refresh_snapshot :: "pub_config \<Rightarrow> sink \<Rightarrow> datetime \<Rightarrow> snapshot \<Rightarrow> publisher \<Rightarrow> publisher" where
  "refresh_snapshot c sink now sn s =
     (case sn_received sn of
        None \<Rightarrow> s
      | Some received \<Rightarrow>
          (if fl_le (pc_stale_timeout c) (seconds_between now received) \<and> device_status (sn_device sn) s = Some LGood
           then set_device_status c sink (sn_device sn) LStale ''message timeout'' now (Some received) (sn_source sn) s
           else if device_status (sn_device sn) s \<noteq> Some LGood
           then publish_status_heartbeat_if_due c sink (sn_device sn) now s
           else s))"

definition refresh_stale_statuses :: "pub_config \<Rightarrow> sink \<Rightarrow> datetime \<Rightarrow> publisher \<Rightarrow> publisher" where
  "refresh_stale_statuses c sink now s =
     (if fl_le (pc_stale_timeout c) fl_zero then s
      else fold (refresh_snapshot c sink now) (dvalues (pb_latest s)) s)"

section \<open>Receiving results\<close>

definition tag_failed_data :: "device_spec \<Rightarrow> tag_result \<Rightarrow> settings" where
  "tag_failed_data d t =
     [(''device'', VStr (dev_name d)), (''driver'', VStr (dev_driver_type d)),
      (''tag_group'', VStr (res_tag_group t)), (''tag'', VStr (res_name t)),
      (''node_id'', VStr (or_opt (res_node_id t) [])), (''quality'', VStr (quality_text (res_quality t))),
      (''error'', str_val (res_error t))]"

definition store_tag :: "device_key \<Rightarrow> tag_result \<Rightarrow> publisher \<Rightarrow> publisher" where
  "store_tag k t s = (case dget (pb_latest s) k of
     None \<Rightarrow> s
   | Some sn \<Rightarrow> s\<lparr>pb_latest := dset k (sn\<lparr>sn_tags := dset (tag_key t) t (sn_tags sn)\<rparr>) (pb_latest s)\<rparr>)"

definition cache_tag :: "pub_config \<Rightarrow> device_spec \<Rightarrow> tag_result \<Rightarrow> publisher \<Rightarrow> publisher" where
  "cache_tag c d t s =
     (let s1 = store_tag (device_key d) t s;
          s2 = (if res_quality t = Bad \<or> has_text (res_error t)
                then emit_log c ''ERROR'' ''driver'' ''tag read failed'' (tag_failed_data d t) s1 else s1)
      in emit_status c (tag_update d t (isoformat (res_timestamp t)) (quality_text (res_quality t)) (res_error t)) s2)"

definition touch_snapshot :: "read_result \<Rightarrow> datetime \<Rightarrow> publisher \<Rightarrow> publisher" where
  "touch_snapshot r received s =
     (let k = device_key (rr_device r);
          tags = (case dget (pb_latest s) k of None \<Rightarrow> [] | Some sn \<Rightarrow> sn_tags sn)
      in s\<lparr>pb_latest := dset k \<lparr>sn_device = rr_device r, sn_tags = tags, sn_received = Some received,
             sn_source = Some (rr_timestamp r)\<rparr> (pb_latest s)\<rparr>)"

definition reading_failed :: "tag_result \<Rightarrow> bool" where
  "reading_failed t \<longleftrightarrow> res_quality t = Bad \<or> has_text (res_error t)"

definition cache_result :: "pub_config \<Rightarrow> sink \<Rightarrow> read_result \<Rightarrow> datetime \<Rightarrow> publisher \<Rightarrow> publisher" where
  "cache_result c sink r received s =
     (let d = rr_device r;
          s1 = fold (cache_tag c d) (rr_tags r) (touch_snapshot r received s);
          has_bad = (\<exists>t\<in>set (rr_tags r). reading_failed t);
          has_good = (\<exists>t\<in>set (rr_tags r). \<not> reading_failed t);
          src = Some (rr_timestamp r)
      in if has_good then set_device_status c sink d LGood ''data received'' received (Some received) src s1
         else if has_bad then set_device_status c sink d LBad ''tag read failed'' received (Some received) src s1
         else set_device_status c sink d LGood ''data received'' received (Some received) src s1)"

text \<open>\<open>publish_once\<close> on the result that the inbox delivered.\<close>

definition publish_once :: "pub_config \<Rightarrow> sink \<Rightarrow> read_result \<Rightarrow> datetime \<Rightarrow> publisher \<Rightarrow> publisher" where
  "publish_once c sink r received s =
     (if has_text (rr_error r) then
        let d = rr_device r; err = the (rr_error r);
            s1 = emit_status c (StText (dev_name d @ '': read failed: '' @ err)) s;
            s2 = emit_log c ''ERROR'' ''driver'' ''read result error''
              [(''device'', VStr (dev_name d)), (''driver'', VStr (dev_driver_type d)), (''error'', VStr err)] s1
        in set_device_status c sink d LDisconnected err received None None s2
      else cache_result c sink r received s)"

section \<open>Publishing\<close>

definition heartbeat_due :: "output_route \<Rightarrow> datetime \<Rightarrow> datetime option \<Rightarrow> bool" where
  "heartbeat_due r now last_at \<longleftrightarrow> or_kind r = ''system_heartbeat'' \<and> or_topic r \<noteq> [] \<and>
     (case last_at of None \<Rightarrow> True | Some t \<Rightarrow> \<not> fl_lt (seconds_between now t) (or_interval r))"

definition publish_heartbeat ::
  "pub_config \<Rightarrow> sink \<Rightarrow> datetime \<Rightarrow> nat \<times> output_route \<Rightarrow> publisher \<Rightarrow> publisher" where
  "publish_heartbeat c sink now ir s = (case ir of (i, r) \<Rightarrow>
     if heartbeat_due r now (dget (pb_heartbeats s) i)
     then publish_message c sink (or_sink_type r) (system_heartbeat_status_message r now) heartbeat_device
            (s\<lparr>pb_heartbeats := dset i now (pb_heartbeats s)\<rparr>)
     else s)"

definition publish_system_heartbeats :: "pub_config \<Rightarrow> sink \<Rightarrow> datetime \<Rightarrow> publisher \<Rightarrow> publisher" where
  "publish_system_heartbeats c sink now s =
     fold (publish_heartbeat c sink now) (enumerate 0 (pc_routes c)) s"

definition publish_group ::
  "pub_config \<Rightarrow> sink \<Rightarrow> device_spec \<Rightarrow> datetime \<Rightarrow> string option \<times> tag_result list
     \<Rightarrow> publisher \<times> nat \<Rightarrow> publisher \<times> nat" where
  "publish_group c sink d now gt sn =
     (let good_tags = filter good_tag (snd gt) in
      if good_tags = [] then sn
      else let (m, plugin_type) = measurement_message c d good_tags (fst gt) now;
               s1 = publish_message c sink plugin_type m d (fst sn);
               s2 = publish_message c sink plugin_type (ctm_status_message m (snd gt) ''on'' None now) d s1
           in (s2, Suc (snd sn)))"

definition publish_snapshot ::
  "pub_config \<Rightarrow> sink \<Rightarrow> datetime \<Rightarrow> snapshot \<Rightarrow> publisher \<times> nat \<Rightarrow> publisher \<times> nat" where
  "publish_snapshot c sink now sn acc =
     (if device_status (sn_device sn) (fst acc) \<noteq> Some LGood then acc
      else fold (publish_group c sink (sn_device sn) now) (tag_groups sn) acc)"

definition publish_cached :: "pub_config \<Rightarrow> sink \<Rightarrow> datetime \<Rightarrow> publisher \<Rightarrow> publisher \<times> nat" where
  "publish_cached c sink now s =
     (let s1 = publish_system_heartbeats c sink now (refresh_stale_statuses c sink now s)
      in fold (publish_snapshot c sink now) (dvalues (pb_latest s1)) (s1, 0))"

end
