(* ===== verification/Poller.thy ===== *)
theory Poller
  imports Publisher
begin

text \<open>
  The acquisition threads of \<^verbatim>\<open>src/industrial_gateway/workers.py\<close>: \<open>DriverPoller\<close> (a new driver per poll) and
  \<open>OpcUaSubscriptionWorker\<close> (a driver per session, retried after a failure).

  A driver is a parameter: what the factory returns for a device and its enabled tags is a record of the
  outcome of each of its calls. The queues are the lists of what was put into them; \<open>wk_calls\<close> is
  the trace of driver calls. A thread's run is a list of rounds, what the clock and the driver do in each, up
  to the moment its stop event is set; a run returns the exception that ends the thread, if one does.
\<close>

section \<open>State\<close>

datatype driver_call = CConnect | CHealth | CRead | CStart | CRun | CStop | CDisconnect

record worker_config =
  wc_device :: device_spec
  wc_tags :: "tag_spec list"
  wc_has_status :: bool
  wc_has_log :: bool
  wc_health_interval :: pyfloat
  wc_retry_interval :: pyfloat
  wc_datachange_log :: bool

record worker =
  wk_outbox :: "read_result list"
  wk_status :: "status_item list"
  wk_log :: "log_entry list"
  wk_last_check :: pyfloat
  wk_calls :: "driver_call list"

definition enabled_tags :: "tag_spec list \<Rightarrow> tag_spec list" where
  "enabled_tags tags = filter tag_enabled tags"

definition new_worker_config ::
  "device_spec \<Rightarrow> tag_spec list \<Rightarrow> bool \<Rightarrow> bool \<Rightarrow> pyfloat \<Rightarrow> pyfloat \<Rightarrow> bool \<Rightarrow> worker_config" where
  "new_worker_config d tags has_status has_log health retry datachange = \<lparr>wc_device = d, wc_tags = enabled_tags tags,
     wc_has_status = has_status, wc_has_log = has_log, wc_health_interval = health, wc_retry_interval = retry,
     wc_datachange_log = datachange\<rparr>"

definition new_subscription_config ::
  "device_spec \<Rightarrow> tag_spec list \<Rightarrow> bool \<Rightarrow> bool \<Rightarrow> pyfloat \<Rightarrow> pyfloat \<Rightarrow> bool \<Rightarrow> worker_config" where
  "new_subscription_config d tags has_status has_log health retry datachange = \<lparr>wc_device = d, wc_tags = enabled_tags tags,
     wc_has_status = has_status, wc_has_log = has_log, wc_health_interval = health, wc_retry_interval = retry,
     wc_datachange_log = datachange\<rparr>"

definition new_worker :: worker where
  "new_worker = \<lparr>wk_outbox = [], wk_status = [], wk_log = [], wk_last_check = fl_zero, wk_calls = []\<rparr>"

definition call :: "driver_call \<Rightarrow> worker \<Rightarrow> worker" where
  "call k s = s\<lparr>wk_calls := wk_calls s @ [k]\<rparr>"

definition put_result :: "read_result \<Rightarrow> worker \<Rightarrow> worker" where
  "put_result r s = s\<lparr>wk_outbox := wk_outbox s @ [r]\<rparr>"

definition put_status :: "status_item \<Rightarrow> worker \<Rightarrow> worker" where
  "put_status m s = s\<lparr>wk_status := wk_status s @ [m]\<rparr>"

definition worker_log :: "worker_config \<Rightarrow> string \<Rightarrow> string \<Rightarrow> string \<Rightarrow> settings \<Rightarrow> worker \<Rightarrow> worker" where
  "worker_log c level source message data s =
     (if wc_has_log c
      then let data' = (if source = ''driver''
                        then dset ''driver'' (VStr (dev_driver_type (wc_device c))) data else data)
           in s\<lparr>wk_log := wk_log s @
                [\<lparr>lg_level = level, lg_source = source, lg_message = message, lg_data = data'\<rparr>]\<rparr>
      else s)"

definition device_data :: "worker_config \<Rightarrow> settings \<Rightarrow> settings" where
  "device_data c data = dupdate [(''device'', VStr (dev_name (wc_device c)))] data"

definition worker_error :: "worker_config \<Rightarrow> string \<Rightarrow> exn \<Rightarrow> worker \<Rightarrow> worker" where
  "worker_error c message e s = worker_log c ''ERROR'' ''driver'' message (device_data c (exception_data e)) s"

definition error_result :: "worker_config \<Rightarrow> datetime \<Rightarrow> exn \<Rightarrow> read_result" where
  "error_result c t e = \<lparr>rr_device = wc_device c, rr_timestamp = t, rr_tags = [], rr_error = Some (ex_text e)\<rparr>"

section \<open>Server health\<close>

definition server_status :: "device_spec \<Rightarrow> string \<Rightarrow> datetime \<Rightarrow> string option \<Rightarrow> status_item" where
  "server_status d status now error = StDict
     [(''type'', VStr ''server_status''), (''device'', VStr (dev_name d)), (''status'', VStr status),
      (''timestamp'', VStr (isoformat now)), (''error'', str_val error)]"

text \<open>\<open>reader\<close> is what \<open>read_server_status\<close> does, \<open>None\<close> if the driver has no such method; \<open>clock\<close> is
  \<open>time.monotonic()\<close>.\<close>

definition health_due :: "worker_config \<Rightarrow> pyfloat \<Rightarrow> worker \<Rightarrow> bool" where
  "health_due c clock s \<longleftrightarrow> \<not> fl_lt (fl_sub clock (wk_last_check s)) (wc_health_interval c)"

definition health_check ::
  "worker_config \<Rightarrow> exn option option \<Rightarrow> pyfloat \<Rightarrow> datetime \<Rightarrow> worker \<Rightarrow> exn option \<times> worker" where
  "health_check c reader clock now s =
     (if \<not> health_due c clock s then (None, s)
      else let s1 = s\<lparr>wk_last_check := clock\<rparr> in
        (case reader of
           None \<Rightarrow> (None, s1)
         | Some None \<Rightarrow> (None, put_status (server_status (wc_device c) ''OK'' now None) (call CHealth s1))
         | Some (Some e) \<Rightarrow>
             (Some e, worker_error c ''server health check failed'' e
               (put_status (server_status (wc_device c) ''ERROR'' now (Some (ex_text e))) (call CHealth s1)))))"

definition poller_check_server_status ::
  "worker_config \<Rightarrow> exn option option \<Rightarrow> pyfloat \<Rightarrow> datetime \<Rightarrow> worker \<Rightarrow> worker" where
  "poller_check_server_status c reader clock now s =
     (if \<not> wc_has_status c \<or> dev_driver_type (wc_device c) \<noteq> ''opcua'' then s
      else snd (health_check c reader clock now s))"

text \<open>The subscription worker raises the exception again.\<close>

definition sub_check_server_status ::
  "worker_config \<Rightarrow> exn option option \<Rightarrow> pyfloat \<Rightarrow> datetime \<Rightarrow> worker \<Rightarrow> exn option \<times> worker" where
  "sub_check_server_status c reader clock now s =
     (if \<not> wc_has_status c then (None, s) else health_check c reader clock now s)"

section \<open>Polling\<close>

record driver =
  dr_connect :: "exn option"
  dr_health :: "exn option option"
  dr_read :: "exn + tag_result list"
  dr_disconnect :: "exn option"

type_synonym driver_factory = "device_spec \<Rightarrow> tag_spec list \<Rightarrow> exn + driver"

record poll_round =
  po_factory :: driver_factory
  po_time :: datetime
  po_clock :: pyfloat
  po_health_time :: datetime

definition poll_failed :: "worker_config \<Rightarrow> datetime \<Rightarrow> exn \<Rightarrow> worker \<Rightarrow> worker" where
  "poll_failed c t e s = worker_error c ''driver read failed'' e (put_result (error_result c t e) s)"

definition poll_body :: "worker_config \<Rightarrow> driver \<Rightarrow> poll_round \<Rightarrow> worker \<Rightarrow> worker" where
  "poll_body c dr p s =
     (let s1 = call CConnect s in
      case dr_connect dr of
        Some e \<Rightarrow> poll_failed c (po_time p) e s1
      | None \<Rightarrow>
          (let s2 = call CRead (poller_check_server_status c (dr_health dr) (po_clock p) (po_health_time p) s1) in
           case dr_read dr of
             Inl e \<Rightarrow> poll_failed c (po_time p) e s2
           | Inr tags \<Rightarrow> worker_log c ''DEBUG'' ''driver'' ''driver read completed''
               [(''device'', VStr (dev_name (wc_device c))), (''tags'', VList (map (\<lambda>t. VDict (to_payload t)) tags))]
               (put_result \<lparr>rr_device = wc_device c, rr_timestamp = po_time p, rr_tags = tags, rr_error = None\<rparr> s2)))"

definition poll_once :: "worker_config \<Rightarrow> poll_round \<Rightarrow> worker \<Rightarrow> exn option \<times> worker" where
  "poll_once c p s =
     (case po_factory p (wc_device c) (wc_tags c) of
        Inl e \<Rightarrow> (Some e, s)
      | Inr dr \<Rightarrow>
          (let s1 = call CDisconnect (poll_body c dr p s) in
           (None, case dr_disconnect dr of
               None \<Rightarrow> s1
             | Some e \<Rightarrow> worker_error c ''driver disconnect failed'' e s1)))"

fun poller_run :: "worker_config \<Rightarrow> poll_round list \<Rightarrow> worker \<Rightarrow> exn option \<times> worker" where
  "poller_run c [] s = (None, s)"
| "poller_run c (p # ps) s = (case poll_once c p s of
     (Some e, s') \<Rightarrow> (Some e, s')
   | (None, s') \<Rightarrow> poller_run c ps s')"

section \<open>Subscriptions\<close>

text \<open>A subscription driver hands results to the worker's \<open>emit\<close> while a call runs. A step is one call of
  \<open>run_subscription_once\<close> followed by the health check; a session's steps are those made before the
  stop event was set, and \<open>se_stopped\<close> tells whether it is set when a failed session ends.\<close>

record sub_driver =
  sd_connect :: "exn option"
  sd_start_emits :: "read_result list"
  sd_start :: "exn option"
  sd_stop :: "exn option"
  sd_disconnect :: "exn option"

record sub_step =
  st_emits :: "read_result list"
  st_run :: "exn option"
  st_health :: "exn option option"
  st_clock :: pyfloat
  st_time :: datetime

record session =
  se_factory :: "device_spec \<Rightarrow> tag_spec list \<Rightarrow> exn + sub_driver"
  se_steps :: "sub_step list"
  se_time :: datetime
  se_stopped :: bool

definition emit_result :: "worker_config \<Rightarrow> read_result \<Rightarrow> worker \<Rightarrow> worker" where
  "emit_result c r s =
     (let s1 = put_result r s in
      if \<not> wc_datachange_log c then s1
      else worker_log c ''INFO'' ''driver'' ''subscription datachange''
        [(''device'', VStr (dev_name (rr_device r))), (''tags'', VList (map (\<lambda>t. VDict (to_payload t)) (rr_tags r)))] s1)"

definition subscription_connection_data :: "device_spec \<Rightarrow> settings res" where
  "subscription_connection_data d =
     (let g = (\<lambda>k. item_get (dev_connection d) k) in
      if dev_driver_type d = ''mqtt'' then
        rbind (py_int (or_val (g ''port'') (VInt 1883))) (\<lambda>port.
          Inr [(''host'', or_val (g ''host'') (VStr ''localhost'')), (''port'', VInt port),
               (''topic_filter'', or_val (g ''topic_filter'') (VStr ''''))])
      else Inr [(''endpoint'', or_val (g ''endpoint'') (get_or (dev_connection d) ''url'' (VStr ''''))),
                (''mode'', get_or (dev_connection d) ''mode'' (VStr ''''))])"

definition start_failed :: "worker_config \<Rightarrow> session \<Rightarrow> exn \<Rightarrow> worker \<Rightarrow> pyerr option \<times> worker" where
  "start_failed c se e s =
     (let s1 = put_result (error_result c (se_time se) e) s in
      case subscription_connection_data (wc_device c) of
        Inl x \<Rightarrow> (Some x, s1)
      | Inr conn \<Rightarrow> (None, worker_log c ''ERROR'' ''driver'' ''subscription start failed''
          (dupdate (device_data c conn) (exception_data e)) s1))"

definition sub_failed :: "worker_config \<Rightarrow> datetime \<Rightarrow> exn \<Rightarrow> worker \<Rightarrow> worker" where
  "sub_failed c t e s = worker_error c ''subscription failed'' e (put_result (error_result c t e) s)"

fun sub_steps :: "worker_config \<Rightarrow> sub_step list \<Rightarrow> worker \<Rightarrow> bool \<times> worker" where
  "sub_steps c [] s = (False, s)"
| "sub_steps c (st # sts) s =
     (let s1 = fold (emit_result c) (st_emits st) (call CRun s) in
      case st_run st of
        Some e \<Rightarrow> (True, sub_failed c (st_time st) e s1)
      | None \<Rightarrow> (case sub_check_server_status c (st_health st) (st_clock st) (st_time st) s1 of
            (Some e, s2) \<Rightarrow> (True, sub_failed c (st_time st) e s2)
          | (None, s2) \<Rightarrow> sub_steps c sts s2))"

definition cleanup_driver :: "worker_config \<Rightarrow> sub_driver \<Rightarrow> bool \<Rightarrow> worker \<Rightarrow> worker" where
  "cleanup_driver c dr started s =
     (let s1 = (if started
                then case sd_stop dr of
                    None \<Rightarrow> call CStop s
                  | Some e \<Rightarrow> worker_error c ''subscription stop failed'' e (call CStop s)
                else s);
          s2 = call CDisconnect s1
      in case sd_disconnect dr of
           None \<Rightarrow> s2
         | Some e \<Rightarrow> worker_error c ''subscription disconnect failed'' e s2)"

text \<open>\<open>start_once\<close> with the driver the factory built: the exception it raises, if any.\<close>

definition start_once :: "worker_config \<Rightarrow> sub_driver \<Rightarrow> worker \<Rightarrow> exn option \<times> worker" where
  "start_once c dr s =
     (let s1 = call CConnect s in
      case sd_connect dr of
        Some e \<Rightarrow> (Some e, s1)
      | None \<Rightarrow>
          (let s2 = fold (emit_result c) (sd_start_emits dr) (call CStart s1) in
           case sd_start dr of
             Some e \<Rightarrow> (Some e, s2)
           | None \<Rightarrow> (None, worker_log c ''INFO'' ''driver'' ''subscription started''
               [(''device'', VStr (dev_name (wc_device c)))] s2)))"

text \<open>One session: the exception that ends the thread, whether the session failed, and the state after cleanup.\<close>

definition sub_session :: "worker_config \<Rightarrow> session \<Rightarrow> worker \<Rightarrow> pyerr option \<times> bool \<times> worker" where
  "sub_session c se s =
     (case se_factory se (wc_device c) (wc_tags c) of
        Inl e \<Rightarrow> (let (x, s1) = start_failed c se e s in (x, True, s1))
      | Inr dr \<Rightarrow>
          (case start_once c dr s of
             (Some e, s1) \<Rightarrow> (let (x, s2) = start_failed c se e s1 in (x, True, cleanup_driver c dr False s2))
           | (None, s1) \<Rightarrow> (let (failed, s2) = sub_steps c (se_steps se) s1 in
               (None, failed, cleanup_driver c dr True s2))))"

definition sub_retry :: "worker_config \<Rightarrow> worker \<Rightarrow> pyerr option \<times> worker" where
  "sub_retry c s = (case subscription_connection_data (wc_device c) of
     Inl x \<Rightarrow> (Some x, s)
   | Inr conn \<Rightarrow> (None, worker_log c ''INFO'' ''driver'' ''subscription retrying''
       (dset ''retry_after_s'' (VFloat (wc_retry_interval c)) (device_data c conn)) s))"

fun sub_run :: "worker_config \<Rightarrow> session list \<Rightarrow> worker \<Rightarrow> pyerr option \<times> worker" where
  "sub_run c [] s = (None, s)"
| "sub_run c (se # ses) s = (case sub_session c se s of
     (Some x, failed, s1) \<Rightarrow> (Some x, s1)
   | (None, failed, s1) \<Rightarrow>
       if \<not> failed \<or> se_stopped se then (None, s1)
       else (case sub_retry c s1 of
           (Some x, s2) \<Rightarrow> (Some x, s2)
         | (None, s2) \<Rightarrow> sub_run c ses s2))"

end
