(* ===== verification/Publisher_Props.thy ===== *)
theory Publisher_Props
  imports Publisher
begin

text \<open>
  Properties of the publisher: what each operation leaves alone (the collection \<open>pub_frame\<close>), the
  invariant of its caches over every reachable state, freshness of what it publishes, status
  transitions, heartbeats, route choice, and isolation from failures of the sink.
\<close>

named_theorems pub_frame

section \<open>Frame lemmas\<close>

lemma emit_frame [pub_frame, simp]:
  "pb_latest (emit_status c m s) = pb_latest s" "pb_statuses (emit_status c m s) = pb_statuses s"
  "pb_heartbeats (emit_status c m s) = pb_heartbeats s" "pb_handed (emit_status c m s) = pb_handed s"
  "pb_latest (emit_log c l so me da s) = pb_latest s" "pb_statuses (emit_log c l so me da s) = pb_statuses s"
  "pb_heartbeats (emit_log c l so me da s) = pb_heartbeats s" "pb_handed (emit_log c l so me da s) = pb_handed s"
  by (simp_all add: emit_status_def emit_log_def Let_def)

lemma publish_message_frame [pub_frame, simp]:
  "pb_latest (publish_message c k p m d s) = pb_latest s"
  "pb_statuses (publish_message c k p m d s) = pb_statuses s"
  "pb_heartbeats (publish_message c k p m d s) = pb_heartbeats s"
  "pb_handed (publish_message c k p m d s) = pb_handed s @ [m]"
  by (simp_all add: publish_message_def Let_def split: option.split)

lemma fold_frame: "(\<And>x s. f (g x s) = f s) \<Longrightarrow> f (fold g xs s) = f s"
  by (induction xs arbitrary: s) simp_all

lemma emit_runtime_frame [pub_frame, simp]:
  "pb_latest (emit_runtime_tag_status c d q e t s) = pb_latest s"
  "pb_statuses (emit_runtime_tag_status c d q e t s) = pb_statuses s"
  "pb_heartbeats (emit_runtime_tag_status c d q e t s) = pb_heartbeats s"
  "pb_handed (emit_runtime_tag_status c d q e t s) = pb_handed s"
  by (simp_all add: emit_runtime_tag_status_def fold_frame [where f = pb_latest]
      fold_frame [where f = pb_statuses] fold_frame [where f = pb_heartbeats] fold_frame [where f = pb_handed]
      split: option.split)

definition group_status_message ::
  "pub_config \<Rightarrow> device_spec \<Rightarrow> link_state \<Rightarrow> datetime \<Rightarrow> string option \<times> tag_result list \<Rightarrow> batch_message" where
  "group_status_message c d st now gt =
     ctm_status_message (fst (measurement_message c d (snd gt) (fst gt) now)) (snd gt)
       (if ls_status st = LGood then ''on'' else ''off'')
       (if ls_status st = LGood then None else Some (ls_reason st)) now"

lemma publish_group_status_frame [pub_frame, simp]:
  "pb_latest (publish_group_status c k d st now gt s) = pb_latest s"
  "pb_statuses (publish_group_status c k d st now gt s) = pb_statuses s"
  "pb_heartbeats (publish_group_status c k d st now gt s) = pb_heartbeats s"
  "pb_handed (publish_group_status c k d st now gt s) = pb_handed s @ [group_status_message c d st now gt]"
  by (simp_all add: publish_group_status_def group_status_message_def Let_def split: prod.split)

lemma fold_handed:
  "(\<And>x s. pb_handed (g x s) = pb_handed s @ [h x]) \<Longrightarrow> pb_handed (fold g xs s) = pb_handed s @ map h xs"
  by (induction xs arbitrary: s) simp_all

definition status_messages :: "pub_config \<Rightarrow> device_spec \<Rightarrow> link_state \<Rightarrow> datetime \<Rightarrow> publisher \<Rightarrow> batch_message list" where
  "status_messages c d st now s = (case dget (pb_latest s) (device_key d) of None \<Rightarrow> []
     | Some sn \<Rightarrow> map (group_status_message c d st now) (tag_groups sn))"

lemma publish_device_status_frame [pub_frame, simp]:
  "pb_latest (publish_device_status c k d now s) = pb_latest s"
  "pb_heartbeats (publish_device_status c k d now s) = pb_heartbeats s"
  "pb_statuses (publish_device_status c k d now s) = (case dget (pb_statuses s) (device_key d) of None \<Rightarrow> pb_statuses s
     | Some st \<Rightarrow> dset (device_key d) (st\<lparr>ls_published_at := Some now\<rparr>) (pb_statuses s))"
  "pb_handed (publish_device_status c k d now s) = pb_handed s @ (case dget (pb_statuses s) (device_key d) of None \<Rightarrow> []
     | Some st \<Rightarrow> status_messages c d st now s)"
  by (simp_all add: publish_device_status_def status_messages_def Let_def fold_frame [where f = pb_latest]
      fold_frame [where f = pb_statuses] fold_frame [where f = pb_heartbeats] fold_handed
      split: option.split)

lemma heartbeat_if_due_frame [pub_frame, simp]:
  "pb_latest (publish_status_heartbeat_if_due c k d now s) = pb_latest s"
  "pb_heartbeats (publish_status_heartbeat_if_due c k d now s) = pb_heartbeats s"
  by (simp_all add: publish_status_heartbeat_if_due_def Let_def split: option.split)

lemma set_device_status_frame [pub_frame, simp]:
  "pb_latest (set_device_status c k d st r now rc so s) = pb_latest s"
  "pb_heartbeats (set_device_status c k d st r now rc so s) = pb_heartbeats s"
  by (simp_all add: set_device_status_def Let_def)

text \<open>Publishing a status changes no status, it only stamps it.\<close>

lemma link_after_publish: "device_status e (publish_device_status c k d now s) = device_status e s"
  by (auto simp: device_status_def dget_dset split: option.split)

lemma link_after_heartbeat: "device_status e (publish_status_heartbeat_if_due c k d now s) = device_status e s"
  by (simp add: publish_status_heartbeat_if_due_def Let_def link_after_publish split: option.split)

lemma link_after_set:
  "device_status e (set_device_status c k d st r now rc so s) =
     (if device_key e = device_key d then Some st else device_status e s)"
  unfolding set_device_status_def Let_def
  by (auto simp: link_after_heartbeat link_after_publish)
    (auto simp: device_status_def dget_dset)

lemma refresh_snapshot_frame [pub_frame, simp]:
  "pb_latest (refresh_snapshot c k now sn s) = pb_latest s"
  "pb_heartbeats (refresh_snapshot c k now sn s) = pb_heartbeats s"
  by (simp_all add: refresh_snapshot_def split: option.split)

lemma refresh_stale_frame [pub_frame, simp]:
  "pb_latest (refresh_stale_statuses c k now s) = pb_latest s"
  "pb_heartbeats (refresh_stale_statuses c k now s) = pb_heartbeats s"
  by (simp_all add: refresh_stale_statuses_def fold_frame [where f = pb_latest] fold_frame [where f = pb_heartbeats])

lemma publish_heartbeat_frame [pub_frame, simp]:
  "pb_latest (publish_heartbeat c k now ir s) = pb_latest s"
  "pb_statuses (publish_heartbeat c k now ir s) = pb_statuses s"
  by (simp_all add: publish_heartbeat_def split: prod.split)

lemma publish_system_heartbeats_frame [pub_frame, simp]:
  "pb_latest (publish_system_heartbeats c k now s) = pb_latest s"
  "pb_statuses (publish_system_heartbeats c k now s) = pb_statuses s"
  by (simp_all add: publish_system_heartbeats_def fold_frame [where f = pb_latest] fold_frame [where f = pb_statuses])

lemma publish_group_frame [pub_frame, simp]:
  "pb_latest (fst (publish_group c k d now gt acc)) = pb_latest (fst acc)"
  "pb_statuses (fst (publish_group c k d now gt acc)) = pb_statuses (fst acc)"
  "pb_heartbeats (fst (publish_group c k d now gt acc)) = pb_heartbeats (fst acc)"
  by (simp_all add: publish_group_def Let_def split: prod.split)

lemma publish_snapshot_frame [pub_frame, simp]:
  "pb_latest (fst (publish_snapshot c k now sn acc)) = pb_latest (fst acc)"
  "pb_statuses (fst (publish_snapshot c k now sn acc)) = pb_statuses (fst acc)"
  "pb_heartbeats (fst (publish_snapshot c k now sn acc)) = pb_heartbeats (fst acc)"
  by (simp_all add: publish_snapshot_def fold_frame [where f = "\<lambda>a. pb_latest (fst a)"]
      fold_frame [where f = "\<lambda>a. pb_statuses (fst a)"] fold_frame [where f = "\<lambda>a. pb_heartbeats (fst a)"])

lemma publish_cached_frame [pub_frame, simp]:
  "pb_latest (fst (publish_cached c k now s)) = pb_latest s"
  "pb_statuses (fst (publish_cached c k now s)) = pb_statuses (refresh_stale_statuses c k now s)"
  by (simp_all add: publish_cached_def Let_def fold_frame [where f = "\<lambda>a. pb_latest (fst a)"]
      fold_frame [where f = "\<lambda>a. pb_statuses (fst a)"])

section \<open>The invariant of the caches\<close>

definition snapshot_ok :: "device_key \<Rightarrow> snapshot \<Rightarrow> bool" where
  "snapshot_ok k sn \<longleftrightarrow> device_key (sn_device sn) = k \<and> dwf (sn_tags sn) \<and>
     list_all (\<lambda>(tk, t). tag_key t = tk) (sn_tags sn) \<and> sn_received sn \<noteq> None"

definition latest_ok :: "(device_key, snapshot) pydict \<Rightarrow> bool" where
  "latest_ok l \<longleftrightarrow> dwf l \<and> list_all (\<lambda>(k, sn). snapshot_ok k sn) l"

definition statuses_ok :: "(device_key, link_state) pydict \<Rightarrow> bool" where
  "statuses_ok m \<longleftrightarrow> dwf m \<and> list_all (\<lambda>(k, st). device_key (ls_device st) = k) m"

definition pub_inv :: "publisher \<Rightarrow> bool" where
  "pub_inv s \<longleftrightarrow> latest_ok (pb_latest s) \<and> statuses_ok (pb_statuses s) \<and>
     fst ` set (pb_latest s) \<subseteq> fst ` set (pb_statuses s)"

lemma list_all_dset: "list_all P d \<Longrightarrow> P (k, v) \<Longrightarrow> list_all P (dset k v d)"
  using set_dset_subset [of k v d] by (auto simp: list_all_iff)

lemma list_all_dget: "list_all P d \<Longrightarrow> dget d k = Some v \<Longrightarrow> P (k, v)"
  using dget_in_set [of d k v] by (auto simp: list_all_iff)

lemma statuses_ok_dset: "statuses_ok m \<Longrightarrow> device_key (ls_device st) = k \<Longrightarrow> statuses_ok (dset k st m)"
  by (simp add: statuses_ok_def list_all_dset)

lemma statuses_ok_dget: "statuses_ok m \<Longrightarrow> dget m k = Some st \<Longrightarrow> device_key (ls_device st) = k"
  using list_all_dget [of "\<lambda>(k, st). device_key (ls_device st) = k" m k st] by (simp add: statuses_ok_def)

lemma publish_device_status_statuses:
  "statuses_ok (pb_statuses s) \<Longrightarrow> statuses_ok (pb_statuses (publish_device_status c k d now s)) \<and>
   fst ` set (pb_statuses (publish_device_status c k d now s)) = fst ` set (pb_statuses s)"
proof (cases "dget (pb_statuses s) (device_key d)")
  case (Some st)
  assume ok: "statuses_ok (pb_statuses s)"
  have "device_key d \<in> fst ` set (pb_statuses s)"
    using Some dget_None_iff [of "pb_statuses s" "device_key d"] by auto
  with ok Some show ?thesis by (auto simp: statuses_ok_dset statuses_ok_dget insert_absorb)
qed simp

lemma heartbeat_if_due_statuses:
  "statuses_ok (pb_statuses s) \<Longrightarrow> statuses_ok (pb_statuses (publish_status_heartbeat_if_due c k d now s)) \<and>
   fst ` set (pb_statuses (publish_status_heartbeat_if_due c k d now s)) = fst ` set (pb_statuses s)"
  using publish_device_status_statuses [of s c k d now]
  by (auto simp: publish_status_heartbeat_if_due_def Let_def split: option.splits)

lemma set_device_status_statuses:
  assumes "statuses_ok (pb_statuses s)"
  shows "statuses_ok (pb_statuses (set_device_status c k d st r now rc so s)) \<and>
    fst ` set (pb_statuses (set_device_status c k d st r now rc so s)) = insert (device_key d) (fst ` set (pb_statuses s))"
proof (cases "map_option ls_status (dget (pb_statuses s) (device_key d)) = Some st")
  case True
  then obtain cur where cur: "dget (pb_statuses s) (device_key d) = Some cur" by auto
  define s1 where "s1 = s\<lparr>pb_statuses := dset (device_key d) (cur\<lparr>ls_reason := r, ls_received := rc, ls_source := so\<rparr>) (pb_statuses s)\<rparr>"
  have "set_device_status c k d st r now rc so s = publish_status_heartbeat_if_due c k d now s1"
    using True cur by (simp add: set_device_status_def s1_def)
  moreover have "statuses_ok (pb_statuses s1)"
    using assms statuses_ok_dget [OF assms cur] by (simp add: s1_def statuses_ok_dset)
  ultimately show ?thesis using heartbeat_if_due_statuses [of s1] by (simp add: s1_def)
next
  case False
  define new where "new = \<lparr>ls_device = d, ls_status = st, ls_reason = r, ls_changed_at = now,
    ls_published_at = None, ls_received = rc, ls_source = so\<rparr>"
  define s1 where "s1 = s\<lparr>pb_statuses := dset (device_key d) new (pb_statuses s)\<rparr>"
  have eq: "set_device_status c k d st r now rc so s =
      (if dget (pb_statuses s) (device_key d) \<noteq> None \<or> st \<noteq> LGood
       then publish_device_status c k d now (emit_runtime_tag_status c d st r now s1) else s1)"
    unfolding set_device_status_def Let_def if_not_P [OF False] s1_def new_def ..
  have ok: "statuses_ok (pb_statuses s1)" using assms by (simp add: s1_def new_def statuses_ok_dset)
  have keys: "fst ` set (pb_statuses s1) = insert (device_key d) (fst ` set (pb_statuses s))" by (simp add: s1_def)
  show ?thesis
    using publish_device_status_statuses [of "emit_runtime_tag_status c d st r now s1" c k d now] ok keys
    unfolding eq by (simp del: publish_device_status_frame)
qed

lemma set_device_status_inv: "pub_inv s \<Longrightarrow> pub_inv (set_device_status c k d st r now rc so s)"
  using set_device_status_statuses [of s c k d st r now rc so] by (auto simp: pub_inv_def)

lemma heartbeat_if_due_inv: "pub_inv s \<Longrightarrow> pub_inv (publish_status_heartbeat_if_due c k d now s)"
  using heartbeat_if_due_statuses [of s c k d now] by (auto simp: pub_inv_def)

lemma refresh_snapshot_inv: "pub_inv s \<Longrightarrow> pub_inv (refresh_snapshot c k now sn s)"
  by (auto simp: refresh_snapshot_def set_device_status_inv heartbeat_if_due_inv split: option.split)

lemma fold_inv: "(\<And>x s. P s \<Longrightarrow> P (g x s)) \<Longrightarrow> P s \<Longrightarrow> P (fold g xs s)"
  by (induction xs arbitrary: s) simp_all

lemma refresh_stale_inv: "pub_inv s \<Longrightarrow> pub_inv (refresh_stale_statuses c k now s)"
  by (auto simp: refresh_stale_statuses_def intro: fold_inv [where P = pub_inv] refresh_snapshot_inv)

lemma publish_cached_inv: "pub_inv s \<Longrightarrow> pub_inv (fst (publish_cached c k now s))"
  using refresh_stale_inv [of s c k now] by (simp add: pub_inv_def)

text \<open>While a result is cached its device may have a snapshot and no status yet.\<close>

definition cache_inv :: "publisher \<Rightarrow> bool" where
  "cache_inv s \<longleftrightarrow> latest_ok (pb_latest s) \<and> statuses_ok (pb_statuses s)"

lemma snapshot_ok_store: "snapshot_ok k sn \<Longrightarrow> snapshot_ok k (sn\<lparr>sn_tags := dset (tag_key t) t (sn_tags sn)\<rparr>)"
  by (simp add: snapshot_ok_def list_all_dset)

lemma latest_ok_dset: "latest_ok l \<Longrightarrow> snapshot_ok k sn \<Longrightarrow> latest_ok (dset k sn l)"
  by (simp add: latest_ok_def list_all_dset)

lemma latest_ok_dget: "latest_ok l \<Longrightarrow> dget l k = Some sn \<Longrightarrow> snapshot_ok k sn"
  using list_all_dget [of "\<lambda>(k, sn). snapshot_ok k sn" l k sn] by (simp add: latest_ok_def)

lemma cache_tag_latest: "pb_latest (cache_tag c d t s) = pb_latest (store_tag (device_key d) t s)"
  by (simp add: cache_tag_def Let_def)

lemma store_tag_frame [pub_frame, simp]:
  "pb_statuses (store_tag k t s) = pb_statuses s" "pb_heartbeats (store_tag k t s) = pb_heartbeats s"
  "pb_handed (store_tag k t s) = pb_handed s"
  by (simp_all add: store_tag_def split: option.split)

lemma cache_tag_frame [pub_frame, simp]:
  "pb_statuses (cache_tag c d t s) = pb_statuses s" "pb_heartbeats (cache_tag c d t s) = pb_heartbeats s"
  "pb_handed (cache_tag c d t s) = pb_handed s"
  by (simp_all add: cache_tag_def Let_def)

lemma cache_tag_inv:
  "cache_inv s \<Longrightarrow> cache_inv (cache_tag c d t s) \<and> fst ` set (pb_latest (cache_tag c d t s)) = fst ` set (pb_latest s)"
proof (cases "dget (pb_latest s) (device_key d)")
  case (Some sn)
  assume inv: "cache_inv s"
  then have "snapshot_ok (device_key d) sn" using latest_ok_dget Some by (auto simp: cache_inv_def)
  moreover have "device_key d \<in> fst ` set (pb_latest s)"
    using Some dget_None_iff [of "pb_latest s" "device_key d"] by auto
  ultimately show ?thesis
    using inv Some by (auto simp: cache_inv_def cache_tag_latest store_tag_def latest_ok_dset snapshot_ok_store insert_absorb)
qed (simp add: cache_inv_def cache_tag_latest store_tag_def)

lemma cache_tags_inv:
  "cache_inv s \<Longrightarrow> cache_inv (fold (cache_tag c d) ts s) \<and>
   fst ` set (pb_latest (fold (cache_tag c d) ts s)) = fst ` set (pb_latest s)"
proof (induction ts arbitrary: s)
  case (Cons t ts)
  then show ?case using cache_tag_inv [of s c d t] by simp
qed simp

lemma touch_snapshot_inv:
  assumes "cache_inv s"
  shows "cache_inv (touch_snapshot r now s) \<and>
    fst ` set (pb_latest (touch_snapshot r now s)) = insert (device_key (rr_device r)) (fst ` set (pb_latest s)) \<and>
    pb_statuses (touch_snapshot r now s) = pb_statuses s"
proof -
  have "snapshot_ok (device_key (rr_device r)) \<lparr>sn_device = rr_device r,
      sn_tags = (case dget (pb_latest s) (device_key (rr_device r)) of None \<Rightarrow> [] | Some sn \<Rightarrow> sn_tags sn),
      sn_received = Some now, sn_source = Some (rr_timestamp r)\<rparr>"
    using assms latest_ok_dget [of "pb_latest s" "device_key (rr_device r)"]
    by (auto simp: cache_inv_def snapshot_ok_def split: option.split)
  then show ?thesis using assms by (simp add: touch_snapshot_def Let_def cache_inv_def latest_ok_dset)
qed

lemma cache_result_as_set:
  "\<exists>st reason. cache_result c k r now s = set_device_status c k (rr_device r) st reason now (Some now) (Some (rr_timestamp r))
     (fold (cache_tag c (rr_device r)) (rr_tags r) (touch_snapshot r now s)) \<and>
   st = (if rr_tags r = [] \<or> (\<exists>t\<in>set (rr_tags r). \<not> reading_failed t) then LGood else LBad)"
  unfolding cache_result_def Let_def by (cases "rr_tags r") auto

lemma cache_result_inv:
  assumes "pub_inv s"
  shows "pub_inv (cache_result c k r now s)"
proof -
  define s1 where "s1 = fold (cache_tag c (rr_device r)) (rr_tags r) (touch_snapshot r now s)"
  obtain st reason where eq: "cache_result c k r now s =
      set_device_status c k (rr_device r) st reason now (Some now) (Some (rr_timestamp r)) s1"
    using cache_result_as_set [of c k r now s] by (auto simp: s1_def)
  have t: "cache_inv (touch_snapshot r now s)" using touch_snapshot_inv assms by (simp add: pub_inv_def cache_inv_def)
  have i: "cache_inv s1" "fst ` set (pb_latest s1) = insert (device_key (rr_device r)) (fst ` set (pb_latest s))"
    using cache_tags_inv [OF t] touch_snapshot_inv [of s r now] assms by (simp_all add: s1_def pub_inv_def cache_inv_def)
  have "pb_statuses s1 = pb_statuses s"
    using touch_snapshot_inv [of s r now] assms
    by (simp add: s1_def fold_frame [where f = pb_statuses] pub_inv_def cache_inv_def)
  with i assms show ?thesis
    using set_device_status_statuses [of s1 c k "rr_device r" st reason now "Some now" "Some (rr_timestamp r)"]
    by (auto simp: eq pub_inv_def cache_inv_def)
qed

lemma emit_inv [simp]: "pub_inv (emit_status c m s) = pub_inv s" "pub_inv (emit_log c l so me da s) = pub_inv s"
  by (simp_all add: pub_inv_def)

lemma publish_once_inv: "pub_inv s \<Longrightarrow> pub_inv (publish_once c k r now s)"
  by (simp add: publish_once_def Let_def cache_result_inv set_device_status_inv)

text \<open>The states a publisher can reach: results arrive and the cache is published, in any order and at
  any times.\<close>

inductive pub_step :: "pub_config \<Rightarrow> sink \<Rightarrow> publisher \<Rightarrow> publisher \<Rightarrow> bool" for c k where
  receive: "pub_step c k s (publish_once c k r now s)"
| publish: "pub_step c k s (fst (publish_cached c k now s))"

inductive_cases pub_stepE: "pub_step c k s s'"

inductive pub_reachable :: "pub_config \<Rightarrow> sink \<Rightarrow> publisher \<Rightarrow> bool" for c k where
  start: "pub_reachable c k new_publisher"
| step: "pub_reachable c k s \<Longrightarrow> pub_step c k s s' \<Longrightarrow> pub_reachable c k s'"

lemma pub_step_inv: "pub_step c k s s' \<Longrightarrow> pub_inv s \<Longrightarrow> pub_inv s'"
  by (erule pub_stepE) (simp_all add: publish_once_inv publish_cached_inv)

lemma pub_reachable_inv: "pub_reachable c k s \<Longrightarrow> pub_inv s"
proof (induction rule: pub_reachable.induct)
  case start
  show ?case by (simp add: pub_inv_def new_publisher_def latest_ok_def statuses_ok_def)
qed (rule pub_step_inv)

section \<open>What is handed to the sink\<close>

definition is_measurement :: "batch_message \<Rightarrow> bool" where
  "is_measurement m \<longleftrightarrow> dget (msg_payload m) ''tags'' \<noteq> None"

text \<open>An operation is quiet when it hands only status messages to the sink.\<close>

definition quiet :: "publisher \<Rightarrow> publisher \<Rightarrow> bool" where
  "quiet s s' \<longleftrightarrow> (\<exists>ms. pb_handed s' = pb_handed s @ ms \<and> list_all (\<lambda>m. \<not> is_measurement m) ms)"

lemma quiet_same: "pb_handed s' = pb_handed s \<Longrightarrow> quiet s s'"
  by (auto simp: quiet_def)

lemma quiet_trans: "quiet s t \<Longrightarrow> quiet t u \<Longrightarrow> quiet s u"
  by (auto simp: quiet_def)

lemma quiet_fold: "(\<And>x s. quiet s (g x s)) \<Longrightarrow> quiet s (fold g xs s)"
  by (induction xs arbitrary: s) (auto simp: quiet_same intro: quiet_trans)

lemma status_message_quiet [simp]: "\<not> is_measurement (ctm_status_message m ts conn e now)"
  "\<not> is_measurement (system_heartbeat_status_message r now)"
  by (simp_all add: is_measurement_def ctm_status_message_def system_heartbeat_status_message_def Let_def)

lemma measurement_is_measurement [simp]: "is_measurement (fst (measurement_message c d ts g now))"
  by (auto simp: is_measurement_def measurement_message_def from_results_def Let_def split: option.split)

lemma publish_device_status_quiet: "quiet s (publish_device_status c k d now s)"
  by (auto simp: quiet_def status_messages_def group_status_message_def list_all_iff split: option.split)

lemma heartbeat_if_due_quiet: "quiet s (publish_status_heartbeat_if_due c k d now s)"
  by (auto simp: publish_status_heartbeat_if_due_def Let_def quiet_same publish_device_status_quiet split: option.split)

lemma set_device_status_quiet: "quiet s (set_device_status c k d st r now rc so s)"
proof -
  have pub: "quiet s (publish_device_status c k d now t)" if "pb_handed t = pb_handed s" for t
    using quiet_trans [OF quiet_same [OF that] publish_device_status_quiet] .
  have hb: "quiet s (publish_status_heartbeat_if_due c k d now t)" if "pb_handed t = pb_handed s" for t
    using quiet_trans [OF quiet_same [OF that] heartbeat_if_due_quiet] .
  show ?thesis
  proof (cases "map_option ls_status (dget (pb_statuses s) (device_key d)) = Some st")
    case True
    show ?thesis unfolding set_device_status_def Let_def if_P [OF True] by (rule hb) simp
  next
    case False
    show ?thesis unfolding set_device_status_def Let_def if_not_P [OF False]
      by (rule if_split [THEN iffD2]) (intro conjI impI pub quiet_same, simp_all)
  qed
qed

lemma refresh_snapshot_quiet: "quiet s (refresh_snapshot c k now sn s)"
  by (auto simp: refresh_snapshot_def quiet_same set_device_status_quiet heartbeat_if_due_quiet split: option.split)

lemma refresh_stale_quiet: "quiet s (refresh_stale_statuses c k now s)"
  by (simp add: refresh_stale_statuses_def quiet_same quiet_fold refresh_snapshot_quiet)

lemma publish_heartbeats_quiet: "quiet s (publish_system_heartbeats c k now s)"
  unfolding publish_system_heartbeats_def
  by (rule quiet_fold) (auto simp: publish_heartbeat_def quiet_def split: prod.split)

definition group_messages ::
  "pub_config \<Rightarrow> device_spec \<Rightarrow> datetime \<Rightarrow> string option \<times> tag_result list \<Rightarrow> batch_message list" where
  "group_messages c d now gt =
     (let good_tags = filter good_tag (snd gt); m = fst (measurement_message c d good_tags (fst gt) now) in
      if good_tags = [] then [] else [m, ctm_status_message m (snd gt) ''on'' None now])"

definition device_messages :: "pub_config \<Rightarrow> datetime \<Rightarrow> publisher \<Rightarrow> snapshot \<Rightarrow> batch_message list" where
  "device_messages c now s sn = (if device_status (sn_device sn) s \<noteq> Some LGood then []
     else concat (map (group_messages c (sn_device sn) now) (tag_groups sn)))"

lemma publish_group_handed:
  "pb_handed (fst (publish_group c k d now gt acc)) = pb_handed (fst acc) @ group_messages c d now gt"
  by (simp add: publish_group_def group_messages_def Let_def split: prod.split)

lemma fold_handed_concat:
  "(\<And>x a. pb_handed (fst (g x a)) = pb_handed (fst a) @ h x) \<Longrightarrow>
   pb_handed (fst (fold g xs a)) = pb_handed (fst a) @ concat (map h xs)"
  by (induction xs arbitrary: a) simp_all

lemma device_status_cong: "pb_statuses s = pb_statuses t \<Longrightarrow> device_status d s = device_status d t"
  by (simp add: device_status_def)

lemma publish_snapshot_handed:
  "pb_handed (fst (publish_snapshot c k now sn acc)) = pb_handed (fst acc) @ device_messages c now (fst acc) sn"
  by (simp add: publish_snapshot_def device_messages_def fold_handed_concat publish_group_handed)

lemma publish_snapshots_handed:
  "pb_handed (fst (fold (publish_snapshot c k now) sns acc)) =
   pb_handed (fst acc) @ concat (map (device_messages c now (fst acc)) sns)"
proof (induction sns arbitrary: acc)
  case (Cons sn sns)
  have "device_messages c now (fst (publish_snapshot c k now sn acc)) = device_messages c now (fst acc)"
    by (rule ext) (simp add: device_messages_def device_status_def)
  with Cons show ?case by (simp add: publish_snapshot_handed)
qed simp

lemma publish_group_count:
  "snd (publish_group c k d now gt acc) = snd acc + length (filter is_measurement (group_messages c d now gt))"
  by (simp add: publish_group_def group_messages_def Let_def split: prod.split)

lemma publish_snapshot_count:
  "snd (publish_snapshot c k now sn acc) = snd acc + length (filter is_measurement (device_messages c now (fst acc) sn))"
proof -
  have "snd (fold (publish_group c k d now) gts a) =
      snd a + length (filter is_measurement (concat (map (group_messages c d now) gts)))" for d gts a
    by (induction gts arbitrary: a) (simp_all add: publish_group_count)
  then show ?thesis by (simp add: publish_snapshot_def device_messages_def)
qed

lemma publish_snapshots_count:
  "snd (fold (publish_snapshot c k now) sns acc) =
   snd acc + length (filter is_measurement (concat (map (device_messages c now (fst acc)) sns)))"
proof (induction sns arbitrary: acc)
  case (Cons sn sns)
  have "device_messages c now (fst (publish_snapshot c k now sn acc)) = device_messages c now (fst acc)"
    by (rule ext) (simp add: device_messages_def device_status_def)
  with Cons show ?case by (simp add: publish_snapshot_count)
qed simp

lemma publish_cached_count:
  "snd (publish_cached c k now s) =
   length (filter is_measurement (concat (map (device_messages c now (fst (publish_cached c k now s))) (dvalues (pb_latest s)))))"
proof -
  define s1 where "s1 = publish_system_heartbeats c k now (refresh_stale_statuses c k now s)"
  have l: "pb_latest s1 = pb_latest s" by (simp add: s1_def)
  have "device_messages c now (fst (publish_cached c k now s)) = device_messages c now s1"
    by (rule ext) (simp add: device_messages_def device_status_def s1_def)
  then show ?thesis
    using publish_snapshots_count [of c k now "dvalues (pb_latest s)" "(s1, 0)"] l
    by (simp add: publish_cached_def flip: s1_def)
qed

lemma publish_cached_handed:
  "\<exists>ms. pb_handed (fst (publish_cached c k now s)) = pb_handed s @ ms @
     concat (map (device_messages c now (fst (publish_cached c k now s))) (dvalues (pb_latest s))) \<and>
     list_all (\<lambda>m. \<not> is_measurement m) ms"
proof -
  define s1 where "s1 = publish_system_heartbeats c k now (refresh_stale_statuses c k now s)"
  have l: "pb_latest s1 = pb_latest s" by (simp add: s1_def)
  have "pb_statuses (fst (publish_cached c k now s)) = pb_statuses s1" by (simp add: s1_def)
  then have d: "device_messages c now (fst (publish_cached c k now s)) = device_messages c now s1"
    by (intro ext) (simp add: device_messages_def device_status_def)
  have "quiet s s1" unfolding s1_def by (rule quiet_trans [OF refresh_stale_quiet publish_heartbeats_quiet])
  then obtain ms where ms: "pb_handed s1 = pb_handed s @ ms" "list_all (\<lambda>m. \<not> is_measurement m) ms"
    by (auto simp: quiet_def)
  have "pb_handed (fst (publish_cached c k now s)) = pb_handed s1 @
      concat (map (device_messages c now s1) (dvalues (pb_latest s)))"
    using publish_snapshots_handed [of c k now "dvalues (pb_latest s)" "(s1, 0)"]
    by (simp add: publish_cached_def flip: s1_def) (simp add: l)
  with ms show ?thesis by (auto simp: d)
qed

section \<open>Freshness\<close>

definition fresh :: "pub_config \<Rightarrow> datetime \<Rightarrow> snapshot \<Rightarrow> bool" where
  "fresh c now sn \<longleftrightarrow> fl_le (pc_stale_timeout c) fl_zero \<or>
     (\<forall>t. sn_received sn = Some t \<longrightarrow> \<not> fl_le (pc_stale_timeout c) (seconds_between now t))"

lemma refresh_snapshot_no_good:
  "device_status e (refresh_snapshot c k now sn s) = Some LGood \<Longrightarrow> device_status e s = Some LGood"
  by (auto simp: refresh_snapshot_def link_after_set link_after_heartbeat split: option.splits if_splits)

lemma refresh_fold_no_good:
  "device_status e (fold (refresh_snapshot c k now) sns s) = Some LGood \<Longrightarrow> device_status e s = Some LGood"
  by (induction sns arbitrary: s) (auto dest: refresh_snapshot_no_good)

lemma refresh_snapshot_stale:
  "sn_received sn = Some t \<Longrightarrow> fl_le (pc_stale_timeout c) (seconds_between now t) \<Longrightarrow>
   device_status (sn_device sn) (refresh_snapshot c k now sn s) \<noteq> Some LGood"
  by (auto simp: refresh_snapshot_def link_after_set link_after_heartbeat)

lemma refresh_fold_stale:
  "sn \<in> set sns \<Longrightarrow> sn_received sn = Some t \<Longrightarrow> fl_le (pc_stale_timeout c) (seconds_between now t) \<Longrightarrow>
   device_status (sn_device sn) (fold (refresh_snapshot c k now) sns s) \<noteq> Some LGood"
proof (induction sns arbitrary: s)
  case (Cons x sns)
  show ?case
  proof (cases "x = sn")
    case True
    have "device_status (sn_device sn) (refresh_snapshot c k now sn s) \<noteq> Some LGood"
      by (rule refresh_snapshot_stale [OF Cons(3,4)])
    then show ?thesis using refresh_fold_no_good [of "sn_device sn" c k now sns] True by auto
  next
    case False
    then show ?thesis using Cons by simp
  qed
qed simp

lemma refresh_stale_fresh:
  assumes "sn \<in> set (dvalues (pb_latest s))" "device_status (sn_device sn) (refresh_stale_statuses c k now s) = Some LGood"
  shows "fresh c now sn"
  using assms refresh_fold_stale [of sn "dvalues (pb_latest s)"]
  by (auto simp: fresh_def refresh_stale_statuses_def split: if_splits)

section \<open>After a result\<close>

lemma device_status_emit [simp]: "device_status e (emit_status c m s) = device_status e s"
  "device_status e (emit_log c l so me da s) = device_status e s"
  by (simp_all add: device_status_def)

lemma device_status_cache_tags [simp]: "device_status e (fold (cache_tag c d) ts s) = device_status e s"
  by (rule fold_frame [where f = "device_status e"]) (simp add: device_status_def)

lemma device_status_touch [simp]: "device_status e (touch_snapshot r now s) = device_status e s"
  by (simp add: device_status_def touch_snapshot_def Let_def)

lemma link_after_result:
  "device_status e (publish_once c k r now s) =
     (if device_key e = device_key (rr_device r)
      then Some (if has_text (rr_error r) then LDisconnected
        else if rr_tags r = [] \<or> (\<exists>t\<in>set (rr_tags r). \<not> reading_failed t) then LGood else LBad)
      else device_status e s)"
proof (cases "has_text (rr_error r)")
  case True
  then show ?thesis by (simp add: publish_once_def Let_def link_after_set)
next
  case False
  obtain st reason where "cache_result c k r now s = set_device_status c k (rr_device r) st reason now (Some now)
      (Some (rr_timestamp r)) (fold (cache_tag c (rr_device r)) (rr_tags r) (touch_snapshot r now s))"
    "st = (if rr_tags r = [] \<or> (\<exists>t\<in>set (rr_tags r). \<not> reading_failed t) then LGood else LBad)"
    using cache_result_as_set by blast
  with False show ?thesis by (simp add: publish_once_def link_after_set)
qed

lemma cache_tags_latest:
  "dget (pb_latest s) (device_key d) = Some sn \<Longrightarrow>
   dget (pb_latest (fold (cache_tag c d) ts s)) (device_key d) =
     Some (sn\<lparr>sn_tags := fold (\<lambda>t. dset (tag_key t) t) ts (sn_tags sn)\<rparr>)"
proof (induction ts arbitrary: s sn)
  case (Cons t ts)
  have "dget (pb_latest (cache_tag c d t s)) (device_key d) = Some (sn\<lparr>sn_tags := dset (tag_key t) t (sn_tags sn)\<rparr>)"
    using Cons(2) by (simp add: cache_tag_latest store_tag_def)
  from Cons(1) [OF this] show ?case by simp
qed simp

lemma dget_fold_tags:
  "dget (fold (\<lambda>t. dset (tag_key t) t) ts d) k =
     (case map_of (rev (map (\<lambda>t. (tag_key t, t)) ts)) k of Some t \<Rightarrow> Some t | None \<Rightarrow> dget d k)"
  by (induction ts arbitrary: d) (auto simp: dget_dset map_add_def split: option.splits)

lemma cache_result_latest:
  assumes "\<not> has_text (rr_error r)"
  shows "dget (pb_latest (publish_once c k r now s)) (device_key (rr_device r)) = Some \<lparr>sn_device = rr_device r,
     sn_tags = fold (\<lambda>t. dset (tag_key t) t) (rr_tags r)
       (case dget (pb_latest s) (device_key (rr_device r)) of None \<Rightarrow> [] | Some sn \<Rightarrow> sn_tags sn),
     sn_received = Some now, sn_source = Some (rr_timestamp r)\<rparr>"
proof -
  obtain st reason where eq: "cache_result c k r now s = set_device_status c k (rr_device r) st reason now (Some now)
      (Some (rr_timestamp r)) (fold (cache_tag c (rr_device r)) (rr_tags r) (touch_snapshot r now s))"
    using cache_result_as_set by blast
  show ?thesis
    using assms cache_tags_latest [of "touch_snapshot r now s" "rr_device r"]
    by (simp add: publish_once_def eq touch_snapshot_def Let_def)
qed

lemma publish_once_quiet: "quiet s (publish_once c k r now s)"
proof -
  have log: "quiet s (set_device_status c k d st reason now rc so s')" if "pb_handed s' = pb_handed s" for s' d st reason rc so
    using quiet_trans [OF quiet_same [OF that] set_device_status_quiet] .
  have tags: "pb_handed (fold (cache_tag c d) ts s') = pb_handed s'" for d ts s'
    by (rule fold_frame) simp
  show ?thesis
    unfolding publish_once_def cache_result_def Let_def
    by (simp add: log tags touch_snapshot_def Let_def)
qed

end
