(* ===== verification/Publisher_Thms.thy ===== *)
theory Publisher_Thms
  imports Publisher_Props
begin

text \<open>
  The publisher's theorems: the cache invariant on reachable states, freshness and completeness of a
  publishing round, status transitions, heartbeats, the choice of a route, the status after a result,
  and independence from failures of the sink.
\<close>

section \<open>Samples\<close>

definition sample_config :: pub_config where
  "sample_config = \<lparr>pc_mqtt = default_mqtt_config, pc_plugin_type = ''mqtt'', pc_routes = [],
     pc_stale_timeout = FFin False 15 0, pc_status_interval = FFin False 60 0, pc_has_status = True, pc_has_log = True\<rparr>"

definition working_sink :: sink where "working_sink handed m = None"

definition broken_sink :: sink where
  "broken_sink handed m = Some \<lparr>ex_text = ''no route to host'', ex_type = ''OSError'',
     ex_repr = ''OSError()'', ex_frames = []\<rparr>"

definition one_reading :: publisher where
  "one_reading = publish_once sample_config working_sink (sample_result [sample_reading ''flow'' Good]) noon new_publisher"

lemma one_reading_reachable: "pub_reachable sample_config working_sink one_reading"
  unfolding one_reading_def by (rule pub_reachable.step [OF pub_reachable.start pub_step.receive])

lemmas sample_simps = sample_config_def sample_result_def sample_reading_def sample_device_def

lemma sample_ints: "show_int 7 = ''7''" "show_int 0 = ''0''"
  by code_simp+

lemma one_reading_latest: "pb_latest one_reading = [(ById ''7'', \<lparr>sn_device = sample_device [],
    sn_tags = [(''flow:0'', sample_reading ''flow'' Good)], sn_received = Some noon, sn_source = Some noon\<rparr>)]"
  by (simp add: one_reading_def publish_once_def has_text_def cache_result_def touch_snapshot_def Let_def
      new_publisher_def cache_tag_latest store_tag_def device_key_def tag_key_def or_opt_def sample_ints sample_simps)

lemma one_reading_key: "device_key (sample_device []) = ById ''7''"
  by (simp add: device_key_def sample_device_def sample_ints)

lemma one_reading_good: "device_status (sample_device []) one_reading = Some LGood"
  by (simp add: one_reading_def link_after_result sample_result_def has_text_def sample_reading_def reading_failed_def)

definition one_reading_state :: link_state where
  "one_reading_state = \<lparr>ls_device = sample_device [], ls_status = LGood, ls_reason = ''data received'',
     ls_changed_at = noon, ls_published_at = None, ls_received = Some noon, ls_source = Some noon\<rparr>"

lemma one_reading_statuses: "pb_statuses one_reading = [(ById ''7'', one_reading_state)]"
  by (simp add: one_reading_def publish_once_def has_text_def cache_result_def touch_snapshot_def Let_def
      new_publisher_def device_key_def reading_failed_def set_device_status_def one_reading_state_def sample_ints sample_simps)

section \<open>Independence from the sink\<close>

definition same_core :: "publisher \<Rightarrow> publisher \<Rightarrow> bool" where
  "same_core s t \<longleftrightarrow> pb_latest s = pb_latest t \<and> pb_statuses s = pb_statuses t \<and>
     pb_heartbeats s = pb_heartbeats t \<and> pb_handed s = pb_handed t"

lemma same_core_fold: "(\<And>x s t. same_core s t \<Longrightarrow> same_core (f x s) (g x t)) \<Longrightarrow> same_core s t \<Longrightarrow> same_core (fold f xs s) (fold g xs t)"
  by (induction xs arbitrary: s t) simp_all

lemma same_core_message: "same_core s t \<Longrightarrow> same_core (publish_message c k p m d s) (publish_message c k' p' m d' t)"
  by (simp add: same_core_def)

lemma same_core_device_status: "same_core s t \<Longrightarrow> device_status d s = device_status d t"
  by (simp add: same_core_def device_status_def)

lemma same_core_publish_status:
  "same_core s t \<Longrightarrow> same_core (publish_device_status c k d now s) (publish_device_status c k' d now t)"
  by (simp add: same_core_def status_messages_def split: option.split)

lemma same_core_heartbeat:
  assumes "same_core s t"
  shows "same_core (publish_status_heartbeat_if_due c k d now s) (publish_status_heartbeat_if_due c k' d now t)"
proof -
  have e: "pb_statuses t = pb_statuses s" using assms by (simp add: same_core_def)
  show ?thesis
    unfolding publish_status_heartbeat_if_due_def Let_def e
    by (cases "dget (pb_statuses s) (device_key d)"; cases "fl_le (pc_status_interval c) fl_zero")
      (simp_all only: option.case if_True if_False assms same_core_publish_status split: if_split, simp_all add: assms)
qed

lemma same_core_runtime:
  "same_core s t \<Longrightarrow> same_core (emit_runtime_tag_status c d q e now s) (emit_runtime_tag_status c d q e now t)"
  by (simp add: same_core_def)

lemma same_core_statuses: "same_core s t \<Longrightarrow> same_core (s\<lparr>pb_statuses := m\<rparr>) (t\<lparr>pb_statuses := m\<rparr>)"
  by (simp add: same_core_def)

lemma same_core_if: "same_core a b \<Longrightarrow> same_core a' b' \<Longrightarrow> same_core (if P then a else a') (if P then b else b')"
  by simp

lemma same_core_set_status:
  assumes "same_core s t"
  shows "same_core (set_device_status c k d st r now rc so s) (set_device_status c k' d st r now rc so t)"
proof -
  have e: "pb_statuses t = pb_statuses s" using assms by (simp add: same_core_def)
  show ?thesis unfolding set_device_status_def Let_def e
    by (intro same_core_if same_core_heartbeat same_core_publish_status same_core_runtime same_core_statuses assms)
qed

lemma same_core_refresh:
  assumes "same_core s t"
  shows "same_core (refresh_snapshot c k now sn s) (refresh_snapshot c k' now sn t)"
proof (cases "sn_received sn")
  case (Some rc)
  have e: "device_status d t = device_status d s" for d using same_core_device_status [OF assms] by simp
  show ?thesis unfolding refresh_snapshot_def Some option.case e
    by (intro same_core_if same_core_set_status same_core_heartbeat assms)
qed (simp add: refresh_snapshot_def assms)

lemma same_core_refresh_all:
  assumes "same_core s t"
  shows "same_core (refresh_stale_statuses c k now s) (refresh_stale_statuses c k' now t)"
proof -
  have e: "pb_latest t = pb_latest s" using assms by (simp add: same_core_def)
  show ?thesis unfolding refresh_stale_statuses_def e
    by (intro same_core_if assms same_core_fold [OF same_core_refresh])
qed

lemma same_core_system_heartbeat:
  assumes "same_core s t"
  shows "same_core (publish_heartbeat c k now ir s) (publish_heartbeat c k' now ir t)"
proof (cases ir)
  case (Pair i r)
  have e: "pb_heartbeats t = pb_heartbeats s" using assms by (simp add: same_core_def)
  show ?thesis unfolding publish_heartbeat_def Pair prod.case e
    by (intro same_core_if same_core_message) (use assms in \<open>simp_all add: same_core_def\<close>)
qed

definition same_acc :: "publisher \<times> nat \<Rightarrow> publisher \<times> nat \<Rightarrow> bool" where
  "same_acc a b \<longleftrightarrow> same_core (fst a) (fst b) \<and> snd a = snd b"

lemma same_acc_fold: "(\<And>x s t. same_acc s t \<Longrightarrow> same_acc (f x s) (g x t)) \<Longrightarrow> same_acc s t \<Longrightarrow> same_acc (fold f xs s) (fold g xs t)"
  by (induction xs arbitrary: s t) simp_all

lemma same_acc_group: "same_acc a b \<Longrightarrow> same_acc (publish_group c k d now gt a) (publish_group c k' d now gt b)"
  by (simp add: same_acc_def publish_group_def Let_def same_core_message split: prod.split)

lemma same_acc_snapshot:
  assumes "same_acc a b"
  shows "same_acc (publish_snapshot c k now sn a) (publish_snapshot c k' now sn b)"
proof -
  have "device_status (sn_device sn) (fst a) = device_status (sn_device sn) (fst b)"
    using assms same_core_device_status by (simp add: same_acc_def)
  moreover have "same_acc (fold (publish_group c k (sn_device sn) now) gs a) (fold (publish_group c k' (sn_device sn) now) gs b)" for gs
    by (rule same_acc_fold [OF _ assms]) (rule same_acc_group)
  ultimately show ?thesis using assms by (simp add: publish_snapshot_def)
qed

lemma same_core_publish_cached:
  assumes "same_core s t"
  shows "same_acc (publish_cached c k now s) (publish_cached c k' now t)"
proof -
  define s1 where "s1 = publish_system_heartbeats c k now (refresh_stale_statuses c k now s)"
  define t1 where "t1 = publish_system_heartbeats c k' now (refresh_stale_statuses c k' now t)"
  have "same_core s1 t1" unfolding s1_def t1_def publish_system_heartbeats_def
    by (rule same_core_fold [OF same_core_system_heartbeat same_core_refresh_all [OF assms]])
  moreover from this have "pb_latest s1 = pb_latest t1" by (simp add: same_core_def)
  ultimately show ?thesis
    unfolding publish_cached_def Let_def s1_def [symmetric] t1_def [symmetric]
    by (simp add: same_acc_fold [OF same_acc_snapshot] same_acc_def [of "(s1, 0)"])
qed

lemma same_core_cache_tag: "same_core s t \<Longrightarrow> same_core (cache_tag c d x s) (cache_tag c d x t)"
  by (simp add: same_core_def cache_tag_latest store_tag_def split: option.split)

lemma same_core_publish_once:
  assumes "same_core s t"
  shows "same_core (publish_once c k r now s) (publish_once c k' r now t)"
proof -
  have touch: "same_core (touch_snapshot r now s) (touch_snapshot r now t)"
    using assms by (simp add: touch_snapshot_def Let_def same_core_def)
  have cached: "same_core (cache_result c k r now s) (cache_result c k' r now t)"
    unfolding cache_result_def Let_def
    by (intro same_core_if same_core_set_status same_core_fold [OF same_core_cache_tag touch])
  show ?thesis unfolding publish_once_def Let_def
    by (intro same_core_if cached same_core_set_status) (use assms in \<open>simp add: same_core_def\<close>)
qed

text \<open>A publisher's life: results arrive at given times, rounds are published at given times.\<close>

datatype pub_event = Receive read_result datetime | Round datetime

fun pub_event_step :: "pub_config \<Rightarrow> sink \<Rightarrow> pub_event \<Rightarrow> publisher \<Rightarrow> publisher" where
  "pub_event_step c k (Receive r now) s = publish_once c k r now s"
| "pub_event_step c k (Round now) s = fst (publish_cached c k now s)"

definition run_publisher :: "pub_config \<Rightarrow> sink \<Rightarrow> pub_event list \<Rightarrow> publisher" where
  "run_publisher c k events = fold (pub_event_step c k) events new_publisher"

lemma same_core_event: "same_core s t \<Longrightarrow> same_core (pub_event_step c k e s) (pub_event_step c k' e t)"
  using same_core_publish_cached by (cases e) (auto simp: same_core_publish_once same_acc_def)

section \<open>Route choice\<close>

definition route_rank :: "device_spec \<Rightarrow> string \<Rightarrow> output_route \<Rightarrow> nat option" where
  "route_rank d grp r =
     (if or_kind r \<noteq> ''data'' then None
      else if or_device_id r = dev_id d \<and> or_tag_group r = grp then Some 0
      else if or_device_id r = dev_id d \<and> or_tag_group r = [] then Some 1
      else if or_device_id r = None \<and> or_tag_group r = grp then Some 2
      else None)"

lemma hd_filter_split: "filter P xs \<noteq> [] \<Longrightarrow> \<exists>ys zs. xs = ys @ hd (filter P xs) # zs \<and> P (hd (filter P xs)) \<and> (\<forall>y\<in>set ys. \<not> P y)"
  by (induction xs) (auto, metis append_Nil empty_iff list.set(1), metis append_Cons set_ConsD)

definition ranked :: "device_spec \<Rightarrow> string \<Rightarrow> nat \<Rightarrow> output_route list \<Rightarrow> output_route list" where
  "ranked d grp n rs = filter (\<lambda>r. route_rank d grp r = Some n) rs"

lemma route_for_ranked:
  "route_for c d grp =
     (if ranked d grp 0 (pc_routes c) \<noteq> [] then Some (hd (ranked d grp 0 (pc_routes c)))
      else if ranked d grp 1 (pc_routes c) \<noteq> [] then Some (hd (ranked d grp 1 (pc_routes c)))
      else if ranked d grp 2 (pc_routes c) \<noteq> [] then Some (hd (ranked d grp 2 (pc_routes c)))
      else None)"
proof -
  have zero: "data_routes c (\<lambda>r. or_device_id r = dev_id d \<and> or_tag_group r = grp) = ranked d grp 0 (pc_routes c)"
    unfolding data_routes_def ranked_def by (rule filter_cong) (auto simp: route_rank_def)
  have one: "data_routes c (\<lambda>r. or_device_id r = dev_id d \<and> or_tag_group r = []) = ranked d grp 1 (pc_routes c)"
    if "ranked d grp 0 (pc_routes c) = []"
    using that unfolding data_routes_def ranked_def
    by (intro filter_cong) (auto simp: route_rank_def filter_empty_conv split: if_splits)
  have two: "data_routes c (\<lambda>r. or_device_id r = None \<and> or_tag_group r = grp) = ranked d grp 2 (pc_routes c)"
    if "ranked d grp 0 (pc_routes c) = []" "ranked d grp 1 (pc_routes c) = []"
    using that unfolding data_routes_def ranked_def
    by (intro filter_cong) (auto simp: route_rank_def filter_empty_conv split: if_splits)
  show ?thesis unfolding route_for_def Let_def zero using one two by auto
qed

lemma hd_filter_prefix:
  "filter P xs \<noteq> [] \<Longrightarrow> \<exists>ys zs. xs = ys @ hd (filter P xs) # zs \<and> list_all (\<lambda>y. \<not> P y) ys"
proof (induction xs)
  case (Cons x xs)
  show ?case
  proof (cases "P x")
    case True
    then show ?thesis by (intro exI [of _ "[]"] exI [of _ xs]) simp
  next
    case False
    then obtain ys zs where "xs = ys @ hd (filter P xs) # zs" "list_all (\<lambda>y. \<not> P y) ys" using Cons by auto
    with False show ?thesis by (intro exI [of _ "x # ys"] exI [of _ zs]) simp
  qed
qed simp

definition best_route :: "device_spec \<Rightarrow> string \<Rightarrow> output_route list \<Rightarrow> output_route \<Rightarrow> bool" where
  "best_route d grp rs r \<longleftrightarrow> (\<exists>pre post n. rs = pre @ r # post \<and> route_rank d grp r = Some n \<and>
     list_all (\<lambda>q. route_rank d grp q \<noteq> Some n) pre \<and>
     list_all (\<lambda>q. case route_rank d grp q of None \<Rightarrow> True | Some m \<Rightarrow> n \<le> m) rs)"

lemma best_ranked:
  assumes "ranked d grp n rs \<noteq> []" "\<And>m. m < n \<Longrightarrow> ranked d grp m rs = []"
  shows "best_route d grp rs (hd (ranked d grp n rs))"
proof -
  have "hd (ranked d grp n rs) \<in> set (ranked d grp n rs)" using assms(1) by (rule hd_in_set)
  then have r: "route_rank d grp (hd (ranked d grp n rs)) = Some n" by (auto simp: ranked_def)
  have le: "n \<le> m" if "q \<in> set rs" "route_rank d grp q = Some m" for q m
    using assms(2) [of m] that by (force simp: ranked_def filter_empty_conv not_le)
  obtain pre post where "rs = pre @ hd (ranked d grp n rs) # post" "list_all (\<lambda>q. route_rank d grp q \<noteq> Some n) pre"
    using hd_filter_prefix [of "\<lambda>r. route_rank d grp r = Some n" rs] assms(1) by (auto simp: ranked_def)
  with r le show ?thesis
    unfolding best_route_def by (intro exI [of _ pre] exI [of _ post] exI [of _ n]) (auto simp: list_all_iff split: option.split)
qed

lemma route_rank_le_2: "route_rank d grp r = Some n \<Longrightarrow> n = 0 \<or> n = 1 \<or> n = 2"
  by (auto simp: route_rank_def split: if_splits)

section \<open>Theorems\<close>

text \<open>Route priority.  The route chosen for a device and a tag group is the first of the configured
  data routes among those of the best rank: one for this device and group before the device's
  default, before a default of the group for all devices; and there is none only if no route
  applies.\<close>

theorem route_for_priority:
  "case route_for c d grp of
     None \<Rightarrow> list_all (\<lambda>q. route_rank d grp q = None) (pc_routes c)
   | Some r \<Rightarrow> best_route d grp (pc_routes c) r"
proof -
  have none: "route_rank d grp q = None"
    if "ranked d grp 0 (pc_routes c) = []" "ranked d grp 1 (pc_routes c) = []" "ranked d grp 2 (pc_routes c) = []"
      "q \<in> set (pc_routes c)" for q
    using that route_rank_le_2 [of d grp q] by (cases "route_rank d grp q") (auto simp: ranked_def filter_empty_conv)
  have two: "best_route d grp (pc_routes c) (hd (ranked d grp 2 (pc_routes c)))"
    if "ranked d grp 0 (pc_routes c) = []" "ranked d grp 1 (pc_routes c) = []" "ranked d grp 2 (pc_routes c) \<noteq> []"
    using that by (intro best_ranked) (auto simp: less_Suc_eq numeral_2_eq_2)
  show ?thesis
    unfolding route_for_ranked using none two best_ranked [of d grp 0 "pc_routes c"] best_ranked [of d grp 1 "pc_routes c"]
    by (auto simp: list_all_iff)
qed

text \<open>C14: The caches are consistent in every reachable state.  Whatever results arrive and whatever rounds
  are published, the snapshots and the statuses are filed under the key of their own device, each
  key once, every cached reading under its own tag key, and every device with a snapshot has a
  receive time and a status.\<close>

theorem publisher_caches_consistent: "pub_reachable c k s \<Longrightarrow> pub_inv s"
  by (rule pub_reachable_inv)

lemma publisher_caches_consistent_witness: "pub_inv one_reading"
  by (rule publisher_caches_consistent [OF one_reading_reachable])

text \<open>C4: No stale or bad measurement leaves the publisher.  Each measurement that a publishing round hands
  to the sink comes from a cached device whose last result is younger than the stale timeout and
  whose status is good after the round, and it carries the good readings of one output group.\<close>

theorem published_measurements_fresh:
  "list_all (\<lambda>m. \<exists>sn grp ts. sn \<in> set (dvalues (pb_latest s)) \<and> fresh c now sn \<and>
       device_status (sn_device sn) (fst (publish_cached c k now s)) = Some LGood \<and>
       (grp, ts) \<in> set (tag_groups sn) \<and> filter good_tag ts \<noteq> [] \<and>
       m = fst (measurement_message c (sn_device sn) (filter good_tag ts) grp now))
     (filter is_measurement (drop (length (pb_handed s)) (pb_handed (fst (publish_cached c k now s)))))"
  unfolding list_all_iff
proof
  fix m
  define s' where "s' = fst (publish_cached c k now s)"
  assume "m \<in> set (filter is_measurement (drop (length (pb_handed s)) (pb_handed (fst (publish_cached c k now s)))))"
  then have m: "m \<in> set (drop (length (pb_handed s)) (pb_handed s'))" "is_measurement m" by (auto simp: s'_def)
  obtain ms where handed: "pb_handed s' = pb_handed s @ ms @ concat (map (device_messages c now s') (dvalues (pb_latest s)))"
    and quiet: "list_all (\<lambda>m. \<not> is_measurement m) ms"
    using publish_cached_handed [of c k now s] by (auto simp: s'_def)
  then obtain sn where sn: "sn \<in> set (dvalues (pb_latest s))" "m \<in> set (device_messages c now s' sn)"
    using m by (auto simp: list_all_iff)
  then have good: "device_status (sn_device sn) s' = Some LGood"
    by (auto simp: device_messages_def split: if_splits)
  then obtain gt where gt: "gt \<in> set (tag_groups sn)" "m \<in> set (group_messages c (sn_device sn) now gt)"
    using sn(2) by (auto simp: device_messages_def)
  have "device_status (sn_device sn) (refresh_stale_statuses c k now s) = Some LGood"
    using good device_status_cong [OF publish_cached_frame(2)] by (simp add: s'_def)
  then have "fresh c now sn" by (rule refresh_stale_fresh [OF sn(1)])
  moreover have "filter good_tag (snd gt) \<noteq> [] \<and> m = fst (measurement_message c (sn_device sn) (filter good_tag (snd gt)) (fst gt) now)"
    using gt(2) m(2) by (auto simp: group_messages_def Let_def split: if_splits)
  ultimately show "\<exists>sn grp ts. sn \<in> set (dvalues (pb_latest s)) \<and> fresh c now sn \<and>
       device_status (sn_device sn) (fst (publish_cached c k now s)) = Some LGood \<and>
       (grp, ts) \<in> set (tag_groups sn) \<and> filter good_tag ts \<noteq> [] \<and>
       m = fst (measurement_message c (sn_device sn) (filter good_tag ts) grp now)"
    using sn(1) good gt(1) unfolding s'_def
    by (intro exI [of _ sn] exI [of _ "fst gt"] exI [of _ "snd gt"]) auto
qed

lemma cached_measurements:
  "filter is_measurement (drop (length (pb_handed s)) (pb_handed (fst (publish_cached c k now s)))) =
      concat (map (\<lambda>sn. if device_status (sn_device sn) (fst (publish_cached c k now s)) \<noteq> Some LGood then [] else
        map (\<lambda>(grp, ts). fst (measurement_message c (sn_device sn) (filter good_tag ts) grp now))
          (filter (\<lambda>(grp, ts). filter good_tag ts \<noteq> []) (tag_groups sn))) (dvalues (pb_latest s)))
    \<and> snd (publish_cached c k now s) = length (filter is_measurement
        (drop (length (pb_handed s)) (pb_handed (fst (publish_cached c k now s)))))"
proof -
  define s' where "s' = fst (publish_cached c k now s)"
  obtain ms where handed: "pb_handed s' = pb_handed s @ ms @ concat (map (device_messages c now s') (dvalues (pb_latest s)))"
    and quiet: "list_all (\<lambda>m. \<not> is_measurement m) ms"
    using publish_cached_handed [of c k now s] by (auto simp: s'_def)
  have grp: "filter is_measurement (concat (map (group_messages c d now) gts)) =
      map (\<lambda>(grp, ts). fst (measurement_message c d (filter good_tag ts) grp now))
        (filter (\<lambda>(grp, ts). filter good_tag ts \<noteq> []) gts)" for d gts
    by (induction gts) (auto simp: group_messages_def Let_def)
  have dev: "filter is_measurement (device_messages c now s' sn) =
      (if device_status (sn_device sn) s' \<noteq> Some LGood then [] else
        map (\<lambda>(grp, ts). fst (measurement_message c (sn_device sn) (filter good_tag ts) grp now))
          (filter (\<lambda>(grp, ts). filter good_tag ts \<noteq> []) (tag_groups sn)))" for sn
    by (simp add: device_messages_def grp)
  have new: "filter is_measurement (drop (length (pb_handed s)) (pb_handed s')) =
      concat (map (\<lambda>sn. filter is_measurement (device_messages c now s' sn)) (dvalues (pb_latest s)))"
    using handed quiet by (simp add: list_all_iff filter_concat o_def)
  have count: "snd (publish_cached c k now s) = length (concat (map (\<lambda>sn. filter is_measurement (device_messages c now s' sn)) (dvalues (pb_latest s))))"
    using publish_cached_count [of c k now s] by (simp add: filter_concat o_def flip: s'_def)
  show ?thesis unfolding s'_def [symmetric] using new count by (simp only: dev)
qed

text \<open>C13: Every fresh device is published.  A round hands exactly one measurement to the sink for each
  output group with a good reading of each device whose status is good after the refresh, in the
  order of the cache, and returns their number.\<close>

theorem published_measurements_complete:
  "filter is_measurement (drop (length (pb_handed s)) (pb_handed (fst (publish_cached c k now s)))) =
      concat (map (\<lambda>sn. if device_status (sn_device sn) (fst (publish_cached c k now s)) \<noteq> Some LGood then [] else
        map (\<lambda>(grp, ts). fst (measurement_message c (sn_device sn) (filter good_tag ts) grp now))
          (filter (\<lambda>(grp, ts). filter good_tag ts \<noteq> []) (tag_groups sn))) (dvalues (pb_latest s)))
    \<and> snd (publish_cached c k now s) = length (filter is_measurement
        (drop (length (pb_handed s)) (pb_handed (fst (publish_cached c k now s)))))"
  by (rule cached_measurements)

text \<open>A change of status is announced.  When the status of a device with a snapshot changes, or its
  first status is not good, exactly one status message per output group is handed to the sink, with
  the new status and reason, and the new state is recorded with this time.\<close>

theorem status_change_announced:
  assumes "dget (pb_latest s) (device_key d) = Some sn"
    and "device_status d s \<noteq> Some st" and "device_status d s \<noteq> None \<or> st \<noteq> LGood"
  shows "pb_handed (set_device_status c k d st reason now rc so s) = pb_handed s @
      map (group_status_message c d \<lparr>ls_device = d, ls_status = st, ls_reason = reason, ls_changed_at = now,
        ls_published_at = None, ls_received = rc, ls_source = so\<rparr> now) (tag_groups sn)
    \<and> dget (pb_statuses (set_device_status c k d st reason now rc so s)) (device_key d) =
      Some \<lparr>ls_device = d, ls_status = st, ls_reason = reason, ls_changed_at = now,
        ls_published_at = Some now, ls_received = rc, ls_source = so\<rparr>"
proof -
  have f: "map_option ls_status (dget (pb_statuses s) (device_key d)) \<noteq> Some st"
    and p: "dget (pb_statuses s) (device_key d) \<noteq> None \<or> st \<noteq> LGood"
    using assms(2,3) by (auto simp: device_status_def)
  show ?thesis
    unfolding set_device_status_def Let_def if_not_P [OF f] if_P [OF p]
    using assms(1) by (simp add: status_messages_def)
qed

lemma status_change_announced_witness:
  "pb_handed (set_device_status sample_config broken_sink (sample_device []) LStale ''message timeout'' noon None None one_reading) =
    pb_handed one_reading @
      map (group_status_message sample_config (sample_device []) \<lparr>ls_device = sample_device [], ls_status = LStale,
        ls_reason = ''message timeout'', ls_changed_at = noon, ls_published_at = None, ls_received = None, ls_source = None\<rparr> noon)
        (tag_groups \<lparr>sn_device = sample_device [], sn_tags = [(''flow:0'', sample_reading ''flow'' Good)],
          sn_received = Some noon, sn_source = Some noon\<rparr>)
   \<and> dget (pb_statuses (set_device_status sample_config broken_sink (sample_device []) LStale ''message timeout'' noon None None one_reading))
      (device_key (sample_device [])) = Some \<lparr>ls_device = sample_device [], ls_status = LStale, ls_reason = ''message timeout'',
        ls_changed_at = noon, ls_published_at = Some noon, ls_received = None, ls_source = None\<rparr>"
  by (rule status_change_announced) (simp_all add: one_reading_latest one_reading_good one_reading_key)

text \<open>An unchanged status keeps its history.  Setting the status a device already has keeps the time of
  its last change, and hands nothing to the sink before the status interval has passed since the
  last announcement (or since the change).\<close>

theorem status_repeat_throttled:
  assumes "dget (pb_statuses s) (device_key d) = Some cur" and "ls_status cur = st"
    and "\<not> fl_le (pc_status_interval c) (seconds_between now
      (case ls_published_at cur of Some t \<Rightarrow> t | None \<Rightarrow> ls_changed_at cur))"
  shows "pb_handed (set_device_status c k d st reason now rc so s) = pb_handed s
    \<and> map_option ls_changed_at (dget (pb_statuses (set_device_status c k d st reason now rc so s)) (device_key d)) =
      Some (ls_changed_at cur)"
  using assms by (cases "ls_published_at cur") (simp_all add: set_device_status_def publish_status_heartbeat_if_due_def Let_def)

lemma status_repeat_throttled_witness:
  "pb_handed (set_device_status sample_config broken_sink (sample_device []) LGood ''data received'' noon None None one_reading) =
    pb_handed one_reading
   \<and> map_option ls_changed_at (dget (pb_statuses (set_device_status sample_config broken_sink (sample_device []) LGood
       ''data received'' noon None None one_reading)) (device_key (sample_device []))) = Some (ls_changed_at one_reading_state)"
  by (rule status_repeat_throttled [of _ _ one_reading_state])
    (simp_all add: one_reading_statuses one_reading_key one_reading_state_def seconds_between_def sample_config_def
      fl_ratio_def Let_def fl_eval)

text \<open>System heartbeats keep their interval.  A round hands one heartbeat message to the sink for
  exactly those heartbeat routes with a topic whose last heartbeat is missing or at least the
  route's interval old, in the order of the routes, and records the time for these routes only.\<close>

theorem system_heartbeats_due:
  "pb_handed (publish_system_heartbeats c k now s) = pb_handed s @
     map (\<lambda>(i, r). system_heartbeat_status_message r now)
       (filter (\<lambda>(i, r). heartbeat_due r now (dget (pb_heartbeats s) i)) (enumerate 0 (pc_routes c)))
   \<and> dget (pb_heartbeats (publish_system_heartbeats c k now s)) j =
     (if j < length (pc_routes c) \<and> heartbeat_due (pc_routes c ! j) now (dget (pb_heartbeats s) j)
      then Some now else dget (pb_heartbeats s) j)"
proof -
  have run: "pb_handed (fold (publish_heartbeat c k now) irs t) = pb_handed t @
      map (\<lambda>(i, r). system_heartbeat_status_message r now)
        (filter (\<lambda>(i, r). heartbeat_due r now (dget (pb_heartbeats t) i)) irs)
    \<and> dget (pb_heartbeats (fold (publish_heartbeat c k now) irs t)) j =
      (if \<exists>r. (j, r) \<in> set irs \<and> heartbeat_due r now (dget (pb_heartbeats t) j) then Some now else dget (pb_heartbeats t) j)"
    if "distinct (map fst irs)" for irs t
    using that
  proof (induction irs arbitrary: t)
    case (Cons ir irs)
    obtain i r where ir: "ir = (i, r)" by (cases ir)
    let ?t = "publish_heartbeat c k now ir t"
    have b: "pb_heartbeats ?t = (if heartbeat_due r now (dget (pb_heartbeats t) i) then dset i now (pb_heartbeats t) else pb_heartbeats t)"
      and h: "pb_handed ?t = pb_handed t @ (if heartbeat_due r now (dget (pb_heartbeats t) i) then [system_heartbeat_status_message r now] else [])"
      by (simp_all add: publish_heartbeat_def ir)
    have ni: "i \<notin> fst ` set irs" using Cons(2) ir by simp
    have other: "dget (pb_heartbeats ?t) i' = dget (pb_heartbeats t) i'" if "(i', r') \<in> set irs" for i' r'
    proof -
      have "i' \<noteq> i" using that ni by force
      then show ?thesis by (simp add: b dget_dset)
    qed
    then have f: "filter (\<lambda>(i, r). heartbeat_due r now (dget (pb_heartbeats ?t) i)) irs =
        filter (\<lambda>(i, r). heartbeat_due r now (dget (pb_heartbeats t) i)) irs"
      by (intro filter_cong) auto
    have j: "dget (pb_heartbeats ?t) j = (if j = i \<and> heartbeat_due r now (dget (pb_heartbeats t) i) then Some now else dget (pb_heartbeats t) j)"
      by (simp add: b dget_dset)
    have notin: "(i, r') \<notin> set irs" for r' using ni by force
    show ?case using Cons h f j other notin ir by (auto simp: fun_eq_iff)
  qed simp
  have mem: "(j, r) \<in> set (enumerate 0 (pc_routes c)) \<longleftrightarrow> j < length (pc_routes c) \<and> r = pc_routes c ! j" for r
    by (auto simp: in_set_enumerate_eq)
  show ?thesis using run [of "enumerate 0 (pc_routes c)" s] by (auto simp: publish_system_heartbeats_def mem)
qed

text \<open>The status after a result.  A result with an error disconnects its device; otherwise the device
  is good when the result has a good reading or none at all, and bad when all its readings failed;
  no other device's status changes.\<close>

theorem status_after_result:
  "device_status d (publish_once c k r now s) =
     (if device_key d = device_key (rr_device r)
      then Some (if has_text (rr_error r) then LDisconnected
        else if rr_tags r = [] \<or> list_ex (\<lambda>t. \<not> reading_failed t) (rr_tags r) then LGood else LBad)
      else device_status d s)"
  by (simp add: link_after_result list_ex_iff)

text \<open>The latest reading of every tag is cached.  After a result without error the device's snapshot has
  this receive time, for each tag key in the result the last reading with that key, and for every
  other key what it held before.\<close>

theorem latest_readings_cached:
  assumes "\<not> has_text (rr_error r)"
  shows "\<exists>sn. dget (pb_latest (publish_once c k r now s)) (device_key (rr_device r)) = Some sn \<and>
    sn_received sn = Some now \<and> sn_device sn = rr_device r \<and>
    dget (sn_tags sn) tk = (case map_of (rev (map (\<lambda>t. (tag_key t, t)) (rr_tags r))) tk of
        Some t \<Rightarrow> Some t
      | None \<Rightarrow> (case dget (pb_latest s) (device_key (rr_device r)) of None \<Rightarrow> None | Some old \<Rightarrow> dget (sn_tags old) tk))"
  using cache_result_latest [OF assms, of c k now s] by (auto simp: dget_fold_tags split: option.split)

lemma latest_readings_cached_witness:
  "\<exists>sn. dget (pb_latest (publish_once sample_config broken_sink (sample_result [sample_reading ''flow'' Bad]) noon one_reading))
      (device_key (rr_device (sample_result [sample_reading ''flow'' Bad]))) = Some sn \<and>
    sn_received sn = Some noon \<and> sn_device sn = rr_device (sample_result [sample_reading ''flow'' Bad]) \<and>
    dget (sn_tags sn) ''flow:0'' = (case map_of (rev (map (\<lambda>t. (tag_key t, t)) (rr_tags (sample_result [sample_reading ''flow'' Bad])))) ''flow:0'' of
        Some t \<Rightarrow> Some t
      | None \<Rightarrow> (case dget (pb_latest one_reading) (device_key (rr_device (sample_result [sample_reading ''flow'' Bad]))) of
          None \<Rightarrow> None | Some old \<Rightarrow> dget (sn_tags old) ''flow:0''))"
  by (rule latest_readings_cached) (simp add: sample_result_def has_text_def)

text \<open>C28: A failing sink changes nothing but the reports.  Over any life of a publisher the caches, the
  statuses, the heartbeat times and the sequence of messages handed to the sink are the same
  whatever the sink answers; failures show in the status and log output only.\<close>

theorem sink_failures_isolated:
  "same_core (run_publisher c k events) (run_publisher c k' events)"
  unfolding run_publisher_def by (rule same_core_fold [OF same_core_event]) (simp_all add: same_core_def)

end
