(* ===== verification/Poller_Props.thy ===== *)
theory Poller_Props
  imports Poller Publisher_Thms
begin

text \<open>
  What the acquisition threads promise: one result per poll and one error result per failed session, every
  driver that was built is disconnected by the last call made on it, subscriptions are stopped exactly
  when they were started, and which exceptions end a thread.
\<close>

named_theorems worker_frame

section \<open>Frame lemmas\<close>

lemma worker_log_frame [worker_frame, simp]:
  "wk_outbox (worker_log c l so m d s) = wk_outbox s" "wk_status (worker_log c l so m d s) = wk_status s"
  "wk_last_check (worker_log c l so m d s) = wk_last_check s" "wk_calls (worker_log c l so m d s) = wk_calls s"
  by (simp_all add: worker_log_def Let_def)

lemma worker_error_frame [worker_frame, simp]:
  "wk_outbox (worker_error c m e s) = wk_outbox s" "wk_status (worker_error c m e s) = wk_status s"
  "wk_last_check (worker_error c m e s) = wk_last_check s" "wk_calls (worker_error c m e s) = wk_calls s"
  by (simp_all add: worker_error_def)

lemma put_call_frame [worker_frame, simp]:
  "wk_outbox (put_result r s) = wk_outbox s @ [r]" "wk_status (put_result r s) = wk_status s"
  "wk_calls (put_result r s) = wk_calls s" "wk_last_check (put_result r s) = wk_last_check s"
  "wk_outbox (put_status m s) = wk_outbox s" "wk_status (put_status m s) = wk_status s @ [m]"
  "wk_calls (put_status m s) = wk_calls s" "wk_last_check (put_status m s) = wk_last_check s"
  "wk_outbox (call k s) = wk_outbox s" "wk_status (call k s) = wk_status s"
  "wk_calls (call k s) = wk_calls s @ [k]" "wk_last_check (call k s) = wk_last_check s"
  by (simp_all add: put_result_def put_status_def call_def)

lemma health_frame [worker_frame, simp]:
  "wk_outbox (snd (health_check c h t n s)) = wk_outbox s"
  "wk_outbox (poller_check_server_status c h t n s) = wk_outbox s"
  "wk_outbox (snd (sub_check_server_status c h t n s)) = wk_outbox s"
  by (simp_all add: health_check_def poller_check_server_status_def sub_check_server_status_def Let_def
      split: option.split)

lemma health_calls:
  "\<exists>k. wk_calls (snd (health_check c h t n s)) = wk_calls s @ k \<and> set k \<subseteq> {CHealth} \<and> length k \<le> 1"
  "\<exists>k. wk_calls (poller_check_server_status c h t n s) = wk_calls s @ k \<and> set k \<subseteq> {CHealth} \<and> length k \<le> 1"
  "\<exists>k. wk_calls (snd (sub_check_server_status c h t n s)) = wk_calls s @ k \<and> set k \<subseteq> {CHealth} \<and> length k \<le> 1"
  by (simp_all add: health_check_def poller_check_server_status_def sub_check_server_status_def Let_def
      split: option.split)

lemma emits_frame [worker_frame, simp]:
  "wk_outbox (fold (emit_result c) rs s) = wk_outbox s @ rs"
  "wk_calls (fold (emit_result c) rs s) = wk_calls s"
  "wk_status (fold (emit_result c) rs s) = wk_status s"
  by (induction rs arbitrary: s) (simp_all add: emit_result_def Let_def)

section \<open>Samples\<close>

definition timeout_error :: exn where
  "timeout_error = \<lparr>ex_text = ''timed out'', ex_type = ''TimeoutError'', ex_repr = ''TimeoutError()'', ex_frames = []\<rparr>"

definition opcua_device :: device_spec where
  "opcua_device = (sample_device [(''endpoint'', VStr ''opc.tcp://plant:4840'')])\<lparr>dev_driver_type := ''opcua''\<rparr>"

definition mqtt_device :: device_spec where
  "mqtt_device = (sample_device [(''port'', VStr ''mqtts'')])\<lparr>dev_driver_type := ''mqtt''\<rparr>"

definition sample_worker :: "device_spec \<Rightarrow> worker_config" where
  "sample_worker d = new_worker_config d [] True True fl_one fl_one True"

definition sample_poll :: "exn + driver \<Rightarrow> poll_round" where
  "sample_poll f = \<lparr>po_factory = (\<lambda>d tags. f), po_time = noon, po_clock = fl_zero, po_health_time = noon\<rparr>"

definition good_driver :: driver where
  "good_driver = \<lparr>dr_connect = None, dr_health = Some None, dr_read = Inr [sample_reading ''flow'' Good],
     dr_disconnect = Some timeout_error\<rparr>"

definition sample_step :: "exn option \<Rightarrow> sub_step" where
  "sample_step e = \<lparr>st_emits = [sample_result [sample_reading ''flow'' Good]], st_run = e, st_health = None,
     st_clock = fl_zero, st_time = noon\<rparr>"

definition sample_subscription :: "exn option \<Rightarrow> sub_driver" where
  "sample_subscription e = \<lparr>sd_connect = e, sd_start_emits = [], sd_start = None, sd_stop = None, sd_disconnect = None\<rparr>"

definition sample_session :: "exn option \<Rightarrow> sub_step list \<Rightarrow> bool \<Rightarrow> session" where
  "sample_session e sts stopped = \<lparr>se_factory = (\<lambda>d tags. Inr (sample_subscription e)), se_steps = sts, se_time = noon,
     se_stopped = stopped\<rparr>"

lemmas worker_sample_defs = timeout_error_def opcua_device_def mqtt_device_def sample_worker_def new_worker_config_def
  enabled_tags_def sample_poll_def good_driver_def sample_step_def sample_subscription_def sample_session_def
  sample_device_def new_worker_def

section \<open>Polls\<close>

text \<open>The result a poll owes: the tag results when connecting and reading succeed, else the error.\<close>

definition poll_outcome :: "worker_config \<Rightarrow> driver \<Rightarrow> datetime \<Rightarrow> read_result" where
  "poll_outcome c dr t = (case dr_connect dr of
     Some e \<Rightarrow> error_result c t e
   | None \<Rightarrow> (case dr_read dr of
       Inl e \<Rightarrow> error_result c t e
     | Inr tags \<Rightarrow> \<lparr>rr_device = wc_device c, rr_timestamp = t, rr_tags = tags, rr_error = None\<rparr>))"

lemma poll_body_frame:
  "wk_outbox (poll_body c dr p s) = wk_outbox s @ [poll_outcome c dr (po_time p)]"
  "\<exists>k. wk_calls (poll_body c dr p s) = wk_calls s @ k \<and> CDisconnect \<notin> set k"
  using health_calls(2) [of c "dr_health dr" "po_clock p" "po_health_time p" "call CConnect s"]
  by (auto simp: poll_body_def poll_failed_def poll_outcome_def Let_def split: option.split sum.split)

lemma poll_once_built:
  assumes "po_factory p (wc_device c) (wc_tags c) = Inr dr" "poll_once c p s = (x, s')"
  shows "x = None" "wk_outbox s' = wk_outbox s @ [poll_outcome c dr (po_time p)]"
    "\<exists>k. wk_calls s' = wk_calls s @ k @ [CDisconnect] \<and> CDisconnect \<notin> set k"
  using assms poll_body_frame [of c dr p s] by (auto simp: poll_once_def Let_def split: option.splits)

text \<open>The results of the polls before the first that could not build its driver.\<close>

fun poll_results :: "worker_config \<Rightarrow> poll_round list \<Rightarrow> read_result list" where
  "poll_results c [] = []"
| "poll_results c (p # ps) = (case po_factory p (wc_device c) (wc_tags c) of
     Inl e \<Rightarrow> []
   | Inr dr \<Rightarrow> poll_outcome c dr (po_time p) # poll_results c ps)"

definition balanced_polls :: "driver_call list \<Rightarrow> bool" where
  "balanced_polls k \<longleftrightarrow> k = [] \<or> last k = CDisconnect"

lemma poller_run_results:
  assumes "poller_run c ps s = (x, s')" and "balanced_polls (wk_calls s)"
  shows "wk_outbox s' = wk_outbox s @ poll_results c ps \<and> balanced_polls (wk_calls s') \<and>
    (x = None \<longleftrightarrow> list_all (\<lambda>p. \<exists>dr. po_factory p (wc_device c) (wc_tags c) = Inr dr) ps)"
  using assms
proof (induction c ps s rule: poller_run.induct)
  case (2 c p ps s)
  show ?case
  proof (cases "po_factory p (wc_device c) (wc_tags c)")
    case (Inl e)
    then show ?thesis using 2(2,3) by (auto simp: poll_once_def)
  next
    case (Inr dr)
    obtain s1 where s1: "poll_once c p s = (None, s1)"
      using poll_once_built(1) [OF Inr] by (cases "poll_once c p s") auto
    note b = poll_once_built [OF Inr s1]
    have "balanced_polls (wk_calls s1)" using b(3) by (auto simp: balanced_polls_def)
    then show ?thesis using 2(1) [OF s1 [symmetric] refl] 2(2) s1 b(2) Inr by simp
  qed
qed simp

text \<open>C5: One result per poll, and no driver left open.  A polling thread puts exactly the result of each poll in order,
  the readings or the text of the exception of connecting or reading, whatever health checks, logging
  and disconnecting do; the last call on every driver it built is to disconnect it; and only an
  exception of the driver factory ends it.\<close>

theorem poller_one_result_per_poll:
  assumes "poller_run c ps s = (x, s')" and "balanced_polls (wk_calls s)"
  shows "wk_outbox s' = wk_outbox s @ poll_results c ps \<and> balanced_polls (wk_calls s') \<and>
    (x = None \<longleftrightarrow> list_all (\<lambda>p. \<exists>dr. po_factory p (wc_device c) (wc_tags c) = Inr dr) ps)"
  using assms by (rule poller_run_results)

lemma poller_one_result_per_poll_witness:
  "wk_outbox (snd (poller_run (sample_worker opcua_device) [sample_poll (Inr good_driver), sample_poll (Inl timeout_error)] new_worker)) =
     wk_outbox new_worker @ poll_results (sample_worker opcua_device) [sample_poll (Inr good_driver), sample_poll (Inl timeout_error)] \<and>
   balanced_polls (wk_calls (snd (poller_run (sample_worker opcua_device) [sample_poll (Inr good_driver), sample_poll (Inl timeout_error)] new_worker))) \<and>
   (fst (poller_run (sample_worker opcua_device) [sample_poll (Inr good_driver), sample_poll (Inl timeout_error)] new_worker) = None \<longleftrightarrow>
     list_all (\<lambda>p. \<exists>dr. po_factory p (wc_device (sample_worker opcua_device)) (wc_tags (sample_worker opcua_device)) = Inr dr)
       [sample_poll (Inr good_driver), sample_poll (Inl timeout_error)])"
  by (rule poller_one_result_per_poll) (simp_all add: balanced_polls_def new_worker_def)

section \<open>Sessions\<close>

text \<open>One step of a session: the worker takes the step's results, then fails or goes on.\<close>

lemma sub_step_cases:
  assumes "sub_steps c (st # sts) s = (failed, s')"
  obtains s2 k where "wk_outbox s2 = wk_outbox s @ st_emits st" "wk_calls s2 = wk_calls s @ k" "set k \<subseteq> {CRun, CHealth}"
    "(\<exists>t e. failed \<and> s' = sub_failed c t e s2) \<or> sub_steps c sts s2 = (failed, s')"
proof -
  let ?s1 = "fold (emit_result c) (st_emits st) (call CRun s)"
  obtain h s2 where h: "sub_check_server_status c (st_health st) (st_clock st) (st_time st) ?s1 = (h, s2)"
    by (cases "sub_check_server_status c (st_health st) (st_clock st) (st_time st) ?s1")
  have out: "wk_outbox s2 = wk_outbox s @ st_emits st"
    using health_frame(3) [of c "st_health st" "st_clock st" "st_time st" ?s1] h by simp
  obtain k where k: "wk_calls s2 = wk_calls s @ CRun # k" "set k \<subseteq> {CHealth}"
    using health_calls(3) [of c "st_health st" "st_clock st" "st_time st" ?s1] h by auto
  show thesis
  proof (cases "st_run st")
    case (Some e)
    then show ?thesis using assms by (intro that [of ?s1 "[CRun]"]) (auto simp: Let_def)
  next
    case None
    then show ?thesis using assms h out k
      by (intro that [of s2 "CRun # k"]) (auto simp: Let_def split: option.splits)
  qed
qed

lemma sub_failed_frame [simp]:
  "wk_outbox (sub_failed c t e s) = wk_outbox s @ [error_result c t e]"
  "wk_calls (sub_failed c t e s) = wk_calls s"
  by (simp_all add: sub_failed_def)

text \<open>The error result of a failure that ends a session.\<close>

definition ends_with_error :: "worker_config \<Rightarrow> bool \<Rightarrow> read_result list \<Rightarrow> bool" where
  "ends_with_error c failed rs \<longleftrightarrow> (if failed then \<exists>t e. rs = [error_result c t e] else rs = [])"

lemma sub_steps_effect:
  "sub_steps c sts s = (failed, s') \<Longrightarrow>
   \<exists>k es rest err. wk_calls s' = wk_calls s @ k \<and> set k \<subseteq> {CRun, CHealth} \<and>
     wk_outbox s' = wk_outbox s @ es @ err \<and> es @ rest = concat (map st_emits sts) \<and>
     (\<not> failed \<longrightarrow> rest = []) \<and> ends_with_error c failed err"
proof (induction sts arbitrary: s)
  case Nil
  then show ?case by (simp add: ends_with_error_def)
next
  case (Cons st sts)
  show ?case
  proof (rule sub_step_cases [OF Cons.prems])
    fix s2 :: worker and k
    assume s2: "wk_outbox s2 = wk_outbox s @ st_emits st" "wk_calls s2 = wk_calls s @ k" "set k \<subseteq> {CRun, CHealth}"
    assume "(\<exists>t e. failed \<and> s' = sub_failed c t e s2) \<or> sub_steps c sts s2 = (failed, s')"
    then show ?thesis
    proof
      assume "\<exists>t e. failed \<and> s' = sub_failed c t e s2"
      then obtain t e where f: "failed" "s' = sub_failed c t e s2" by blast
      show ?thesis
        by (rule exI [of _ k], rule exI [of _ "st_emits st"], rule exI [of _ "concat (map st_emits sts)"],
            rule exI [of _ "[error_result c t e]"]) (use s2 f in \<open>auto simp: ends_with_error_def\<close>)
    next
      assume "sub_steps c sts s2 = (failed, s')"
      from Cons.IH [OF this] obtain k2 es rest err where
        ih: "wk_calls s' = wk_calls s2 @ k2" "set k2 \<subseteq> {CRun, CHealth}" "wk_outbox s' = wk_outbox s2 @ es @ err"
        "es @ rest = concat (map st_emits sts)" "\<not> failed \<longrightarrow> rest = []" "ends_with_error c failed err" by blast
      show ?thesis
        by (rule exI [of _ "k @ k2"], rule exI [of _ "st_emits st @ es"], rule exI [of _ rest], rule exI [of _ err])
          (use s2 ih in auto)
    qed
  qed
qed

definition started :: "sub_driver \<Rightarrow> bool" where
  "started dr \<longleftrightarrow> sd_connect dr = None \<and> sd_start dr = None"

text \<open>Everything the driver hands over in a session, in order.\<close>

definition session_emits :: "sub_driver \<Rightarrow> session \<Rightarrow> read_result list" where
  "session_emits dr se = (if sd_connect dr = None then sd_start_emits dr else []) @
     (if started dr then concat (map st_emits (se_steps se)) else [])"

lemma cleanup_frame [simp]:
  "wk_outbox (cleanup_driver c dr b s) = wk_outbox s"
  "wk_calls (cleanup_driver c dr b s) = wk_calls s @ (if b then [CStop] else []) @ [CDisconnect]"
  by (simp_all add: cleanup_driver_def Let_def split: option.split)

lemma start_failed_frame [simp]:
  "wk_outbox (snd (start_failed c se e s)) = wk_outbox s @ [error_result c (se_time se) e]"
  "wk_calls (snd (start_failed c se e s)) = wk_calls s"
  by (simp_all add: start_failed_def Let_def split: sum.split)

lemma start_once_effect:
  "wk_outbox (snd (start_once c dr s)) = wk_outbox s @ (if sd_connect dr = None then sd_start_emits dr else [])"
  "wk_calls (snd (start_once c dr s)) = wk_calls s @ CConnect # (if sd_connect dr = None then [CStart] else [])"
  "fst (start_once c dr s) = None \<longleftrightarrow> started dr"
  by (auto simp: start_once_def started_def Let_def split: option.split)

lemma session_delivers_aux:
  assumes "se_factory se (wc_device c) (wc_tags c) = Inr dr" and "sub_session c se s = (x, failed, s')"
  shows "\<exists>k es rest err.
    wk_calls s' = wk_calls s @ CConnect # k @ (if started dr then [CStop] else []) @ [CDisconnect] \<and>
    set k \<subseteq> {CStart, CRun, CHealth} \<and>
    wk_outbox s' = wk_outbox s @ es @ err \<and> es @ rest = session_emits dr se \<and>
    (failed \<or> rest = []) \<and> ends_with_error c failed err"
proof (cases "start_once c dr s")
  case (Pair e s1)
  note start = start_once_effect [of c dr s, unfolded Pair, simplified]
  show ?thesis
  proof (cases e)
    case (Some e1)
    then have f: "failed" "s' = cleanup_driver c dr False (snd (start_failed c se e1 s1))"
      using assms Pair by (auto simp: sub_session_def Let_def split: prod.splits)
    show ?thesis
      by (rule exI [of _ "if sd_connect dr = None then [CStart] else []"],
          rule exI [of _ "if sd_connect dr = None then sd_start_emits dr else []"], rule exI [of _ "[]"],
          rule exI [of _ "[error_result c (se_time se) e1]"])
        (use start Some f in \<open>auto simp: session_emits_def ends_with_error_def\<close>)
  next
    case None
    obtain s2 where s2: "sub_steps c (se_steps se) s1 = (failed, s2)" "s' = cleanup_driver c dr True s2"
      using assms Pair None by (auto simp: sub_session_def Let_def split: prod.splits)
    obtain k es rest err where eff: "wk_calls s2 = wk_calls s1 @ k" "set k \<subseteq> {CRun, CHealth}"
      "wk_outbox s2 = wk_outbox s1 @ es @ err" "es @ rest = concat (map st_emits (se_steps se))"
      "\<not> failed \<longrightarrow> rest = []" "ends_with_error c failed err"
      using sub_steps_effect [OF s2(1)] by blast
    have "started dr" using start None by simp
    then show ?thesis
      by (intro exI [of _ "CStart # k"], rule_tac x = "sd_start_emits dr @ es" in exI, rule_tac x = rest in exI,
          rule_tac x = err in exI) (use start eff s2(2) in \<open>auto simp: session_emits_def started_def\<close>)
  qed
qed

text \<open>C22: A session delivers what its driver emits and cleans up.  When the factory built a driver, the session connects it
  first and disconnects it last and once, and stops the subscription, just before that, exactly if it was
  started; it delivers the driver's results in order, all of them if it did not fail; and a session that
  fails adds one error result, last.\<close>

theorem session_delivers_and_cleans_up:
  assumes "se_factory se (wc_device c) (wc_tags c) = Inr dr" and "sub_session c se s = (x, failed, s')"
  shows "\<exists>k es rest err.
    wk_calls s' = wk_calls s @ CConnect # k @ (if started dr then [CStop] else []) @ [CDisconnect] \<and>
    set k \<subseteq> {CStart, CRun, CHealth} \<and>
    wk_outbox s' = wk_outbox s @ es @ err \<and> es @ rest = session_emits dr se \<and>
    (failed \<or> rest = []) \<and> ends_with_error c failed err"
  using assms by (rule session_delivers_aux)

lemma session_delivers_and_cleans_up_witness:
  "\<exists>k es rest err.
    wk_calls (snd (snd (sub_session (sample_worker opcua_device) (sample_session None [sample_step (Some timeout_error)] False) new_worker))) =
      wk_calls new_worker @ CConnect # k @ (if started (sample_subscription None) then [CStop] else []) @ [CDisconnect] \<and>
    set k \<subseteq> {CStart, CRun, CHealth} \<and>
    wk_outbox (snd (snd (sub_session (sample_worker opcua_device) (sample_session None [sample_step (Some timeout_error)] False) new_worker))) =
      wk_outbox new_worker @ es @ err \<and>
    es @ rest = session_emits (sample_subscription None) (sample_session None [sample_step (Some timeout_error)] False) \<and>
    (fst (snd (sub_session (sample_worker opcua_device) (sample_session None [sample_step (Some timeout_error)] False) new_worker)) \<or> rest = []) \<and>
    ends_with_error (sample_worker opcua_device)
      (fst (snd (sub_session (sample_worker opcua_device) (sample_session None [sample_step (Some timeout_error)] False) new_worker))) err"
  by (rule session_delivers_and_cleans_up
      [where x = "fst (sub_session (sample_worker opcua_device) (sample_session None [sample_step (Some timeout_error)] False) new_worker)"])
    (simp_all add: sample_session_def)

lemma session_exception:
  assumes "sub_session c se s = (x, failed, s')"
  shows "x \<noteq> None \<Longrightarrow> failed \<and> (\<exists>e. x = Some e \<and> subscription_connection_data (wc_device c) = Inl e)"
  using assms by (auto simp: sub_session_def start_failed_def Let_def split: sum.splits prod.splits option.splits)

lemma session_balanced:
  assumes "sub_session c se s = (x, failed, s')" "balanced_polls (wk_calls s)"
  shows "balanced_polls (wk_calls s')"
proof (cases "se_factory se (wc_device c) (wc_tags c)")
  case (Inl e)
  then have "s' = snd (start_failed c se e s)"
    using assms(1) by (auto simp: sub_session_def Let_def split: prod.splits)
  then show ?thesis using assms(2) by simp
next
  case (Inr dr)
  then show ?thesis using session_delivers_aux [OF Inr assms(1)] by (auto simp: balanced_polls_def)
qed

text \<open>C24: A subscription thread outlives its failures.  Whatever its drivers do, an exception ends the thread only if it comes
  from reading the device's connection settings for the log; otherwise it runs until it is stopped, and
  in every case the last call on each driver it built is to disconnect it.\<close>

theorem subscription_thread_survives:
  assumes "sub_run c ses s = (x, s')" and "balanced_polls (wk_calls s)"
  shows "balanced_polls (wk_calls s') \<and>
    (x = None \<or> (\<exists>e. x = Some e \<and> subscription_connection_data (wc_device c) = Inl e))"
  using assms
proof (induction ses arbitrary: s)
  case (Cons se ses)
  obtain y failed s1 where y: "sub_session c se s = (y, failed, s1)" by (cases "sub_session c se s")
  note b = session_balanced [OF y Cons.prems(2)] and e = session_exception [OF y]
  show ?case
  proof (cases "y = None \<and> failed \<and> \<not> se_stopped se")
    case False
    then show ?thesis using Cons.prems(1) y b e by (auto split: option.splits if_splits)
  next
    case True
    then show ?thesis
    proof (cases "subscription_connection_data (wc_device c)")
      case (Inl z)
      then show ?thesis using Cons.prems(1) y b True by (auto simp: sub_retry_def)
    next
      case (Inr conn)
      then obtain s2 where s2: "sub_retry c s1 = (None, s2)" "wk_calls s2 = wk_calls s1"
        by (auto simp: sub_retry_def)
      then show ?thesis using Cons.IH [of s2] Cons.prems(1) y b True by simp
    qed
  qed
qed simp

lemma subscription_thread_survives_witness:
  "balanced_polls (wk_calls (snd (sub_run (sample_worker opcua_device)
      [sample_session (Some timeout_error) [] False, sample_session None [sample_step None] True] new_worker))) \<and>
   (fst (sub_run (sample_worker opcua_device)
      [sample_session (Some timeout_error) [] False, sample_session None [sample_step None] True] new_worker) = None \<or>
    (\<exists>e. fst (sub_run (sample_worker opcua_device)
      [sample_session (Some timeout_error) [] False, sample_session None [sample_step None] True] new_worker) = Some e \<and>
      subscription_connection_data (wc_device (sample_worker opcua_device)) = Inl e))"
  by (rule subscription_thread_survives [OF prod.collapse [symmetric]]) (simp add: balanced_polls_def new_worker_def)

text \<open>A port that is no number kills the thread.  When the connection settings of a device cannot be read, the first session
  that fails ends the thread with that exception: no later session is run.\<close>

theorem bad_port_kills_subscription:
  assumes "subscription_connection_data (wc_device c) = Inl x"
    and "sub_session c se s = (y, failed, s1)" "failed" "\<not> se_stopped se"
  shows "sub_run c (se # ses) s = (Some x, s1)"
  using assms session_exception [OF assms(2)] by (auto simp: sub_retry_def split: option.splits)

lemma bad_port_kills_subscription_witness:
  "sub_run (sample_worker mqtt_device) [sample_session (Some timeout_error) [] False, sample_session None [sample_step None] True] new_worker =
     (Some (Raise ValueError (''invalid literal for int() with base 10: '' @ quoted ''mqtts'')),
      snd (snd (sub_session (sample_worker mqtt_device) (sample_session (Some timeout_error) [] False) new_worker)))"
  by (rule bad_port_kills_subscription [where y = "fst (sub_session (sample_worker mqtt_device) (sample_session (Some timeout_error) [] False) new_worker)"
        and failed = "fst (snd (sub_session (sample_worker mqtt_device) (sample_session (Some timeout_error) [] False) new_worker))"])
    (simp_all add: worker_sample_defs subscription_connection_data_def item_get_def or_val_def parse_int_def py_strip_def
      str_simps parse_nat_def is_digit_def sub_session_def start_once_def start_failed_def Let_def)

end
