(* ===== verification/Publisher_Run.thy ===== *)
theory Publisher_Run
  imports Complex_Main Publisher_Thms
begin

text \<open>
  The thread loop of \<open>SinkPublisher\<close> (\<open>run\<close> in \<^verbatim>\<open>src/industrial_gateway/workers.py\<close>): take a waiting result,
  publish the cache when the time has come, and move the next publishing time past the clock. The last is a
  loop of floating point additions, a partial function here; with the interval of one second the gateway uses it ends
  as long as the clock is below \<open>2^52\<close> seconds.

  A run is the list of the rounds made before the stop event was set: what the inbox had and what the clocks said.
\<close>

section \<open>The loop\<close>

partial_function (option) catch_up :: "pyfloat \<Rightarrow> pyfloat \<Rightarrow> pyfloat \<Rightarrow> pyfloat option" where
  "catch_up interval now due = (if fl_le due now then catch_up interval now (fl_add due interval) else Some due)"

record pub_round =
  pr_result :: "read_result option"
  pr_received :: datetime
  pr_clock :: pyfloat
  pr_time :: datetime

definition pub_round_step ::
  "pub_config \<Rightarrow> sink \<Rightarrow> pyfloat \<Rightarrow> pub_round \<Rightarrow> pyfloat \<times> publisher \<Rightarrow> (pyfloat \<times> publisher) option" where
  "pub_round_step c k interval r st =
     (let (due, s) = st;
          s1 = (case pr_result r of None \<Rightarrow> s | Some x \<Rightarrow> publish_once c k x (pr_received r) s)
      in if fl_le due (pr_clock r)
         then map_option (\<lambda>due'. (due', fst (publish_cached c k (pr_time r) s1))) (catch_up interval (pr_clock r) due)
         else Some (due, s1))"

fun pub_rounds ::
  "pub_config \<Rightarrow> sink \<Rightarrow> pyfloat \<Rightarrow> pub_round list \<Rightarrow> pyfloat \<times> publisher \<Rightarrow> (pyfloat \<times> publisher) option" where
  "pub_rounds c k interval [] st = Some st"
| "pub_rounds c k interval (r # rs) st = Option.bind (pub_round_step c k interval r st) (pub_rounds c k interval rs)"

text \<open>\<open>begin\<close> and \<open>finish\<close> are the exceptions the sink raises when it is started and stopped.\<close>

definition publisher_run ::
  "pub_config \<Rightarrow> sink \<Rightarrow> pyfloat \<Rightarrow> exn option \<Rightarrow> exn option \<Rightarrow> pyfloat \<Rightarrow> pub_round list \<Rightarrow> publisher \<Rightarrow> publisher option" where
  "publisher_run c k interval begins finish clock rounds s =
     (case begins of
        Some e \<Rightarrow> Some (emit_log c ''ERROR'' ''plugin'' ''sink start failed'' (exception_data e)
          (emit_status c (StText (''plugin '' @ pc_plugin_type c @ '' start failed: '' @ ex_text e)) s))
      | None \<Rightarrow> map_option (\<lambda>(due, s'). case finish of
            None \<Rightarrow> s'
          | Some e \<Rightarrow> emit_log c ''ERROR'' ''plugin'' ''sink stop failed'' (exception_data e) s')
          (pub_rounds c k interval rounds (fl_add clock interval, s)))"

section \<open>The value of a float\<close>

fun fl_val :: "pyfloat \<Rightarrow> real" where
  "fl_val (FFin s m e) = of_int (signed s m) * 2 powi e"
| "fl_val _ = 0"

fun fl_finite :: "pyfloat \<Rightarrow> bool" where
  "fl_finite (FFin s m e) = True"
| "fl_finite _ = False"

lemma powi_shift: "g \<le> e \<Longrightarrow> (2::real) powi e = 2 ^ nat (e - g) * 2 powi g"
  using power_int_add [of "2::real" "e - g" g] by (simp add: power_int_def)

lemma signed_shift: "g \<le> e \<Longrightarrow> real_of_int (signed s (m * 2 ^ nat (e - g))) * 2 powi g = fl_val (FFin s m e)"
  by (simp add: powi_shift [of g e] signed_def)

lemma fl_le_val:
  assumes "fl_finite x" "fl_finite y"
  shows "fl_le x y \<longleftrightarrow> fl_val x \<le> fl_val y"
proof -
  obtain s m e t n f where xy: "x = FFin s m e" "y = FFin t n f" using assms by (cases x; cases y) auto
  define g where "g = min e f"
  have "fl_le x y \<longleftrightarrow> signed s (m * 2 ^ nat (e - g)) \<le> signed t (n * 2 ^ nat (f - g))"
    by (simp add: xy g_def Let_def)
  also have "\<dots> \<longleftrightarrow> real_of_int (signed s (m * 2 ^ nat (e - g))) * 2 powi g \<le> real_of_int (signed t (n * 2 ^ nat (f - g))) * 2 powi g"
    by simp
  also have "\<dots> \<longleftrightarrow> fl_val x \<le> fl_val y"
    by (simp only: xy signed_shift g_def min.cobounded1 min.cobounded2)
  finally show ?thesis .
qed

text \<open>Rounding to \<open>k\<close> fewer bits is off by at most half a unit.\<close>

lemma round_half_even_error: "\<bar>2 * (int (round_half_even m k) * 2 ^ k) - 2 * int m\<bar> \<le> 2 ^ k"
proof -
  define q r where "q = m div 2 ^ k" and "r = m mod 2 ^ k"
  have m: "int m = int q * 2 ^ k + int r" by (metis q_def r_def div_mult_mod_eq of_nat_add of_nat_mult of_nat_numeral of_nat_power)
  have r: "r < 2 ^ k" by (simp add: r_def)
  have r': "int r < 2 ^ k" using r by (metis of_nat_less_iff of_nat_numeral of_nat_power)
  have c: "2 * r < 2 ^ k \<longleftrightarrow> 2 * int r < 2 ^ k" "2 ^ k < 2 * r \<longleftrightarrow> 2 ^ k < 2 * int r"
    by (metis of_nat_less_iff of_nat_mult of_nat_numeral of_nat_power)+
  have q: "int (round_half_even m k) = (if 2 * int r < 2 ^ k then int q else if 2 * int r > 2 ^ k then int q + 1 else int q + int (q mod 2))"
    by (simp add: round_half_even_def Let_def c flip: q_def r_def)
  have "int (q mod 2) = 0 \<or> int (q mod 2) = 1" by (cases "even q") (simp_all add: mod2_eq_if)
  then show ?thesis using r' by (auto simp: m q algebra_simps)
qed

lemma fl_round_val:
  assumes "m \<noteq> 0" "fl_exp m e \<le> 0"
  shows "fl_finite (fl_round s m e)" "\<bar>fl_val (fl_round s m e) - fl_val (FFin s m e)\<bar> \<le> 1 / 2"
proof -
  define f where "f = fl_exp m e"
  define n where "n = (if f \<le> e then m * 2 ^ nat (e - f) else round_half_even m (nat (f - e)))"
  have val: "\<bar>of_int (signed s n) * 2 powi f - fl_val (FFin s m e)\<bar> \<le> 1 / 2"
  proof (cases "f \<le> e")
    case True
    then show ?thesis using signed_shift [of f e s m] by (simp add: n_def)
  next
    case False
    define k where "k = nat (f - e)"
    have n: "n = round_half_even m k" using False by (simp add: n_def k_def)
    have f: "(2::real) powi f = 2 ^ k * 2 powi e" using powi_shift [of e f] False by (simp add: k_def)
    have "\<bar>real_of_int (2 * (int n * 2 ^ k) - 2 * int m)\<bar> \<le> 2 ^ k"
      using round_half_even_error [of m k] unfolding n by (metis of_int_abs of_int_le_iff of_int_numeral of_int_power)
    then have "\<bar>2 * (real n * 2 ^ k) - 2 * real m\<bar> \<le> 2 ^ k" by simp
    then have "\<bar>real n * 2 ^ k - real m\<bar> \<le> 2 ^ k / 2" unfolding abs_le_iff by linarith
    then have "\<bar>real n * 2 ^ k - real m\<bar> * 2 powi e \<le> 2 ^ k / 2 * 2 powi e" by (intro mult_right_mono) simp_all
    moreover have "(2::real) powi f \<le> 1" using assms(2) power_int_increasing [of f 0 "2::real"] by (simp add: f_def)
    ultimately have "\<bar>real n * 2 ^ k - real m\<bar> * 2 powi e \<le> 1 / 2" unfolding f by linarith
    then have "\<bar>(real n * 2 ^ k - real m) * 2 powi e\<bar> \<le> 1 / 2" by (simp add: abs_mult)
    moreover have "of_int (signed s n) * 2 powi f - fl_val (FFin s m e) = (if s then - 1 else 1) * ((real n * 2 ^ k - real m) * 2 powi e)"
      by (simp add: f signed_def algebra_simps)
    ultimately show ?thesis by (simp add: abs_mult split: if_splits)
  qed
  have pack: "fl_finite (fl_pack s n' f')" "fl_val (fl_pack s n' f') = of_int (signed s n') * 2 powi f'" if "f' \<le> 1" for n' f'
    using that by (simp_all add: fl_pack_def signed_def)
  have split: "(2::real) ^ 52 * 2 powi (f + 1) = 2 ^ 53 * 2 powi f" by (simp add: power_int_add)
  have rd: "fl_round s m e = (if n = 2 ^ 53 then fl_pack s (2 ^ 52) (f + 1) else fl_pack s n f)"
    using assms(1) by (simp add: fl_round_def f_def n_def Let_def)
  have f: "f \<le> 0" using assms(2) by (simp add: f_def)
  show "fl_finite (fl_round s m e)" using f by (simp add: rd pack)
  have "fl_val (fl_round s m e) = of_int (signed s n) * 2 powi f"
  proof (cases "n = 2 ^ 53")
    case True
    then have "fl_val (fl_round s m e) = of_int (signed s (2 ^ 52)) * 2 powi (f + 1)" using f by (simp add: rd pack)
    then show ?thesis using split unfolding True by (auto simp: signed_def)
  qed (use f in \<open>simp add: rd pack\<close>)
  then show "\<bar>fl_val (fl_round s m e) - fl_val (FFin s m e)\<bar> \<le> 1 / 2" using val by simp
qed

section \<open>The loop ends\<close>

text \<open>A clock reading for which adding a second makes a difference.\<close>

definition clock_ok :: "pyfloat \<Rightarrow> bool" where
  "clock_ok x \<longleftrightarrow> fl_finite x \<and> fl_le fl_zero x \<and> fl_lt x (FFin False (2 ^ 52) 0)"

lemma clock_ok_val: "clock_ok x \<longleftrightarrow> fl_finite x \<and> 0 \<le> fl_val x \<and> fl_val x < 2 ^ 52"
  by (cases "fl_finite x") (auto simp: clock_ok_def fl_lt_def fl_zero_def fl_le_val signed_def simp del: fl_le.simps)

lemma one_val: "fl_finite fl_one" "fl_val fl_one = 1"
  by (simp_all add: fl_one_def signed_def power_int_minus)

lemma add_second:
  assumes "fl_finite x" "0 \<le> fl_val x" "fl_val x < 2 ^ 53 - 1"
  shows "fl_finite (fl_add x fl_one)" "\<bar>fl_val (fl_add x fl_one) - (fl_val x + 1)\<bar> \<le> 1 / 2"
proof -
  obtain s m e where x: "x = FFin s m e" using assms(1) by (cases x) auto
  define g where "g = min e (-52)"
  define z where "z = signed s (m * 2 ^ nat (e - g)) + signed False (2 ^ 52 * 2 ^ nat (-52 - g))"
  have "real_of_int z * 2 powi g = fl_val x + fl_val fl_one"
    using signed_shift [of g e s m] signed_shift [of g "-52" False "2 ^ 52"]
    by (simp add: z_def g_def x fl_one_def distrib_right)
  then have v: "real_of_int z * 2 powi g = fl_val x + 1" by (simp add: one_val)
  then have "0 < real_of_int z * 2 powi g" using assms(2) by simp
  then have z: "0 < z" by (metis of_int_0_less_iff zero_less_mult_pos2 zero_less_numeral zero_less_power_int)
  have add: "fl_add x fl_one = fl_round False (nat z) g"
    using z by (simp add: x fl_one_def g_def z_def Let_def)
  have "(2::nat) ^ (bit_length (nat z) - 1) \<le> nat z" by (rule bit_length_lower) (use z in simp)
  then have "(2::real) ^ (bit_length (nat z) - 1) \<le> real_of_int z" using z
    by (metis of_nat_le_iff of_nat_nat of_nat_numeral of_nat_power of_int_of_nat_eq less_imp_le)
  then have "2 ^ (bit_length (nat z) - 1) * 2 powi g \<le> real_of_int z * 2 powi g" by (simp add: mult_right_mono)
  also have "\<dots> < 2 ^ 53" using v assms(3) by simp
  finally have "(2::real) powi (int (bit_length (nat z) - 1) + g) < 2 powi 53" by (simp add: power_int_add)
  then have "int (bit_length (nat z) - 1) + g < 53" 
    using power_int_increasing [of 53 "int (bit_length (nat z) - 1) + g" "2::real"] by force
  then have e: "fl_exp (nat z) g \<le> 0" using z by (simp add: fl_exp_def bit_length_pos)
  have n: "nat z \<noteq> 0" using z by simp
  show "fl_finite (fl_add x fl_one)" unfolding add by (rule fl_round_val(1) [OF n e])
  show "\<bar>fl_val (fl_add x fl_one) - (fl_val x + 1)\<bar> \<le> 1 / 2"
    using fl_round_val(2) [OF n e, of False] v z by (simp add: add signed_def)
qed

lemma catch_up_ends:
  assumes "fl_finite now" "fl_val now < 2 ^ 52"
  shows "fl_finite due \<Longrightarrow> 0 \<le> fl_val due \<Longrightarrow> fl_val due < 2 ^ 52 + 2 \<Longrightarrow>
    \<exists>due'. catch_up fl_one now due = Some due' \<and> fl_finite due' \<and> fl_val now < fl_val due' \<and> fl_val due \<le> fl_val due' \<and> fl_val due' < 2 ^ 52 + 2"
proof (induction "nat \<lceil>2 * (fl_val now - fl_val due) + 1\<rceil>" arbitrary: due rule: less_induct)
  case less
  show ?case
  proof (cases "fl_le due now")
    case False
    then show ?thesis using less.prems assms(1) by (simp add: catch_up.simps [of _ now due] fl_le_val)
  next
    case True
    then have le: "fl_val due \<le> fl_val now" using less.prems assms(1) by (simp add: fl_le_val)
    have lt: "fl_val due < 2 ^ 53 - 1" using le assms(2) by simp
    let ?next = "fl_add due fl_one"
    note add = add_second [OF less.prems(1,2) lt]
    have b: "fl_val due + 1 / 2 \<le> fl_val ?next" "fl_val ?next \<le> fl_val due + 3 / 2"
      using add(2) unfolding abs_le_iff by linarith+
    have "nat \<lceil>2 * (fl_val now - fl_val ?next) + 1\<rceil> < nat \<lceil>2 * (fl_val now - fl_val due) + 1\<rceil>"
    proof -
      have "2 * (fl_val now - fl_val ?next) + 1 \<le> 2 * (fl_val now - fl_val due) + 1 - 1" using b(1) by simp
      then have "\<lceil>2 * (fl_val now - fl_val ?next) + 1\<rceil> \<le> \<lceil>2 * (fl_val now - fl_val due) + 1\<rceil> - 1" by linarith
      moreover have "0 < \<lceil>2 * (fl_val now - fl_val due) + 1\<rceil>" using le by simp
      ultimately show ?thesis by linarith
    qed
    from less.hyps [OF this add(1)] show ?thesis
      using b less.prems le assms(2) True by (auto simp: catch_up.simps [of _ now due])
  qed
qed

definition schedule_ok :: "pyfloat \<Rightarrow> bool" where
  "schedule_ok due \<longleftrightarrow> fl_finite due \<and> 0 \<le> fl_val due \<and> fl_val due < 2 ^ 52 + 2"

lemma first_schedule_ok: "clock_ok clock \<Longrightarrow> schedule_ok (fl_add clock fl_one)"
  using add_second [of clock] unfolding clock_ok_val schedule_ok_def abs_le_iff by auto

lemma pub_round_returns:
  assumes "clock_ok (pr_clock r)" "schedule_ok due" "pub_inv s"
  shows "\<exists>due' s'. pub_round_step c k fl_one r (due, s) = Some (due', s') \<and> schedule_ok due' \<and> pub_inv s' \<and> fl_lt (pr_clock r) due'"
proof -
  obtain due' where "catch_up fl_one (pr_clock r) due = Some due'" "schedule_ok due'" "fl_val (pr_clock r) < fl_val due'"
    using catch_up_ends [of "pr_clock r" due] assms(1,2) unfolding clock_ok_val schedule_ok_def by auto
  then show ?thesis using assms
    by (auto simp: pub_round_step_def Let_def fl_lt_def clock_ok_val schedule_ok_def fl_le_val publish_once_inv publish_cached_inv split: option.splits)
qed

lemma pub_rounds_return:
  "list_all (\<lambda>r. clock_ok (pr_clock r)) rounds \<Longrightarrow> schedule_ok due \<Longrightarrow> pub_inv s \<Longrightarrow>
    \<exists>due' s'. pub_rounds c k fl_one rounds (due, s) = Some (due', s') \<and> schedule_ok due' \<and> pub_inv s' \<and>
      (rounds \<noteq> [] \<longrightarrow> fl_lt (pr_clock (last rounds)) due')"
proof (induction rounds arbitrary: due s)
  case (Cons r rounds)
  obtain due1 s1 where r: "pub_round_step c k fl_one r (due, s) = Some (due1, s1)" "schedule_ok due1" "pub_inv s1"
      "fl_lt (pr_clock r) due1"
    using pub_round_returns [of r due s c k] Cons.prems by auto
  show ?case using Cons.IH [OF _ r(2,3)] Cons.prems(1) r(1,4) by (cases "rounds = []") auto
qed simp

text \<open>C23: The publisher never hangs.  With the publishing interval of one second and clock readings below
  \<open>2^52\<close> seconds, in whatever order, the thread loop gets through every round, the inner loop that moves the
  publishing time included, and leaves consistent caches, however the sink behaves.\<close>

theorem publisher_run_returns:
  assumes "clock_ok clock" "list_all (\<lambda>r. clock_ok (pr_clock r)) rounds"
  shows "\<exists>s. publisher_run c k fl_one begins finish clock rounds new_publisher = Some s \<and> pub_inv s"
proof -
  have "pub_inv new_publisher" by (rule pub_reachable_inv [OF pub_reachable.start])
  from pub_rounds_return [OF assms(2) first_schedule_ok [OF assms(1)] this, of c k]
  obtain due s where "pub_rounds c k fl_one rounds (fl_add clock fl_one, new_publisher) = Some (due, s)" "pub_inv s"
    by blast
  then show ?thesis using \<open>pub_inv new_publisher\<close> by (simp add: publisher_run_def split: option.split)
qed

lemma publisher_run_returns_witness:
  "\<exists>s. publisher_run sample_config working_sink fl_one None None fl_zero
     [\<lparr>pr_result = Some (sample_result [sample_reading ''flow'' Good]), pr_received = noon, pr_clock = fl_one, pr_time = noon\<rparr>]
     new_publisher = Some s \<and> pub_inv s"
  by (rule publisher_run_returns) (simp_all add: clock_ok_def fl_zero_def fl_one_def fl_lt_def signed_def)

end
