(* ===== verification/Store.thy ===== *)
theory Store
  imports Models "HOL-Library.Product_Lexorder"
begin

text \<open>
  \<^verbatim>\<open>src/industrial_gateway/store.py\<close>: the SQLite configuration store. A table is a dictionary from
  row ids to rows in id order, which is the order of insertion because every id is drawn from the
  table's AUTOINCREMENT sequence and an update keeps the row's id. Constraints the schema declares
  (NOT NULL, foreign keys with cascade, 64-bit integers) are branches of the operations. JSON text
  columns hold the value they encode. Rows that an ORDER BY leaves tied are listed in id order.
\<close>

section \<open>Rows\<close>

record db =
  db_devices :: "(int, device_spec) pydict"
  db_tags :: "(int, tag_spec) pydict"
  db_routes :: "(int, output_route_config) pydict"
  db_next_device :: int
  db_next_tag :: int
  db_next_route :: int
  db_mqtt :: "mqtt_config option"
  db_sinks :: "(string, bool \<times> settings) pydict"
  db_selected :: "string option"

definition empty_db :: db where
  "empty_db = \<lparr>db_devices = [], db_tags = [], db_routes = [], db_next_device = 1, db_next_tag = 1,
     db_next_route = 1, db_mqtt = None, db_sinks = [], db_selected = None\<rparr>"

definition int64 :: "int \<Rightarrow> bool" where
  "int64 i \<longleftrightarrow> - (2 ^ 63) \<le> i \<and> i < 2 ^ 63"

definition opt_int64 :: "int option \<Rightarrow> bool" where
  "opt_int64 v = (case v of None \<Rightarrow> True | Some i \<Rightarrow> int64 i)"

definition overflow :: "'a res" where
  "overflow = Inl (Raise OverflowError ''Python int too large to convert to SQLite INTEGER'')"

definition integrity :: "string \<Rightarrow> 'a res" where
  "integrity m = Inl (Raise IntegrityError m)"

section \<open>Ordering keys\<close>

text \<open>A nullable integer column under \<open>ORDER BY c IS NULL, c\<close>: null comes last.\<close>

datatype sql_int = SqlInt int | SqlNull

instantiation sql_int :: linorder
begin

fun less_eq_sql_int :: "sql_int \<Rightarrow> sql_int \<Rightarrow> bool" where
  "less_eq_sql_int (SqlInt a) (SqlInt b) = (a \<le> b)"
| "less_eq_sql_int (SqlInt a) SqlNull = True"
| "less_eq_sql_int SqlNull (SqlInt b) = False"
| "less_eq_sql_int SqlNull SqlNull = True"

definition less_sql_int :: "sql_int \<Rightarrow> sql_int \<Rightarrow> bool" where
  "less_sql_int a b = (a \<le> b \<and> \<not> b \<le> a)"

instance
proof
  fix x y z :: sql_int
  show "(x < y) = (x \<le> y \<and> \<not> y \<le> x)" by (simp add: less_sql_int_def)
  show "x \<le> x" by (cases x) auto
  show "x \<le> y \<Longrightarrow> y \<le> z \<Longrightarrow> x \<le> z" by (cases x; cases y; cases z) auto
  show "x \<le> y \<Longrightarrow> y \<le> x \<Longrightarrow> x = y" by (cases x; cases y) auto
  show "x \<le> y \<or> y \<le> x" by (cases x; cases y) auto
qed

end

definition sql_int :: "int option \<Rightarrow> sql_int" where
  "sql_int v = (case v of None \<Rightarrow> SqlNull | Some i \<Rightarrow> SqlInt i)"

section \<open>Devices\<close>

definition validate_device :: "device_spec \<Rightarrow> unit res" where
  "validate_device d =
     (if py_strip (dev_name d) = [] then value_error ''device name is required''
      else if py_strip (dev_driver_type d) = [] then value_error ''device driver_type is required''
      else if dev_poll_interval_ms d < 100 then value_error ''device poll_interval_ms must be at least 100''
      else Inr ())"

definition save_device :: "device_spec \<Rightarrow> db \<Rightarrow> (int \<times> db) res" where
  "save_device d s = rbind (validate_device d) (\<lambda>_.
     if \<not> int64 (dev_poll_interval_ms d) \<or> \<not> opt_int64 (dev_id d) then overflow
     else (case dev_id d of
         None \<Rightarrow> (let i = db_next_device s in
           Inr (i, s\<lparr>db_devices := db_devices s @ [(i, d\<lparr>dev_id := Some i\<rparr>)], db_next_device := i + 1\<rparr>))
       | Some i \<Rightarrow> Inr (i, if dget (db_devices s) i = None then s
           else s\<lparr>db_devices := dset i d (db_devices s)\<rparr>)))"

definition list_devices :: "db \<Rightarrow> device_spec list" where
  "list_devices s = sort_key (\<lambda>d. (dev_group d, dev_name d)) (dvalues (db_devices s))"

definition delete_device :: "int \<Rightarrow> db \<Rightarrow> db res" where
  "delete_device i s =
     (if \<not> int64 i then overflow
      else if dget (db_devices s) i = None then Inr s
      else Inr (s\<lparr>db_devices := ddel i (db_devices s),
        db_tags := filter (\<lambda>(_, t). tag_device_id t \<noteq> Some i) (db_tags s),
        db_routes := filter (\<lambda>(_, r). rt_device_id r \<noteq> Some i) (db_routes s)\<rparr>))"

section \<open>Tags\<close>

definition driver_type_for_device :: "int option \<Rightarrow> db \<Rightarrow> string res" where
  "driver_type_for_device device s = (case device of
     None \<Rightarrow> value_error ''tag device_id is required''
   | Some i \<Rightarrow>
       if \<not> int64 i then overflow
       else (case dget (db_devices s) i of
           None \<Rightarrow> value_error (''device not found: '' @ show_int i)
         | Some d \<Rightarrow> Inr (dev_driver_type d)))"

definition tag_identity :: "tag_spec \<Rightarrow> int option \<times> string \<times> string" where
  "tag_identity t = (tag_device_id t, tag_group t, tag_name t)"

definition validate_unique_tag_name :: "tag_spec \<Rightarrow> db \<Rightarrow> unit res" where
  "validate_unique_tag_name t s =
     (if tag_device_id t = None then Inr ()
      else if \<not> opt_int64 (tag_device_id t) \<or> \<not> opt_int64 (tag_id t) then overflow
      else if \<exists>(i, u)\<in>set (db_tags s). tag_identity u = tag_identity t \<and> tag_id t \<noteq> Some i
      then value_error (''tag name already exists in group '' @
        quoted (if tag_group t = [] then ''default'' else tag_group t) @ '': '' @ tag_name t)
      else Inr ())"

definition tag_storable :: "tag_spec \<Rightarrow> db \<Rightarrow> unit res" where
  "tag_storable t s =
     (if \<not> (int64 (tag_address t) \<and> opt_int64 (tag_device_id t) \<and> opt_int64 (tag_unit_id t) \<and>
            opt_int64 (tag_word_count t) \<and> opt_int64 (tag_id t)) then overflow
      else if (case tag_id t of None \<Rightarrow> False | Some i \<Rightarrow> dget (db_tags s) i = None) then Inr ()
      else if fl_is_nan (tag_scale t) then integrity ''NOT NULL constraint failed: tags.scale''
      else if fl_is_nan (tag_offset t) then integrity ''NOT NULL constraint failed: tags.offset''
      else Inr ())"

definition write_tag :: "tag_spec \<Rightarrow> db \<Rightarrow> int \<times> db" where
  "write_tag t s = (case tag_id t of
     None \<Rightarrow> (let i = db_next_tag s in
       (i, s\<lparr>db_tags := db_tags s @ [(i, t\<lparr>tag_id := Some i\<rparr>)], db_next_tag := i + 1\<rparr>))
   | Some i \<Rightarrow> (i, if dget (db_tags s) i = None then s else s\<lparr>db_tags := dset i t (db_tags s)\<rparr>))"

definition save_tag :: "tag_spec \<Rightarrow> db \<Rightarrow> (int \<times> db) res" where
  "save_tag t s =
     rbind (driver_type_for_device (tag_device_id t) s) (\<lambda>driver.
     rbind (validate_tag driver t) (\<lambda>_.
     rbind (validate_unique_tag_name t s) (\<lambda>_.
     rbind (tag_storable t s) (\<lambda>_. Inr (write_tag t s)))))"

definition list_tags :: "int \<Rightarrow> db \<Rightarrow> tag_spec list" where
  "list_tags i s = sort_key (\<lambda>t. (tag_group t, tag_name t))
     (filter (\<lambda>t. tag_device_id t = Some i) (dvalues (db_tags s)))"

definition delete_tag :: "int \<Rightarrow> db \<Rightarrow> db res" where
  "delete_tag i s = (if \<not> int64 i then overflow else Inr (s\<lparr>db_tags := ddel i (db_tags s)\<rparr>))"

section \<open>Output configuration\<close>

definition save_mqtt_config :: "mqtt_config \<Rightarrow> db \<Rightarrow> db res" where
  "save_mqtt_config m s =
     (if \<not> int64 (mq_port m) \<or> \<not> int64 (mq_qos m) then overflow else Inr (s\<lparr>db_mqtt := Some m\<rparr>))"

definition get_mqtt_config :: "db \<Rightarrow> mqtt_config" where
  "get_mqtt_config s = (case db_mqtt s of None \<Rightarrow> default_mqtt_config | Some m \<Rightarrow> m)"

definition save_sink_config :: "sink_config \<Rightarrow> db \<Rightarrow> db" where
  "save_sink_config k s =
     s\<lparr>db_sinks := dset (sk_sink_type k) (sk_enabled k, sk_config k) (db_sinks s),
       db_selected := Some (sk_sink_type k)\<rparr>"

definition get_selected_sink_type :: "db \<Rightarrow> string" where
  "get_selected_sink_type s = (case db_selected s of None \<Rightarrow> ''mqtt'' | Some t \<Rightarrow> t)"

definition mqtt_sink_settings :: "mqtt_config \<Rightarrow> settings" where
  "mqtt_sink_settings m =
     [(''host'', VStr (mq_host m)), (''port'', VInt (mq_port m)), (''base_topic'', VStr (mq_base_topic m)),
      (''username'', str_val (mq_username m)), (''password'', str_val (mq_password m)),
      (''client_id'', VStr (mq_client_id m)), (''qos'', VInt (mq_qos m))]"

definition get_sink_config :: "string option \<Rightarrow> db \<Rightarrow> sink_config" where
  "get_sink_config sink_type s =
     (let requested = (case sink_type of Some (c # r) \<Rightarrow> c # r | _ \<Rightarrow> get_selected_sink_type s) in
      case dget (db_sinks s) requested of
        Some (enabled, config) \<Rightarrow> \<lparr>sk_sink_type = requested, sk_enabled = enabled, sk_config = config\<rparr>
      | None \<Rightarrow>
          if requested \<noteq> ''mqtt'' then \<lparr>sk_sink_type = requested, sk_enabled = False, sk_config = []\<rparr>
          else let m = get_mqtt_config s in
            \<lparr>sk_sink_type = ''mqtt'', sk_enabled = mq_enabled m, sk_config = mqtt_sink_settings m\<rparr>)"

definition list_sink_configs :: "db \<Rightarrow> sink_config list" where
  "list_sink_configs s = sort_key sk_sink_type
     (map (\<lambda>(t, e, c). \<lparr>sk_sink_type = t, sk_enabled = e, sk_config = c\<rparr>) (db_sinks s))"

definition device_exists :: "int option \<Rightarrow> db \<Rightarrow> bool" where
  "device_exists i s = (case i of None \<Rightarrow> True | Some j \<Rightarrow> dget (db_devices s) j \<noteq> None)"

definition save_output_route :: "output_route_config \<Rightarrow> db \<Rightarrow> (int \<times> db) res" where
  "save_output_route r s =
     (if \<not> opt_int64 (rt_device_id r) \<or> \<not> opt_int64 (rt_id r) then overflow
      else (case rt_id r of
          None \<Rightarrow>
            if \<not> device_exists (rt_device_id r) s then integrity ''FOREIGN KEY constraint failed''
            else let i = db_next_route s in
              Inr (i, s\<lparr>db_routes := db_routes s @ [(i, r\<lparr>rt_id := Some i\<rparr>)], db_next_route := i + 1\<rparr>)
        | Some i \<Rightarrow>
            if dget (db_routes s) i = None then Inr (i, s)
            else if \<not> device_exists (rt_device_id r) s then integrity ''FOREIGN KEY constraint failed''
            else Inr (i, s\<lparr>db_routes := dset i r (db_routes s)\<rparr>)))"

definition list_output_routes :: "db \<Rightarrow> output_route_config list" where
  "list_output_routes s =
     sort_key (\<lambda>r. (sql_int (rt_device_id r), rt_tag_group r, rt_sink_type r)) (dvalues (db_routes s))"

definition delete_output_route :: "int \<Rightarrow> db \<Rightarrow> db res" where
  "delete_output_route i s = (if \<not> int64 i then overflow else Inr (s\<lparr>db_routes := ddel i (db_routes s)\<rparr>))"

end
