(* ===== verification/Config_Schema.thy ===== *)
theory Config_Schema
  imports Models
begin

text \<open>
  \<^verbatim>\<open>src/industrial_gateway/config_schema.py\<close>: the fields of a connection per driver and of the settings per
  output plugin with their defaults, normalisation of a settings object against them, the tag functions
  and data types a driver offers, and the schema documents the web client asks for.
\<close>

section \<open>Fields\<close>

record connection_field =
  cf_key :: string
  cf_label :: string
  cf_kind :: string
  cf_default :: pyval
  cf_choices :: "string list"
  cf_minimum :: "int option"
  cf_maximum :: "int option"

record plugin_field =
  pf_key :: string
  pf_label :: string
  pf_kind :: string
  pf_default :: pyval
  pf_minimum :: "int option"
  pf_maximum :: "int option"

definition connection_field ::
  "string \<Rightarrow> string \<Rightarrow> string \<Rightarrow> pyval \<Rightarrow> string list \<Rightarrow> int option \<Rightarrow> int option \<Rightarrow> connection_field" where
  "connection_field key label kind dflt choices minimum maximum = \<lparr>cf_key = key, cf_label = label,
     cf_kind = kind, cf_default = dflt, cf_choices = choices, cf_minimum = minimum, cf_maximum = maximum\<rparr>"

definition plugin_field ::
  "string \<Rightarrow> string \<Rightarrow> string \<Rightarrow> pyval \<Rightarrow> int option \<Rightarrow> int option \<Rightarrow> plugin_field" where
  "plugin_field key label kind dflt minimum maximum = \<lparr>pf_key = key, pf_label = label,
     pf_kind = kind, pf_default = dflt, pf_minimum = minimum, pf_maximum = maximum\<rparr>"

text \<open>A float literal without a fraction.\<close>

definition whole_float :: "nat \<Rightarrow> pyfloat" where
  "whole_float n = fl_ratio False n 1"

section \<open>The tables\<close>

definition common_modbus_limits :: "connection_field list" where
  "common_modbus_limits =
     [connection_field ''max_block_gap'' ''Max block gap'' ''int'' (VInt 4) [] (Some 0) (Some 1000),
      connection_field ''max_registers_per_read'' ''Max registers/read'' ''int'' (VInt 125) [] (Some 1) (Some 125),
      connection_field ''max_bits_per_read'' ''Max bits/read'' ''int'' (VInt 2000) [] (Some 1) (Some 2000)]"

definition serial_fields :: "connection_field list" where
  "serial_fields =
     [connection_field ''port'' ''Serial port'' ''text'' (VStr ''COM1'') [] None None,
      connection_field ''baudrate'' ''Baudrate'' ''int'' (VInt 9600) [] (Some 300) (Some 4000000),
      connection_field ''parity'' ''Parity'' ''choice'' (VStr ''N'') [''N'', ''E'', ''O''] None None,
      connection_field ''stopbits'' ''Stop bits'' ''int'' (VInt 1) [] (Some 1) (Some 2),
      connection_field ''bytesize'' ''Byte size'' ''int'' (VInt 8) [] (Some 5) (Some 8),
      connection_field ''timeout'' ''Timeout sec'' ''float'' (VFloat (whole_float 2)) [] None None]"

definition modbus_tcp_connection_fields :: "connection_field list" where
  "modbus_tcp_connection_fields =
     [connection_field ''host'' ''IP / Host'' ''text'' (VStr ''127.0.0.1'') [] None None,
      connection_field ''port'' ''Port'' ''int'' (VInt 502) [] (Some 1) (Some 65535)]
     @ common_modbus_limits"

definition modbus_serial_connection_fields :: "connection_field list" where
  "modbus_serial_connection_fields =
     serial_fields
     @ common_modbus_limits"

definition modbus_rtu_monitor_connection_fields :: "connection_field list" where
  "modbus_rtu_monitor_connection_fields =
     serial_fields
     @ [connection_field ''capture_wait_s'' ''Capture wait sec'' ''float'' (VFloat (whole_float 5)) [] (Some 1) (Some 60)]"

definition opcua_connection_fields :: "connection_field list" where
  "opcua_connection_fields =
     [connection_field ''endpoint'' ''Endpoint'' ''text'' (VStr ''opc.tcp://127.0.0.1:4840/freeopcua/server/'') [] None None,
      connection_field ''mode'' ''Mode'' ''choice'' (VStr ''polling'') [''polling'', ''subscription''] None None,
      connection_field ''subscription_interval_ms'' ''Subscription ms'' ''int'' (VInt 250) [] (Some 50) (Some 60000)]"

definition mqtt_connection_fields :: "connection_field list" where
  "mqtt_connection_fields =
     [connection_field ''host'' ''Broker host'' ''text'' (VStr ''localhost'') [] None None,
      connection_field ''port'' ''Broker port'' ''int'' (VInt 1883) [] (Some 1) (Some 65535),
      connection_field ''topic_filter'' ''Topic filter'' ''text'' (VStr ''curiot/+/data'') [] None None,
      connection_field ''client_id'' ''Client ID'' ''text'' (VStr ''industrial-gateway-input'') [] None None,
      connection_field ''username'' ''Username'' ''text'' (VStr '''') [] None None,
      connection_field ''password'' ''Password'' ''text'' (VStr '''') [] None None,
      connection_field ''qos'' ''QoS'' ''int'' (VInt 0) [] (Some 0) (Some 2),
      connection_field ''topic_mac_index'' ''Topic MAC index'' ''int'' (VInt 1) [] (Some 0) (Some 20),
      connection_field ''timestamp_field'' ''Timestamp field'' ''text'' (VStr ''Time'') [] None None,
      connection_field ''sensor_id_field'' ''Sensor ID field'' ''text'' (VStr ''sensor_id'') [] None None]"

definition connection_field_table :: "(string, connection_field list) pydict" where
  "connection_field_table =
     [(''modbus_tcp'', modbus_tcp_connection_fields),
      (''modbus_serial'', modbus_serial_connection_fields),
      (''modbus_rtu_monitor'', modbus_rtu_monitor_connection_fields),
      (''opcua'', opcua_connection_fields),
      (''mqtt'', mqtt_connection_fields)]"

definition mqtt_plugin_fields :: "plugin_field list" where
  "mqtt_plugin_fields =
     [plugin_field ''host'' ''Host'' ''text'' (VStr ''localhost'') None None,
      plugin_field ''port'' ''Port'' ''int'' (VInt 1883) (Some 1) (Some 65535),
      plugin_field ''base_topic'' ''Base topic'' ''text'' (VStr ''industrial'') None None,
      plugin_field ''username'' ''Username'' ''text'' (VStr '''') None None,
      plugin_field ''password'' ''Password'' ''password'' (VStr '''') None None,
      plugin_field ''client_id'' ''Client ID'' ''text'' (VStr ''industrial-gateway'') None None,
      plugin_field ''qos'' ''QoS'' ''int'' (VInt 0) (Some 0) (Some 2),
      plugin_field ''message_stale_timeout_s'' ''Message stale sec'' ''int'' (VInt 15) (Some 1) (Some 86400),
      plugin_field ''status_publish_interval_s'' ''Status publish sec'' ''int'' (VInt 60) (Some 1) (Some 86400),
      plugin_field ''topic_request_on_start'' ''Request route topics on start'' ''bool'' (VBool True) None None,
      plugin_field ''topic_refresh_interval_s'' ''Topic refresh sec'' ''int'' (VInt 300) (Some 0) (Some 86400)]"

definition postgresql_plugin_fields :: "plugin_field list" where
  "postgresql_plugin_fields =
     [plugin_field ''host'' ''Host'' ''text'' (VStr ''localhost'') None None,
      plugin_field ''port'' ''Port'' ''int'' (VInt 5432) (Some 1) (Some 65535),
      plugin_field ''database'' ''Database'' ''text'' (VStr ''gateway'') None None,
      plugin_field ''username'' ''Username'' ''text'' (VStr ''postgres'') None None,
      plugin_field ''password'' ''Password'' ''password'' (VStr '''') None None,
      plugin_field ''table'' ''Table'' ''text'' (VStr ''gateway_tag_values'') None None,
      plugin_field ''auto_create'' ''Auto create table'' ''bool'' (VBool True) None None]"

definition plugin_field_table :: "(string, plugin_field list) pydict" where
  "plugin_field_table =
     [(''mqtt'', mqtt_plugin_fields),
      (''postgresql'', postgresql_plugin_fields)]"

section \<open>Normalisation\<close>

text \<open>\<open>k in v\<close> and \<open>v[k]\<close> for a text \<open>k\<close>, whatever \<open>v\<close> is.\<close>

fun py_contains :: "string \<Rightarrow> pyval \<Rightarrow> bool res" where
  "py_contains k (VDict d) = Inr (dget d k \<noteq> None)"
| "py_contains k (VList xs) = Inr (VStr k \<in> set xs)"
| "py_contains k (VStr s) = Inr (k = [] \<or> after_sub k s \<noteq> None)"
| "py_contains k v = Inl (Raise TypeError (''argument of type '' @ quoted (type_name v) @ '' is not iterable''))"

fun py_getitem :: "string \<Rightarrow> pyval \<Rightarrow> pyval res" where
  "py_getitem k (VDict d) = (case dget d k of Some v \<Rightarrow> Inr v | None \<Rightarrow> Inl (Raise KeyError (quoted k)))"
| "py_getitem k (VList xs) = Inl (Raise TypeError ''list indices must be integers or slices, not str'')"
| "py_getitem k (VStr s) = Inl (Raise TypeError (''string indices must be integers, not '' @ quoted ''str''))"
| "py_getitem k v = Inl (Raise TypeError (quoted (type_name v) @ '' object is not subscriptable''))"

text \<open>Defaults first, then for each field the value that \<open>existing\<close> holds under its key.\<close>

fun overwrite_fields :: "string list \<Rightarrow> pyval \<Rightarrow> settings \<Rightarrow> settings res" where
  "overwrite_fields [] existing values = Inr values"
| "overwrite_fields (k # ks) existing values =
     rbind (py_contains k existing) (\<lambda>present.
       if present then rbind (py_getitem k existing) (\<lambda>v. overwrite_fields ks existing (dset k v values))
       else overwrite_fields ks existing values)"

definition connection_fields_for_driver :: "string \<Rightarrow> connection_field list" where
  "connection_fields_for_driver driver_type =
     (case dget connection_field_table driver_type of None \<Rightarrow> [] | Some fs \<Rightarrow> fs)"

definition default_connection_for_driver :: "string \<Rightarrow> settings" where
  "default_connection_for_driver driver_type =
     dupdate [] (map (\<lambda>f. (cf_key f, cf_default f)) (connection_fields_for_driver driver_type))"

definition normalize_connection_for_driver :: "string \<Rightarrow> pyval \<Rightarrow> settings res" where
  "normalize_connection_for_driver driver_type existing =
     (if truthy existing
      then overwrite_fields (map cf_key (connection_fields_for_driver driver_type)) existing
             (default_connection_for_driver driver_type)
      else Inr (default_connection_for_driver driver_type))"

definition plugin_fields :: "string \<Rightarrow> plugin_field list" where
  "plugin_fields plugin_type = (case dget plugin_field_table plugin_type of None \<Rightarrow> [] | Some fs \<Rightarrow> fs)"

definition default_plugin_config :: "string \<Rightarrow> settings" where
  "default_plugin_config plugin_type =
     dupdate [] (map (\<lambda>f. (pf_key f, pf_default f)) (plugin_fields plugin_type))"

definition normalize_plugin_config :: "string \<Rightarrow> pyval \<Rightarrow> settings res" where
  "normalize_plugin_config plugin_type existing =
     (if truthy existing
      then overwrite_fields (map pf_key (plugin_fields plugin_type)) existing (default_plugin_config plugin_type)
      else Inr (default_plugin_config plugin_type))"

section \<open>Choices and schema documents\<close>

definition tag_function_choices_for_driver :: "string \<Rightarrow> string list" where
  "tag_function_choices_for_driver driver_type =
     (if driver_type = ''opcua'' then [''opcua_node'']
      else if driver_type = ''mqtt'' then [''json_field'']
      else [''holding_register'', ''input_register'', ''coil'', ''discrete_input''])"

definition tag_type_choices_for_driver :: "string \<Rightarrow> string list" where
  "tag_type_choices_for_driver driver_type =
     (if driver_type \<in> {''opcua'', ''mqtt''}
      then [''auto'', ''bool'', ''int16'', ''uint16'', ''int32'', ''uint32'', ''float32'', ''float64'', ''string'']
      else [''bool'', ''int16'', ''uint16'', ''int32'', ''uint32'', ''float32'', ''float64'', ''string''])"

text \<open>The profile is the environment variable \<open>INDUSTRIAL_GATEWAY_PLUGIN_PROFILE\<close>, if it is set.\<close>

definition plugin_profile :: "string option \<Rightarrow> string" where
  "plugin_profile env = py_lower (py_strip (case env of None \<Rightarrow> ''core'' | Some v \<Rightarrow> v))"

definition enabled_plugin_types :: "string option \<Rightarrow> string list" where
  "enabled_plugin_types env =
     ''mqtt'' # (if plugin_profile env \<in> {''postgres'', ''db'', ''full''} then [''postgresql''] else [])"

definition connection_field_to_dict :: "connection_field \<Rightarrow> pyval" where
  "connection_field_to_dict f = VDict
     [(''key'', VStr (cf_key f)), (''label'', VStr (cf_label f)), (''kind'', VStr (cf_kind f)),
      (''default'', cf_default f), (''choices'', VList (map VStr (cf_choices f))),
      (''minimum'', int_val (cf_minimum f)), (''maximum'', int_val (cf_maximum f))]"

definition plugin_field_to_dict :: "plugin_field \<Rightarrow> pyval" where
  "plugin_field_to_dict f = VDict
     [(''key'', VStr (pf_key f)), (''label'', VStr (pf_label f)), (''kind'', VStr (pf_kind f)),
      (''default'', pf_default f), (''minimum'', int_val (pf_minimum f)), (''maximum'', int_val (pf_maximum f))]"

definition driver_schema :: settings where
  "driver_schema = map (\<lambda>(driver_type, fs). (driver_type, VDict
     [(''connection_fields'', VList (map connection_field_to_dict fs)),
      (''tag_functions'', VList (map VStr (tag_function_choices_for_driver driver_type))),
      (''tag_types'', VList (map VStr (tag_type_choices_for_driver driver_type)))])) connection_field_table"

definition plugin_schema :: "string option \<Rightarrow> settings" where
  "plugin_schema env = map (\<lambda>(plugin_type, fs). (plugin_type, VDict
     [(''fields'', VList (map plugin_field_to_dict fs))]))
     (filter (\<lambda>(plugin_type, _). plugin_type \<in> set (enabled_plugin_types env)) plugin_field_table)"

section \<open>What normalisation promises\<close>

lemmas connection_tables = connection_field_table_def modbus_tcp_connection_fields_def
  modbus_serial_connection_fields_def modbus_rtu_monitor_connection_fields_def opcua_connection_fields_def
  mqtt_connection_fields_def serial_fields_def common_modbus_limits_def connection_field_def

lemmas plugin_tables = plugin_field_table_def mqtt_plugin_fields_def postgresql_plugin_fields_def plugin_field_def

lemma distinct_connection_keys: "distinct (map cf_key (connection_fields_for_driver dt))"
  by (simp add: connection_fields_for_driver_def connection_tables)

lemma distinct_plugin_keys: "distinct (map pf_key (plugin_fields pt))"
  by (simp add: plugin_fields_def plugin_tables)

lemma default_connection: "default_connection_for_driver dt =
    map (\<lambda>f. (cf_key f, cf_default f)) (connection_fields_for_driver dt)"
  using dupdate_append_fresh [of "[]" "map (\<lambda>f. (cf_key f, cf_default f)) (connection_fields_for_driver dt)"]
    distinct_connection_keys [of dt] by (simp add: default_connection_for_driver_def comp_def)

lemma default_plugin: "default_plugin_config pt = map (\<lambda>f. (pf_key f, pf_default f)) (plugin_fields pt)"
  using dupdate_append_fresh [of "[]" "map (\<lambda>f. (pf_key f, pf_default f)) (plugin_fields pt)"]
    distinct_plugin_keys [of pt] by (simp add: default_plugin_config_def comp_def)

lemma dset_in_middle:
  "k \<notin> fst ` set pre \<Longrightarrow> dset k v (pre @ (k, w) # post) = pre @ (k, v) # post"
  by (induction pre) auto

text \<open>On a dictionary the result holds, for each field in order, the dictionary's value or the default.\<close>

lemma overwrite_fields_dict:
  "distinct (map fst (pre @ fs)) \<Longrightarrow>
   overwrite_fields (map fst fs) (VDict d) (pre @ fs) = Inr (pre @ map (\<lambda>(k, v). (k, get_or d k v)) fs)"
proof (induction fs arbitrary: pre)
  case (Cons f fs)
  obtain k v where f: "f = (k, v)" by (cases f)
  have "k \<notin> fst ` set pre" using Cons.prems f by auto
  then have e: "dset k w (pre @ f # fs) = (pre @ [(k, w)]) @ fs" for w using f by (simp add: dset_in_middle)
  show ?case
  proof (cases "dget d k")
    case None
    then show ?thesis using Cons.IH [of "pre @ [f]"] Cons.prems f by (simp add: get_or_def)
  next
    case (Some w)
    then show ?thesis using Cons.IH [of "pre @ [(k, w)]"] Cons.prems f e [of w] by (simp add: get_or_def)
  qed
qed simp

lemma normalize_connection_dict:
  "normalize_connection_for_driver dt (VDict d) =
     Inr (map (\<lambda>f. (cf_key f, get_or d (cf_key f) (cf_default f))) (connection_fields_for_driver dt))"
proof -
  let ?fs = "map (\<lambda>f. (cf_key f, cf_default f)) (connection_fields_for_driver dt)"
  have "map cf_key (connection_fields_for_driver dt) = map fst ?fs" by simp
  moreover have "overwrite_fields (map fst ?fs) (VDict d) ?fs = Inr (map (\<lambda>(k, v). (k, get_or d k v)) ?fs)"
    using overwrite_fields_dict [of "[]" ?fs d] distinct_connection_keys [of dt] by (simp add: comp_def)
  ultimately have "overwrite_fields (map cf_key (connection_fields_for_driver dt)) (VDict d) ?fs =
      Inr (map (\<lambda>f. (cf_key f, get_or d (cf_key f) (cf_default f))) (connection_fields_for_driver dt))"
    by (simp add: comp_def)
  then show ?thesis
    by (simp add: normalize_connection_for_driver_def default_connection get_or_def)
qed

lemma normalize_plugin_dict:
  "normalize_plugin_config pt (VDict d) =
     Inr (map (\<lambda>f. (pf_key f, get_or d (pf_key f) (pf_default f))) (plugin_fields pt))"
proof -
  let ?fs = "map (\<lambda>f. (pf_key f, pf_default f)) (plugin_fields pt)"
  have "map pf_key (plugin_fields pt) = map fst ?fs" by simp
  moreover have "overwrite_fields (map fst ?fs) (VDict d) ?fs = Inr (map (\<lambda>(k, v). (k, get_or d k v)) ?fs)"
    using overwrite_fields_dict [of "[]" ?fs d] distinct_plugin_keys [of pt] by (simp add: comp_def)
  ultimately have "overwrite_fields (map pf_key (plugin_fields pt)) (VDict d) ?fs =
      Inr (map (\<lambda>f. (pf_key f, get_or d (pf_key f) (pf_default f))) (plugin_fields pt))"
    by (simp add: comp_def)
  then show ?thesis by (simp add: normalize_plugin_config_def default_plugin get_or_def)
qed

end
