(* ===== verification/Py_Repr.thy ===== *)
theory Py_Repr
  imports Py_Value
begin

text \<open>
  The text forms \<open>repr(x)\<close> and \<open>str(x)\<close> of dynamically typed values. A float is printed with the fewest
  digits that read back as the same number, the nearest such number where there are two, in fixed notation for
  decimal exponents from -4 to 16. In the representation of a string the quotes, the backslash and the ASCII
  control characters are escaped; characters outside ASCII are taken to be printable.
\<close>

section \<open>Floats\<close>

definition fl_num :: "nat \<Rightarrow> int \<Rightarrow> nat" where "fl_num m e = m * 2 ^ nat e"
definition fl_den :: "int \<Rightarrow> nat" where "fl_den e = 2 ^ nat (- e)"

text \<open>The \<open>k\<close> with \<open>10^(k-1) \<le> p/q < 10^k\<close>.\<close>

definition decimal_point :: "nat \<Rightarrow> nat \<Rightarrow> int" where
  "decimal_point p q = (if q \<le> p then int (length (show_nat (p div q)))
     else 1 - int (length (show_nat ((q - 1) div p))))"

text \<open>The integers next to \<open>p/q * 10^(-x)\<close>, the nearest first.\<close>

definition neighbours :: "nat \<Rightarrow> nat \<Rightarrow> int \<Rightarrow> nat list" where
  "neighbours p q x =
     (let a = p * 10 ^ nat (- x); b = q * 10 ^ nat x; lo = a div b; r = a mod b in
      if r = 0 then [lo]
      else if 2 * r < b \<or> (2 * r = b \<and> even lo) then [lo, lo + 1] else [lo + 1, lo])"

fun find_digits :: "bool \<Rightarrow> nat \<Rightarrow> int \<Rightarrow> int \<Rightarrow> nat list \<Rightarrow> (nat \<times> int) option" where
  "find_digits s m e k [] = None"
| "find_digits s m e k (n # ns) =
     (let x = k - int n in
      case filter (\<lambda>d. fl_decimal s d x = FFin s m e) (neighbours (fl_num m e) (fl_den e) x) of
        [] \<Rightarrow> find_digits s m e k ns
      | d # _ \<Rightarrow> Some (d, x))"

definition shortest_digits :: "bool \<Rightarrow> nat \<Rightarrow> int \<Rightarrow> nat \<times> int" where
  "shortest_digits s m e =
     (let k = decimal_point (fl_num m e) (fl_den e) in
      case find_digits s m e k [1..<18] of
        Some dx \<Rightarrow> dx
      | None \<Rightarrow> (hd (neighbours (fl_num m e) (fl_den e) (k - 17)), k - 17))"

definition zeros :: "nat \<Rightarrow> string" where
  "zeros n = replicate n (CHR ''0'')"

definition show_exponent :: "int \<Rightarrow> string" where
  "show_exponent x = (if x < 0 then ''-'' else ''+'') @ pad_nat 2 (nat \<bar>x\<bar>)"

definition format_digits :: "string \<Rightarrow> int \<Rightarrow> string" where
  "format_digits ds point =
     (if -4 < point \<and> point \<le> 16 then
        if point \<le> 0 then ''0.'' @ zeros (nat (- point)) @ ds
        else if int (length ds) \<le> point then ds @ zeros (nat point - length ds) @ ''.0''
        else take (nat point) ds @ ''.'' @ drop (nat point) ds
      else take 1 ds @ (if length ds = 1 then [] else ''.'' @ drop 1 ds) @ ''e'' @ show_exponent (point - 1))"

fun show_float :: "pyfloat \<Rightarrow> string" where
  "show_float FNan = ''nan''"
| "show_float (FInf s) = (if s then ''-inf'' else ''inf'')"
| "show_float (FFin s m e) = (if s then ''-'' else []) @
     (if m = 0 then ''0.0''
      else let (d, x) = shortest_digits s m e; ds = show_nat d
           in format_digits (rstrip_if (\<lambda>c. c = CHR ''0'') ds) (int (length ds) + x))"

section \<open>Strings and values\<close>

definition hex_digit :: "nat \<Rightarrow> char" where
  "hex_digit n = (if n < 10 then digit_char n else char_of (87 + n))"

definition repr_char :: "char \<Rightarrow> char \<Rightarrow> string" where
  "repr_char quote c =
     (let n = of_char c :: nat; backslash = char_of (92 :: nat) in
      if c = quote \<or> n = 92 then [backslash, c]
      else if n = 10 then [backslash, CHR ''n'']
      else if n = 13 then [backslash, CHR ''r'']
      else if n = 9 then [backslash, CHR ''t'']
      else if n < 32 \<or> n = 127 then [backslash, CHR ''x'', hex_digit (n div 16), hex_digit (n mod 16)]
      else [c])"

definition repr_str :: "string \<Rightarrow> string" where
  "repr_str s =
     (let single = char_of (39 :: nat); double = char_of (34 :: nat);
          quote = (if single \<in> set s \<and> double \<notin> set s then double else single)
      in [quote] @ concat (map (repr_char quote) s) @ [quote])"

fun py_repr :: "pyval \<Rightarrow> string" where
  "py_repr VNone = ''None''"
| "py_repr (VBool b) = (if b then ''True'' else ''False'')"
| "py_repr (VInt i) = show_int i"
| "py_repr (VFloat x) = show_float x"
| "py_repr (VStr s) = repr_str s"
| "py_repr (VList xs) = ''['' @ py_join '', '' (map py_repr xs) @ '']''"
| "py_repr (VDict d) = ''{'' @ py_join '', '' (map (\<lambda>p. repr_str (fst p) @ '': '' @ py_repr (snd p)) d) @ ''}''"

fun py_str :: "pyval \<Rightarrow> string" where
  "py_str (VStr s) = s"
| "py_str v = py_repr v"

end
