(* ===== verification/Config_Service.thy ===== *)
theory Config_Service
  imports Store Config_Schema Py_Repr
begin

text \<open>
  \<^verbatim>\<open>src/industrial_gateway/services/config_service.py\<close>: the operations of the web client on devices, tags,
  output plugins and output routes (\<open>ConfigService\<close>), the translation between JSON payloads and the records of
  the store, and the resolution of route topics. An operation is a function on the database that
  returns its result or exception together with the database it leaves (\<open>svc\<close>): what was saved before an
  exception stays saved. The topic resolver is a parameter: the text of its exception or its answer.

  A tag payload whose function, data type or node id is a truthy value that is no text is outside the model
  (\<open>text_item\<close> raises). The remaining fields are converted as the source converts them.
\<close>

section \<open>Operations on the store\<close>

type_synonym 'a svc = "db \<Rightarrow> 'a res \<times> db"

definition sret :: "'a \<Rightarrow> 'a svc" where
  "sret x s = (Inr x, s)"

definition sfrom :: "'a res \<Rightarrow> 'a svc" where
  "sfrom r s = (r, s)"

definition sread :: "(db \<Rightarrow> 'a) \<Rightarrow> 'a svc" where
  "sread f s = (Inr (f s), s)"

definition swrite :: "(db \<Rightarrow> ('a \<times> db) res) \<Rightarrow> 'a svc" where
  "swrite f s = (case f s of Inl e \<Rightarrow> (Inl e, s) | Inr (x, s') \<Rightarrow> (Inr x, s'))"

definition sbind :: "'a svc \<Rightarrow> ('a \<Rightarrow> 'b svc) \<Rightarrow> 'b svc" where
  "sbind m f s = (case m s of (Inl e, s') \<Rightarrow> (Inl e, s') | (Inr x, s') \<Rightarrow> f x s')"

definition sdo :: "(db \<Rightarrow> db res) \<Rightarrow> unit svc" where
  "sdo f = swrite (\<lambda>s. rbind (f s) (\<lambda>s'. Inr ((), s')))"

fun smap :: "('a \<Rightarrow> 'b svc) \<Rightarrow> 'a list \<Rightarrow> 'b list svc" where
  "smap f [] = sret []"
| "smap f (x # xs) = sbind (f x) (\<lambda>y. sbind (smap f xs) (\<lambda>ys. sret (y # ys)))"

definition key_error :: "string \<Rightarrow> 'a res" where
  "key_error m = Inl (Raise KeyError (quoted m))"

section \<open>Payloads\<close>

definition item_req :: "settings \<Rightarrow> string \<Rightarrow> pyval res" where
  "item_req p k = (case dget p k of Some v \<Rightarrow> Inr v | None \<Rightarrow> key_error k)"

definition blank :: "pyval \<Rightarrow> bool" where
  "blank v \<longleftrightarrow> v = VNone \<or> v = VStr []"

definition optional_int :: "pyval \<Rightarrow> int option res" where
  "optional_int v = (if blank v then Inr None else rbind (py_int v) (\<lambda>i. Inr (Some i)))"

fun text_item :: "pyval \<Rightarrow> string res" where
  "text_item (VStr s) = Inr s"
| "text_item v = Inl (Raise TypeError (''text expected, not '' @ quoted (type_name v)))"

definition optional_text :: "pyval \<Rightarrow> string option res" where
  "optional_text v = (if truthy v then rbind (text_item v) (\<lambda>s. Inr (Some s)) else Inr None)"

definition device_from_payload :: "int option \<Rightarrow> settings \<Rightarrow> device_spec res" where
  "device_from_payload device_id p =
     rbind (item_req p ''driver_type'') (\<lambda>driver.
     rbind (item_req p ''name'') (\<lambda>name.
     rbind (py_int (get_or p ''poll_interval_ms'' (VInt 1000))) (\<lambda>interval.
     rbind (normalize_connection_for_driver (py_str driver) (or_val (item_get p ''connection'') (VDict []))) (\<lambda>conn.
       Inr \<lparr>dev_id = device_id, dev_name = py_str name, dev_driver_type = py_str driver,
         dev_enabled = truthy (get_or p ''enabled'' (VBool True)), dev_poll_interval_ms = interval,
         dev_group = py_str (get_or p ''device_group'' (VStr [])), dev_connection = conn\<rparr>))))"

definition tag_from_payload :: "int option \<Rightarrow> int \<Rightarrow> settings \<Rightarrow> tag_spec res" where
  "tag_from_payload i device_id p =
     rbind (optional_int (get_or p ''count'' (item_get p ''word_count''))) (\<lambda>count.
     rbind (optional_int (item_get p ''unit_id'')) (\<lambda>unit.
     rbind (item_req p ''name'') (\<lambda>name.
     rbind (py_int (get_or p ''address'' (VInt 0))) (\<lambda>address.
     rbind (rbind (item_req p ''function'') text_item) (\<lambda>fn.
     rbind (rbind (item_req p ''data_type'') text_item) (\<lambda>dtype.
     rbind (py_float (get_or p ''scale'' (VFloat fl_one))) (\<lambda>scale.
     rbind (py_float (get_or p ''offset'' (VFloat fl_zero))) (\<lambda>offset.
     rbind (optional_text (item_get p ''node_id'')) (\<lambda>node.
       Inr \<lparr>tag_name = py_str name, tag_address = address, tag_function = fn, tag_data_type = dtype,
         tag_group = py_str (get_or p ''tag_group'' (VStr [])), tag_id = i, tag_device_id = Some device_id,
         tag_scale = scale, tag_offset = offset, tag_enabled = truthy (get_or p ''enabled'' (VBool True)),
         tag_unit_id = unit, tag_word_count = count,
         tag_byte_order = py_str (get_or p ''byte_order'' (VStr ''big'')),
         tag_word_order = py_str (get_or p ''word_order'' (VStr ''big'')), tag_node_id = node\<rparr>)))))))))"

definition device_to_dict :: "device_spec \<Rightarrow> settings" where
  "device_to_dict d =
     [(''id'', int_val (dev_id d)), (''device_group'', VStr (dev_group d)), (''name'', VStr (dev_name d)),
      (''driver_type'', VStr (dev_driver_type d)), (''enabled'', VBool (dev_enabled d)),
      (''poll_interval_ms'', VInt (dev_poll_interval_ms d)), (''connection'', VDict (dev_connection d))]"

definition tag_to_dict :: "tag_spec \<Rightarrow> settings" where
  "tag_to_dict t =
     [(''id'', int_val (tag_id t)), (''device_id'', int_val (tag_device_id t)), (''tag_group'', VStr (tag_group t)),
      (''name'', VStr (tag_name t)), (''address'', VInt (tag_address t)), (''function'', VStr (tag_function t)),
      (''data_type'', VStr (tag_data_type t)), (''scale'', VFloat (tag_scale t)), (''offset'', VFloat (tag_offset t)),
      (''enabled'', VBool (tag_enabled t)), (''unit_id'', int_val (tag_unit_id t)),
      (''count'', int_val (tag_word_count t)), (''word_count'', int_val (tag_word_count t)),
      (''byte_order'', VStr (tag_byte_order t)), (''word_order'', VStr (tag_word_order t)),
      (''node_id'', str_val (tag_node_id t))]"

definition sink_to_dict :: "sink_config \<Rightarrow> bool \<Rightarrow> settings" where
  "sink_to_dict k selected =
     [(''sink_type'', VStr (sk_sink_type k)), (''enabled'', VBool (sk_enabled k)),
      (''config'', VDict (sk_config k)), (''selected'', VBool selected)]"

section \<open>Devices\<close>

definition id_or_zero :: "device_spec \<Rightarrow> int" where
  "id_or_zero d = (case dev_id d of None \<Rightarrow> 0 | Some i \<Rightarrow> i)"

definition cfg_list_devices :: "settings list svc" where
  "cfg_list_devices = sread (\<lambda>s. map device_to_dict (list_devices s))"

definition cfg_get_device :: "int \<Rightarrow> settings svc" where
  "cfg_get_device i s =
     (case filter (\<lambda>d. dev_id d = Some i) (list_devices s) of
        d # _ \<Rightarrow> (Inr (device_to_dict d), s)
      | [] \<Rightarrow> (key_error (''device not found: '' @ show_int i), s))"

definition cfg_create_device :: "settings \<Rightarrow> settings svc" where
  "cfg_create_device p =
     sbind (sfrom (device_from_payload None p)) (\<lambda>d.
     sbind (swrite (save_device d)) cfg_get_device)"

definition cfg_update_device :: "int \<Rightarrow> settings \<Rightarrow> settings svc" where
  "cfg_update_device i p =
     sbind (cfg_get_device i) (\<lambda>_.
     sbind (sfrom (device_from_payload (Some i) p)) (\<lambda>d.
     sbind (swrite (save_device d)) (\<lambda>_. cfg_get_device i)))"

definition cfg_delete_device :: "int \<Rightarrow> unit svc" where
  "cfg_delete_device i = sbind (cfg_get_device i) (\<lambda>_. sdo (delete_device i))"

section \<open>Tags\<close>

definition cfg_list_tags :: "int \<Rightarrow> settings list svc" where
  "cfg_list_tags i = sbind (cfg_get_device i) (\<lambda>_. sread (\<lambda>s. map tag_to_dict (list_tags i s)))"

definition all_tags :: "db \<Rightarrow> tag_spec list" where
  "all_tags s = concat (map (\<lambda>d. list_tags (id_or_zero d) s) (list_devices s))"

definition cfg_list_all_tags :: "settings list svc" where
  "cfg_list_all_tags = sread (\<lambda>s. concat (map (\<lambda>d. map (\<lambda>t.
     dupdate (tag_to_dict t) [(''device_group'', VStr (dev_group d)), (''device_name'', VStr (dev_name d)),
       (''source_device_id'', int_val (dev_id d))]) (list_tags (id_or_zero d) s)) (list_devices s)))"

definition cfg_get_tag :: "int \<Rightarrow> settings svc" where
  "cfg_get_tag i s =
     (case filter (\<lambda>t. tag_id t = Some i) (all_tags s) of
        t # _ \<Rightarrow> (Inr (tag_to_dict t), s)
      | [] \<Rightarrow> (key_error (''tag not found: '' @ show_int i), s))"

definition cfg_create_tag :: "int \<Rightarrow> settings \<Rightarrow> settings svc" where
  "cfg_create_tag device_id p =
     sbind (cfg_get_device device_id) (\<lambda>_.
     sbind (sfrom (tag_from_payload None device_id p)) (\<lambda>t.
     sbind (swrite (save_tag t)) cfg_get_tag))"

definition cfg_update_tag :: "int \<Rightarrow> settings \<Rightarrow> settings svc" where
  "cfg_update_tag i p =
     sbind (cfg_get_tag i) (\<lambda>existing.
     sbind (sfrom (py_int (or_val (item_get p ''device_id'') (item_get existing ''device_id'')))) (\<lambda>device_id.
     sbind (sfrom (tag_from_payload (Some i) device_id p)) (\<lambda>t.
     sbind (swrite (save_tag t)) (\<lambda>_. cfg_get_tag i))))"

definition cfg_delete_tag :: "int \<Rightarrow> unit svc" where
  "cfg_delete_tag i = sbind (cfg_get_tag i) (\<lambda>_. sdo (delete_tag i))"

section \<open>Output plugins\<close>

definition plugin_configs :: "db \<Rightarrow> (string, sink_config) pydict" where
  "plugin_configs s =
     (let configs = dupdate [] (map (\<lambda>k. (sk_sink_type k, k)) (list_sink_configs s));
          selected = get_selected_sink_type s
      in if dget configs selected = None then dset selected (get_sink_config (Some selected) s) configs else configs)"

definition cfg_list_sink_configs :: "settings list svc" where
  "cfg_list_sink_configs = sread (\<lambda>s.
     map (\<lambda>k. sink_to_dict k (sk_sink_type k = get_selected_sink_type s)) (dvalues (plugin_configs s)))"

definition sink_dict :: "string \<Rightarrow> db \<Rightarrow> settings" where
  "sink_dict sink_type s = sink_to_dict (get_sink_config (Some sink_type) s) (sink_type = get_selected_sink_type s)"

definition cfg_get_sink_config :: "string \<Rightarrow> settings svc" where
  "cfg_get_sink_config sink_type = sread (sink_dict sink_type)"

definition cfg_get_selected_sink_config :: "settings svc" where
  "cfg_get_selected_sink_config = sread (\<lambda>s. sink_dict (get_selected_sink_type s) s)"

definition cfg_save_sink_config :: "settings \<Rightarrow> settings svc" where
  "cfg_save_sink_config p =
     sbind (sfrom (item_req p ''sink_type'')) (\<lambda>v. let sink_type = py_str v in
     sbind (sfrom (normalize_plugin_config sink_type (or_val (item_get p ''config'') (VDict [])))) (\<lambda>config.
     sbind (swrite (\<lambda>s. Inr ((), save_sink_config \<lparr>sk_sink_type = sink_type,
         sk_enabled = truthy (get_or p ''enabled'' (VBool True)), sk_config = config\<rparr> s))) (\<lambda>_.
     cfg_get_sink_config sink_type)))"

end
