(* ===== verification/Output_Routes.thy ===== *)
theory Output_Routes
  imports Config_Service
begin

text \<open>
  The output routes of \<^verbatim>\<open>src/industrial_gateway/services/config_service.py\<close>: the normal form of a route's
  settings (\<open>route_config\<close>), saving and listing routes, and resolving the topic of a route from the MAC
  address of its device. \<open>resolver\<close> stands for \<open>request_topic_by_mac\<close>: the text of the exception it raises or
  the answer it returns.
\<close>

section \<open>Settings of a route\<close>

definition csv_bool :: "pyval \<Rightarrow> bool \<Rightarrow> bool" where
  "csv_bool v dflt =
     (if blank v then dflt
      else py_lower (py_strip (py_str v)) \<in> {''1'', ''true'', ''yes'', ''y'', ''on''})"

text \<open>\<open>str(config.get(k) or payload.get(k) or d).strip()\<close>.\<close>

definition text_setting :: "settings \<Rightarrow> settings \<Rightarrow> string \<Rightarrow> string \<Rightarrow> string" where
  "text_setting config p k d = py_strip (py_str (or_val (or_val (item_get config k) (item_get p k)) (VStr d)))"

text \<open>\<open>config.get(k, payload.get(k))\<close>.\<close>

definition own_or_given :: "settings \<Rightarrow> settings \<Rightarrow> string \<Rightarrow> pyval" where
  "own_or_given config p k = get_or config k (item_get p k)"

definition text_entry :: "settings \<Rightarrow> settings \<Rightarrow> string \<Rightarrow> settings" where
  "text_entry config p k = (let v = text_setting config p k [] in if v = [] then [] else [(k, VStr v)])"

definition heartbeat_entry :: "settings \<Rightarrow> settings \<Rightarrow> settings res" where
  "heartbeat_entry config p =
     (let v = own_or_given config p ''heartbeat_interval_s'' in
      if blank v then Inr []
      else rbind (py_float v) (\<lambda>x. rbind (py_int (VFloat x)) (\<lambda>i. Inr [(''heartbeat_interval_s'', VInt (max 1 i))])))"

definition system_entries :: "settings \<Rightarrow> settings \<Rightarrow> settings res" where
  "system_entries config p =
     (if text_setting config p ''route_kind'' ''data'' = ''system_heartbeat''
      then let sensor = text_setting config p ''sensor_code'' ''SYSTEM'' in
        rbind (heartbeat_entry config p) (\<lambda>h.
          Inr ([(''route_kind'', VStr ''system_heartbeat''),
                (''sensor_code'', VStr (if sensor = [] then ''SYSTEM'' else sensor))] @ h))
      else Inr [])"

definition dynamic_setting :: "settings \<Rightarrow> settings \<Rightarrow> pyval" where
  "dynamic_setting config p =
     get_or config ''dynamic_topic_enabled'' (get_or config ''request_topic_by_mac''
       (get_or p ''dynamic_topic_enabled'' (item_get p ''request_topic_by_mac'')))"

definition count_entry :: "settings \<Rightarrow> settings \<Rightarrow> settings res" where
  "count_entry config p =
     (let v = own_or_given config p ''resolved_sensor_count'' in
      if blank v then Inr [] else rbind (py_int v) (\<lambda>i. Inr [(''resolved_sensor_count'', VInt i)]))"

definition settings_of :: "pyval \<Rightarrow> settings res" where
  "settings_of v = (case v of
     VDict d \<Rightarrow> Inr d
   | _ \<Rightarrow> Inl (Raise AttributeError (quoted (type_name v) @ '' object has no attribute '' @ quoted ''get'')))"

definition route_config :: "settings \<Rightarrow> settings res" where
  "route_config p =
     rbind (settings_of (or_val (item_get p ''config'') (VDict []))) (\<lambda>config.
     rbind (system_entries config p) (\<lambda>system.
     rbind (count_entry config p) (\<lambda>count.
       Inr (system @ text_entry config p ''topic'' @
            (if csv_bool (dynamic_setting config p) False then [(''dynamic_topic_enabled'', VBool True)] else []) @
            text_entry config p ''mac_address'' @ text_entry config p ''resolved_topic'' @ count @
            text_entry config p ''resolved_error'' @ text_entry config p ''resolved_at''))))"

definition route_to_dict :: "output_route_config \<Rightarrow> settings res" where
  "route_to_dict r =
     rbind (route_config [(''config'', VDict (rt_config r))]) (\<lambda>config.
       Inr [(''id'', int_val (rt_id r)), (''device_id'', int_val (rt_device_id r)),
            (''tag_group'', VStr (rt_tag_group r)), (''sink_type'', VStr (rt_sink_type r)),
            (''enabled'', VBool (rt_enabled r)), (''config'', VDict config),
            (''mac_address'', get_or config ''mac_address'' (VStr [])),
            (''resolved_topic'', get_or config ''resolved_topic'' (VStr [])),
            (''resolved_sensor_count'', get_or config ''resolved_sensor_count'' (VStr [])),
            (''resolved_error'', get_or config ''resolved_error'' (VStr [])),
            (''resolved_at'', get_or config ''resolved_at'' (VStr [])),
            (''route_kind'', get_or config ''route_kind'' (VStr ''data'')),
            (''heartbeat_interval_s'', get_or config ''heartbeat_interval_s'' (VStr [])),
            (''sensor_code'', get_or config ''sensor_code'' (VStr ''SYSTEM''))])"

section \<open>Listing and saving routes\<close>

definition find_device :: "int option \<Rightarrow> db \<Rightarrow> device_spec option" where
  "find_device i s = dget (dupdate [] (map (\<lambda>d. (dev_id d, d)) (list_devices s))) i"

definition route_listing :: "db \<Rightarrow> output_route_config \<Rightarrow> settings res" where
  "route_listing s r =
     rbind (route_to_dict r) (\<lambda>payload.
     rbind (settings_of (item_get payload ''config'')) (\<lambda>config.
       Inr (dset ''device_name''
         (if item_get config ''route_kind'' = VStr ''system_heartbeat'' then VStr ''System Heartbeat''
          else (case find_device (rt_device_id r) s of Some d \<Rightarrow> VStr (dev_name d) | None \<Rightarrow> VStr ''All devices''))
         payload)))"

definition cfg_list_output_routes :: "settings list svc" where
  "cfg_list_output_routes s = (rmap (route_listing s) (list_output_routes s), s)"

definition route_with_id :: "int \<Rightarrow> settings list \<Rightarrow> settings res" where
  "route_with_id i rows =
     (case filter (\<lambda>r. item_get r ''id'' = VInt i) rows of r # _ \<Rightarrow> Inr r | [] \<Rightarrow> Inl (Raise StopIteration []))"

definition route_from_payload :: "settings \<Rightarrow> (int option \<times> bool \<times> settings) res" where
  "route_from_payload p =
     rbind (route_config p) (\<lambda>config.
       let device_value = item_get p ''device_id'';
           is_system = (item_get config ''route_kind'' = VStr ''system_heartbeat'' \<or> device_value = VStr ''system_heartbeat'');
           config1 = (if is_system then dset ''route_kind'' (VStr ''system_heartbeat'') config else config);
           config2 = (if is_system \<and> dget config1 ''sensor_code'' = None
                      then dset ''sensor_code'' (VStr ''SYSTEM'') config1 else config1)
       in rbind (if blank device_value \<or> device_value \<in> {VStr ''all'', VStr ''system_heartbeat''} then Inr None
                 else rbind (py_int device_value) (\<lambda>i. Inr (Some i)))
            (\<lambda>device_id. Inr (device_id, is_system, config2)))"

definition cfg_save_output_route :: "settings \<Rightarrow> settings svc" where
  "cfg_save_output_route p =
     sbind (sfrom (route_from_payload p)) (\<lambda>(device_id, is_system, config).
     sbind (case device_id of None \<Rightarrow> sret () | Some i \<Rightarrow> sbind (cfg_get_device i) (\<lambda>_. sret ())) (\<lambda>_.
     sbind (sfrom (optional_int (item_get p ''id''))) (\<lambda>route_id.
     sbind (swrite (save_output_route \<lparr>rt_id = route_id, rt_device_id = device_id,
         rt_tag_group = (if is_system then [] else py_strip (py_str (get_or p ''tag_group'' (VStr [])))),
         rt_sink_type = ''mqtt'', rt_enabled = truthy (get_or p ''enabled'' (VBool True)), rt_config = config\<rparr>)) (\<lambda>saved.
     sbind cfg_list_output_routes (\<lambda>rows. sfrom (route_with_id saved rows))))))"

definition cfg_delete_output_route :: "int \<Rightarrow> unit svc" where
  "cfg_delete_output_route i = sdo (delete_output_route i)"

section \<open>Resolving topics\<close>

type_synonym topic_resolver = "string \<Rightarrow> settings \<Rightarrow> string + settings"

definition received_topic_path :: "string \<Rightarrow> string" where
  "received_topic_path topic =
     (let stripped = lstrip_slash topic in
      if starts_with ''C-S/'' stripped then stripped else ''C-S/'' @ stripped)"

definition utc_now :: "datetime \<Rightarrow> string" where
  "utc_now t = date_part t @ ''T'' @ clock_part t @ offset_part '':'' t"

definition route_by_required_id :: "output_route_config list \<Rightarrow> int \<Rightarrow> output_route_config res" where
  "route_by_required_id routes i =
     (case filter (\<lambda>r. rt_id r = Some i) routes of
        r # _ \<Rightarrow> Inr r
      | [] \<Rightarrow> key_error (''route not found: '' @ show_int i))"

text \<open>What the answer of the resolver means: the topic and the number of sensors, or the text of the failure.\<close>

definition read_answer :: "string + settings \<Rightarrow> string + (string \<times> int)" where
  "read_answer answer = (case answer of
     Inl e \<Rightarrow> Inl e
   | Inr resolved \<Rightarrow>
       (let topic = received_topic_path (py_str (or_val (item_get resolved ''topic'') (VStr []))) in
        if topic = ''C-S/'' then Inl ''topic response is empty''
        else (case py_int (or_val (item_get resolved ''sensor_count'') (VInt 0)) of
            Inl e \<Rightarrow> Inl (err_text e)
          | Inr n \<Rightarrow> Inr (topic, n))))"

definition resolved_config :: "settings \<Rightarrow> string \<Rightarrow> string + (string \<times> int) \<Rightarrow> string \<Rightarrow> settings" where
  "resolved_config config mac outcome at = dupdate config (case outcome of
     Inr (topic, n) \<Rightarrow>
       [(''dynamic_topic_enabled'', VBool True), (''mac_address'', VStr mac), (''resolved_topic'', VStr topic),
        (''resolved_sensor_count'', VInt n), (''resolved_error'', VStr []), (''resolved_at'', VStr at)]
   | Inl e \<Rightarrow>
       [(''dynamic_topic_enabled'', VBool True), (''mac_address'', VStr mac), (''resolved_error'', VStr e),
        (''resolved_at'', VStr at)])"

definition resolution_result :: "settings \<Rightarrow> string + (string \<times> int) \<Rightarrow> string \<Rightarrow> settings" where
  "resolution_result route outcome at = (case outcome of
     Inr (topic, n) \<Rightarrow>
       [(''route'', VDict route), (''resolved_topic'', VStr topic), (''sensor_count'', VInt n), (''resolved_at'', VStr at)]
   | Inl e \<Rightarrow>
       [(''route'', VDict route), (''resolved_topic'', VStr []), (''sensor_count'', VInt 0), (''resolved_at'', VStr at),
        (''error'', VStr e)])"

definition resolve_output_route_topic :: "topic_resolver \<Rightarrow> datetime \<Rightarrow> int \<Rightarrow> settings svc" where
  "resolve_output_route_topic resolver now i =
     sbind (sread list_output_routes) (\<lambda>routes.
     sbind (sfrom (route_by_required_id routes i)) (\<lambda>route.
     sbind (sfrom (route_config [(''config'', VDict (rt_config route))])) (\<lambda>config.
     let mac = py_strip (py_str (or_val (item_get config ''mac_address'') (VStr []))) in
     if mac = [] then sfrom (value_error ''route mac_address is required'')
     else sbind (sread (\<lambda>s. sk_config (get_sink_config (Some ''mqtt'') s))) (\<lambda>mqtt.
       let outcome = read_answer (resolver mac mqtt); at = utc_now now in
       sbind (swrite (save_output_route (route\<lparr>rt_config := resolved_config config mac outcome at\<rparr>))) (\<lambda>_.
       sbind cfg_list_output_routes (\<lambda>rows.
       sbind (sfrom (route_with_id i rows)) (\<lambda>row. sret (resolution_result row outcome at))))))))"

definition refresh_wanted :: "output_route_config \<Rightarrow> settings \<Rightarrow> bool" where
  "refresh_wanted r config \<longleftrightarrow> rt_enabled r \<and> rt_sink_type r = ''mqtt'' \<and>
     truthy (item_get config ''dynamic_topic_enabled'') \<and> truthy (item_get config ''mac_address'')"

fun refresh_routes :: "topic_resolver \<Rightarrow> datetime \<Rightarrow> output_route_config list \<Rightarrow> settings list svc" where
  "refresh_routes resolver now [] = sret []"
| "refresh_routes resolver now (r # rs) =
     sbind (sfrom (route_config [(''config'', VDict (rt_config r))])) (\<lambda>config.
       if refresh_wanted r config
       then sbind (resolve_output_route_topic resolver now (case rt_id r of None \<Rightarrow> 0 | Some i \<Rightarrow> i)) (\<lambda>x.
              sbind (refresh_routes resolver now rs) (\<lambda>xs. sret (x # xs)))
       else refresh_routes resolver now rs)"

definition refresh_dynamic_output_route_topics :: "topic_resolver \<Rightarrow> datetime \<Rightarrow> settings list svc" where
  "refresh_dynamic_output_route_topics resolver now = sbind (sread list_output_routes) (refresh_routes resolver now)"

end
