(* ===== verification/Csv_Text.thy ===== *)
theory Csv_Text
  imports Py_Repr
begin

text \<open>
  The part of Python's \<open>csv\<close> module that the configuration service uses: \<open>DictWriter\<close> with the default
  dialect and a line feed as line terminator, and \<open>DictReader\<close> over the text of a file. The writer quotes a cell
  that holds a comma, a quote or a line feed; the reader is the state machine of the module, without its limit on the size of a cell.
\<close>

section \<open>Writing\<close>

definition comma :: char where "comma = CHR '',''"
definition dquote :: char where "dquote = CHR 0x22"
definition newline :: char where "newline = CHR 0x0A"
definition return :: char where "return = CHR 0x0D"

definition cell_text :: "pyval \<Rightarrow> string" where
  "cell_text v = (case v of VNone \<Rightarrow> [] | _ \<Rightarrow> py_str v)"

definition needs_quotes :: "string \<Rightarrow> bool" where
  "needs_quotes s \<longleftrightarrow> comma \<in> set s \<or> dquote \<in> set s \<or> newline \<in> set s"

fun double_quotes :: "string \<Rightarrow> string" where
  "double_quotes [] = []"
| "double_quotes (c # s) = (if c = dquote then [dquote, dquote] else [c]) @ double_quotes s"

definition write_cell :: "string \<Rightarrow> string" where
  "write_cell s = (if needs_quotes s then [dquote] @ double_quotes s @ [dquote] else s)"

text \<open>A row of one empty cell is written as a pair of quotes, so that it is not an empty line.\<close>

definition write_row :: "string list \<Rightarrow> string" where
  "write_row cells = (if cells = [[]] then [dquote, dquote] else py_join [comma] (map write_cell cells)) @ [newline]"

definition dict_cells :: "string list \<Rightarrow> settings \<Rightarrow> string list" where
  "dict_cells names row = map (\<lambda>k. cell_text (get_or row k (VStr []))) names"

definition write_csv :: "string list \<Rightarrow> settings list \<Rightarrow> string" where
  "write_csv names rows = concat (map write_row (names # map (dict_cells names) rows))"

section \<open>Reading\<close>

datatype csv_state = StartRecord | StartField | InField | InQuoted | QuoteInQuoted | AfterReturn

text \<open>\<open>read_rows st cell row s\<close>: \<open>cell\<close> holds the characters of the current cell and \<open>row\<close> the cells before it,
  both reversed. A carriage return outside quotes has to stand before a line feed or at the end. The
  rows are read one by one: the result is the rows before an error, and the error.\<close>

type_synonym csv_rows = "string list list \<times> pyerr option"

definition csv_error :: csv_rows where
  "csv_error = ([], Some (Raise CsvError ''new-line character seen in unquoted field''))"

definition add_row :: "string list \<Rightarrow> csv_rows \<Rightarrow> csv_rows" where
  "add_row r rs = (r # fst rs, snd rs)"

fun read_rows :: "csv_state \<Rightarrow> string \<Rightarrow> string list \<Rightarrow> string \<Rightarrow> csv_rows" where
  "read_rows st cell row [] =
     (case st of
        StartRecord \<Rightarrow> ([], None)
      | StartField \<Rightarrow> ([rev ([] # row)], None)
      | AfterReturn \<Rightarrow> ([rev row], None)
      | _ \<Rightarrow> ([rev (rev cell # row)], None))"
| "read_rows st cell row (c # s) =
     (case st of
        InQuoted \<Rightarrow>
          if c = dquote then read_rows QuoteInQuoted cell row s else read_rows InQuoted (c # cell) row s
      | QuoteInQuoted \<Rightarrow>
          if c = dquote then read_rows InQuoted (dquote # cell) row s
          else if c = comma then read_rows StartField [] (rev cell # row) s
          else if c = newline then add_row (rev (rev cell # row)) (read_rows StartRecord [] [] s)
          else if c = return then read_rows AfterReturn [] (rev cell # row) s
          else read_rows InField (c # cell) row s
      | InField \<Rightarrow>
          if c = comma then read_rows StartField [] (rev cell # row) s
          else if c = newline then add_row (rev (rev cell # row)) (read_rows StartRecord [] [] s)
          else if c = return then read_rows AfterReturn [] (rev cell # row) s
          else read_rows InField (c # cell) row s
      | StartField \<Rightarrow>
          if c = dquote then read_rows InQuoted [] row s
          else if c = comma then read_rows StartField [] ([] # row) s
          else if c = newline then add_row (rev ([] # row)) (read_rows StartRecord [] [] s)
          else if c = return then read_rows AfterReturn [] ([] # row) s
          else read_rows InField [c] row s
      | StartRecord \<Rightarrow>
          if c = dquote then read_rows InQuoted [] [] s
          else if c = comma then read_rows StartField [] [[]] s
          else if c = newline then add_row [] (read_rows StartRecord [] [] s)
          else if c = return then read_rows AfterReturn [] [] s
          else read_rows InField [c] [] s
      | AfterReturn \<Rightarrow>
          if c = newline then add_row (rev row) (read_rows StartRecord [] [] s) else csv_error)"

text \<open>\<open>DictReader\<close>: the first row gives the names, empty rows are skipped, missing cells are \<open>None\<close>.\<close>

definition row_dict :: "string list \<Rightarrow> string list \<Rightarrow> settings" where
  "row_dict names cells =
     dupdate (dupdate [] (zip names (map VStr cells))) (map (\<lambda>k. (k, VNone)) (drop (length cells) names))"

definition read_csv :: "string \<Rightarrow> (settings list \<times> pyerr option) option res" where
  "read_csv s = (case read_rows StartRecord [] [] s of
     ([], None) \<Rightarrow> Inr None
   | ([], Some e) \<Rightarrow> Inl e
   | (names # rows, e) \<Rightarrow> Inr (Some (map (row_dict names) (filter (\<lambda>r. r \<noteq> []) rows), e)))"

section \<open>What is written is read back\<close>

text \<open>Cells without a carriage return, which the writer would leave unquoted.\<close>

definition plain_cell :: "string \<Rightarrow> bool" where
  "plain_cell s \<longleftrightarrow> return \<notin> set s"

lemma csv_chars [simp]:
  "comma \<noteq> dquote" "comma \<noteq> newline" "comma \<noteq> return" "dquote \<noteq> newline" "dquote \<noteq> return" "newline \<noteq> return"
  "dquote \<noteq> comma" "newline \<noteq> comma" "return \<noteq> comma" "newline \<noteq> dquote" "return \<noteq> dquote" "return \<noteq> newline"
  by (simp_all add: comma_def dquote_def newline_def return_def)

lemma read_in_field:
  "plain_cell s \<Longrightarrow> \<not> needs_quotes s \<Longrightarrow>
   read_rows InField cell row (s @ rest) = read_rows InField (rev s @ cell) row rest"
  by (induction s arbitrary: cell) (auto simp: plain_cell_def needs_quotes_def)

lemma read_in_quotes:
  "read_rows InQuoted cell row (double_quotes s @ dquote # rest) = read_rows QuoteInQuoted (rev s @ cell) row rest"
  by (induction s arbitrary: cell) auto

lemma read_cell_comma:
  assumes "plain_cell s" "st = StartField \<or> (st = StartRecord \<and> row = [])"
  shows "read_rows st cell row (write_cell s @ comma # rest) = read_rows StartField [] (s # row) rest"
proof (cases "needs_quotes s")
  case True
  then show ?thesis using assms read_in_quotes [of "[]" row s "comma # rest"] by (auto simp: write_cell_def)
next
  case False
  show ?thesis
  proof (cases s)
    case (Cons c t)
    then have "c \<noteq> dquote" "c \<noteq> comma" "c \<noteq> newline" "c \<noteq> return" "\<not> needs_quotes t" "plain_cell t"
      using False assms(1) by (auto simp: needs_quotes_def plain_cell_def)
    then show ?thesis using assms False Cons read_in_field [of t "[c]" row "comma # rest"] by (auto simp: write_cell_def)
  qed (use assms False in \<open>auto simp: write_cell_def\<close>)
qed

lemma read_cell_newline:
  assumes "plain_cell s" "st = StartField \<or> (st = StartRecord \<and> row = [] \<and> s \<noteq> [])"
  shows "read_rows st cell row (write_cell s @ newline # rest) =
    add_row (rev (s # row)) (read_rows StartRecord [] [] rest)"
proof (cases "needs_quotes s")
  case True
  then show ?thesis using assms read_in_quotes [of "[]" row s "newline # rest"] by (auto simp: write_cell_def)
next
  case False
  show ?thesis
  proof (cases s)
    case (Cons c t)
    then have "c \<noteq> dquote" "c \<noteq> comma" "c \<noteq> newline" "c \<noteq> return" "\<not> needs_quotes t" "plain_cell t"
      using False assms(1) by (auto simp: needs_quotes_def plain_cell_def)
    then show ?thesis using assms False Cons read_in_field [of t "[c]" row "newline # rest"] by (auto simp: write_cell_def)
  qed (use assms False in \<open>auto simp: write_cell_def\<close>)
qed

lemma read_row_from:
  "list_all plain_cell cells \<Longrightarrow> cells \<noteq> [] \<Longrightarrow> st = StartField \<or> (st = StartRecord \<and> row = [] \<and> cells \<noteq> [[]]) \<Longrightarrow>
   read_rows st cell row (py_join [comma] (map write_cell cells) @ newline # rest) =
     add_row (rev row @ cells) (read_rows StartRecord [] [] rest)"
proof (induction cells arbitrary: st cell row)
  case (Cons c cells)
  show ?case
  proof (cases cells)
    case Nil
    then show ?thesis using Cons.prems read_cell_newline [of c st row cell rest] by auto
  next
    case (Cons d ds)
    then have e: "py_join [comma] (map write_cell (c # cells)) = write_cell c @ comma # py_join [comma] (map write_cell cells)"
      by simp
    show ?thesis
      using Cons.prems Cons.IH [of StartField "c # row" "[]"] Cons read_cell_comma [of c st row cell]
      unfolding e by auto
  qed
qed simp

lemma read_write_row:
  assumes "list_all plain_cell cells" "cells \<noteq> []"
  shows "read_rows StartRecord [] [] (write_row cells @ rest) =
    add_row cells (read_rows StartRecord [] [] rest)"
  using assms read_row_from [of cells StartRecord "[]" "[]" rest] by (auto simp: write_row_def)

lemma read_write_rows:
  "list_all (\<lambda>cells. list_all plain_cell cells \<and> cells \<noteq> []) rows \<Longrightarrow>
   read_rows StartRecord [] [] (concat (map write_row rows)) = (rows, None)"
  by (induction rows) (simp_all add: read_write_row add_row_def)

text \<open>A file written from dictionaries reads back as the texts of their cells.\<close>

definition text_row :: "string list \<Rightarrow> settings \<Rightarrow> settings" where
  "text_row names row = map (\<lambda>k. (k, VStr (cell_text (get_or row k (VStr []))))) names"

lemma row_dict_cells: "distinct names \<Longrightarrow> row_dict names (dict_cells names row) = text_row names row"
proof -
  assume d: "distinct names"
  have z: "zip names (map VStr (dict_cells names row)) = text_row names row"
    by (simp add: dict_cells_def text_row_def zip_map2 zip_same_conv_map comp_def)
  have "map fst (text_row names row) = names" by (simp add: text_row_def comp_def)
  then have "dupdate [] (text_row names row) = text_row names row" using d by (intro dupdate_fresh) simp
  then show ?thesis unfolding row_dict_def z by (simp add: dict_cells_def)
qed

theorem read_write_csv:
  assumes "distinct names" "names \<noteq> []" "list_all plain_cell names"
    and "list_all (\<lambda>row. list_all plain_cell (dict_cells names row)) rows"
  shows "read_csv (write_csv names rows) = Inr (Some (map (text_row names) rows, None))"
proof -
  have ne: "dict_cells names row \<noteq> []" for row using assms(2) by (simp add: dict_cells_def)
  have "read_rows StartRecord [] [] (write_csv names rows) = (names # map (dict_cells names) rows, None)"
    unfolding write_csv_def using assms ne by (intro read_write_rows) (simp add: list_all_iff)
  moreover have "filter (\<lambda>r. r \<noteq> []) (map (dict_cells names) rows) = map (dict_cells names) rows"
    using ne by (simp add: filter_id_conv)
  ultimately show ?thesis using assms(1) by (simp add: read_csv_def row_dict_cells)
qed

end
