(* ===== verification/Config_Csv.thy ===== *)
theory Config_Csv
  imports Output_Routes Csv_Text
begin

text \<open>
  The CSV files of \<^verbatim>\<open>src/industrial_gateway/services/config_service.py\<close>: devices with their tags, the tags of
  a device, output plugins with their routes, and routes alone. An import works row by row on the database, so
  the rows before one that raises stay saved.
\<close>

section \<open>Columns\<close>

definition tag_csv_fields :: "string list" where
  "tag_csv_fields =
     [''tag_group'', ''name'', ''node_id'', ''address'', ''function'', ''data_type'', ''scale'',
      ''offset'', ''enabled'', ''unit_id'', ''count'', ''word_count'', ''byte_order'', ''word_order'']"

definition device_csv_fields :: "string list" where
  "device_csv_fields =
     [''device_group'', ''device_name'', ''driver_type'', ''enabled'', ''poll_interval_ms'', ''host'',
      ''port'', ''max_block_gap'', ''max_registers_per_read'', ''max_bits_per_read'', ''baudrate'',
      ''parity'', ''stopbits'', ''bytesize'', ''timeout'', ''endpoint'', ''mode'',
      ''subscription_interval_ms'', ''topic_filter'', ''client_id'', ''username'', ''password'',
      ''qos'', ''topic_mac_index'', ''timestamp_field'', ''sensor_id_field'', ''tag_group'',
      ''tag_name'', ''node_id'', ''address'', ''function'', ''data_type'', ''scale'', ''offset'',
      ''tag_enabled'', ''unit_id'', ''count'', ''word_count'', ''byte_order'', ''word_order'']"

definition plugin_csv_fields :: "string list" where
  "plugin_csv_fields =
     [''record_type'', ''sink_type'', ''selected'', ''enabled'', ''device_group'', ''device_name'',
      ''tag_group'', ''topic'', ''route_kind'', ''heartbeat_interval_s'', ''sensor_code'', ''host'',
      ''port'', ''base_topic'', ''username'', ''password'', ''client_id'', ''qos'',
      ''topic_request_on_start'', ''topic_refresh_interval_s'', ''request_topic_by_mac'',
      ''dynamic_topic_enabled'', ''mac_address'', ''resolved_topic'', ''resolved_sensor_count'',
      ''resolved_error'', ''resolved_at'', ''database'', ''table'', ''auto_create'', ''server'',
      ''driver'', ''trust_server_certificate'']"

definition plugin_route_csv_fields :: "string list" where
  "plugin_route_csv_fields =
     [''record_type'', ''device_group'', ''device_name'', ''tag_group'', ''sink_type'', ''enabled'',
      ''route_kind'', ''topic'', ''heartbeat_interval_s'', ''sensor_code'', ''request_topic_by_mac'',
      ''dynamic_topic_enabled'', ''mac_address'', ''resolved_topic'', ''resolved_sensor_count'',
      ''resolved_error'', ''resolved_at'']"

section \<open>Python equality of values\<close>

text \<open>\<open>v == w\<close>: numbers are compared by value whatever their type, dictionaries without regard to order.\<close>

definition float_eq_int :: "pyfloat \<Rightarrow> int \<Rightarrow> bool" where
  "float_eq_int x i = (case x of
     FFin s m e \<Rightarrow> (if 0 \<le> e then signed s (m * 2 ^ nat e) = i else signed s m = i * 2 ^ nat (- e))
   | _ \<Rightarrow> False)"

definition float_eq :: "pyfloat \<Rightarrow> pyfloat \<Rightarrow> bool" where
  "float_eq x y \<longleftrightarrow> fl_le x y \<and> fl_le y x"

fun py_eq :: "pyval \<Rightarrow> pyval \<Rightarrow> bool" and list_eq :: "pyval list \<Rightarrow> pyval list \<Rightarrow> bool"
  and dict_within :: "(string \<times> pyval) list \<Rightarrow> (string \<times> pyval) list \<Rightarrow> bool" where
  "py_eq VNone w = (w = VNone)"
| "py_eq (VBool a) w = (case w of VBool b \<Rightarrow> a = b | VInt i \<Rightarrow> (if a then 1 else 0) = i
     | VFloat y \<Rightarrow> float_eq_int y (if a then 1 else 0) | _ \<Rightarrow> False)"
| "py_eq (VInt i) w = (case w of VInt j \<Rightarrow> i = j | VBool b \<Rightarrow> i = (if b then 1 else 0)
     | VFloat y \<Rightarrow> float_eq_int y i | _ \<Rightarrow> False)"
| "py_eq (VFloat x) w = (case w of VFloat y \<Rightarrow> float_eq x y | VInt j \<Rightarrow> float_eq_int x j
     | VBool b \<Rightarrow> float_eq_int x (if b then 1 else 0) | _ \<Rightarrow> False)"
| "py_eq (VStr s) w = (w = VStr s)"
| "py_eq (VList xs) w = (case w of VList ys \<Rightarrow> list_eq xs ys | _ \<Rightarrow> False)"
| "py_eq (VDict d) w = (case w of VDict e \<Rightarrow> length d = length e \<and> dict_within d e | _ \<Rightarrow> False)"
| "list_eq [] ys = (ys = [])"
| "list_eq (x # xs) ys = (case ys of [] \<Rightarrow> False | y # zs \<Rightarrow> py_eq x y \<and> list_eq xs zs)"
| "dict_within [] e = True"
| "dict_within ((k, v) # d) e = ((case dget e k of None \<Rightarrow> False | Some w \<Rightarrow> py_eq v w) \<and> dict_within d e)"

section \<open>Cells\<close>

definition csv_optional_int :: "pyval \<Rightarrow> int option res" where
  "csv_optional_int v =
     (if v = VNone \<or> py_strip (py_str v) = [] then Inr None else rbind (py_int v) (\<lambda>i. Inr (Some i)))"

text \<open>\<open>(row.get(k) or d).strip()\<close>.\<close>

definition row_text :: "settings \<Rightarrow> string \<Rightarrow> string \<Rightarrow> string" where
  "row_text row k d = py_strip (py_str (or_val (item_get row k) (VStr d)))"

definition csv_connection_value :: "string \<Rightarrow> pyval \<Rightarrow> pyval res" where
  "csv_connection_value kind v =
     (if kind = ''int'' then rbind (py_int v) (\<lambda>i. Inr (VInt i))
      else if kind = ''float'' then rbind (py_float v) (\<lambda>x. Inr (VFloat x))
      else Inr (VStr (py_str v)))"

definition csv_plugin_value :: "string \<Rightarrow> pyval \<Rightarrow> pyval res" where
  "csv_plugin_value kind v =
     (if kind = ''int'' then rbind (py_int v) (\<lambda>i. Inr (VInt i))
      else if kind = ''bool'' then Inr (VBool (csv_bool v False))
      else Inr (VStr (py_str v)))"

text \<open>The settings given in a row, for fields of name \<open>fst\<close> and kind \<open>snd\<close>.\<close>

fun csv_values :: "(string \<Rightarrow> pyval \<Rightarrow> pyval res) \<Rightarrow> (string \<times> string) list \<Rightarrow> settings \<Rightarrow> settings \<Rightarrow> settings res" where
  "csv_values conv [] row values = Inr values"
| "csv_values conv ((k, kind) # fs) row values =
     (let v = item_get row k in
      if v \<noteq> VNone \<and> py_strip (py_str v) \<noteq> []
      then rbind (conv kind v) (\<lambda>w. csv_values conv fs row (dset k w values))
      else csv_values conv fs row values)"

definition csv_connection :: "string \<Rightarrow> settings \<Rightarrow> settings res" where
  "csv_connection driver_type row =
     rbind (csv_values csv_connection_value (map (\<lambda>f. (cf_key f, cf_kind f)) (connection_fields_for_driver driver_type)) row [])
       (\<lambda>values. normalize_connection_for_driver driver_type (VDict values))"

definition csv_plugin_config :: "string \<Rightarrow> settings \<Rightarrow> settings res" where
  "csv_plugin_config sink_type row =
     rbind (csv_values csv_plugin_value (map (\<lambda>f. (pf_key f, pf_kind f)) (plugin_fields sink_type)) row [])
       (\<lambda>values. normalize_plugin_config sink_type (VDict values))"

section \<open>Tags\<close>

definition tag_from_csv_row :: "settings \<Rightarrow> string \<Rightarrow> string \<Rightarrow> tag_spec res" where
  "tag_from_csv_row row driver_type name_key =
     (let name = row_text row name_key []; node = row_text row ''node_id'' [] in
      if name = [] then value_error ''tag name is required''
      else
        rbind (py_int (or_val (item_get row ''address'') (VInt 0))) (\<lambda>address.
        rbind (py_float (or_val (item_get row ''scale'') (VFloat fl_one))) (\<lambda>scale.
        rbind (py_float (or_val (item_get row ''offset'') (VFloat fl_zero))) (\<lambda>offset.
        rbind (csv_optional_int (item_get row ''unit_id'')) (\<lambda>unit.
        rbind (csv_optional_int (get_or row ''count'' (item_get row ''word_count''))) (\<lambda>count.
          Inr \<lparr>tag_name = name, tag_address = address,
            tag_function = row_text row ''function'' (hd (tag_function_choices_for_driver driver_type)),
            tag_data_type = row_text row ''data_type'' (hd (tag_type_choices_for_driver driver_type)),
            tag_group = row_text row ''tag_group'' [], tag_id = None, tag_device_id = None,
            tag_scale = scale, tag_offset = offset,
            tag_enabled = csv_bool (item_get row (if name_key = ''tag_name'' then ''tag_enabled'' else ''enabled'')) True,
            tag_unit_id = unit, tag_word_count = count, tag_byte_order = row_text row ''byte_order'' ''big'',
            tag_word_order = row_text row ''word_order'' ''big'',
            tag_node_id = (if node = [] then None else Some node)\<rparr>))))))"

definition existing_tag_id :: "tag_spec list \<Rightarrow> tag_spec \<Rightarrow> int option" where
  "existing_tag_id tags imported =
     (case filter (\<lambda>t. tag_group t = tag_group imported \<and> tag_name t = tag_name imported) tags of
        t # _ \<Rightarrow> tag_id t
      | [] \<Rightarrow> None)"

definition upsert_tag :: "int \<Rightarrow> tag_spec \<Rightarrow> int svc" where
  "upsert_tag device_id t =
     sbind (sread (list_tags device_id)) (\<lambda>tags.
       swrite (save_tag (t\<lparr>tag_id := existing_tag_id tags t, tag_device_id := Some device_id\<rparr>)))"

definition int_or_empty :: "int option \<Rightarrow> pyval" where
  "int_or_empty v = or_val (int_val v) (VStr [])"

definition tag_cells :: "string \<Rightarrow> string \<Rightarrow> tag_spec \<Rightarrow> settings" where
  "tag_cells name_key enabled_key t =
     [(''tag_group'', VStr (tag_group t)), (name_key, VStr (tag_name t)),
      (''node_id'', VStr (case tag_node_id t of None \<Rightarrow> [] | Some n \<Rightarrow> n)), (''address'', VInt (tag_address t)),
      (''function'', VStr (tag_function t)), (''data_type'', VStr (tag_data_type t)), (''scale'', VFloat (tag_scale t)),
      (''offset'', VFloat (tag_offset t)), (enabled_key, VInt (if tag_enabled t then 1 else 0)),
      (''unit_id'', int_or_empty (tag_unit_id t)), (''count'', int_or_empty (tag_word_count t)),
      (''word_count'', int_or_empty (tag_word_count t)), (''byte_order'', VStr (tag_byte_order t)),
      (''word_order'', VStr (tag_word_order t))]"

definition tag_csv_row :: "tag_spec \<Rightarrow> settings" where
  "tag_csv_row t = tag_cells ''name'' ''enabled'' t"

definition cfg_export_tags_csv :: "int \<Rightarrow> string svc" where
  "cfg_export_tags_csv device_id =
     sbind (cfg_get_device device_id) (\<lambda>_.
       sread (\<lambda>s. write_csv tag_csv_fields (map tag_csv_row (list_tags device_id s))))"

text \<open>The rows of a file and the error that ends reading it, if one does.\<close>

definition csv_rows :: "string \<Rightarrow> (settings list \<times> pyerr option) res" where
  "csv_rows text = rbind (read_csv text) (\<lambda>rows.
     case rows of None \<Rightarrow> value_error ''CSV header is required'' | Some rs \<Rightarrow> Inr rs)"

definition end_of_rows :: "pyerr option \<Rightarrow> unit svc" where
  "end_of_rows e = sfrom (case e of None \<Rightarrow> Inr () | Some x \<Rightarrow> Inl x)"

definition import_tag_row :: "int \<Rightarrow> string \<Rightarrow> settings \<Rightarrow> int svc" where
  "import_tag_row device_id driver_type row =
     sbind (sfrom (tag_from_csv_row row driver_type ''name'')) (upsert_tag device_id)"

definition cfg_import_tags_csv :: "int \<Rightarrow> string \<Rightarrow> settings svc" where
  "cfg_import_tags_csv device_id text =
     sbind (cfg_get_device device_id) (\<lambda>d.
     sbind (sfrom (csv_rows text)) (\<lambda>(rows, e).
     sbind (smap (import_tag_row device_id (py_str (item_get d ''driver_type''))) rows) (\<lambda>ids.
     sbind (end_of_rows e) (\<lambda>_. sret [(''tags'', VInt (int (length ids)))]))))"

section \<open>Devices\<close>

definition device_csv_row :: "device_spec \<Rightarrow> tag_spec option \<Rightarrow> settings" where
  "device_csv_row d t =
     (let row = [(''device_group'', VStr (dev_group d)), (''device_name'', VStr (dev_name d)),
            (''driver_type'', VStr (dev_driver_type d)), (''enabled'', VInt (if dev_enabled d then 1 else 0)),
            (''poll_interval_ms'', VInt (dev_poll_interval_ms d))];
          add = (\<lambda>k r. if dget r k = None then (case dget (dev_connection d) k of
              None \<Rightarrow> r | Some v \<Rightarrow> dset k v r) else r);
          row1 = fold add device_csv_fields row
      in case t of None \<Rightarrow> row1 | Some t \<Rightarrow> dupdate row1 (tag_cells ''tag_name'' ''tag_enabled'' t))"

definition device_csv_rows :: "db \<Rightarrow> settings list" where
  "device_csv_rows s = concat (map (\<lambda>d.
     let tags = list_tags (id_or_zero d) s in
     if tags = [] then [device_csv_row d None] else map (\<lambda>t. device_csv_row d (Some t)) tags) (list_devices s))"

definition cfg_export_devices_csv :: "string svc" where
  "cfg_export_devices_csv = sread (\<lambda>s. write_csv device_csv_fields (device_csv_rows s))"

type_synonym device_index = "(string \<times> string, device_spec) pydict"

definition device_import_key :: "device_spec \<Rightarrow> string \<times> string" where
  "device_import_key d = (dev_group d, dev_name d)"

definition devices_by_key :: "db \<Rightarrow> device_index" where
  "devices_by_key s = dupdate [] (map (\<lambda>d. (device_import_key d, d)) (list_devices s))"

definition validate_same_device_config :: "device_spec \<Rightarrow> device_spec \<Rightarrow> unit res" where
  "validate_same_device_config existing imported =
     (if dev_driver_type existing \<noteq> dev_driver_type imported \<or> dev_enabled existing \<noteq> dev_enabled imported \<or>
         dev_poll_interval_ms existing \<noteq> dev_poll_interval_ms imported \<or>
         \<not> py_eq (VDict (dev_connection existing)) (VDict (dev_connection imported))
      then value_error (''device '' @ quoted (dev_name imported) @ '' in group '' @
        quoted (if dev_group imported = [] then ''default'' else dev_group imported) @
        '' already exists with different connection/settings'')
      else Inr ())"

definition device_from_csv_row :: "settings \<Rightarrow> device_spec res" where
  "device_from_csv_row row =
     (let driver_type = row_text row ''driver_type'' ''modbus_tcp'' in
      rbind (py_int (or_val (item_get row ''poll_interval_ms'') (VInt 1000))) (\<lambda>interval.
      rbind (csv_connection driver_type row) (\<lambda>conn.
        Inr \<lparr>dev_id = None,
          dev_name = py_strip (py_str (or_val (or_val (item_get row ''device_name'') (item_get row ''name'')) (VStr []))),
          dev_driver_type = driver_type, dev_enabled = csv_bool (item_get row ''enabled'') True,
          dev_poll_interval_ms = interval, dev_group = row_text row ''device_group'' [], dev_connection = conn\<rparr>)))"

text \<open>One row: the index of known devices and whether a device, and whether a tag, was imported.\<close>

definition import_device_row :: "settings \<Rightarrow> device_index \<Rightarrow> (device_index \<times> bool \<times> bool) svc" where
  "import_device_row row index =
     sbind (sfrom (device_from_csv_row row)) (\<lambda>d.
     sbind (case dget index (device_import_key d) of
         None \<Rightarrow> sbind (swrite (save_device d)) (\<lambda>i. sret (d\<lparr>dev_id := Some i\<rparr>, True))
       | Some existing \<Rightarrow> sbind (sfrom (validate_same_device_config existing d)) (\<lambda>_. sret (existing, False)))
     (\<lambda>(existing, new).
       let index' = (if new then dset (device_import_key d) existing index else index) in
       if row_text row ''tag_name'' [] = [] then sret (index', new, False)
       else sbind (sfrom (tag_from_csv_row row (dev_driver_type existing) ''tag_name'')) (\<lambda>t.
            sbind (upsert_tag (id_or_zero existing) t) (\<lambda>_. sret (index', new, True)))))"

fun import_device_rows :: "settings list \<Rightarrow> device_index \<Rightarrow> nat \<Rightarrow> nat \<Rightarrow> (nat \<times> nat) svc" where
  "import_device_rows [] index devices tags = sret (devices, tags)"
| "import_device_rows (row # rows) index devices tags =
     sbind (import_device_row row index) (\<lambda>(index', new, tagged).
       import_device_rows rows index' (devices + (if new then 1 else 0)) (tags + (if tagged then 1 else 0)))"

definition cfg_import_devices_csv :: "string \<Rightarrow> settings svc" where
  "cfg_import_devices_csv text =
     sbind (sread devices_by_key) (\<lambda>index.
     sbind (sfrom (csv_rows text)) (\<lambda>(rows, e).
     sbind (import_device_rows rows index 0 0) (\<lambda>(devices, tags).
     sbind (end_of_rows e) (\<lambda>_. sret [(''devices'', VInt (int devices)), (''tags'', VInt (int tags))]))))"

section \<open>Routes and plugins\<close>

definition plugin_csv_row :: "sink_config \<Rightarrow> bool \<Rightarrow> settings" where
  "plugin_csv_row k selected =
     fold (\<lambda>key r. if dget r key = None then (case dget (sk_config k) key of None \<Rightarrow> r | Some v \<Rightarrow> dset key v r) else r)
       plugin_csv_fields
       [(''record_type'', VStr ''plugin''), (''sink_type'', VStr (sk_sink_type k)),
        (''selected'', VInt (if selected then 1 else 0)), (''enabled'', VInt (if sk_enabled k then 1 else 0))]"

definition plugin_route_csv_row :: "output_route_config \<Rightarrow> device_spec option \<Rightarrow> settings res" where
  "plugin_route_csv_row r d =
     rbind (route_config [(''config'', VDict (rt_config r))]) (\<lambda>config.
       let dynamic = VInt (if truthy (get_or config ''dynamic_topic_enabled'' (VBool False)) then 1 else 0);
           text = (\<lambda>k. get_or config k (VStr []))
       in Inr [(''record_type'', VStr ''route''),
         (''device_group'', VStr (case d of None \<Rightarrow> [] | Some d \<Rightarrow> dev_group d)),
         (''device_name'', VStr (if item_get config ''route_kind'' = VStr ''system_heartbeat'' then ''System Heartbeat''
            else (case d of None \<Rightarrow> [] | Some d \<Rightarrow> dev_name d))),
         (''tag_group'', VStr (rt_tag_group r)), (''sink_type'', VStr (rt_sink_type r)),
         (''enabled'', VInt (if rt_enabled r then 1 else 0)), (''route_kind'', get_or config ''route_kind'' (VStr ''data'')),
         (''topic'', text ''topic''), (''heartbeat_interval_s'', text ''heartbeat_interval_s''),
         (''sensor_code'', text ''sensor_code''), (''request_topic_by_mac'', dynamic),
         (''dynamic_topic_enabled'', dynamic), (''mac_address'', text ''mac_address''),
         (''resolved_topic'', text ''resolved_topic''), (''resolved_sensor_count'', text ''resolved_sensor_count''),
         (''resolved_error'', text ''resolved_error''), (''resolved_at'', text ''resolved_at'')])"

definition route_csv_rows :: "db \<Rightarrow> settings list res" where
  "route_csv_rows s = rmap (\<lambda>r. plugin_route_csv_row r (find_device (rt_device_id r) s)) (list_output_routes s)"

definition cfg_export_plugin_routes_csv :: "string svc" where
  "cfg_export_plugin_routes_csv s =
     (rbind (route_csv_rows s) (\<lambda>rows. Inr (write_csv plugin_route_csv_fields rows)), s)"

definition cfg_export_plugins_csv :: "string svc" where
  "cfg_export_plugins_csv s =
     (rbind (route_csv_rows s) (\<lambda>rows. Inr (write_csv plugin_csv_fields
        (map (\<lambda>k. plugin_csv_row k (sk_sink_type k = get_selected_sink_type s)) (dvalues (plugin_configs s)) @ rows))), s)"

definition csv_route_device_id :: "settings \<Rightarrow> device_index \<Rightarrow> int option res" where
  "csv_route_device_id row index =
     (let name = row_text row ''device_name'' []; grp = row_text row ''device_group'' [] in
      if row_text row ''route_kind'' [] = ''system_heartbeat'' \<or> name = [] then Inr None
      else (case dget index (grp, name) of
          Some d \<Rightarrow> Inr (dev_id d)
        | None \<Rightarrow> value_error (''route device '' @ quoted name @ '' in group '' @
            quoted (if grp = [] then ''default'' else grp) @ '' does not exist'')))"

definition existing_route_id :: "output_route_config list \<Rightarrow> int option \<Rightarrow> string \<Rightarrow> string \<Rightarrow> int option" where
  "existing_route_id routes device_id tgroup sink_type =
     (case filter (\<lambda>r. rt_device_id r = device_id \<and> rt_tag_group r = tgroup \<and> rt_sink_type r = sink_type) routes of
        r # _ \<Rightarrow> rt_id r
      | [] \<Rightarrow> None)"

definition import_plugin_route_row :: "settings \<Rightarrow> device_index \<Rightarrow> output_route_config list \<Rightarrow> int svc" where
  "import_plugin_route_row row index existing =
     (let sink_type = row_text row ''sink_type'' ''mqtt''; tgroup = row_text row ''tag_group'' [] in
      sbind (sfrom (csv_route_device_id row index)) (\<lambda>device_id.
      sbind (sfrom (route_config row)) (\<lambda>config.
        swrite (save_output_route \<lparr>rt_id = existing_route_id existing device_id tgroup sink_type,
          rt_device_id = device_id, rt_tag_group = tgroup, rt_sink_type = sink_type,
          rt_enabled = csv_bool (item_get row ''enabled'') True, rt_config = config\<rparr>))))"

text \<open>The routes known after a row: those before without the one that was saved, and the one that was saved.\<close>

definition routes_after :: "output_route_config list \<Rightarrow> int \<Rightarrow> db \<Rightarrow> output_route_config list" where
  "routes_after existing i s =
     filter (\<lambda>r. rt_id r \<noteq> Some i) existing @ filter (\<lambda>r. rt_id r = Some i) (list_output_routes s)"

fun import_route_rows :: "settings list \<Rightarrow> device_index \<Rightarrow> output_route_config list \<Rightarrow> nat \<Rightarrow> nat svc" where
  "import_route_rows [] index existing n = sret n"
| "import_route_rows (row # rows) index existing n =
     sbind (import_plugin_route_row row index existing) (\<lambda>i.
     sbind (sread (routes_after existing i)) (\<lambda>existing'. import_route_rows rows index existing' (Suc n)))"

definition cfg_import_plugin_routes_csv :: "string \<Rightarrow> settings svc" where
  "cfg_import_plugin_routes_csv text =
     sbind (sfrom (csv_rows text)) (\<lambda>(rows, e).
     sbind (sread (\<lambda>s. (devices_by_key s, list_output_routes s))) (\<lambda>(index, existing).
     sbind (import_route_rows rows index existing 0) (\<lambda>n.
     sbind (end_of_rows e) (\<lambda>_. sret [(''routes'', VInt (int n))]))))"

definition plugin_from_csv_row :: "settings \<Rightarrow> sink_config res" where
  "plugin_from_csv_row row =
     (let sink_type = row_text row ''sink_type'' ''mqtt'' in
      rbind (csv_plugin_config sink_type row) (\<lambda>config.
        Inr \<lparr>sk_sink_type = sink_type, sk_enabled = csv_bool (item_get row ''enabled'') True, sk_config = config\<rparr>))"

definition save_plugin :: "sink_config \<Rightarrow> unit svc" where
  "save_plugin k = swrite (\<lambda>s. Inr ((), save_sink_config k s))"

fun import_plugin_rows :: "settings list \<Rightarrow> device_index \<Rightarrow> output_route_config list \<Rightarrow> nat \<Rightarrow> nat \<Rightarrow> sink_config option
    \<Rightarrow> (nat \<times> nat \<times> sink_config option) svc" where
  "import_plugin_rows [] index existing plugins routes selected = sret (plugins, routes, selected)"
| "import_plugin_rows (row # rows) index existing plugins routes selected =
     (if py_lower (row_text row ''record_type'' ''plugin'') = ''route''
      then sbind (import_plugin_route_row row index existing) (\<lambda>i.
           sbind (sread (routes_after existing i)) (\<lambda>existing'.
             import_plugin_rows rows index existing' plugins (Suc routes) selected))
      else sbind (sfrom (plugin_from_csv_row row)) (\<lambda>k.
           sbind (save_plugin k) (\<lambda>_.
             import_plugin_rows rows index existing (Suc plugins) routes
               (if csv_bool (item_get row ''selected'') False then Some k else selected))))"

definition cfg_import_plugins_csv :: "string \<Rightarrow> settings svc" where
  "cfg_import_plugins_csv text =
     sbind (sfrom (csv_rows text)) (\<lambda>(rows, e).
     sbind (sread (\<lambda>s. (devices_by_key s, list_output_routes s))) (\<lambda>(index, existing).
     sbind (import_plugin_rows rows index existing 0 0 None) (\<lambda>(plugins, routes, selected).
     sbind (end_of_rows e) (\<lambda>_.
     sbind (case selected of None \<Rightarrow> sret () | Some k \<Rightarrow> save_plugin k) (\<lambda>_.
       sret [(''plugins'', VInt (int plugins)), (''routes'', VInt (int routes))])))))"

end
