(* ===== verification/Store_Props.thy ===== *)
theory Store_Props
  imports Store
begin

text \<open>
  Properties of the configuration store: the integrity invariant of every reachable database, what a
  saved tag looks like when listed, when saving a tag succeeds, the cascade of a deletion, and the
  sink configuration.
\<close>

section \<open>Tables\<close>

definition table_ok :: "(int \<Rightarrow> 'r \<Rightarrow> bool) \<Rightarrow> int \<Rightarrow> (int, 'r) pydict \<Rightarrow> bool" where
  "table_ok P n t \<longleftrightarrow> dwf t \<and> list_all (\<lambda>(i, x). i < n \<and> P i x) t"

lemma table_ok_Nil [simp]: "table_ok P n []"
  by (simp add: table_ok_def)

lemma table_ok_insert: "table_ok P n t \<Longrightarrow> P n x \<Longrightarrow> table_ok P (n + 1) (t @ [(n, x)])"
  by (force simp: table_ok_def list_all_iff dwf_def)

lemma table_ok_update: "table_ok P n t \<Longrightarrow> P i x \<Longrightarrow> dget t i \<noteq> None \<Longrightarrow> table_ok P n (dset i x t)"
  using set_dset_subset [of i x t] by (force simp: table_ok_def list_all_iff dest!: dget_in_set)

lemma table_ok_filter: "table_ok P n t \<Longrightarrow> table_ok P n (filter Q t)"
  by (auto simp: table_ok_def list_all_iff dwf_def distinct_map_filter)

lemma table_ok_ddel: "table_ok P n t \<Longrightarrow> table_ok P n (ddel i t)"
  by (simp add: ddel_def table_ok_filter)

lemma table_ok_mono: "table_ok P n t \<Longrightarrow> (\<And>i x. (i, x) \<in> set t \<Longrightarrow> P i x \<Longrightarrow> Q i x) \<Longrightarrow> table_ok Q n t"
  by (auto simp: table_ok_def list_all_iff)

lemma table_ok_dget: "table_ok P n t \<Longrightarrow> dget t i = Some x \<Longrightarrow> P i x \<and> i < n"
  by (auto simp: table_ok_def list_all_iff dest!: dget_in_set)

section \<open>The invariant\<close>

definition device_row :: "int \<Rightarrow> device_spec \<Rightarrow> bool" where
  "device_row i d \<longleftrightarrow> dev_id d = Some i \<and> validate_device d = Inr ()"

definition tag_row :: "(int, device_spec) pydict \<Rightarrow> int \<Rightarrow> tag_spec \<Rightarrow> bool" where
  "tag_row devices i t \<longleftrightarrow> tag_id t = Some i \<and> (\<exists>j. tag_device_id t = Some j \<and> dget devices j \<noteq> None) \<and>
     common_ok t \<and> \<not> fl_is_nan (tag_scale t) \<and> \<not> fl_is_nan (tag_offset t)"

definition route_row :: "(int, device_spec) pydict \<Rightarrow> int \<Rightarrow> output_route_config \<Rightarrow> bool" where
  "route_row devices i r \<longleftrightarrow> rt_id r = Some i \<and> (\<forall>j. rt_device_id r = Some j \<longrightarrow> dget devices j \<noteq> None)"

definition db_inv :: "db \<Rightarrow> bool" where
  "db_inv s \<longleftrightarrow> table_ok device_row (db_next_device s) (db_devices s) \<and>
     table_ok (tag_row (db_devices s)) (db_next_tag s) (db_tags s) \<and>
     table_ok (route_row (db_devices s)) (db_next_route s) (db_routes s) \<and>
     distinct (map (tag_identity \<circ> snd) (db_tags s)) \<and> dwf (db_sinks s)"

lemma tag_row_more: "tag_row ds i t \<Longrightarrow> (\<And>j. dget ds j \<noteq> None \<Longrightarrow> dget ds' j \<noteq> None) \<Longrightarrow> tag_row ds' i t"
  by (auto simp: tag_row_def)

lemma route_row_more: "route_row ds i r \<Longrightarrow> (\<And>j. dget ds j \<noteq> None \<Longrightarrow> dget ds' j \<noteq> None) \<Longrightarrow> route_row ds' i r"
  by (auto simp: route_row_def)

lemma tags_more:
  assumes "table_ok (tag_row ds) n t" "\<And>j. dget ds j \<noteq> None \<Longrightarrow> dget ds' j \<noteq> None"
  shows "table_ok (tag_row ds') n t"
  using assms(1) by (rule table_ok_mono) (erule tag_row_more, erule assms(2))

lemma routes_more:
  assumes "table_ok (route_row ds) n t" "\<And>j. dget ds j \<noteq> None \<Longrightarrow> dget ds' j \<noteq> None"
  shows "table_ok (route_row ds') n t"
  using assms(1) by (rule table_ok_mono) (erule route_row_more, erule assms(2))

lemma tags_after_delete:
  assumes "table_ok (tag_row ds) n t"
  shows "table_ok (tag_row (ddel i ds)) n (filter (\<lambda>(_, t). tag_device_id t \<noteq> Some i) t)"
  using table_ok_filter [OF assms] by (rule table_ok_mono) (auto simp: tag_row_def dget_ddel)

lemma routes_after_delete:
  assumes "table_ok (route_row ds) n t"
  shows "table_ok (route_row (ddel i ds)) n (filter (\<lambda>(_, r). rt_device_id r \<noteq> Some i) t)"
  using table_ok_filter [OF assms] by (rule table_ok_mono) (auto simp: route_row_def dget_ddel)

lemma dget_append: "dget (a @ b) k = (case dget a k of None \<Rightarrow> dget b k | Some v \<Rightarrow> Some v)"
  by (induction a) auto

lemma validate_device_id [simp]: "validate_device (d\<lparr>dev_id := v\<rparr>) = validate_device d"
  by (simp add: validate_device_def)

lemma tag_identity_id [simp]: "tag_identity (t\<lparr>tag_id := v\<rparr>) = tag_identity t"
  by (simp add: tag_identity_def)

lemma common_ok_id [simp]: "common_ok (t\<lparr>tag_id := v\<rparr>) = common_ok t"
  by (simp add: common_ok_def count_ok_def split: option.split)

lemma save_device_cases:
  assumes "save_device d s = Inr (i, s')"
  obtains (new) "dev_id d = None" "validate_device d = Inr ()" "i = db_next_device s"
      "s' = s\<lparr>db_devices := db_devices s @ [(i, d\<lparr>dev_id := Some i\<rparr>)], db_next_device := i + 1\<rparr>"
    | (absent) "dev_id d = Some i" "validate_device d = Inr ()" "dget (db_devices s) i = None" "s' = s"
    | (old) "dev_id d = Some i" "validate_device d = Inr ()" "dget (db_devices s) i \<noteq> None"
      "s' = s\<lparr>db_devices := dset i d (db_devices s)\<rparr>"
proof -
  have v: "validate_device d = Inr ()" and n: "\<not> (\<not> int64 (dev_poll_interval_ms d) \<or> \<not> opt_int64 (dev_id d))"
    using assms by (auto simp: save_device_def rbind_Inr_iff overflow_def split: if_splits)
  have r: "(case dev_id d of
         None \<Rightarrow> Inr (db_next_device s, s\<lparr>db_devices := db_devices s @ [(db_next_device s, d\<lparr>dev_id := Some (db_next_device s)\<rparr>)],
           db_next_device := db_next_device s + 1\<rparr>)
       | Some i \<Rightarrow> Inr (i, if dget (db_devices s) i = None then s
           else s\<lparr>db_devices := dset i d (db_devices s)\<rparr>)) = (Inr (i, s') :: (int \<times> db) res)"
    using assms unfolding save_device_def v rbind_simps if_not_P [OF n] Let_def .
  show thesis
  proof (cases "dev_id d")
    case None
    then show ?thesis using r v by (intro new) auto
  next
    case (Some j)
    show ?thesis
    proof (cases "dget (db_devices s) j = None")
      case True
      then show ?thesis using r v Some by (intro absent) auto
    next
      case False
      then show ?thesis using r v Some by (intro old) auto
    qed
  qed
qed

lemma save_device_inv:
  assumes "db_inv s" "save_device d s = Inr (i, s')"
  shows "db_inv s'"
proof -
  have more: "dget (db_devices s) j \<noteq> None \<Longrightarrow> dget (db_devices s') j \<noteq> None" for j
    using assms(2) by (cases rule: save_device_cases) (auto simp: dget_append dget_dset)
  have rest: "db_tags s' = db_tags s" "db_routes s' = db_routes s" "db_next_tag s' = db_next_tag s"
      "db_next_route s' = db_next_route s" "db_sinks s' = db_sinks s"
    using assms(2) by (cases rule: save_device_cases; simp)+
  have "table_ok device_row (db_next_device s') (db_devices s')"
    using assms(2)
  proof (cases rule: save_device_cases)
    case new
    then show ?thesis using assms(1) table_ok_insert [of device_row "db_next_device s" "db_devices s"]
      by (simp add: db_inv_def device_row_def)
  next
    case old
    then show ?thesis using assms(1) by (auto simp: db_inv_def device_row_def intro!: table_ok_update)
  qed (use assms(1) in \<open>simp add: db_inv_def\<close>)
  moreover have "table_ok (tag_row (db_devices s')) (db_next_tag s) (db_tags s)"
    using assms(1) more tags_more by (simp only: db_inv_def) blast
  moreover have "table_ok (route_row (db_devices s')) (db_next_route s) (db_routes s)"
    using assms(1) more routes_more by (simp only: db_inv_def) blast
  ultimately show ?thesis using assms(1) by (simp add: db_inv_def rest)
qed

lemma delete_device_inv:
  assumes "db_inv s" "delete_device i s = Inr s'"
  shows "db_inv s'"
proof (cases "dget (db_devices s) i = None")
  case True
  then show ?thesis using assms by (auto simp: delete_device_def overflow_def split: if_splits)
next
  case False
  then have s': "s' = s\<lparr>db_devices := ddel i (db_devices s),
      db_tags := filter (\<lambda>(_, t). tag_device_id t \<noteq> Some i) (db_tags s),
      db_routes := filter (\<lambda>(_, r). rt_device_id r \<noteq> Some i) (db_routes s)\<rparr>"
    using assms(2) by (auto simp: delete_device_def overflow_def split: if_splits)
  then show ?thesis
    using assms(1) by (simp add: db_inv_def table_ok_ddel distinct_map_filter tags_after_delete routes_after_delete)
qed

section \<open>Saving a tag\<close>

lemma driver_type_ok: "driver_type_for_device v s = Inr dt \<Longrightarrow> \<exists>i d. v = Some i \<and> dget (db_devices s) i = Some d \<and> dt = dev_driver_type d"
  by (auto simp: driver_type_for_device_def overflow_def split: option.splits if_splits)

lemma unique_ok:
  "validate_unique_tag_name t s = Inr () \<Longrightarrow> tag_device_id t \<noteq> None \<Longrightarrow> (i, u) \<in> set (db_tags s) \<Longrightarrow>
   tag_identity u = tag_identity t \<Longrightarrow> tag_id t = Some i"
  by (auto simp: validate_unique_tag_name_def overflow_def split: if_splits)

lemma storable_ok:
  "tag_storable t s = Inr () \<Longrightarrow> tag_id t = None \<or> dget (db_tags s) (the (tag_id t)) \<noteq> None \<Longrightarrow>
   \<not> fl_is_nan (tag_scale t) \<and> \<not> fl_is_nan (tag_offset t)"
  by (auto simp: tag_storable_def overflow_def integrity_def split: if_splits option.splits)

lemma save_tag_cases:
  assumes "save_tag t s = Inr (i, s')"
  obtains d j where "tag_device_id t = Some j" "dget (db_devices s) j = Some d" "tag_ok (dev_driver_type d) t"
    "validate_unique_tag_name t s = Inr ()" "tag_storable t s = Inr ()" "(i, s') = write_tag t s"
proof -
  obtain dt where "driver_type_for_device (tag_device_id t) s = Inr dt" "validate_tag dt t = Inr ()"
      "validate_unique_tag_name t s = Inr ()" "tag_storable t s = Inr ()" "(i, s') = write_tag t s"
    using assms by (auto simp: save_tag_def rbind_Inr_iff)
  then show thesis using that driver_type_ok validate_tag_ok by metis
qed

lemma save_tag_driver:
  "save_tag t s = Inr (i, s') \<Longrightarrow> tag_device_id t = Some j \<Longrightarrow> dget (db_devices s) j = Some d \<Longrightarrow> tag_ok (dev_driver_type d) t"
  by (erule save_tag_cases) simp

lemma tag_ok_common: "tag_ok dt t \<Longrightarrow> common_ok t"
  by (simp add: tag_ok_def)

lemma distinct_update:
  assumes "dwf d" "distinct (map (f \<circ> snd) d)" "dget d i \<noteq> None" "\<And>k u. (k, u) \<in> set d \<Longrightarrow> f u = f x \<Longrightarrow> k = i"
  shows "distinct (map (f \<circ> snd) (dset i x d))"
  using assms
proof (induction d)
  case (Cons p d)
  obtain k u where p: "p = (k, u)" by (cases p)
  show ?case
  proof (cases "k = i")
    case True
    have "f x \<notin> (f \<circ> snd) ` set d"
    proof
      assume "f x \<in> (f \<circ> snd) ` set d"
      then obtain k' u' where m: "(k', u') \<in> set d" "f u' = f x" by auto
      then have "k' = i" using Cons(5) by auto
      then show False using m(1) Cons(2) p True by (force simp: dwf_def)
    qed
    with True Cons(3) p show ?thesis by simp
  next
    case False
    have ih: "distinct (map (f \<circ> snd) (dset i x d))"
      using False p Cons(2-5) by (intro Cons(1)) (auto simp: dwf_def)
    have "f u \<noteq> f x" using Cons(5) [of k u] False p by auto
    then have "f u \<notin> (f \<circ> snd) ` insert (i, x) (set d)" using Cons(3) p by auto
    then have "f u \<notin> (f \<circ> snd) ` set (dset i x d)" using set_dset_subset [of i x d] by blast
    with ih False p show ?thesis by (simp add: o_def)
  qed
qed simp

lemma save_tag_inv:
  assumes inv: "db_inv s" and sv: "save_tag t s = Inr (i, s')"
  shows "db_inv s'"
proof -
  obtain d j where j: "tag_device_id t = Some j" "dget (db_devices s) j = Some d" and ok: "tag_ok (dev_driver_type d) t"
    and u: "validate_unique_tag_name t s = Inr ()" and st: "tag_storable t s = Inr ()" and w: "(i, s') = write_tag t s"
    using sv by (rule save_tag_cases)
  have c: "common_ok t" by (rule tag_ok_common [OF ok])
  have uniq: "tag_id t = Some k" if "(k, v) \<in> set (db_tags s)" "tag_identity v = tag_identity t" for k v
    using unique_ok [OF u _ that] j(1) by simp
  have rows: "table_ok (tag_row (db_devices s)) (db_next_tag s) (db_tags s)"
      "distinct (map (tag_identity \<circ> snd) (db_tags s))" "dwf (db_tags s)"
    using inv by (auto simp: db_inv_def table_ok_def)
  show ?thesis
  proof (cases "tag_id t")
    case None
    then have "tag_row (db_devices s) (db_next_tag s) (t\<lparr>tag_id := Some (db_next_tag s)\<rparr>)"
      using storable_ok [OF st] j c by (simp add: tag_row_def)
    moreover have "tag_identity t \<notin> (tag_identity \<circ> snd) ` set (db_tags s)" using uniq None by fastforce
    ultimately show ?thesis
      using inv w None table_ok_insert [OF rows(1)] by (simp add: db_inv_def write_tag_def Let_def)
  next
    case (Some k)
    show ?thesis
    proof (cases "dget (db_tags s) k = None")
      case True
      then show ?thesis using inv w Some by (simp add: write_tag_def)
    next
      case False
      have "tag_row (db_devices s) k t" using storable_ok [OF st] j c Some False by (simp add: tag_row_def)
      then have "table_ok (tag_row (db_devices s)) (db_next_tag s) (dset k t (db_tags s))"
        by (rule table_ok_update [OF rows(1) _ False])
      moreover have "distinct (map (tag_identity \<circ> snd) (dset k t (db_tags s)))"
        using uniq Some by (intro distinct_update [OF rows(3,2) False]) auto
      ultimately show ?thesis using inv w Some False by (simp add: db_inv_def write_tag_def)
    qed
  qed
qed

lemma distinct_map_ddel: "distinct (map f d) \<Longrightarrow> distinct (map f (ddel k d))"
  by (simp add: ddel_def distinct_map_filter)

lemma delete_tag_inv: "db_inv s \<Longrightarrow> delete_tag i s = Inr s' \<Longrightarrow> db_inv s'"
  by (auto simp: delete_tag_def overflow_def db_inv_def table_ok_ddel distinct_map_ddel split: if_splits)

lemma save_route_inv:
  assumes inv: "db_inv s" and sv: "save_output_route r s = Inr (i, s')"
  shows "db_inv s'"
proof -
  have n: "\<not> (\<not> opt_int64 (rt_device_id r) \<or> \<not> opt_int64 (rt_id r))"
  proof
    assume h: "\<not> opt_int64 (rt_device_id r) \<or> \<not> opt_int64 (rt_id r)"
    show False using sv unfolding save_output_route_def if_P [OF h] overflow_def by simp
  qed
  note sv' = sv [unfolded save_output_route_def if_not_P [OF n] Let_def]
  have row: "route_row (db_devices s) k (r\<lparr>rt_id := Some k\<rparr>)" if "device_exists (rt_device_id r) s" for k
    using that by (auto simp: route_row_def device_exists_def)
  have rows: "table_ok (route_row (db_devices s)) (db_next_route s) (db_routes s)"
    using inv by (simp add: db_inv_def)
  show ?thesis
  proof (cases "rt_id r")
    case None
    then have e: "device_exists (rt_device_id r) s" using sv' by (auto simp: integrity_def split: if_splits)
    then show ?thesis
      using inv None sv' table_ok_insert [OF rows row [OF e]] by (auto simp: db_inv_def)
  next
    case (Some k)
    show ?thesis
    proof (cases "dget (db_routes s) k = None")
      case True
      then show ?thesis using inv Some sv' by simp
    next
      case False
      then have e: "device_exists (rt_device_id r) s" using sv' Some by (auto simp: integrity_def split: if_splits)
      have "r\<lparr>rt_id := Some k\<rparr> = r" using Some by simp
      then have "route_row (db_devices s) k r" using row [OF e, of k] by simp
      then have t: "table_ok (route_row (db_devices s)) (db_next_route s) (dset k r (db_routes s))"
        by (rule table_ok_update [OF rows _ False])
      have "s' = s\<lparr>db_routes := dset k r (db_routes s)\<rparr>" using sv' Some False e by auto
      with t inv show ?thesis by (simp add: db_inv_def)
    qed
  qed
qed

lemma delete_route_inv: "db_inv s \<Longrightarrow> delete_output_route i s = Inr s' \<Longrightarrow> db_inv s'"
  by (auto simp: delete_output_route_def overflow_def db_inv_def table_ok_ddel split: if_splits)

lemma save_mqtt_inv: "db_inv s \<Longrightarrow> save_mqtt_config m s = Inr s' \<Longrightarrow> db_inv s'"
  by (auto simp: save_mqtt_config_def overflow_def db_inv_def split: if_splits)

lemma save_sink_inv: "db_inv s \<Longrightarrow> db_inv (save_sink_config k s)"
  by (simp add: save_sink_config_def db_inv_def)

section \<open>Reachable databases\<close>

inductive db_step :: "db \<Rightarrow> db \<Rightarrow> bool" where
  "save_device d s = Inr (i, s') \<Longrightarrow> db_step s s'"
| "delete_device i s = Inr s' \<Longrightarrow> db_step s s'"
| "save_tag t s = Inr (i, s') \<Longrightarrow> db_step s s'"
| "delete_tag i s = Inr s' \<Longrightarrow> db_step s s'"
| "save_output_route r s = Inr (i, s') \<Longrightarrow> db_step s s'"
| "delete_output_route i s = Inr s' \<Longrightarrow> db_step s s'"
| "save_mqtt_config m s = Inr s' \<Longrightarrow> db_step s s'"
| "db_step s (save_sink_config k s)"

inductive_cases db_stepE: "db_step s s'"

lemmas db_op_inv = save_device_inv delete_device_inv save_tag_inv delete_tag_inv save_route_inv
  delete_route_inv save_mqtt_inv save_sink_inv

inductive db_reachable :: "db \<Rightarrow> bool" where
  "db_reachable empty_db"
| "db_reachable s \<Longrightarrow> db_step s s' \<Longrightarrow> db_reachable s'"

lemma db_step_inv: "db_step s s' \<Longrightarrow> db_inv s \<Longrightarrow> db_inv s'"
  by (erule db_stepE) (auto intro: db_op_inv)

lemma db_reachable_inv: "db_reachable s \<Longrightarrow> db_inv s"
proof (induction rule: db_reachable.induct)
  case 1
  show ?case by (simp add: db_inv_def empty_db_def)
next
  case (2 s s')
  then show ?case by (rule_tac db_step_inv)
qed

section \<open>Samples\<close>

definition plant_db :: db where
  "plant_db = empty_db\<lparr>db_devices := [(7, sample_device [])], db_next_device := 8\<rparr>"

definition flow_spec :: tag_spec where
  "flow_spec = (new_tag ''flow'' 0 ''holding_register'' ''uint16'')\<lparr>tag_device_id := Some 7\<rparr>"

definition plant_with_tag :: db where
  "plant_with_tag = plant_db\<lparr>db_tags := [(1, flow_spec\<lparr>tag_id := Some 1\<rparr>)], db_next_tag := 2\<rparr>"

lemma one_not_zero: "\<not> fl_is_zero fl_one" "\<not> fl_is_nan fl_one" "\<not> fl_is_nan fl_zero"
  by (simp_all add: fl_one_def fl_zero_def)

lemma flow_spec_ok: "tag_ok ''modbus_tcp'' flow_spec"
  by (simp add: tag_ok_def common_ok_def count_ok_def flow_spec_def new_tag_def one_not_zero data_types_def
      modbus_functions_def str_simps)

lemma sample_device_valid: "validate_device (sample_device []) = Inr ()"
  by (simp add: validate_device_def sample_device_def str_simps)

lemma plant_inv: "db_inv plant_with_tag" "db_inv plant_db"
proof -
  have "common_ok flow_spec" using flow_spec_ok by (rule tag_ok_common)
  then show "db_inv plant_with_tag" "db_inv plant_db"
    by (simp_all add: db_inv_def plant_with_tag_def plant_db_def empty_db_def table_ok_def device_row_def
        tag_row_def sample_device_valid dwf_def)
      (simp_all add: sample_device_def flow_spec_def new_tag_def one_not_zero)
qed

lemma plant_saves_tag: "save_tag flow_spec plant_db = Inr (1, plant_with_tag)"
proof -
  have "validate_tag ''modbus_tcp'' flow_spec = Inr ()" using flow_spec_ok by (simp add: validate_tag_ok)
  moreover have "driver_type_for_device (tag_device_id flow_spec) plant_db = Inr ''modbus_tcp''"
    by (simp add: driver_type_for_device_def flow_spec_def plant_db_def int64_def sample_device_def)
  moreover have "validate_unique_tag_name flow_spec plant_db = Inr ()"
    by (simp add: validate_unique_tag_name_def flow_spec_def plant_db_def empty_db_def opt_int64_def int64_def new_tag_def)
  moreover have "tag_storable flow_spec plant_db = Inr ()"
    by (simp add: tag_storable_def flow_spec_def new_tag_def opt_int64_def int64_def one_not_zero)
  moreover have "write_tag flow_spec plant_db = (1, plant_with_tag)"
    by (simp add: write_tag_def flow_spec_def new_tag_def plant_db_def plant_with_tag_def empty_db_def Let_def)
  ultimately show ?thesis by (simp add: save_tag_def)
qed

section \<open>Theorems\<close>

text \<open>C19: The database keeps its integrity.  In every database reachable by the store's operations the
  row ids are distinct and below the next id, every device row passes device validation, every tag
  and route row refers to an existing device, tag rows satisfy the driver-independent tag rules,
  and no two tags share device, group and name.\<close>

theorem store_integrity: "db_reachable s \<Longrightarrow> db_inv s"
  by (rule db_reachable_inv)

lemma store_integrity_witness:
  "db_inv (empty_db\<lparr>db_devices := [(1, (sample_device [])\<lparr>dev_id := Some 1\<rparr>)], db_next_device := 2\<rparr>)"
proof -
  have "save_device ((sample_device [])\<lparr>dev_id := None\<rparr>) empty_db =
      Inr (1, empty_db\<lparr>db_devices := [(1, (sample_device [])\<lparr>dev_id := Some 1\<rparr>)], db_next_device := 2\<rparr>)"
    using sample_device_valid by (simp add: save_device_def empty_db_def int64_def opt_int64_def) (simp add: sample_device_def)
  then show ?thesis
    by (intro store_integrity [OF db_reachable.intros(2) [OF db_reachable.intros(1) db_step.intros(1)]])
qed

text \<open>A saved tag is listed.  Saving a new tag draws a fresh id; afterwards the tags listed for its
  device are the former ones and the saved one under that id, sorted by group and name, and the
  lists of the other devices are the same.\<close>

theorem saved_tag_listed:
  assumes "db_inv s" "save_tag t s = Inr (i, s')" "tag_id t = None" "tag_device_id t = Some j"
  shows "dget (db_tags s) i = None \<and>
    mset (list_tags j s') = mset (list_tags j s) + {#t\<lparr>tag_id := Some i\<rparr>#} \<and>
    sorted (map (\<lambda>u. (tag_group u, tag_name u)) (list_tags j s')) \<and>
    (k \<noteq> j \<longrightarrow> list_tags k s' = list_tags k s)"
proof -
  have w: "(i, s') = write_tag t s" using assms(2) by (rule save_tag_cases)
  then have i: "i = db_next_tag s" and s': "db_tags s' = db_tags s @ [(i, t\<lparr>tag_id := Some i\<rparr>)]"
    using assms(3) by (auto simp: write_tag_def Let_def)
  have "dget (db_tags s) i = None"
  proof (rule ccontr)
    assume "dget (db_tags s) i \<noteq> None"
    then obtain u where "dget (db_tags s) i = Some u" by auto
    then show False using assms(1) table_ok_dget [of _ "db_next_tag s" "db_tags s" i u] i by (auto simp: db_inv_def)
  qed
  then show ?thesis using assms(4) by (simp add: list_tags_def s' dvalues_def)
qed

lemma saved_tag_listed_witness:
  "dget (db_tags plant_db) 1 = None \<and>
   mset (list_tags 7 plant_with_tag) = mset (list_tags 7 plant_db) + {#flow_spec\<lparr>tag_id := Some 1\<rparr>#} \<and>
   sorted (map (\<lambda>u. (tag_group u, tag_name u)) (list_tags 7 plant_with_tag)) \<and>
   list_tags 3 plant_with_tag = list_tags 3 plant_db"
  using saved_tag_listed [OF plant_inv(2) plant_saves_tag, of 7 3] by (simp add: flow_spec_def new_tag_def)

text \<open>C36: Which tags are accepted.  Saving a tag succeeds exactly when its device exists, the tag meets the
  rules of the device's driver, no other tag of the device has its group and name, its integers fit
  64 bits, and its scale and offset are numbers (unless it updates an id that does not exist).\<close>

theorem save_tag_succeeds_iff:
  "(\<exists>i s'. save_tag t s = Inr (i, s')) \<longleftrightarrow>
   (\<exists>j d. tag_device_id t = Some j \<and> dget (db_devices s) j = Some d \<and> tag_ok (dev_driver_type d) t) \<and>
   list_all (\<lambda>(i, u). tag_identity u \<noteq> tag_identity t \<or> tag_id t = Some i) (db_tags s) \<and>
   int64 (tag_address t) \<and> opt_int64 (tag_device_id t) \<and> opt_int64 (tag_unit_id t) \<and>
   opt_int64 (tag_word_count t) \<and> opt_int64 (tag_id t) \<and>
   (\<not> fl_is_nan (tag_scale t) \<and> \<not> fl_is_nan (tag_offset t) \<or>
    tag_id t \<noteq> None \<and> dget (db_tags s) (the (tag_id t)) = None)"
  (is "?L \<longleftrightarrow> ?R")
proof -
  have st: "tag_storable t s = Inr () \<longleftrightarrow> int64 (tag_address t) \<and> opt_int64 (tag_device_id t) \<and> opt_int64 (tag_unit_id t) \<and>
      opt_int64 (tag_word_count t) \<and> opt_int64 (tag_id t) \<and>
      (\<not> fl_is_nan (tag_scale t) \<and> \<not> fl_is_nan (tag_offset t) \<or>
       tag_id t \<noteq> None \<and> dget (db_tags s) (the (tag_id t)) = None)"
    by (auto simp: tag_storable_def overflow_def integrity_def split: option.splits)
  have un: "validate_unique_tag_name t s = Inr () \<longleftrightarrow>
      opt_int64 (tag_device_id t) \<and> opt_int64 (tag_id t) \<and>
      list_all (\<lambda>(i, u). tag_identity u \<noteq> tag_identity t \<or> tag_id t = Some i) (db_tags s)"
    if "tag_device_id t \<noteq> None"
    using that by (auto simp: validate_unique_tag_name_def overflow_def list_all_iff)
  have dr: "driver_type_for_device (tag_device_id t) s = Inr dt \<longleftrightarrow>
      (\<exists>j d. tag_device_id t = Some j \<and> int64 j \<and> dget (db_devices s) j = Some d \<and> dt = dev_driver_type d)" for dt
    by (auto simp: driver_type_for_device_def overflow_def split: option.splits)
  have "?L \<longleftrightarrow> (\<exists>dt. driver_type_for_device (tag_device_id t) s = Inr dt \<and> tag_ok dt t) \<and>
      validate_unique_tag_name t s = Inr () \<and> tag_storable t s = Inr ()"
    by (cases "write_tag t s") (auto simp: save_tag_def rbind_Inr_iff validate_tag_ok)
  also have "\<dots> \<longleftrightarrow> ?R"
    unfolding dr st by (cases "tag_device_id t") (auto simp: un opt_int64_def)
  finally show ?thesis .
qed

lemma dvalues_filter: "dvalues (filter (\<lambda>(_, x). P x) d) = filter P (dvalues d)"
  by (induction d) (auto simp: dvalues_def)

lemma filter_other: "k \<noteq> i \<Longrightarrow> filter (\<lambda>x. f x = Some k) (filter (\<lambda>x. f x \<noteq> Some i) xs) = filter (\<lambda>x. f x = Some k) xs"
  by (induction xs) auto

lemma filter_same: "filter (\<lambda>x. f x = Some i) (filter (\<lambda>x. f x \<noteq> Some i) xs) = []"
  by (induction xs) auto

lemma save_tag_succeeds_iff_witness: "\<exists>i s'. save_tag flow_spec plant_db = Inr (i, s')"
  unfolding save_tag_succeeds_iff using flow_spec_ok
  by (simp add: flow_spec_def new_tag_def plant_db_def empty_db_def sample_device_def int64_def opt_int64_def one_not_zero)

text \<open>Deleting a device takes its tags and routes along and nothing else.  Afterwards the device is gone,
  no tag is listed for it and no route names it, while every other device, its tag list and the
  routes of other devices are what they were.\<close>

theorem delete_device_cascades:
  assumes "db_inv s" "delete_device i s = Inr s'"
  shows "dget (db_devices s') i = None \<and> list_tags i s' = [] \<and>
    list_all (\<lambda>r. rt_device_id r \<noteq> Some i) (dvalues (db_routes s')) \<and>
    (k \<noteq> i \<longrightarrow> dget (db_devices s') k = dget (db_devices s) k \<and> list_tags k s' = list_tags k s) \<and>
    filter (\<lambda>r. rt_device_id r \<noteq> Some i) (dvalues (db_routes s)) = dvalues (db_routes s')"
proof (cases "dget (db_devices s) i = None")
  case True
  then have s': "s' = s" using assms(2) by (auto simp: delete_device_def overflow_def split: if_splits)
  have "tag_device_id t \<noteq> Some i" if "(j, t) \<in> set (db_tags s)" for j t
    using assms(1) that True by (fastforce simp: db_inv_def table_ok_def list_all_iff tag_row_def)
  then have t: "filter (\<lambda>t. tag_device_id t = Some i) (dvalues (db_tags s)) = []"
    by (auto simp: filter_empty_conv dvalues_def)
  have "rt_device_id r \<noteq> Some i" if "(j, r) \<in> set (db_routes s)" for j r
    using assms(1) that True by (fastforce simp: db_inv_def table_ok_def list_all_iff route_row_def)
  then have r: "list_all (\<lambda>r. rt_device_id r \<noteq> Some i) (dvalues (db_routes s))"
    by (auto simp: list_all_iff dvalues_def)
  then have "filter (\<lambda>r. rt_device_id r \<noteq> Some i) (dvalues (db_routes s)) = dvalues (db_routes s)"
    by (simp add: list_all_iff)
  with t r s' True show ?thesis by (simp add: list_tags_def)
next
  case False
  then have s': "s' = s\<lparr>db_devices := ddel i (db_devices s),
      db_tags := filter (\<lambda>(_, t). tag_device_id t \<noteq> Some i) (db_tags s),
      db_routes := filter (\<lambda>(_, r). rt_device_id r \<noteq> Some i) (db_routes s)\<rparr>"
    using assms(2) by (auto simp: delete_device_def overflow_def split: if_splits)
  have "k \<noteq> i \<Longrightarrow> list_tags k s' = list_tags k s" "list_tags i s' = []"
    by (simp_all add: s' list_tags_def dvalues_filter filter_other filter_same del: filter_filter)
  then show ?thesis
    by (simp add: s' dvalues_filter dget_ddel list_all_iff)
qed

lemma delete_device_cascades_witness:
  "\<exists>s'. delete_device 7 plant_with_tag = Inr s' \<and> dget (db_devices s') 7 = None \<and> list_tags 7 s' = []"
proof -
  obtain s' where s': "delete_device 7 plant_with_tag = Inr s'"
    by (simp add: delete_device_def plant_with_tag_def plant_db_def int64_def)
  then show ?thesis using delete_device_cascades [OF plant_inv(1) s'] by blast
qed

text \<open>The saved sink configuration is the selected one.  After saving the configuration of a sink, the
  selected configuration is exactly that one, it is found under its type, and those of the other
  sink types are unchanged.\<close>

theorem sink_config_roundtrip:
  assumes "sk_sink_type k \<noteq> []"
  shows "get_sink_config None (save_sink_config k s) = k \<and>
    get_sink_config (Some (sk_sink_type k)) (save_sink_config k s) = k \<and>
    (other \<noteq> sk_sink_type k \<and> other \<noteq> [] \<longrightarrow>
       get_sink_config (Some other) (save_sink_config k s) = get_sink_config (Some other) s)"
proof -
  have "get_mqtt_config (save_sink_config k s) = get_mqtt_config s"
    by (simp add: get_mqtt_config_def save_sink_config_def)
  then show ?thesis using assms
    by (cases "sk_sink_type k"; cases other)
      (auto simp: get_sink_config_def save_sink_config_def get_selected_sink_type_def Let_def dget_dset split: option.split)
qed

lemma sink_config_roundtrip_witness:
  "get_sink_config None (save_sink_config \<lparr>sk_sink_type = ''postgresql'', sk_enabled = True, sk_config = []\<rparr> empty_db) =
     \<lparr>sk_sink_type = ''postgresql'', sk_enabled = True, sk_config = []\<rparr> \<and>
   get_sink_config (Some ''mqtt'') (save_sink_config \<lparr>sk_sink_type = ''postgresql'', sk_enabled = True, sk_config = []\<rparr> empty_db) =
     get_sink_config (Some ''mqtt'') empty_db"
  using sink_config_roundtrip [of "\<lparr>sk_sink_type = ''postgresql'', sk_enabled = True, sk_config = []\<rparr>" empty_db "''mqtt''"]
  by simp

text \<open>Changing a device's driver does not check its tags.  A device that has a register tag can be saved
  with the OPC UA driver: the tag stays listed although it breaks the rules of that driver, and
  saving it again as it is would be refused.\<close>

theorem driver_change_leaves_invalid_tags:
  assumes "db_inv s" "dget (db_devices s) j = Some d" "t \<in> set (list_tags j s)" "tag_ok ''modbus_tcp'' t"
    and "int64 j" "int64 (dev_poll_interval_ms d)"
  shows "\<exists>s'. save_device (d\<lparr>dev_driver_type := ''opcua''\<rparr>) s = Inr (j, s') \<and> t \<in> set (list_tags j s') \<and>
    dget (db_devices s') j = Some (d\<lparr>dev_driver_type := ''opcua''\<rparr>) \<and> (\<exists>e. save_tag t s' = Inl e)"
proof -
  have d: "dev_id d = Some j" "validate_device d = Inr ()"
    using assms(1,2) table_ok_dget [of device_row] by (auto simp: db_inv_def device_row_def)
  then have v: "validate_device (d\<lparr>dev_driver_type := ''opcua''\<rparr>) = Inr ()"
    by (auto simp: validate_device_def value_error_def str_simps split: if_splits)
  let ?s = "s\<lparr>db_devices := dset j (d\<lparr>dev_driver_type := ''opcua''\<rparr>) (db_devices s)\<rparr>"
  have sv: "save_device (d\<lparr>dev_driver_type := ''opcua''\<rparr>) s = Inr (j, ?s)"
    using v d assms by (simp add: save_device_def opt_int64_def)
  have "\<not> tag_ok ''opcua'' t" using assms(4) by (auto simp: tag_ok_def modbus_functions_def)
  moreover have "tag_device_id t = Some j" using assms(3) by (auto simp: list_tags_def)
  ultimately have "save_tag t ?s \<noteq> Inr (i, s')" for i s'
    by (auto dest!: save_tag_driver)
  then have "\<exists>e. save_tag t ?s = Inl e" by (cases "save_tag t ?s") auto
  with sv assms(3) show ?thesis by (intro exI [of _ ?s]) (simp add: list_tags_def)
qed

lemma driver_change_leaves_invalid_tags_witness:
  "\<exists>s'. save_device ((sample_device [])\<lparr>dev_driver_type := ''opcua''\<rparr>) plant_with_tag = Inr (7, s') \<and>
    flow_spec\<lparr>tag_id := Some 1\<rparr> \<in> set (list_tags 7 s') \<and>
    dget (db_devices s') 7 = Some ((sample_device [])\<lparr>dev_driver_type := ''opcua''\<rparr>) \<and>
    (\<exists>e. save_tag (flow_spec\<lparr>tag_id := Some 1\<rparr>) s' = Inl e)"
  by (rule driver_change_leaves_invalid_tags [OF plant_inv(1)])
    (use flow_spec_ok in \<open>simp_all add: plant_with_tag_def plant_db_def list_tags_def dvalues_def tag_ok_def
      int64_def sample_device_def\<close>, simp_all add: flow_spec_def new_tag_def)

end
