(* ===== verification/Config_Service_Props.thy ===== *)
theory Config_Service_Props
  imports Config_Service Store_Props
begin

text \<open>
  What the configuration service promises for devices, tags and plugins: payloads round trip, a normalised
  connection has exactly the fields of its driver, a failed request leaves the database as it was, and a request
  that succeeds answers with what the database then holds.

  \<open>keeps\<close> is the calculus for invariants of operations on the database, \<open>atomic\<close> the one for requests
  that either succeed or change nothing.
\<close>

named_theorems svc_simps \<open>evaluation of service operations\<close>

lemma svc_basic [simp, svc_simps]:
  "sret x s = (Inr x, s)" "sfrom r s = (r, s)" "sread f s = (Inr (f s), s)"
  by (simp_all add: sret_def sfrom_def sread_def)

lemma sbind_Inr [svc_simps]: "m s = (Inr x, s') \<Longrightarrow> sbind m f s = f x s'"
  by (simp add: sbind_def)

lemma sbind_Inl [svc_simps]: "m s = (Inl e, s') \<Longrightarrow> sbind m f s = (Inl e, s')"
  by (simp add: sbind_def)

lemma sbind_cases:
  assumes "sbind m f s = (r, s')"
  obtains e where "m s = (Inl e, s')" "r = Inl e" | x s1 where "m s = (Inr x, s1)" "f x s1 = (r, s')"
  using assms by (auto simp: sbind_def split: prod.splits sum.splits)

lemma sfrom_bind [svc_simps]: "sbind (sfrom r) f s = (case r of Inl e \<Rightarrow> (Inl e, s) | Inr x \<Rightarrow> f x s)"
  by (simp add: sbind_def split: sum.split)

lemma sread_bind [svc_simps]: "sbind (sread g) f s = f (g s) s"
  by (simp add: sbind_def)

lemma swrite_bind [svc_simps]:
  "sbind (swrite g) f s = (case g s of Inl e \<Rightarrow> (Inl e, s) | Inr (x, s') \<Rightarrow> f x s')"
  by (simp add: sbind_def swrite_def split: sum.split)

section \<open>Invariants of operations\<close>

definition keeps :: "(db \<Rightarrow> bool) \<Rightarrow> 'a svc \<Rightarrow> bool" where
  "keeps P m \<longleftrightarrow> (\<forall>s. P s \<longrightarrow> P (snd (m s)))"

lemma keeps_pure [intro]: "keeps P (sret x)" "keeps P (sfrom r)" "keeps P (sread g)"
  by (simp_all add: keeps_def)

lemma keeps_sbind [intro]: "keeps P m \<Longrightarrow> (\<And>x. keeps P (f x)) \<Longrightarrow> keeps P (sbind m f)"
  by (auto simp: keeps_def sbind_def split: prod.splits sum.splits)

lemma keeps_swrite [intro]: "(\<And>s x s'. P s \<Longrightarrow> g s = Inr (x, s') \<Longrightarrow> P s') \<Longrightarrow> keeps P (swrite g)"
  by (auto simp: keeps_def swrite_def split: sum.splits)

lemma keeps_sdo [intro]: "(\<And>s s'. P s \<Longrightarrow> g s = Inr s' \<Longrightarrow> P s') \<Longrightarrow> keeps P (sdo g)"
  unfolding sdo_def by (rule keeps_swrite) (auto simp: rbind_Inr_iff)

lemma keeps_let: "(\<And>x. x = v \<Longrightarrow> keeps P (f x)) \<Longrightarrow> keeps P (let x = v in f x)"
  by simp

lemma get_device_state [simp]: "snd (cfg_get_device i s) = s"
  by (simp add: cfg_get_device_def split: list.split)

lemma get_tag_state [simp]: "snd (cfg_get_tag i s) = s"
  by (simp add: cfg_get_tag_def split: list.split)

lemma keeps_get [intro]: "keeps P (cfg_get_device i)" "keeps P (cfg_get_tag i)" "keeps P (cfg_get_sink_config t)"
  by (simp_all add: keeps_def cfg_get_sink_config_def)

lemma db_reachable_step: "db_reachable s \<Longrightarrow> db_step s s' \<Longrightarrow> db_reachable s'"
  by (rule db_reachable.intros)

lemma keeps_store_ops [intro]:
  "keeps db_reachable (swrite (save_device d))" "keeps db_reachable (swrite (save_tag t))"
  "keeps db_reachable (swrite (save_output_route r))" "keeps db_reachable (sdo (delete_device i))"
  "keeps db_reachable (sdo (delete_tag i))" "keeps db_reachable (sdo (delete_output_route i))"
  "keeps db_reachable (swrite (\<lambda>s. Inr ((), save_sink_config k s)))"
  by (rule keeps_swrite keeps_sdo, erule db_reachable_step, auto intro: db_step.intros)+

lemma service_keeps_reachable:
  "keeps db_reachable (cfg_create_device p)" "keeps db_reachable (cfg_update_device i p)"
  "keeps db_reachable (cfg_delete_device i)" "keeps db_reachable (cfg_create_tag i p)"
  "keeps db_reachable (cfg_update_tag i p)" "keeps db_reachable (cfg_delete_tag i)"
  "keeps db_reachable (cfg_save_sink_config p)"
  unfolding cfg_create_device_def cfg_update_device_def cfg_delete_device_def cfg_create_tag_def
      cfg_update_tag_def cfg_delete_tag_def cfg_save_sink_config_def Let_def
  by (intro keeps_sbind keeps_get keeps_store_ops keeps_pure)+

section \<open>Lookup\<close>

lemma filter_singleton: "distinct (map f xs) \<Longrightarrow> x \<in> set xs \<Longrightarrow> filter (\<lambda>y. f y = f x) xs = [x]"
  by (induction xs) (auto simp: filter_empty_conv, metis image_eqI)

lemma distinct_map_sort: "distinct (map f (sort_key g xs)) = distinct (map f xs)"
proof -
  have "mset (map f (sort_key g xs)) = mset (map f xs)" by simp
  then show ?thesis using mset_eq_imp_distinct_iff by blast
qed

lemma row_values:
  assumes "table_ok P n t" "\<And>i x. P i x \<Longrightarrow> f x = Some i"
  shows "distinct (map f (dvalues t))" "dget t i = Some x \<longleftrightarrow> x \<in> set (dvalues t) \<and> f x = Some i"
proof -
  have e: "map f (dvalues t) = map Some (map fst t)"
    using assms by (force simp: table_ok_def list_all_iff dvalues_def)
  show "distinct (map f (dvalues t))" unfolding e using assms(1)
    by (auto simp: table_ok_def dwf_def distinct_map inj_on_def)
  have w: "dwf t" using assms(1) by (simp add: table_ok_def)
  show "dget t i = Some x \<longleftrightarrow> x \<in> set (dvalues t) \<and> f x = Some i"
  proof
    assume "dget t i = Some x"
    then show "x \<in> set (dvalues t) \<and> f x = Some i"
      using table_ok_dget [OF assms(1)] assms(2) dget_in_set by (force simp: dvalues_def)
  next
    assume a: "x \<in> set (dvalues t) \<and> f x = Some i"
    then obtain j where j: "(j, x) \<in> set t" by (auto simp: dvalues_def)
    then have "dget t j = Some x" using w by (simp add: dget_of_member)
    moreover from this have "j = i" using table_ok_dget [OF assms(1)] assms(2) a by fastforce
    ultimately show "dget t i = Some x" by simp
  qed
qed

lemma device_rows:
  assumes "db_inv s"
  shows "distinct (map dev_id (list_devices s))"
    "dget (db_devices s) i = Some d \<longleftrightarrow> d \<in> set (list_devices s) \<and> dev_id d = Some i"
proof -
  have t: "table_ok device_row (db_next_device s) (db_devices s)" using assms by (simp add: db_inv_def)
  note r = row_values [OF t, of dev_id]
  show "distinct (map dev_id (list_devices s))"
    using r(1) by (simp add: list_devices_def distinct_map_sort device_row_def)
  show "dget (db_devices s) i = Some d \<longleftrightarrow> d \<in> set (list_devices s) \<and> dev_id d = Some i"
    using r(2) by (simp add: list_devices_def device_row_def)
qed

lemma tag_rows:
  assumes "db_inv s"
  shows "distinct (map tag_id (dvalues (db_tags s)))"
    "dget (db_tags s) i = Some t \<longleftrightarrow> t \<in> set (dvalues (db_tags s)) \<and> tag_id t = Some i"
proof -
  have t: "table_ok (tag_row (db_devices s)) (db_next_tag s) (db_tags s)" using assms by (simp add: db_inv_def)
  note r = row_values [OF t, of tag_id]
  show "distinct (map tag_id (dvalues (db_tags s)))" using r(1) by (simp add: tag_row_def)
  show "dget (db_tags s) i = Some t \<longleftrightarrow> t \<in> set (dvalues (db_tags s)) \<and> tag_id t = Some i"
    using r(2) by (simp add: tag_row_def)
qed

lemma get_device_found:
  assumes "db_inv s" "dget (db_devices s) i = Some d"
  shows "cfg_get_device i s = (Inr (device_to_dict d), s)"
proof -
  have d: "d \<in> set (list_devices s)" "dev_id d = Some i" using assms device_rows(2) by auto
  then have "filter (\<lambda>y. dev_id y = Some i) (list_devices s) = [d]"
    using filter_singleton [OF device_rows(1) [OF assms(1)] d(1)] by simp
  then show ?thesis by (simp add: cfg_get_device_def)
qed

lemma get_device_missing:
  assumes "db_inv s" "dget (db_devices s) i = None"
  shows "cfg_get_device i s = (key_error (''device not found: '' @ show_int i), s)"
proof -
  have "filter (\<lambda>y. dev_id y = Some i) (list_devices s) = []"
    using device_rows(2) [OF assms(1), of i] assms(2) by (auto simp: filter_empty_conv)
  then show ?thesis by (simp add: cfg_get_device_def)
qed

text \<open>Every stored tag is listed exactly once over all devices.\<close>

lemma all_tags_mset:
  assumes "db_inv s"
  shows "mset (all_tags s) = mset (dvalues (db_tags s))"
proof -
  have cover: "(\<Sum>d\<leftarrow>ds. filter_mset (\<lambda>t. tag_device_id t = dev_id d) M) =
      filter_mset (\<lambda>t. \<exists>d\<in>set ds. tag_device_id t = dev_id d) M"
    if "distinct (map dev_id ds)" for ds :: "device_spec list" and M
    using that
  proof (induction ds)
    case (Cons d ds)
    have "filter_mset (\<lambda>t. tag_device_id t = dev_id d) M +
        filter_mset (\<lambda>t. \<exists>d\<in>set ds. tag_device_id t = dev_id d) M =
        filter_mset (\<lambda>t. \<exists>d\<in>set (d # ds). tag_device_id t = dev_id d) M"
      using Cons.prems by (intro multiset_eqI) (auto simp: image_iff)
    then show ?case using Cons by simp
  qed simp
  have id: "dev_id d = Some (id_or_zero d)" if "d \<in> set (list_devices s)" for d
  proof -
    have "d \<in> set (dvalues (db_devices s))" using that by (simp add: list_devices_def)
    then show ?thesis using assms
      by (auto simp: db_inv_def table_ok_def list_all_iff device_row_def id_or_zero_def dvalues_def)
  qed
  have "mset (all_tags s) = (\<Sum>d\<leftarrow>list_devices s. mset (list_tags (id_or_zero d) s))"
    by (simp add: all_tags_def mset_concat comp_def)
  also have "\<dots> = (\<Sum>d\<leftarrow>list_devices s. filter_mset (\<lambda>t. tag_device_id t = dev_id d) (mset (dvalues (db_tags s))))"
    using id by (intro arg_cong [where f = sum_list] map_cong refl) (simp add: list_tags_def)
  also have "\<dots> = mset (dvalues (db_tags s))"
    unfolding cover [OF device_rows(1) [OF assms]]
  proof (rule filter_mset_eq_conv [THEN iffD2], intro conjI ballI)
    fix t assume "t \<in># mset (dvalues (db_tags s))"
    then obtain j where "tag_device_id t = Some j" "dget (db_devices s) j \<noteq> None"
      using assms by (auto simp: db_inv_def table_ok_def list_all_iff tag_row_def dvalues_def)
    then show "\<exists>d\<in>set (list_devices s). tag_device_id t = dev_id d"
      using device_rows(2) [OF assms, of j] by (metis option.exhaust)
  qed simp_all
  finally show ?thesis .
qed

lemma get_tag_found:
  assumes "db_inv s" "dget (db_tags s) i = Some t"
  shows "cfg_get_tag i s = (Inr (tag_to_dict t), s)"
proof -
  have t: "t \<in> set (all_tags s)" "tag_id t = Some i"
    using assms tag_rows(2) all_tags_mset [OF assms(1)] by (auto dest: mset_eq_setD)
  have "distinct (map tag_id (all_tags s))"
    using tag_rows(1) [OF assms(1)] all_tags_mset [OF assms(1)] by (metis mset_eq_imp_distinct_iff mset_map)
  then have "filter (\<lambda>y. tag_id y = Some i) (all_tags s) = [t]" using filter_singleton t by metis
  then show ?thesis by (simp add: cfg_get_tag_def)
qed

lemma get_tag_Inr:
  assumes "db_inv s" "cfg_get_tag i s = (Inr p, s1)"
  obtains t where "dget (db_tags s) i = Some t" "p = tag_to_dict t" "s1 = s"
proof -
  obtain t ts where t: "filter (\<lambda>t. tag_id t = Some i) (all_tags s) = t # ts" "p = tag_to_dict t" "s1 = s"
    using assms(2) by (auto simp: cfg_get_tag_def key_error_def split: list.splits)
  then have "t \<in> set (all_tags s)" "tag_id t = Some i" by (auto simp: filter_eq_Cons_iff)
  then have "dget (db_tags s) i = Some t"
    using tag_rows(2) [OF assms(1)] mset_eq_setD [OF all_tags_mset [OF assms(1)]] by auto
  then show thesis using t that by blast
qed

lemma get_device_Inr:
  assumes "db_inv s" "cfg_get_device i s = (Inr p, s1)"
  obtains d where "dget (db_devices s) i = Some d" "p = device_to_dict d" "s1 = s"
  using assms get_device_found [OF assms(1), of i] get_device_missing [OF assms(1), of i]
  by (cases "dget (db_devices s) i") (auto simp: key_error_def)

section \<open>Requests that change nothing when they fail\<close>

definition readonly :: "'a svc \<Rightarrow> bool" where
  "readonly m \<longleftrightarrow> (\<forall>s. snd (m s) = s)"

definition atomic :: "(db \<Rightarrow> bool) \<Rightarrow> 'a svc \<Rightarrow> bool" where
  "atomic P m \<longleftrightarrow> (\<forall>s e s'. P s \<longrightarrow> m s = (Inl e, s') \<longrightarrow> s' = s)"

lemma readonly_intro [intro]:
  "readonly (sret x)" "readonly (sfrom r)" "readonly (sread g)" "readonly (cfg_get_device i)"
  "readonly (cfg_get_tag j)" "readonly (cfg_get_sink_config t)"
  by (simp_all add: readonly_def cfg_get_sink_config_def)

lemma atomic_readonly [intro]: "readonly m \<Longrightarrow> atomic P m"
  by (metis atomic_def readonly_def snd_conv)

lemma atomic_bind: "readonly m \<Longrightarrow> (\<And>x. atomic P (f x)) \<Longrightarrow> atomic P (sbind m f)"
  unfolding atomic_def readonly_def by (metis (no_types, lifting) sbind_cases snd_conv)

lemma atomic_guard:
  "readonly m \<Longrightarrow> (\<And>x s. P s \<Longrightarrow> m s = (Inr x, s) \<Longrightarrow> Q s) \<Longrightarrow> (\<And>s. Q s \<Longrightarrow> P s) \<Longrightarrow>
   (\<And>x. atomic Q (f x)) \<Longrightarrow> atomic P (sbind m f)"
  unfolding atomic_def readonly_def by (metis (no_types, lifting) sbind_cases snd_conv)

lemma atomic_write:
  "(\<And>s x s'. P s \<Longrightarrow> g s = Inr (x, s') \<Longrightarrow> \<exists>y. fst (f x s') = Inr y) \<Longrightarrow> atomic P (sbind (swrite g) f)"
  unfolding atomic_def swrite_bind by (auto split: sum.splits prod.splits) (metis Inl_Inr_False fst_conv)+

lemma atomic_sdo [intro]: "atomic P (sdo g)"
  by (auto simp: atomic_def sdo_def swrite_def rbind_Inr_iff rbind_Inl_iff split: sum.splits)

lemma saved_device:
  assumes "db_inv s" "save_device d s = Inr (i, s')" "dev_id d = None \<or> dget (db_devices s) i \<noteq> None"
  shows "dget (db_devices s') i = Some (d\<lparr>dev_id := Some i\<rparr>)"
  using assms(2)
proof (cases rule: save_device_cases)
  case new
  moreover have "dget (db_devices s) (db_next_device s) = None"
    using assms(1) table_ok_dget [of device_row "db_next_device s" "db_devices s" "db_next_device s"]
    by (cases "dget (db_devices s) (db_next_device s)") (auto simp: db_inv_def)
  ultimately show ?thesis by (simp add: dget_append)
next
  case old
  moreover from this have "d\<lparr>dev_id := Some i\<rparr> = d" by simp
  ultimately show ?thesis by simp
qed (use assms(3) in auto)

lemma saved_tag:
  assumes "db_inv s" "save_tag t s = Inr (i, s')" "tag_id t = None \<or> dget (db_tags s) i \<noteq> None"
  shows "dget (db_tags s') i = Some (t\<lparr>tag_id := Some i\<rparr>)"
proof -
  have w: "(i, s') = write_tag t s" using assms(2) by (rule save_tag_cases)
  show ?thesis
  proof (cases "tag_id t")
    case None
    moreover have "dget (db_tags s) (db_next_tag s) = None"
      using assms(1) table_ok_dget [of "tag_row (db_devices s)" "db_next_tag s" "db_tags s" "db_next_tag s"]
      by (cases "dget (db_tags s) (db_next_tag s)") (auto simp: db_inv_def)
    ultimately show ?thesis using w by (simp add: write_tag_def Let_def dget_append)
  next
    case (Some k)
    moreover from this have "t\<lparr>tag_id := Some k\<rparr> = t" by simp
    ultimately show ?thesis using w assms(3) by (auto simp: write_tag_def)
  qed
qed

lemma from_payload_id:
  "device_from_payload i p = Inr d \<Longrightarrow> dev_id d = i" "tag_from_payload i j p = Inr t \<Longrightarrow> tag_id t = i"
  by (auto simp: device_from_payload_def tag_from_payload_def rbind_Inr_iff)

lemma atomic_sfrom: "(\<And>x. r = Inr x \<Longrightarrow> atomic P (f x)) \<Longrightarrow> atomic P (sbind (sfrom r) f)"
  by (auto simp: atomic_def sfrom_bind split: sum.splits)

lemma saved_device_answers:
  assumes "db_inv s" "save_device d s = Inr (i, s')" "dev_id d = None \<or> dget (db_devices s) i \<noteq> None"
  shows "cfg_get_device i s' = (Inr (device_to_dict (d\<lparr>dev_id := Some i\<rparr>)), s')"
  using get_device_found [OF save_device_inv [OF assms(1,2)] saved_device [OF assms]] .

lemma saved_tag_answers:
  assumes "db_inv s" "save_tag t s = Inr (i, s')" "tag_id t = None \<or> dget (db_tags s) i \<noteq> None"
  shows "cfg_get_tag i s' = (Inr (tag_to_dict (t\<lparr>tag_id := Some i\<rparr>)), s')"
  using get_tag_found [OF save_tag_inv [OF assms(1,2)] saved_tag [OF assms]] .

lemma save_device_same_id: "save_device d s = Inr (i, s') \<Longrightarrow> dev_id d = Some j \<Longrightarrow> i = j"
  by (erule save_device_cases) auto

lemma save_tag_same_id: "save_tag t s = Inr (i, s') \<Longrightarrow> tag_id t = Some j \<Longrightarrow> i = j"
  by (erule save_tag_cases) (simp add: write_tag_def)

lemma create_device_atomic: "atomic db_inv (cfg_create_device p)"
  unfolding cfg_create_device_def
  by (intro atomic_sfrom atomic_write) (use saved_device_answers from_payload_id(1) in fastforce)

lemma update_device_atomic: "atomic db_inv (cfg_update_device i p)"
  unfolding cfg_update_device_def
proof (rule atomic_guard [where Q = "\<lambda>s. db_inv s \<and> dget (db_devices s) i \<noteq> None"])
  show "db_inv s \<and> dget (db_devices s) i \<noteq> None" if "db_inv s" "cfg_get_device i s = (Inr x, s)" for x s
    using that get_device_Inr by (metis option.distinct(1))
  show "atomic (\<lambda>s. db_inv s \<and> dget (db_devices s) i \<noteq> None)
      (sbind (sfrom (device_from_payload (Some i) p)) (\<lambda>d. sbind (swrite (save_device d)) (\<lambda>_. cfg_get_device i)))" for x :: settings
  proof (intro atomic_sfrom atomic_write)
    fix d s j s'
    assume d: "device_from_payload (Some i) p = Inr d" and s: "db_inv s \<and> dget (db_devices s) i \<noteq> None"
      and sv: "save_device d s = Inr (j, s')"
    have j: "j = i" using save_device_same_id [OF sv] from_payload_id(1) [OF d] by simp
    have "dev_id d = None \<or> dget (db_devices s) j \<noteq> None" using s j by blast
    then show "\<exists>y. fst (cfg_get_device i s') = Inr y" using saved_device_answers [OF _ sv] s j by auto
  qed
qed auto

lemma delete_device_atomic: "atomic db_inv (cfg_delete_device i)"
  unfolding cfg_delete_device_def by (intro atomic_bind atomic_sdo) auto

lemma create_tag_atomic: "atomic db_inv (cfg_create_tag i p)"
  unfolding cfg_create_tag_def
proof (rule atomic_bind, blast, intro atomic_sfrom atomic_write)
  fix t s j s'
  assume t: "tag_from_payload None i p = Inr t" and s: "db_inv s" and sv: "save_tag t s = Inr (j, s')"
  have "tag_id t = None" using from_payload_id(2) [OF t] .
  then show "\<exists>y. fst (cfg_get_tag j s') = Inr y" using saved_tag_answers [OF s sv] by simp
qed

lemma update_tag_atomic: "atomic db_inv (cfg_update_tag i p)"
  unfolding cfg_update_tag_def
proof (rule atomic_guard [where Q = "\<lambda>s. db_inv s \<and> dget (db_tags s) i \<noteq> None"])
  show "db_inv s \<and> dget (db_tags s) i \<noteq> None" if "db_inv s" "cfg_get_tag i s = (Inr x, s)" for x s
    using that get_tag_Inr by (metis option.distinct(1))
  fix x :: settings
  show "atomic (\<lambda>s. db_inv s \<and> dget (db_tags s) i \<noteq> None)
     (sbind (sfrom (py_int (or_val (item_get p ''device_id'') (item_get x ''device_id'')))) (\<lambda>device_id.
      sbind (sfrom (tag_from_payload (Some i) device_id p)) (\<lambda>t. sbind (swrite (save_tag t)) (\<lambda>_. cfg_get_tag i))))"
  proof (intro atomic_sfrom atomic_write)
    fix device t s j s'
    assume t: "tag_from_payload (Some i) device p = Inr t" and s: "db_inv s \<and> dget (db_tags s) i \<noteq> None"
      and sv: "save_tag t s = Inr (j, s')"
    have j: "j = i" using save_tag_same_id [OF sv] from_payload_id(2) [OF t] by simp
    then have "tag_id t = None \<or> dget (db_tags s) j \<noteq> None" using s by blast
    then show "\<exists>y. fst (cfg_get_tag i s') = Inr y" using saved_tag_answers [OF _ sv] s j by auto
  qed
qed auto

lemma delete_tag_atomic: "atomic db_inv (cfg_delete_tag i)"
  unfolding cfg_delete_tag_def by (intro atomic_bind atomic_sdo) auto

lemma save_sink_config_atomic: "atomic db_inv (cfg_save_sink_config p)"
  unfolding cfg_save_sink_config_def Let_def
  by (intro atomic_sfrom atomic_write) (auto simp: cfg_get_sink_config_def)

lemmas requests_atomic = create_device_atomic update_device_atomic delete_device_atomic create_tag_atomic
  update_tag_atomic delete_tag_atomic save_sink_config_atomic

section \<open>Payloads and normal forms\<close>

text \<open>A tag survives its payload.  The dictionary a client receives for a tag, sent back for the same tag and
  device, is read as exactly that tag.\<close>

theorem tag_payload_roundtrip:
  assumes "tag_device_id t = Some j" "tag_node_id t \<noteq> Some []"
  shows "tag_from_payload (tag_id t) j (tag_to_dict t) = Inr t"
proof -
  have i: "optional_int (int_val v) = Inr v" for v
    by (cases v) (simp_all add: optional_int_def int_val_def blank_def)
  have n: "optional_text (str_val v) = Inr v" if "v \<noteq> Some []" for v
    using that by (cases v) (simp_all add: optional_text_def str_val_def)
  show ?thesis using assms
    by (simp add: tag_from_payload_def tag_to_dict_def item_req_def item_get_def i n)
qed

lemma tag_payload_roundtrip_witness:
  "tag_from_payload (tag_id flow_spec) 7 (tag_to_dict flow_spec) = Inr flow_spec"
  by (rule tag_payload_roundtrip) (simp_all add: flow_spec_def new_tag_def)

text \<open>The keys of a connection in normal form.\<close>

definition connection_normal :: "string \<Rightarrow> settings \<Rightarrow> bool" where
  "connection_normal dt c \<longleftrightarrow> map fst c = map cf_key (connection_fields_for_driver dt)"

lemma get_or_zip:
  "distinct (map f xs) \<Longrightarrow> x \<in> set xs \<Longrightarrow> get_or (map (\<lambda>x. (f x, g x)) xs) (f x) v = g x"
  by (induction xs) auto

lemma normalize_fixpoint:
  assumes "connection_normal dt c"
  shows "normalize_connection_for_driver dt (VDict c) = Inr c"
proof -
  let ?fs = "connection_fields_for_driver dt"
  have len: "length c = length ?fs" using assms by (metis connection_normal_def length_map)
  have d: "distinct (map fst c)" using assms distinct_connection_keys [of dt] by (simp add: connection_normal_def)
  have "(cf_key (?fs ! n), get_or c (cf_key (?fs ! n)) (cf_default (?fs ! n))) = c ! n" if "n < length c" for n
  proof -
    have k: "fst (c ! n) = cf_key (?fs ! n)"
      using assms that len by (metis connection_normal_def nth_map)
    have "dget c (fst (c ! n)) = Some (snd (c ! n))" using d that by (intro dget_of_member) (simp_all add: dwf_def)
    then show ?thesis using k by (simp add: get_or_def prod_eq_iff)
  qed
  then have "map (\<lambda>f. (cf_key f, get_or c (cf_key f) (cf_default f))) ?fs = c"
    using len by (intro nth_equalityI) simp_all
  then show ?thesis by (simp add: normalize_connection_dict)
qed

lemma normalize_normal: "normalize_connection_for_driver dt (VDict d) = Inr c \<Longrightarrow> connection_normal dt c"
  by (auto simp: normalize_connection_dict connection_normal_def)

end
