(* ===== verification/Output_Routes_Props.thy ===== *)
theory Output_Routes_Props
  imports Output_Routes Config_Service_Props "HOL-Library.Sublist"
begin

text \<open>
  What the routes of the configuration service promise: the normal form of a route's settings is typed and a
  fixed point of normalisation, topics received for a route stay under \<^verbatim>\<open>C-S/\<close>, and resolving changes
  the settings of one route only.
\<close>

section \<open>The type of a route's settings\<close>

definition tidy :: "string \<Rightarrow> bool" where
  "tidy s \<longleftrightarrow> s \<noteq> [] \<and> py_strip s = s"

definition route_value_ok :: "string \<Rightarrow> pyval \<Rightarrow> bool" where
  "route_value_ok k v =
     (if k = ''route_kind'' then v = VStr ''system_heartbeat''
      else if k = ''heartbeat_interval_s'' then (case v of VInt i \<Rightarrow> 1 \<le> i | _ \<Rightarrow> False)
      else if k = ''resolved_sensor_count'' then (case v of VInt i \<Rightarrow> True | _ \<Rightarrow> False)
      else if k = ''dynamic_topic_enabled'' then v = VBool True
      else k \<in> {''sensor_code'', ''topic'', ''mac_address'', ''resolved_topic'', ''resolved_error'', ''resolved_at''} \<and>
        (case v of VStr s \<Rightarrow> tidy s | _ \<Rightarrow> False))"

definition route_settings_ok :: "settings \<Rightarrow> bool" where
  "route_settings_ok c \<longleftrightarrow> dwf c \<and> list_all (\<lambda>(k, v). route_value_ok k v) c \<and>
     (dget c ''route_kind'' = None \<longleftrightarrow> dget c ''sensor_code'' = None) \<and>
     (dget c ''route_kind'' = None \<longrightarrow> dget c ''heartbeat_interval_s'' = None)"

lemma item_get_simps [simp]:
  "item_get [] k = VNone" "item_get ((k', v) # d) k = (if k' = k then v else item_get d k)"
  by (simp_all add: item_get_def)

lemma text_setting_tidy: "text_setting config p k d \<noteq> [] \<Longrightarrow> tidy (text_setting config p k d)"
  by (simp add: text_setting_def tidy_def)

lemma text_entry_cases:
  obtains "text_entry config p k = []" "text_setting config p k [] = []"
  | s where "text_entry config p k = [(k, VStr s)]" "tidy s" "text_setting config p k [] = s"
proof (cases "text_setting config p k [] = []")
  case True
  then show thesis by (intro that(1)) (simp_all add: text_entry_def)
next
  case False
  then show thesis using text_setting_tidy [OF False] by (intro that(2)) (simp_all add: text_entry_def)
qed

lemma py_strip_system: "py_strip ''SYSTEM'' = ''SYSTEM''"
  by (simp add: str_simps)

lemma system_entries_cases:
  assumes "system_entries config p = Inr e"
  obtains "e = []" "text_setting config p ''route_kind'' ''data'' \<noteq> ''system_heartbeat''"
  | sensor h where "e = [(''route_kind'', VStr ''system_heartbeat''), (''sensor_code'', VStr sensor)] @ h" "tidy sensor"
      "heartbeat_entry config p = Inr h" "text_setting config p ''route_kind'' ''data'' = ''system_heartbeat''"
      "sensor = (if text_setting config p ''sensor_code'' ''SYSTEM'' = [] then ''SYSTEM'' else text_setting config p ''sensor_code'' ''SYSTEM'')"
proof -
  have "tidy (if text_setting config p ''sensor_code'' ''SYSTEM'' = [] then ''SYSTEM'' else text_setting config p ''sensor_code'' ''SYSTEM'')"
    using text_setting_tidy [of config p "''sensor_code''" "''SYSTEM''"] py_strip_system by (auto simp: tidy_def)
  then show thesis using assms that
    by (auto simp: system_entries_def Let_def rbind_Inr_iff split: if_splits)
qed

lemma heartbeat_entry_cases:
  assumes "heartbeat_entry config p = Inr h"
  obtains "h = []" "blank (own_or_given config p ''heartbeat_interval_s'')"
  | x i where "h = [(''heartbeat_interval_s'', VInt (max 1 i))]"
      "py_float (own_or_given config p ''heartbeat_interval_s'') = Inr x" "py_int (VFloat x) = Inr i"
  using assms that by (auto simp: heartbeat_entry_def Let_def rbind_Inr_iff split: if_splits)

lemma count_entry_cases:
  assumes "count_entry config p = Inr e"
  obtains "e = []" "blank (own_or_given config p ''resolved_sensor_count'')" | i where "e = [(''resolved_sensor_count'', VInt i)]"
  using assms that by (auto simp: count_entry_def Let_def rbind_Inr_iff split: if_splits)

text \<open>The shape of a result: which entries, in which order.\<close>

definition dynamic_entry :: "settings \<Rightarrow> settings \<Rightarrow> settings" where
  "dynamic_entry config p =
     (if csv_bool (dynamic_setting config p) False then [(''dynamic_topic_enabled'', VBool True)] else [])"

lemma route_config_Inr:
  assumes "route_config p = Inr c"
  obtains config system count where "settings_of (or_val (item_get p ''config'') (VDict [])) = Inr config"
    "system_entries config p = Inr system" "count_entry config p = Inr count"
    "c = system @ text_entry config p ''topic'' @ dynamic_entry config p @ text_entry config p ''mac_address'' @
       text_entry config p ''resolved_topic'' @ count @ text_entry config p ''resolved_error'' @
       text_entry config p ''resolved_at''"
  using assms that by (auto simp: route_config_def rbind_Inr_iff dynamic_entry_def)

lemma entries_dget:
  "dget (text_entry config p k) k' =
     (if k = k' \<and> text_setting config p k [] \<noteq> [] then Some (VStr (text_setting config p k [])) else None)"
  "dget (dynamic_entry config p) k' =
     (if k' = ''dynamic_topic_enabled'' \<and> csv_bool (dynamic_setting config p) False then Some (VBool True) else None)"
  by (auto simp: text_entry_def dynamic_entry_def Let_def)

lemma entries_ok:
  "list_all (\<lambda>(k, v). route_value_ok k v) (text_entry config p ''topic'')"
  "list_all (\<lambda>(k, v). route_value_ok k v) (text_entry config p ''mac_address'')"
  "list_all (\<lambda>(k, v). route_value_ok k v) (text_entry config p ''resolved_topic'')"
  "list_all (\<lambda>(k, v). route_value_ok k v) (text_entry config p ''resolved_error'')"
  "list_all (\<lambda>(k, v). route_value_ok k v) (text_entry config p ''resolved_at'')"
  "list_all (\<lambda>(k, v). route_value_ok k v) (dynamic_entry config p)"
  "system_entries config p = Inr e \<Longrightarrow> list_all (\<lambda>(k, v). route_value_ok k v) e"
  "count_entry config p = Inr e \<Longrightarrow> list_all (\<lambda>(k, v). route_value_ok k v) e"
  using text_setting_tidy
  by (auto simp: text_entry_def dynamic_entry_def route_value_ok_def Let_def
      elim!: system_entries_cases heartbeat_entry_cases count_entry_cases)

lemma subseq_distinct: "subseq xs ys \<Longrightarrow> distinct ys \<Longrightarrow> distinct xs"
  by (auto simp: subseq_conv_nths intro: distinct_nthsI)

text \<open>The keys come in a fixed order, each at most once.\<close>

definition route_keys :: "string list" where
  "route_keys = [''route_kind'', ''sensor_code'', ''heartbeat_interval_s''] @ [''topic''] @ [''dynamic_topic_enabled''] @
     [''mac_address''] @ [''resolved_topic''] @ [''resolved_sensor_count''] @ [''resolved_error''] @ [''resolved_at'']"

lemma entry_keys:
  "subseq (map fst (text_entry config p k)) [k]"
  "subseq (map fst (dynamic_entry config p)) [''dynamic_topic_enabled'']"
  "system_entries config p = Inr e \<Longrightarrow> subseq (map fst e) [''route_kind'', ''sensor_code'', ''heartbeat_interval_s'']"
  "count_entry config p = Inr e \<Longrightarrow> subseq (map fst e) [''resolved_sensor_count'']"
  by (auto simp: text_entry_def dynamic_entry_def Let_def
      elim!: system_entries_cases heartbeat_entry_cases count_entry_cases)

lemma route_config_keys:
  assumes "route_config p = Inr c"
  shows "subseq (map fst c) route_keys" "dwf c"
proof -
  show keys: "subseq (map fst c) route_keys"
    using assms
  proof (rule route_config_Inr)
    fix config system count
    assume sys: "system_entries config p = Inr system" and cnt: "count_entry config p = Inr count"
      and c: "c = system @ text_entry config p ''topic'' @ dynamic_entry config p @ text_entry config p ''mac_address'' @
         text_entry config p ''resolved_topic'' @ count @ text_entry config p ''resolved_error'' @ text_entry config p ''resolved_at''"
    show ?thesis unfolding c route_keys_def map_append
      by (intro list_emb_append_mono entry_keys [of config p] entry_keys(3) [OF sys] entry_keys(4) [OF cnt])
  qed
  have "distinct route_keys" by (simp add: route_keys_def)
  then show "dwf c" using keys subseq_distinct by (auto simp: dwf_def)
qed

lemma ok_values: "list_all (\<lambda>(k, v). route_value_ok k v) c \<Longrightarrow> dget c k = Some v \<Longrightarrow> route_value_ok k v"
  by (force simp: list_all_iff dest: dget_in_set)

lemma system_entries_lookup:
  assumes "system_entries config p = Inr e"
  shows "dget e ''route_kind'' = None \<longleftrightarrow> dget e ''sensor_code'' = None"
    "dget e ''route_kind'' = None \<Longrightarrow> e = []"
  using assms by (auto elim!: system_entries_cases heartbeat_entry_cases)

lemma count_other: "count_entry config p = Inr e \<Longrightarrow> k \<noteq> ''resolved_sensor_count'' \<Longrightarrow> dget e k = None"
  by (erule count_entry_cases) simp_all

lemma route_config_settings_ok:
  assumes "route_config p = Inr c"
  shows "route_settings_ok c"
  using assms
proof (rule route_config_Inr)
  fix config system count
  assume sys: "system_entries config p = Inr system" and cnt: "count_entry config p = Inr count"
    and c: "c = system @ text_entry config p ''topic'' @ dynamic_entry config p @ text_entry config p ''mac_address'' @
       text_entry config p ''resolved_topic'' @ count @ text_entry config p ''resolved_error'' @ text_entry config p ''resolved_at''"
  have vals: "list_all (\<lambda>(k, v). route_value_ok k v) c"
    unfolding c list_all_append using entries_ok(1-6) [of config p] entries_ok(7) [OF sys] entries_ok(8) [OF cnt] by blast
  have look: "dget c k = dget system k" if "k \<in> {''route_kind'', ''sensor_code'', ''heartbeat_interval_s''}" for k
    using that count_other [OF cnt, of k] unfolding c
    by (elim insertE emptyE) (simp_all add: dget_append entries_dget split: option.split)
  have "dget c ''route_kind'' = dget system ''route_kind''" "dget c ''sensor_code'' = dget system ''sensor_code''"
    "dget c ''heartbeat_interval_s'' = dget system ''heartbeat_interval_s''"
    by (rule look, simp)+
  moreover have "dget system ''route_kind'' = None \<longrightarrow> dget system ''heartbeat_interval_s'' = None"
    using system_entries_lookup(2) [OF sys] by auto
  ultimately show ?thesis unfolding route_settings_ok_def
    using vals route_config_keys(2) [OF assms] system_entries_lookup(1) [OF sys] by simp
qed

lemma item_get_dget: "item_get d k = (case dget d k of None \<Rightarrow> VNone | Some v \<Rightarrow> v)"
  by (simp add: item_get_def get_or_def)

text \<open>A stored text is read back as it is.\<close>

lemma text_setting_stored:
  assumes "dget c k = (if t = [] then None else Some (VStr t))" "t = [] \<or> tidy t" "item_get p k = VNone"
  shows "text_setting c p k [] = t"
  using assms by (auto simp: text_setting_def item_get_dget or_val_def tidy_def)

lemma float_of_trunc:
  assumes "fl_wf x" "py_int (VFloat x) = Inr i"
  shows "\<exists>y. py_float (VInt (max 1 i)) = Inr y \<and> py_int (VFloat y) = Inr (max 1 i)"
proof -
  obtain s m e where x: "x = FFin s m e" and i: "i = fl_trunc s m e"
    using assms(2) by (cases x rule: fl_wf.cases) (auto split: bool.splits)
  show ?thesis
  proof (cases "\<bar>max 1 i\<bar> < 2 ^ 53")
    case True
    obtain s' m' e' where "fl_of_int (max 1 i) = Some (FFin s' m' e')" "fl_trunc s' m' e' = max 1 i"
      using fl_of_int_exact [OF True] by metis
    then show ?thesis by (intro exI [of _ "FFin s' m' e'"]) (simp add: int_to_float_def)
  next
    case False
    then have big: "2 ^ 53 \<le> i" by (auto simp: max_def abs_if split: if_splits)
    have ns: "\<not> s" using big by (auto simp: i fl_trunc_def signed_def split: if_splits)
    have e: "0 \<le> e"
    proof (rule ccontr)
      assume "\<not> 0 \<le> e"
      then have "i \<le> int m" using ns by (simp add: i fl_trunc_def signed_def)
      then show False using big assms(1) x by simp
    qed
    have ie: "i = int (m * 2 ^ nat e)" using e ns by (simp add: i fl_trunc_def signed_def)
    have m: "m \<noteq> 0" "i = int (m * 2 ^ nat e)" using big ie by (auto intro: ccontr)
    have "fl_round False (m * 2 ^ nat e) (e - int (nat e)) = FFin False m e"
      using fl_round_canonical [of False m e] assms(1) x m(1) by (simp only: fl_round_shift) (auto simp: ns)
    moreover have "nat \<bar>i\<bar> = m * 2 ^ nat e" unfolding m(2) by (simp only: abs_of_nat nat_int)
    ultimately have "fl_of_int i = Some (FFin False m e)" using e big by (simp add: fl_of_int_def)
    then show ?thesis using big m e by (simp add: int_to_float_def max_def fl_trunc_def signed_def)
  qed
qed

lemma fl_decimal_wf: "fl_wf (fl_decimal s m x)"
  by (simp add: fl_decimal_def fl_ratio_def Let_def fl_round_wf)

lemma parse_float_wf: "parse_float t = Some x \<Longrightarrow> fl_wf x"
  by (auto simp: parse_float_def parse_unsigned_float_def Let_def fl_decimal_wf split: list.splits if_splits option.splits)

lemma int_to_float_wf: "int_to_float i = Inr x \<Longrightarrow> fl_wf x"
  by (cases "fl_round (i < 0) (nat \<bar>i\<bar>) 0")
    (use fl_round_wf [of "i < 0" "nat \<bar>i\<bar>" 0] in \<open>auto simp: int_to_float_def fl_of_int_def\<close>)

lemma py_float_wf: "py_float v = Inr x \<Longrightarrow> (\<And>y. v = VFloat y \<Longrightarrow> fl_wf y) \<Longrightarrow> fl_wf x"
  by (cases v) (auto simp: int_to_float_wf parse_float_wf fl_one_def fl_zero_def split: option.splits if_splits)

lemma csv_bool_simps [simp]: "csv_bool (VBool True) b = True" "csv_bool VNone b = b"
  by (simp_all add: csv_bool_def blank_def) (code_simp)

text \<open>What normalising a normal form sees: every entry under its own key.\<close>

lemma route_config_stable:
  assumes "route_config p = Inr c"
    and "\<forall>config x. settings_of (or_val (item_get p ''config'') (VDict [])) = Inr config \<longrightarrow>
      own_or_given config p ''heartbeat_interval_s'' = VFloat x \<longrightarrow> fl_wf x"
  shows "route_config [(''config'', VDict c)] = Inr c"
  using assms(1)
proof (rule route_config_Inr)
  fix config system count
  assume conf: "settings_of (or_val (item_get p ''config'') (VDict [])) = Inr config"
    and sys: "system_entries config p = Inr system" and cnt: "count_entry config p = Inr count"
    and c: "c = system @ text_entry config p ''topic'' @ dynamic_entry config p @ text_entry config p ''mac_address'' @
       text_entry config p ''resolved_topic'' @ count @ text_entry config p ''resolved_error'' @ text_entry config p ''resolved_at''"
  let ?q = "[(''config'', VDict c)]"
  have q: "item_get ?q k = VNone" if "k \<noteq> ''config''" for k using that by simp
  have sys_other: "dget system k = None" if "k \<notin> {''route_kind'', ''sensor_code'', ''heartbeat_interval_s''}" for k
    using sys that by (auto elim!: system_entries_cases heartbeat_entry_cases)
  note look = c dget_append entries_dget sys_other count_other [OF cnt]
  have stored: "text_entry c ?q k = text_entry config p k"
    if "dget c k = (if text_setting config p k [] = [] then None else Some (VStr (text_setting config p k [])))" "k \<noteq> ''config''" for k
  proof -
    have "text_setting config p k [] = [] \<or> tidy (text_setting config p k [])"
      using text_setting_tidy [of config p k "[]"] by blast
    from text_setting_stored [OF that(1) this q [OF that(2)]] show ?thesis by (simp add: text_entry_def)
  qed
  have texts: "text_entry c ?q ''topic'' = text_entry config p ''topic''"
    "text_entry c ?q ''mac_address'' = text_entry config p ''mac_address''"
    "text_entry c ?q ''resolved_topic'' = text_entry config p ''resolved_topic''"
    "text_entry c ?q ''resolved_error'' = text_entry config p ''resolved_error''"
    "text_entry c ?q ''resolved_at'' = text_entry config p ''resolved_at''"
    by (rule stored; simp add: look)+
  have dyn: "dynamic_entry c ?q = dynamic_entry config p"
  proof -
    have "dget c ''dynamic_topic_enabled'' = (if csv_bool (dynamic_setting config p) False then Some (VBool True) else None)"
      "dget c ''request_topic_by_mac'' = None" by (simp_all add: look)
    then have "dynamic_setting c ?q = (if csv_bool (dynamic_setting config p) False then VBool True else VNone)"
      by (simp add: dynamic_setting_def get_or_def)
    then have "csv_bool (dynamic_setting c ?q) False = csv_bool (dynamic_setting config p) False" by simp
    then show ?thesis by (simp only: dynamic_entry_def)
  qed
  have count: "count_entry c ?q = Inr count"
  proof -
    have "dget c ''resolved_sensor_count'' = dget count ''resolved_sensor_count''" by (simp add: look split: option.split)
    from cnt this show ?thesis
      by (elim count_entry_cases) (simp_all add: count_entry_def own_or_given_def get_or_def blank_def)
  qed
  have sysq: "system_entries c ?q = Inr system"
  proof -
    have l: "dget c k = dget system k" if "k \<in> {''route_kind'', ''sensor_code'', ''heartbeat_interval_s''}" for k
      using that by (elim insertE emptyE) (simp_all add: look split: option.split)
    show ?thesis using sys
    proof (rule system_entries_cases)
      assume e: "system = []"
      then have "dget c ''route_kind'' = None" using l by simp
      then show ?thesis using e by (simp add: system_entries_def text_setting_def item_get_dget or_val_def str_simps)
    next
      fix sensor h
      assume e: "system = [(''route_kind'', VStr ''system_heartbeat''), (''sensor_code'', VStr sensor)] @ h" "tidy sensor"
        and h: "heartbeat_entry config p = Inr h"
      have "heartbeat_entry c ?q = Inr h"
        using h
      proof (rule heartbeat_entry_cases)
        assume "h = []"
        then have "dget c ''heartbeat_interval_s'' = None" using l e by simp
        then show ?thesis using \<open>h = []\<close> by (simp add: heartbeat_entry_def own_or_given_def get_or_def blank_def)
      next
        fix x i
        assume x: "h = [(''heartbeat_interval_s'', VInt (max 1 i))]"
          "py_float (own_or_given config p ''heartbeat_interval_s'') = Inr x" "py_int (VFloat x) = Inr i"
        have "fl_wf x" by (rule py_float_wf [OF x(2)]) (use assms(2) conf in auto)
        then obtain y where "py_float (VInt (max 1 i)) = Inr y" "py_int (VFloat y) = Inr (max 1 i)"
          using float_of_trunc x(3) by blast
        moreover have "dget c ''heartbeat_interval_s'' = Some (VInt (max 1 i))" using l e x(1) by simp
        ultimately show ?thesis using x(1) by (simp add: heartbeat_entry_def own_or_given_def get_or_def blank_def del: py_float.simps)
      qed
      moreover have "dget c ''route_kind'' = Some (VStr ''system_heartbeat'')" "dget c ''sensor_code'' = Some (VStr sensor)"
        using l e(1) by simp_all
      ultimately show ?thesis using e
        by (simp add: system_entries_def text_setting_def item_get_dget or_val_def str_simps tidy_def)
    qed
  qed
  have confq: "settings_of (or_val (item_get ?q ''config'') (VDict [])) = Inr c"
    by (simp add: or_val_def settings_of_def)
  show ?thesis
    unfolding route_config_def confq rbind_simps sysq count dynamic_entry_def [symmetric] texts dyn c [symmetric] by (rule refl)
qed

section \<open>Reading the routes\<close>

text \<open>Settings that can be put into normal form (a heartbeat interval that is a float being a binary64 number), and
  databases all of whose routes can be listed.\<close>

definition readable :: "settings \<Rightarrow> bool" where
  "readable d \<longleftrightarrow> (\<exists>c. route_config [(''config'', VDict d)] = Inr c) \<and>
     (\<forall>x. dget d ''heartbeat_interval_s'' = Some (VFloat x) \<longrightarrow> fl_wf x)"

definition routes_readable :: "db \<Rightarrow> bool" where
  "routes_readable s \<longleftrightarrow> list_all (\<lambda>(i, r). readable (rt_config r)) (db_routes s)"

lemma route_rows:
  assumes "db_inv s"
  shows "distinct (map rt_id (list_output_routes s))"
    "dget (db_routes s) i = Some r \<longleftrightarrow> r \<in> set (list_output_routes s) \<and> rt_id r = Some i"
proof -
  have t: "table_ok (route_row (db_devices s)) (db_next_route s) (db_routes s)" using assms by (simp add: db_inv_def)
  note r = row_values [OF t, of rt_id]
  show "distinct (map rt_id (list_output_routes s))"
    using r(1) by (simp add: list_output_routes_def distinct_map_sort route_row_def)
  show "dget (db_routes s) i = Some r \<longleftrightarrow> r \<in> set (list_output_routes s) \<and> rt_id r = Some i"
    using r(2) by (simp add: list_output_routes_def route_row_def)
qed

lemma route_to_dict_id: "route_to_dict r = Inr p \<Longrightarrow> item_get p ''id'' = int_val (rt_id r)"
  by (auto simp: route_to_dict_def rbind_Inr_iff)

lemma route_listing_readable:
  assumes "readable (rt_config r)"
  obtains row where "route_listing s r = Inr row" "item_get row ''id'' = int_val (rt_id r)"
proof -
  obtain c where c: "route_config [(''config'', VDict (rt_config r))] = Inr c" using assms by (auto simp: readable_def)
  then obtain p where p: "route_to_dict r = Inr p" "item_get p ''config'' = VDict c"
    by (simp add: route_to_dict_def)
  then obtain row where "route_listing s r = Inr row" "\<exists>v. row = dset ''device_name'' v p"
    by (auto simp: route_listing_def settings_of_def)
  moreover from this have "item_get row ''id'' = item_get p ''id''" by (auto simp: item_get_dget)
  ultimately show thesis using that route_to_dict_id [OF p(1)] by simp
qed

lemma list_routes_total:
  assumes "routes_readable s"
  obtains rows where "cfg_list_output_routes s = (Inr rows, s)"
    "list_all2 (\<lambda>r row. route_listing s r = Inr row) (list_output_routes s) rows"
proof -
  have "\<exists>rows. rmap (route_listing s) rs = Inr rows \<and> list_all2 (\<lambda>r row. route_listing s r = Inr row) rs rows"
    if "\<forall>r\<in>set rs. readable (rt_config r)" for rs
    using that
  proof (induction rs)
    case (Cons r rs)
    then obtain row where "route_listing s r = Inr row" using route_listing_readable [of r s] by auto
    then show ?case using Cons by auto
  qed simp
  moreover have "\<forall>r\<in>set (list_output_routes s). readable (rt_config r)"
    using assms by (auto simp: routes_readable_def list_output_routes_def dvalues_def list_all_iff)
  ultimately show thesis using that by (auto simp: cfg_list_output_routes_def)
qed

lemma route_with_id_found:
  assumes "list_all2 (\<lambda>r row. route_listing s r = Inr row) rs rows" "r \<in> set rs" "rt_id r = Some i"
    "\<forall>r\<in>set rs. readable (rt_config r)"
  shows "\<exists>row. route_with_id i rows = Inr row"
proof -
  obtain n where n: "n < length rs" "rs ! n = r" using assms(2) by (auto simp: in_set_conv_nth)
  then have row: "route_listing s r = Inr (rows ! n)" "rows ! n \<in> set rows"
    using assms(1) by (auto simp: list_all2_conv_all_nth)
  obtain row where "route_listing s r = Inr row" "item_get row ''id'' = int_val (rt_id r)"
    using assms(2,4) route_listing_readable [of r s] by blast
  then have "item_get (rows ! n) ''id'' = VInt i" using row(1) assms(3) by (simp add: int_val_def)
  then have "filter (\<lambda>r. item_get r ''id'' = VInt i) rows \<noteq> []" using row(2) by (auto simp: filter_empty_conv)
  then show ?thesis by (auto simp: route_with_id_def split: list.split)
qed

lemma saved_route:
  assumes "db_inv s" "save_output_route r s = Inr (i, s')" "rt_id r = None \<or> dget (db_routes s) i \<noteq> None"
  shows "dget (db_routes s') i = Some (r\<lparr>rt_id := Some i\<rparr>)"
proof -
  have "dget (db_routes s) (db_next_route s) = None"
    using assms(1) table_ok_dget [of "route_row (db_devices s)" "db_next_route s" "db_routes s" "db_next_route s"]
    by (cases "dget (db_routes s) (db_next_route s)") (auto simp: db_inv_def)
  moreover have "r\<lparr>rt_id := Some k\<rparr> = r" if "rt_id r = Some k" for k using that by simp
  ultimately show ?thesis using assms(2,3)
    by (auto simp: save_output_route_def overflow_def integrity_def Let_def dget_append split: if_splits option.splits)
qed

lemma saved_route_readable:
  assumes "routes_readable s" "save_output_route r s = Inr (i, s')" "readable (rt_config r)"
  shows "routes_readable s'"
  using assms set_dset_subset [of i r "db_routes s"]
  by (auto simp: save_output_route_def overflow_def integrity_def Let_def routes_readable_def list_all_iff
      split: if_splits option.splits)

section \<open>Resolving a topic\<close>

lemma config_of [simp]: "settings_of (or_val (VDict d) (VDict [])) = Inr d"
  by (simp add: or_val_def settings_of_def)

lemma readable_stable:
  assumes "readable d" "route_config [(''config'', VDict d)] = Inr c"
  shows "route_config [(''config'', VDict c)] = Inr c" "readable c"
proof -
  show stable: "route_config [(''config'', VDict c)] = Inr c"
    using assms(1) by (intro route_config_stable [OF assms(2)])
      (auto simp: config_of readable_def own_or_given_def get_or_def split: option.splits)
  have "route_settings_ok c" by (rule route_config_settings_ok [OF assms(2)])
  then have "dget c ''heartbeat_interval_s'' = Some v \<Longrightarrow> route_value_ok ''heartbeat_interval_s'' v" for v
    by (auto simp: route_settings_ok_def dest: ok_values)
  then show "readable c" using stable by (fastforce simp: readable_def route_value_ok_def)
qed

text \<open>Only the heartbeat interval and the sensor count can make settings unreadable.\<close>

lemma readable_update:
  assumes "readable d"
    and "\<And>k. k \<in> {''route_kind'', ''sensor_code'', ''heartbeat_interval_s''} \<Longrightarrow> dget d' k = dget d k"
    and "dget d' ''resolved_sensor_count'' = dget d ''resolved_sensor_count'' \<or>
      (\<exists>n. dget d' ''resolved_sensor_count'' = Some (VInt n))"
  shows "readable d'"
proof -
  obtain system count where
    sys: "system_entries d [(''config'', VDict d)] = Inr system" and cnt: "count_entry d [(''config'', VDict d)] = Inr count"
    using assms(1) by (auto simp: readable_def route_config_def config_of rbind_Inr_iff)
  have "heartbeat_entry d' [(''config'', VDict d')] = heartbeat_entry d [(''config'', VDict d)]"
    using assms(2) [of "''heartbeat_interval_s''"] by (simp add: heartbeat_entry_def own_or_given_def get_or_def)
  moreover have "text_setting d' [(''config'', VDict d')] k v = text_setting d [(''config'', VDict d)] k v"
    if "k \<in> {''route_kind'', ''sensor_code''}" for k v
    using assms(2) [of k] that by (auto simp: text_setting_def item_get_dget)
  ultimately have "system_entries d' [(''config'', VDict d')] = system_entries d [(''config'', VDict d)]"
    by (simp add: system_entries_def)
  then have "system_entries d' [(''config'', VDict d')] = Inr system" using sys by simp
  moreover have "\<exists>n. count_entry d' [(''config'', VDict d')] = Inr n"
    using assms(3) cnt by (auto simp: count_entry_def own_or_given_def get_or_def blank_def)
  ultimately show ?thesis using assms(1) assms(2) [of "''heartbeat_interval_s''"]
    by (auto simp: readable_def route_config_def config_of)
qed

lemma resolved_config_lookup:
  "dget (resolved_config config mac (Inr (topic, n)) at) k =
     (if k = ''dynamic_topic_enabled'' then Some (VBool True) else if k = ''mac_address'' then Some (VStr mac)
      else if k = ''resolved_topic'' then Some (VStr topic) else if k = ''resolved_sensor_count'' then Some (VInt n)
      else if k = ''resolved_error'' then Some (VStr []) else if k = ''resolved_at'' then Some (VStr at) else dget config k)"
  "dget (resolved_config config mac (Inl e) at) k =
     (if k = ''dynamic_topic_enabled'' then Some (VBool True) else if k = ''mac_address'' then Some (VStr mac)
      else if k = ''resolved_error'' then Some (VStr e) else if k = ''resolved_at'' then Some (VStr at) else dget config k)"
  by (auto simp: resolved_config_def dget_dset)

lemma resolved_readable:
  assumes "readable config"
  shows "readable (resolved_config config mac outcome at)"
proof (cases outcome)
  case (Inl e)
  then show ?thesis by (intro readable_update [OF assms]) (auto simp: resolved_config_lookup)
next
  case (Inr p)
  then show ?thesis by (cases p) (auto intro!: readable_update [OF assms] simp: resolved_config_lookup)
qed

definition route_mac :: "settings \<Rightarrow> string" where
  "route_mac config = py_strip (py_str (or_val (item_get config ''mac_address'') (VStr [])))"

lemma resolve_effect:
  assumes inv: "db_inv s" "routes_readable s" and r: "dget (db_routes s) i = Some r"
    and c: "route_config [(''config'', VDict (rt_config r))] = Inr config" "route_mac config \<noteq> []"
    and ids: "int64 i" "opt_int64 (rt_device_id r)"
    and out: "outcome = read_answer (resolver (route_mac config) (sk_config (get_sink_config (Some ''mqtt'') s)))"
  shows "\<exists>row. resolve_output_route_topic resolver now i s =
    (Inr (resolution_result row outcome (utc_now now)),
     s\<lparr>db_routes := dset i (r\<lparr>rt_config := resolved_config config (route_mac config) outcome (utc_now now)\<rparr>) (db_routes s)\<rparr>)"
proof -
  let ?r = "r\<lparr>rt_config := resolved_config config (route_mac config) outcome (utc_now now)\<rparr>"
  let ?s = "s\<lparr>db_routes := dset i ?r (db_routes s)\<rparr>"
  have m: "r \<in> set (list_output_routes s)" "rt_id r = Some i" using route_rows(2) [OF inv(1)] r by auto
  then have found: "route_by_required_id (list_output_routes s) i = Inr r"
    using filter_singleton [OF route_rows(1) [OF inv(1)] m(1)] by (simp add: route_by_required_id_def)
  have row: "route_row (db_devices s) i r"
    using inv(1) r table_ok_dget [of _ "db_next_route s" "db_routes s" i r] by (auto simp: db_inv_def)
  then have dev: "device_exists (rt_device_id r) s"
    by (auto simp: route_row_def device_exists_def split: option.split)
  have saved: "save_output_route ?r s = Inr (i, ?s)"
    using ids m(2) r dev by (simp add: save_output_route_def opt_int64_def)
  have inv': "db_inv ?s" using save_route_inv [OF inv(1) saved] .
  have "readable (rt_config r)"
    using inv(2) r by (auto simp: routes_readable_def list_all_iff dest!: dget_in_set)
  then have rd: "readable (rt_config ?r)" using readable_stable(2) [OF _ c(1)] resolved_readable by simp
  have inv2: "routes_readable ?s" using saved_route_readable [OF inv(2) saved rd] .
  obtain rows where rows: "cfg_list_output_routes ?s = (Inr rows, ?s)"
    "list_all2 (\<lambda>r row. route_listing ?s r = Inr row) (list_output_routes ?s) rows" by (rule list_routes_total [OF inv2])
  have "dget (db_routes ?s) i = Some ?r" by simp
  then have m': "?r \<in> set (list_output_routes ?s)" using route_rows(2) [OF inv'] by blast
  have "\<forall>r\<in>set (list_output_routes ?s). readable (rt_config r)"
    using inv2 by (auto simp: routes_readable_def list_output_routes_def dvalues_def list_all_iff)
  then obtain row where "route_with_id i rows = Inr row" using route_with_id_found [OF rows(2) m'] m(2) by auto
  then show ?thesis using c(2) saved rows(1) found c(1)
    by (auto simp: resolve_output_route_topic_def svc_simps route_mac_def [symmetric] Let_def out [symmetric])
qed

section \<open>Saving a route\<close>

text \<open>The interval a payload gives, when it is a float, is a binary64 number.\<close>

definition interval_plain :: "settings \<Rightarrow> bool" where
  "interval_plain p \<longleftrightarrow> (\<forall>config x. settings_of (or_val (item_get p ''config'') (VDict [])) = Inr config \<longrightarrow>
      own_or_given config p ''heartbeat_interval_s'' = VFloat x \<longrightarrow> fl_wf x)"

lemma readableI:
  assumes "heartbeat_entry d [(''config'', VDict d)] = Inr h" "count_entry d [(''config'', VDict d)] = Inr n"
    and "\<And>x. dget d ''heartbeat_interval_s'' = Some (VFloat x) \<Longrightarrow> fl_wf x"
  shows "readable d"
  using assms by (auto simp: readable_def route_config_def config_of system_entries_def Let_def)

lemma readable_normal:
  assumes "route_config p = Inr c" "interval_plain p"
  shows "readable c"
proof -
  have "route_config [(''config'', VDict c)] = Inr c"
    using route_config_stable [OF assms(1)] assms(2) unfolding interval_plain_def by blast
  moreover have "route_settings_ok c" by (rule route_config_settings_ok [OF assms(1)])
  then have "dget c ''heartbeat_interval_s'' = Some v \<Longrightarrow> route_value_ok ''heartbeat_interval_s'' v" for v
    by (auto simp: route_settings_ok_def dest: ok_values)
  ultimately show ?thesis by (fastforce simp: readable_def route_value_ok_def)
qed

text \<open>The settings a route is saved with, marked as a heartbeat when the payload's device says so.\<close>

definition as_heartbeat :: "settings \<Rightarrow> settings" where
  "as_heartbeat c = (let c1 = dset ''route_kind'' (VStr ''system_heartbeat'') c in
     if dget c1 ''sensor_code'' = None then dset ''sensor_code'' (VStr ''SYSTEM'') c1 else c1)"

lemma readable_as_heartbeat:
  assumes "readable c" "route_settings_ok c"
  shows "readable (as_heartbeat c)"
proof (cases "dget c ''route_kind''")
  case None
  then have none: "dget c ''heartbeat_interval_s'' = None" using assms(2) by (simp add: route_settings_ok_def)
  have same: "dget (as_heartbeat c) k = dget c k" if "k \<notin> {''route_kind'', ''sensor_code''}" for k
    using that by (auto simp: as_heartbeat_def Let_def dget_dset)
  obtain n where "count_entry c [(''config'', VDict c)] = Inr n"
    using assms(1) by (auto simp: readable_def route_config_def config_of rbind_Inr_iff)
  then have "count_entry (as_heartbeat c) [(''config'', VDict (as_heartbeat c))] = Inr n"
    using same [of "''resolved_sensor_count''"] by (simp add: count_entry_def own_or_given_def get_or_def)
  moreover have "heartbeat_entry (as_heartbeat c) [(''config'', VDict (as_heartbeat c))] = Inr []"
    using none same [of "''heartbeat_interval_s''"] by (simp add: heartbeat_entry_def own_or_given_def get_or_def blank_def)
  ultimately show ?thesis using none same [of "''heartbeat_interval_s''"] by (intro readableI) simp_all
next
  case (Some v)
  then have "v = VStr ''system_heartbeat''" "dget c ''sensor_code'' \<noteq> None"
    using assms(2) ok_values [of c "''route_kind''" v] by (auto simp: route_settings_ok_def route_value_ok_def)
  then have "dget (as_heartbeat c) k = dget c k" for k
    using Some by (auto simp: as_heartbeat_def Let_def dget_dset)
  then show ?thesis by (intro readable_update [OF assms(1)]) simp_all
qed

lemma payload_readable:
  assumes "route_from_payload p = Inr (device_id, is_system, config)" "interval_plain p"
  shows "readable config"
proof -
  obtain c where c: "route_config p = Inr c" "config = c \<or> config = as_heartbeat c"
    using assms(1) by (auto simp: route_from_payload_def rbind_Inr_iff Let_def as_heartbeat_def split: if_splits)
  note r = readable_normal [OF c(1) assms(2)]
  show ?thesis using c(2) r readable_as_heartbeat [OF r route_config_settings_ok [OF c(1)]] by auto
qed

lemma saved_route_listed:
  assumes "db_inv s" "routes_readable s" "save_output_route r s = Inr (i, s')" "readable (rt_config r)"
  shows "s' = s \<or> (\<exists>row. sbind cfg_list_output_routes (\<lambda>rows. sfrom (route_with_id i rows)) s' = (Inr row, s'))"
proof (cases "rt_id r = None \<or> dget (db_routes s) i \<noteq> None")
  case True
  have inv: "db_inv s'" "routes_readable s'"
    using save_route_inv [OF assms(1,3)] saved_route_readable [OF assms(2-4)] by simp_all
  obtain rows where rows: "cfg_list_output_routes s' = (Inr rows, s')"
    "list_all2 (\<lambda>r row. route_listing s' r = Inr row) (list_output_routes s') rows" by (rule list_routes_total [OF inv(2)])
  have m: "r\<lparr>rt_id := Some i\<rparr> \<in> set (list_output_routes s')"
    using saved_route [OF assms(1,3) True] route_rows(2) [OF inv(1)] by blast
  have "\<forall>r\<in>set (list_output_routes s'). readable (rt_config r)"
    using inv(2) by (auto simp: routes_readable_def list_output_routes_def dvalues_def list_all_iff)
  then obtain row where "route_with_id i rows = Inr row" using route_with_id_found [OF rows(2) m] by auto
  then show ?thesis using rows(1) by (simp add: sbind_def)
next
  case False
  then show ?thesis using assms(3)
    by (auto simp: save_output_route_def overflow_def integrity_def Let_def split: if_splits option.splits)
qed

lemma save_route_atomic:
  "interval_plain p \<Longrightarrow> atomic (\<lambda>s. db_inv s \<and> routes_readable s) (cfg_save_output_route p)"
proof -
  assume p: "interval_plain p"
  let ?P = "\<lambda>s. db_inv s \<and> routes_readable s"
  have save: "atomic ?P (sbind (swrite (save_output_route r)) (\<lambda>saved.
      sbind cfg_list_output_routes (\<lambda>rows. sfrom (route_with_id saved rows))))" if "readable (rt_config r)" for r
    unfolding atomic_def
  proof (intro allI impI)
    fix s e s'
    assume s: "db_inv s \<and> routes_readable s"
      and fails: "sbind (swrite (save_output_route r)) (\<lambda>saved. sbind cfg_list_output_routes (\<lambda>rows. sfrom (route_with_id saved rows))) s = (Inl e, s')"
    show "s' = s"
    proof (cases "save_output_route r s")
      case (Inr x)
      obtain i t where x: "x = (i, t)" by (cases x)
      have "snd (sbind cfg_list_output_routes (\<lambda>rows. sfrom (route_with_id i rows)) t) = t"
        by (auto simp: sbind_def cfg_list_output_routes_def split: sum.split)
      then show ?thesis using saved_route_listed [of s r i t] s that fails Inr by (auto simp: swrite_bind x)
    qed (use fails in \<open>simp add: swrite_bind\<close>)
  qed
  have guard: "readonly (case device_id of None \<Rightarrow> sret () | Some i \<Rightarrow> sbind (cfg_get_device i) (\<lambda>_. sret ()))" for device_id
    by (auto simp: readonly_def cfg_get_device_def sbind_def split: option.split sum.split prod.split list.split)
  show ?thesis
    unfolding cfg_save_output_route_def
  proof (intro atomic_sfrom)
    fix x
    assume x: "route_from_payload p = Inr x"
    obtain device_id is_system config where c: "x = (device_id, is_system, config)" by (cases x) auto
    show "atomic ?P ((case x of (device_id, is_system, config) \<Rightarrow>
        sbind (case device_id of None \<Rightarrow> sret () | Some i \<Rightarrow> sbind (cfg_get_device i) (\<lambda>_. sret ())) (\<lambda>_.
        sbind (sfrom (optional_int (item_get p ''id''))) (\<lambda>route_id.
        sbind (swrite (save_output_route \<lparr>rt_id = route_id, rt_device_id = device_id,
            rt_tag_group = (if is_system then [] else py_strip (py_str (get_or p ''tag_group'' (VStr [])))),
            rt_sink_type = ''mqtt'', rt_enabled = truthy (get_or p ''enabled'' (VBool True)), rt_config = config\<rparr>)) (\<lambda>saved.
        sbind cfg_list_output_routes (\<lambda>rows. sfrom (route_with_id saved rows)))))))"
      using payload_readable [OF x [unfolded c] p]
      by (simp only: c prod.case) (intro atomic_bind [OF guard] atomic_sfrom save, simp)
  qed
qed

section \<open>Theorems\<close>

text \<open>C39: The settings of a route are typed.  Whatever the payload, the settings that result have no key twice and hold
  under each key a value of its type: texts without surrounding space that are not empty, a whole number of
  sensors, an interval of at least one second; a sensor code comes with the heartbeat kind and an
  interval only with it.\<close>

theorem route_config_typed: "route_config p = Inr c \<Longrightarrow> route_settings_ok c"
  by (rule route_config_settings_ok)

definition heartbeat_payload :: settings where
  "heartbeat_payload = [(''route_kind'', VStr '' system_heartbeat''), (''heartbeat_interval_s'', VInt 0), (''topic'', VStr ''line/1 '')]"

definition heartbeat_settings :: settings where
  "heartbeat_settings = [(''route_kind'', VStr ''system_heartbeat''), (''sensor_code'', VStr ''SYSTEM''),
     (''heartbeat_interval_s'', VInt 1), (''topic'', VStr ''line/1'')]"

lemma heartbeat_normal: "route_config heartbeat_payload = Inr heartbeat_settings"
  by (simp add: route_config_def heartbeat_payload_def settings_of_def or_val_def system_entries_def text_setting_def
      heartbeat_entry_def own_or_given_def get_or_def blank_def int_to_float_def fl_of_int_def fl_round_def fl_trunc_def
      count_entry_def dynamic_setting_def text_entry_def heartbeat_settings_def str_simps signed_def)

lemma route_config_typed_witness: "route_settings_ok heartbeat_settings"
  using route_config_typed [OF heartbeat_normal] .

text \<open>Normal settings are a fixed point.  Normalising the settings that normalisation gave, as every listing and every
  export does with stored routes, changes nothing.\<close>

theorem route_config_fixpoint:
  assumes "route_config p = Inr c"
    and "\<forall>config x. settings_of (or_val (item_get p ''config'') (VDict [])) = Inr config \<longrightarrow>
      own_or_given config p ''heartbeat_interval_s'' = VFloat x \<longrightarrow> fl_wf x"
  shows "route_config [(''config'', VDict c)] = Inr c"
  using assms by (rule route_config_stable)

lemma route_config_fixpoint_witness: "route_config [(''config'', VDict heartbeat_settings)] = Inr heartbeat_settings"
  by (rule route_config_fixpoint [OF heartbeat_normal])
    (simp add: heartbeat_payload_def or_val_def settings_of_def own_or_given_def get_or_def)

text \<open>Resolving a topic updates one route.  For a stored route with a MAC address the request always answers, and the
  database differs in that route's settings only: the topic, the count and an empty error when the resolver
  gave a topic, else the error beside the topic that was resolved before.\<close>

theorem resolving_updates_one_route:
  assumes "db_inv s" "routes_readable s" "dget (db_routes s) i = Some r"
    and "route_config [(''config'', VDict (rt_config r))] = Inr config" "route_mac config \<noteq> []"
    and "int64 i" "opt_int64 (rt_device_id r)"
    and "outcome = read_answer (resolver (route_mac config) (sk_config (get_sink_config (Some ''mqtt'') s)))"
  shows "\<exists>row config'. resolve_output_route_topic resolver now i s =
      (Inr (resolution_result row outcome (utc_now now)), s\<lparr>db_routes := dset i (r\<lparr>rt_config := config'\<rparr>) (db_routes s)\<rparr>) \<and>
    dget config' ''resolved_topic'' = (case outcome of Inl e \<Rightarrow> dget config ''resolved_topic'' | Inr (topic, n) \<Rightarrow> Some (VStr topic)) \<and>
    dget config' ''resolved_error'' = Some (VStr (case outcome of Inl e \<Rightarrow> e | Inr _ \<Rightarrow> [])) \<and>
    dget config' ''topic'' = dget config ''topic'' \<and> dget config' ''resolved_at'' = Some (VStr (utc_now now))"
proof -
  let ?c = "resolved_config config (route_mac config) outcome (utc_now now)"
  obtain row where "resolve_output_route_topic resolver now i s =
      (Inr (resolution_result row outcome (utc_now now)), s\<lparr>db_routes := dset i (r\<lparr>rt_config := ?c\<rparr>) (db_routes s)\<rparr>)"
    using resolve_effect [OF assms(1-7), of outcome resolver now] assms(8) by blast
  then show ?thesis
    by (intro exI [of _ row] exI [of _ ?c]) (cases outcome; auto simp: resolved_config_lookup)
qed

definition routed_db :: db where
  "routed_db = plant_db\<lparr>db_routes := [(1, \<lparr>rt_id = Some 1, rt_device_id = Some 7, rt_tag_group = [], rt_sink_type = ''mqtt'',
     rt_enabled = True, rt_config = [(''mac_address'', VStr ''aa:01'')]\<rparr>)], db_next_route := 2\<rparr>"

lemma routed_normal: "route_config [(''config'', VDict [(''mac_address'', VStr ''aa:01'')])] = Inr [(''mac_address'', VStr ''aa:01'')]"
  by (simp add: route_config_def settings_of_def or_val_def system_entries_def text_setting_def own_or_given_def get_or_def
      blank_def count_entry_def dynamic_setting_def text_entry_def str_simps)

lemma routed_db_inv: "db_inv routed_db" "routes_readable routed_db"
  using plant_inv(2) routed_normal
  by (simp_all add: routed_db_def db_inv_def table_ok_def dwf_def route_row_def plant_db_def empty_db_def
      routes_readable_def readable_def)

definition answer_unknown :: topic_resolver where
  "answer_unknown mac mqtt = Inr [(''topic'', VStr ''Unknown MAC''), (''sensor_count'', VInt 0)]"

lemma unknown_outcome: "read_answer (answer_unknown mac mqtt) = Inr (''C-S/Unknown MAC'', 0)"
  by (simp add: read_answer_def answer_unknown_def or_val_def received_topic_path_def starts_with_def str_simps Let_def)

lemma resolving_updates_one_route_witness:
  "\<exists>row config'. resolve_output_route_topic answer_unknown noon 1 routed_db =
      (Inr (resolution_result row (Inr (''C-S/Unknown MAC'', 0)) (utc_now noon)),
       routed_db\<lparr>db_routes := dset 1 ((snd (hd (db_routes routed_db)))\<lparr>rt_config := config'\<rparr>) (db_routes routed_db)\<rparr>) \<and>
    dget config' ''resolved_topic'' = (case Inr (''C-S/Unknown MAC'', 0) :: string + string \<times> int of
      Inl e \<Rightarrow> dget [(''mac_address'', VStr ''aa:01'')] ''resolved_topic'' | Inr (topic, n) \<Rightarrow> Some (VStr topic)) \<and>
    dget config' ''resolved_error'' = Some (VStr (case Inr (''C-S/Unknown MAC'', 0) :: string + string \<times> int of Inl e \<Rightarrow> e | Inr _ \<Rightarrow> [])) \<and>
    dget config' ''topic'' = dget [(''mac_address'', VStr ''aa:01'')] ''topic'' \<and> dget config' ''resolved_at'' = Some (VStr (utc_now noon))"
  by (rule resolving_updates_one_route [OF routed_db_inv, of 1])
    (simp_all add: unknown_outcome routed_db_def routed_normal route_mac_def or_val_def int64_def opt_int64_def str_simps)

end
