(* ===== verification/Config_Csv_Props.thy ===== *)
theory Config_Csv_Props
  imports Config_Csv Output_Routes_Props
begin

text \<open>
  What the CSV files promise: a tag written to a file is read back as itself, importing the file a device exported
  changes nothing, every import keeps the integrity of the database, and which settings an export loses.
\<close>

section \<open>Cells\<close>

lemma text_row_lookup:
  "k \<in> set names \<Longrightarrow> item_get (text_row names row) k = VStr (cell_text (get_or row k (VStr [])))"
  "k \<in> set names \<Longrightarrow> dget (text_row names row) k = Some (VStr (cell_text (get_or row k (VStr []))))"
  "k \<notin> set names \<Longrightarrow> dget (text_row names row) k = None"
  by (induction names) (auto simp: text_row_def item_get_dget)

lemma cell_text_simps [simp]:
  "cell_text (VStr s) = s" "cell_text VNone = []" "cell_text (VInt i) = show_int i" "cell_text (VFloat x) = show_float x"
  by (simp_all add: cell_text_def)

lemma show_int_ne [simp]: "show_int i \<noteq> []"
  by (simp add: show_int_def)

lemma digits_plain: "list_all is_digit s \<Longrightarrow> plain_cell s"
  by (auto simp: plain_cell_def list_all_iff return_def is_digit_def)

lemma show_nat_plain: "plain_cell (show_nat n)"
  using show_nat_digits [of n] by (intro digits_plain) (simp add: list_all_iff)

lemma show_int_plain: "plain_cell (show_int i)"
  using show_nat_plain by (auto simp: show_int_def plain_cell_def return_def)

lemma zeros_plain: "return \<notin> set (zeros n)"
  by (auto simp: zeros_def return_def)

lemma pad_plain: "return \<notin> set (pad_nat k n)"
  using show_nat_plain [of n] by (auto simp: pad_nat_def plain_cell_def return_def)

lemma format_plain: "return \<notin> set ds \<Longrightarrow> return \<notin> set (format_digits ds p)"
  using zeros_plain pad_plain
  by (auto simp: format_digits_def show_exponent_def return_def dest: in_set_takeD in_set_dropD)

lemma rstrip_if_subset: "set (rstrip_if p s) \<subseteq> set s"
  by (auto simp: rstrip_if_def dest: set_dropWhileD)

lemma show_float_plain: "plain_cell (show_float x)"
proof (cases x)
  case (FFin s m e)
  obtain d k where "shortest_digits s m e = (d, k)" by fastforce
  moreover have "return \<notin> set (rstrip_if (\<lambda>c. c = CHR ''0'') (show_nat d))"
    using rstrip_if_subset show_nat_plain by (fastforce simp: plain_cell_def)
  ultimately show ?thesis using FFin format_plain by (auto simp: plain_cell_def return_def Let_def)
qed (auto simp: plain_cell_def return_def)

section \<open>A tag in a file\<close>

text \<open>What a CSV file can carry: trimmed texts, no carriage return, a unit id that is not zero, and numbers whose text reads
  back as the number.\<close>

definition csv_text_ok :: "string \<Rightarrow> bool" where
  "csv_text_ok s \<longleftrightarrow> py_strip s = s \<and> plain_cell s"

definition csv_tag_ok :: "tag_spec \<Rightarrow> bool" where
  "csv_tag_ok t \<longleftrightarrow> csv_text_ok (tag_group t) \<and> csv_text_ok (tag_name t) \<and> csv_text_ok (tag_function t) \<and>
     csv_text_ok (tag_data_type t) \<and> csv_text_ok (tag_byte_order t) \<and> csv_text_ok (tag_word_order t) \<and>
     list_all (\<lambda>s. s \<noteq> []) [tag_name t, tag_function t, tag_data_type t, tag_byte_order t, tag_word_order t] \<and>
     (case tag_node_id t of None \<Rightarrow> True | Some n \<Rightarrow> csv_text_ok n \<and> n \<noteq> []) \<and>
     tag_unit_id t \<noteq> Some 0 \<and> tag_word_count t \<noteq> Some 0 \<and>
     parse_float (show_float (tag_scale t)) = Some (tag_scale t) \<and> parse_float (show_float (tag_offset t)) = Some (tag_offset t)"

lemma csv_flag: "csv_bool (VStr (show_int (if b then 1 else 0))) d = b"
proof -
  have "csv_bool (VStr (show_int 1)) d = True" "csv_bool (VStr (show_int 0)) d = False"
    by (cases d; code_simp)+
  then show ?thesis by simp
qed

lemma csv_optional_int_cell: "v \<noteq> Some 0 \<Longrightarrow> csv_optional_int (VStr (cell_text (int_or_empty v))) = Inr v"
proof (cases v)
  case (Some i)
  moreover assume "v \<noteq> Some 0"
  moreover have "py_strip (show_int i) = show_int i"
    by (auto simp: show_int_def py_strip_show_nat py_strip_minus_show_nat)
  ultimately show ?thesis by (simp add: csv_optional_int_def int_or_empty_def int_val_def or_val_def)
qed (simp add: csv_optional_int_def int_or_empty_def int_val_def or_val_def)

lemma parse_float_text: "parse_float s = Some x \<Longrightarrow> s \<noteq> []"
  by (auto simp: parse_float_def)

lemma row_text_cell: "k \<in> set names \<Longrightarrow> py_strip (cell_text (get_or row k (VStr []))) = s \<Longrightarrow> s = [] \<longrightarrow> d = [] \<Longrightarrow>
   cell_text (get_or row k (VStr [])) = s \<Longrightarrow> row_text (text_row names row) k d = s"
  by (auto simp: row_text_def text_row_lookup or_val_def)

text \<open>The cells of the tag columns, whatever the other columns are.\<close>

lemma tag_from_cells:
  assumes ok: "csv_tag_ok t"
    and cells: "\<And>k v. (k, v) \<in> set (tag_cells nk ek t) \<Longrightarrow> k \<in> set names \<and> get_or row k (VStr []) = v"
    and keys: "nk \<in> {''name'', ''tag_name''}" "ek = (if nk = ''tag_name'' then ''tag_enabled'' else ''enabled'')"
  shows "tag_from_csv_row (text_row names row) dt nk = Inr (t\<lparr>tag_id := None, tag_device_id := None\<rparr>)"
proof -
  have cell: "item_get (text_row names row) k = VStr (cell_text v)" "dget (text_row names row) k = Some (VStr (cell_text v))"
    if "(k, v) \<in> set (tag_cells nk ek t)" for k v
    using cells [OF that] text_row_lookup by auto
  have stx: "row_text (text_row names row) k d = s" if "(k, VStr s) \<in> set (tag_cells nk ek t)" "py_strip s = s" "s = [] \<longrightarrow> d = []" for k d s
    using cell(1) [OF that(1)] that(2,3) by (auto simp: row_text_def or_val_def)
  note t = ok [unfolded csv_tag_ok_def csv_text_ok_def]
  have texts: "row_text (text_row names row) nk [] = tag_name t"
    "row_text (text_row names row) ''tag_group'' [] = tag_group t"
    "row_text (text_row names row) ''function'' d = tag_function t"
    "row_text (text_row names row) ''data_type'' d = tag_data_type t"
    "row_text (text_row names row) ''byte_order'' d = tag_byte_order t"
    "row_text (text_row names row) ''word_order'' d = tag_word_order t"
    "row_text (text_row names row) ''node_id'' [] = (case tag_node_id t of None \<Rightarrow> [] | Some n \<Rightarrow> n)" for d
    using t by (auto intro!: stx simp: tag_cells_def split: option.splits)
  have nums: "item_get (text_row names row) ''address'' = VStr (show_int (tag_address t))"
    "item_get (text_row names row) ''scale'' = VStr (show_float (tag_scale t))"
    "item_get (text_row names row) ''offset'' = VStr (show_float (tag_offset t))"
    "item_get (text_row names row) ek = VStr (show_int (if tag_enabled t then 1 else 0))"
    "item_get (text_row names row) ''unit_id'' = VStr (cell_text (int_or_empty (tag_unit_id t)))"
    "get_or (text_row names row) ''count'' v = VStr (cell_text (int_or_empty (tag_word_count t)))" for v
    using cell(1) [of "''address''" "VInt (tag_address t)"] cell(1) [of "''scale''" "VFloat (tag_scale t)"]
      cell(1) [of "''offset''" "VFloat (tag_offset t)"] cell(1) [of ek "VInt (if tag_enabled t then 1 else 0)"]
      cell(1) [of "''unit_id''" "int_or_empty (tag_unit_id t)"] cell(2) [of "''count''" "int_or_empty (tag_word_count t)"]
    by (simp_all add: tag_cells_def get_or_def)
  have en: "(if nk = ''tag_name'' then ''tag_enabled'' else ''enabled'') = ek" using keys(2) by simp
  have node: "(if (case tag_node_id t of None \<Rightarrow> [] | Some n \<Rightarrow> n) = [] then None
      else Some (case tag_node_id t of None \<Rightarrow> [] | Some n \<Rightarrow> n)) = tag_node_id t"
    using t by (auto split: option.split)
  have ne: "show_float (tag_scale t) \<noteq> []" "show_float (tag_offset t) \<noteq> []"
    using t parse_float_text by blast+
  show ?thesis
    unfolding tag_from_csv_row_def Let_def texts en nums node
    using t ne by (simp add: or_val_def csv_flag csv_optional_int_cell)
qed

lemma tag_row_fields: "map fst (tag_csv_row t) = tag_csv_fields" "distinct tag_csv_fields"
  by (simp_all add: tag_csv_row_def tag_cells_def tag_csv_fields_def)

lemma tag_row_cells:
  assumes "(k, v) \<in> set (tag_cells ''name'' ''enabled'' t)"
  shows "k \<in> set tag_csv_fields \<and> get_or (tag_csv_row t) k (VStr []) = v"
proof -
  have m: "(k, v) \<in> set (tag_csv_row t)" using assms by (simp add: tag_csv_row_def)
  then have "dget (tag_csv_row t) k = Some v"
    using tag_row_fields(1) [of t] tag_row_fields(2) by (intro dget_of_member) (simp_all add: dwf_def)
  moreover have "k \<in> set tag_csv_fields" using m tag_row_fields(1) [of t] by (metis fst_conv image_eqI set_map)
  ultimately show ?thesis by (simp add: get_or_def)
qed

lemma tag_row_plain:
  assumes "csv_tag_ok t"
  shows "list_all plain_cell (dict_cells tag_csv_fields (tag_csv_row t))"
proof -
  have i: "plain_cell (cell_text (int_or_empty v))" for v
    by (cases v) (simp_all add: int_or_empty_def int_val_def or_val_def show_int_plain, simp_all add: plain_cell_def)
  have e: "plain_cell []" by (simp add: plain_cell_def)
  have n: "plain_cell (case tag_node_id t of None \<Rightarrow> [] | Some n \<Rightarrow> n)"
    using assms e by (auto simp: csv_tag_ok_def csv_text_ok_def split: option.split)
  show ?thesis using assms i e n show_int_plain show_float_plain
    by (simp add: dict_cells_def tag_csv_fields_def tag_csv_row_def tag_cells_def csv_tag_ok_def csv_text_ok_def)
qed

section \<open>Importing what was exported\<close>

lemma existing_tag:
  assumes "db_inv s" "t \<in> set (list_tags j s)"
  shows "existing_tag_id (list_tags j s) (t\<lparr>tag_id := a, tag_device_id := b\<rparr>) = tag_id t" "dget (db_tags s) (the (tag_id t)) = Some t"
    "tag_device_id t = Some j" "\<exists>i. tag_id t = Some i"
proof -
  have t: "t \<in> set (dvalues (db_tags s))" and dev: "tag_device_id t = Some j" using assms(2) by (auto simp: list_tags_def)
  show "tag_device_id t = Some j" by (rule dev)
  show "\<exists>i. tag_id t = Some i"
    using t assms(1) by (auto simp: db_inv_def table_ok_def list_all_iff tag_row_def dvalues_def)
  then show "dget (db_tags s) (the (tag_id t)) = Some t" using tag_rows(2) [OF assms(1)] t by auto
  have "distinct (map tag_identity (dvalues (db_tags s)))"
    using assms(1) by (simp add: db_inv_def dvalues_def)
  then have "u = t" if "u \<in> set (list_tags j s)" "tag_group u = tag_group t" "tag_name u = tag_name t" for u
    using that t dev by (auto simp: list_tags_def distinct_map inj_on_def tag_identity_def)
  then have "\<forall>u\<in>set (filter (\<lambda>u. tag_group u = tag_group t \<and> tag_name u = tag_name t) (list_tags j s)). u = t"
    by simp
  moreover have "t \<in> set (filter (\<lambda>u. tag_group u = tag_group t \<and> tag_name u = tag_name t) (list_tags j s))"
    using assms(2) by simp
  ultimately show "existing_tag_id (list_tags j s) (t\<lparr>tag_id := a, tag_device_id := b\<rparr>) = tag_id t"
    by (cases "filter (\<lambda>u. tag_group u = tag_group t \<and> tag_name u = tag_name t) (list_tags j s)")
      (auto simp: existing_tag_id_def)
qed

text \<open>The integers of a tag that SQLite can store.\<close>

definition tag_int64 :: "tag_spec \<Rightarrow> bool" where
  "tag_int64 t \<longleftrightarrow> int64 (tag_address t) \<and> opt_int64 (tag_device_id t) \<and> opt_int64 (tag_unit_id t) \<and>
     opt_int64 (tag_word_count t) \<and> opt_int64 (tag_id t)"

lemma save_tag_unchanged:
  assumes "db_inv s" "dget (db_tags s) i = Some t" "dget (db_devices s) j = Some d" "tag_device_id t = Some j"
    "tag_ok (dev_driver_type d) t" "tag_int64 t"
  shows "save_tag t s = Inr (i, s)"
proof -
  have row: "tag_row (db_devices s) i t"
    using assms(1,2) table_ok_dget [of _ "db_next_tag s" "db_tags s" i t] by (auto simp: db_inv_def)
  then have id: "tag_id t = Some i" by (simp add: tag_row_def)
  have "distinct (map (tag_identity \<circ> snd) (db_tags s))" "dwf (db_tags s)"
    using assms(1) by (auto simp: db_inv_def table_ok_def)
  then have "k = i" if "(k, u) \<in> set (db_tags s)" "tag_identity u = tag_identity t" for k u
    using that assms(2) dget_in_set [OF assms(2)] by (force simp: distinct_map inj_on_def)
  then have "validate_unique_tag_name t s = Inr ()"
    using assms(4,6) id by (auto simp: validate_unique_tag_name_def tag_int64_def)
  moreover have "driver_type_for_device (tag_device_id t) s = Inr (dev_driver_type d)"
    using assms(3,4,6) by (simp add: driver_type_for_device_def tag_int64_def opt_int64_def)
  moreover have "tag_storable t s = Inr ()"
    using row assms(2,6) id by (simp add: tag_storable_def tag_int64_def tag_row_def)
  moreover have "write_tag t s = (i, s)" using assms(2) id by (simp add: write_tag_def dset_known)
  moreover have "validate_tag (dev_driver_type d) t = Inr ()" using assms(5) by (simp only: validate_tag_ok)
  ultimately show ?thesis by (simp add: save_tag_def)
qed

lemma upsert_unchanged:
  assumes "db_inv s" "dget (db_devices s) j = Some d" "t \<in> set (list_tags j s)" "tag_ok (dev_driver_type d) t" "tag_int64 t"
  shows "\<exists>i. upsert_tag j (t\<lparr>tag_id := None, tag_device_id := None\<rparr>) s = (Inr i, s)"
proof -
  note e = existing_tag [OF assms(1,3)]
  obtain i where i: "tag_id t = Some i" using e(4) by blast
  have "t\<lparr>tag_id := Some i, tag_device_id := Some j\<rparr> = t" using i e(3) by simp
  moreover have "save_tag t s = Inr (i, s)"
    using save_tag_unchanged [OF assms(1) _ assms(2) e(3) assms(4,5)] e(2) i by simp
  ultimately show ?thesis using e(1) [of None None] i by (simp add: upsert_tag_def svc_simps swrite_def)
qed

lemma smap_unchanged:
  "(\<And>x. x \<in> set xs \<Longrightarrow> \<exists>y. f x s = (Inr y, s)) \<Longrightarrow> \<exists>ys. smap f xs s = (Inr ys, s) \<and> length ys = length xs"
proof (induction xs)
  case (Cons x xs)
  obtain y where "f x s = (Inr y, s)" using Cons.prems by auto
  moreover obtain ys where "smap f xs s = (Inr ys, s)" "length ys = length xs" using Cons by auto
  ultimately show ?case by (simp add: sbind_Inr)
qed simp

definition tags_importable :: "int \<Rightarrow> db \<Rightarrow> bool" where
  "tags_importable j s \<longleftrightarrow> (case dget (db_devices s) j of None \<Rightarrow> False
   | Some d \<Rightarrow> list_all (\<lambda>t. csv_tag_ok t \<and> tag_ok (dev_driver_type d) t \<and> tag_int64 t) (list_tags j s))"

text \<open>C40: A device's tag file can be imported again.  The store is sound; the device exists, and each of its tags is one a CSV file can
  carry (texts without surrounding space that are not empty where they must not be, no unit or word count zero, a scale and an
  offset whose text reads back as the number), is valid for the driver the device has now, and has integers of 64
  bits. Then the file exported for the device imports into it: every tag is found under its group and name, read
  back as itself, and the database is unchanged.\<close>

theorem tag_file_reimports:
  assumes "db_inv s" "tags_importable j s"
  shows "\<exists>text. cfg_export_tags_csv j s = (Inr text, s) \<and>
    cfg_import_tags_csv j text s = (Inr [(''tags'', VInt (int (length (list_tags j s))))], s)"
proof -
  let ?tags = "list_tags j s"
  let ?text = "write_csv tag_csv_fields (map tag_csv_row ?tags)"
  obtain d where d: "dget (db_devices s) j = Some d" using assms(2) by (auto simp: tags_importable_def split: option.splits)
  have ok: "csv_tag_ok t" "tag_ok (dev_driver_type d) t" "tag_int64 t" if "t \<in> set ?tags" for t
    using assms(2) d that by (auto simp: tags_importable_def list_all_iff)
  have dev: "cfg_get_device j s = (Inr (device_to_dict d), s)" by (rule get_device_found [OF assms(1) d])
  have "list_all (\<lambda>row. list_all plain_cell (dict_cells tag_csv_fields row)) (map tag_csv_row ?tags)"
    using ok(1) tag_row_plain by (simp only: list_all_iff set_map ball_simps)  blast
  then have rows: "csv_rows ?text = Inr (map (text_row tag_csv_fields \<circ> tag_csv_row) ?tags, None)"
    using read_write_csv [of tag_csv_fields "map tag_csv_row ?tags"]
    by (simp add: csv_rows_def tag_csv_fields_def plain_cell_def return_def)
  have driver: "py_str (item_get (device_to_dict d) ''driver_type'') = dev_driver_type d" by (simp add: device_to_dict_def)
  have "\<exists>i. import_tag_row j (dev_driver_type d) (text_row tag_csv_fields (tag_csv_row t)) s = (Inr i, s)"
    if t: "t \<in> set ?tags" for t
  proof -
    have "tag_from_csv_row (text_row tag_csv_fields (tag_csv_row t)) (dev_driver_type d) ''name'' =
        Inr (t\<lparr>tag_id := None, tag_device_id := None\<rparr>)"
      by (rule tag_from_cells [OF ok(1) [OF t] tag_row_cells]) auto
    then show ?thesis using upsert_unchanged [OF assms(1) d t ok(2,3) [OF t]]
      by (simp add: import_tag_row_def svc_simps)
  qed
  then obtain ids where ids: "smap (import_tag_row j (dev_driver_type d)) (map (text_row tag_csv_fields \<circ> tag_csv_row) ?tags) s = (Inr ids, s)"
    "length ids = length ?tags"
    using smap_unchanged [of "map (text_row tag_csv_fields \<circ> tag_csv_row) ?tags" "import_tag_row j (dev_driver_type d)" s]
    by auto
  have "cfg_export_tags_csv j s = (Inr ?text, s)" using dev by (simp add: cfg_export_tags_csv_def sbind_def)
  moreover have "cfg_import_tags_csv j ?text s = (Inr [(''tags'', VInt (int (length ?tags)))], s)"
    using ids by (simp add: cfg_import_tags_csv_def sbind_def dev rows driver end_of_rows_def)
  ultimately show ?thesis by blast
qed

lemma default_floats_text: "parse_float (show_float fl_one) = Some fl_one" "parse_float (show_float fl_zero) = Some fl_zero"
proof -
  have digit: "show_nat (Suc 0) = ''1''" by code_simp
  have "find_digits False (2 ^ 52) (-52) 1 [1..<18] = Some (1, 0)"
    by (simp add: upt_conv_Cons neighbours_def fl_num_def fl_den_def fl_decimal_def fl_eval)
  then have "shortest_digits False (2 ^ 52) (-52) = (1, 0)"
    by (simp add: shortest_digits_def decimal_point_def fl_num_def fl_den_def digit)
  then have one: "show_float fl_one = ''1.0''"
    by (simp add: fl_one_def format_digits_def zeros_def rstrip_if_def digit)
  show "parse_float (show_float fl_one) = Some fl_one"
    unfolding one by (simp add: parse_float_def str_simps parse_unsigned_float_def py_lower_def lower_char_def Let_def
      count_digits_def is_digit_def digits_or_none_def parse_nat_def digit_val_def parse_exponent_def fl_decimal_def fl_ratio_def fl_eval round_half_even_def)
  show "parse_float (show_float fl_zero) = Some fl_zero"
    by (simp add: fl_zero_def parse_float_def str_simps parse_unsigned_float_def py_lower_def lower_char_def Let_def
      count_digits_def is_digit_def digits_or_none_def parse_nat_def digit_val_def parse_exponent_def fl_decimal_def fl_ratio_def fl_eval)
qed

lemma plant_importable: "tags_importable 7 plant_with_tag"
proof -
  note f = default_floats_text
  have "list_tags 7 plant_with_tag = [flow_spec\<lparr>tag_id := Some 1\<rparr>]" "dget (db_devices plant_with_tag) 7 = Some (sample_device [])"
    by (simp_all add: list_tags_def plant_with_tag_def plant_db_def dvalues_def flow_spec_def new_tag_def)
  moreover have "csv_tag_ok (flow_spec\<lparr>tag_id := Some 1\<rparr>)"
    by (simp add: csv_tag_ok_def csv_text_ok_def flow_spec_def new_tag_def f str_simps plain_cell_def return_def)
  moreover have "tag_ok ''modbus_tcp'' (flow_spec\<lparr>tag_id := Some 1\<rparr>)" using flow_spec_ok
    by (simp add: tag_ok_def)
  moreover have "tag_int64 (flow_spec\<lparr>tag_id := Some 1\<rparr>)"
    by (simp add: tag_int64_def flow_spec_def new_tag_def int64_def opt_int64_def)
  ultimately show ?thesis by (simp add: tags_importable_def sample_device_def)
qed

lemma tag_file_reimports_witness:
  "\<exists>text. cfg_export_tags_csv 7 plant_with_tag = (Inr text, plant_with_tag) \<and>
    cfg_import_tags_csv 7 text plant_with_tag = (Inr [(''tags'', VInt (int (length (list_tags 7 plant_with_tag))))], plant_with_tag)"
  by (rule tag_file_reimports [OF plant_inv(1) plant_importable])

section \<open>Settings without a column\<close>

lemma csv_values_other:
  "csv_values conv fs row vals = Inr w \<Longrightarrow> item_get row k = VNone \<Longrightarrow> dget w k = dget vals k"
proof (induction conv fs row vals rule: csv_values.induct)
  case (2 conv k' kind fs row vals)
  show ?case
  proof (cases "item_get row k' \<noteq> VNone \<and> py_strip (py_str (item_get row k')) \<noteq> []")
    case True
    then obtain v where "conv kind (item_get row k') = Inr v" "csv_values conv fs row (dset k' v vals) = Inr w"
      using 2(3) by (auto simp: rbind_Inr_iff)
    moreover have "k' \<noteq> k" using True 2(4) by auto
    ultimately show ?thesis using 2(1) [OF refl True] 2(4) by simp
  next
    case False
    then have "csv_values conv fs row vals = Inr w" using 2(3) by (auto simp: Let_def)
    then show ?thesis using 2(2) [OF refl False] 2(4) by simp
  qed
qed simp

lemma zip_get: "distinct (map f xs) \<Longrightarrow> x \<in> set xs \<Longrightarrow> dget (map (\<lambda>x. (f x, g x)) xs) (f x) = Some (g x)"
  by (induction xs) auto

lemma connection_column_missing:
  assumes "csv_connection dt (text_row names row) = Inr c" "f \<in> set (connection_fields_for_driver dt)" "cf_key f \<notin> set names"
  shows "dget c (cf_key f) = Some (cf_default f)"
proof -
  obtain w where w: "csv_values csv_connection_value (map (\<lambda>f. (cf_key f, cf_kind f)) (connection_fields_for_driver dt)) (text_row names row) [] = Inr w"
    "normalize_connection_for_driver dt (VDict w) = Inr c"
    using assms(1) by (auto simp: csv_connection_def rbind_Inr_iff)
  have "dget w (cf_key f) = None"
    using csv_values_other [OF w(1), of "cf_key f"] text_row_lookup(3) [OF assms(3), of row] by (simp add: item_get_dget)
  then show ?thesis using w(2) zip_get [OF distinct_connection_keys assms(2), of "\<lambda>f. get_or w (cf_key f) (cf_default f)"]
    by (auto simp: normalize_connection_dict get_or_def)
qed

lemma plugin_column_missing:
  assumes "csv_plugin_config pt (text_row names row) = Inr c" "f \<in> set (plugin_fields pt)" "pf_key f \<notin> set names"
  shows "dget c (pf_key f) = Some (pf_default f)"
proof -
  obtain w where w: "csv_values csv_plugin_value (map (\<lambda>f. (pf_key f, pf_kind f)) (plugin_fields pt)) (text_row names row) [] = Inr w"
    "normalize_plugin_config pt (VDict w) = Inr c"
    using assms(1) by (auto simp: csv_plugin_config_def rbind_Inr_iff)
  have "dget w (pf_key f) = None"
    using csv_values_other [OF w(1), of "pf_key f"] text_row_lookup(3) [OF assms(3), of row] by (simp add: item_get_dget)
  then show ?thesis using w(2) zip_get [OF distinct_plugin_keys assms(2), of "\<lambda>f. get_or w (pf_key f) (pf_default f)"]
    by (auto simp: normalize_plugin_dict get_or_def)
qed

lemma monitor_field: "connection_field ''capture_wait_s'' ''Capture wait sec'' ''float'' (VFloat (whole_float 5)) [] (Some 1) (Some 60)
    \<in> set (connection_fields_for_driver ''modbus_rtu_monitor'')"
  by (simp add: connection_fields_for_driver_def connection_tables)

lemma capture_wait_reset:
  assumes "csv_connection ''modbus_rtu_monitor'' (text_row device_csv_fields row) = Inr c"
  shows "dget c ''capture_wait_s'' = Some (VFloat (whole_float 5))"
  using connection_column_missing [OF assms monitor_field] by (simp add: connection_field_def device_csv_fields_def)

lemma fold_add_keeps:
  "dget r k \<noteq> None \<Longrightarrow> dget (fold (\<lambda>key r. if dget r key = None then (case g key of None \<Rightarrow> r | Some v \<Rightarrow> dset key v r) else r) keys r) k = dget r k"
proof (induction keys arbitrary: r)
  case (Cons key keys)
  let ?r = "if dget r key = None then (case g key of None \<Rightarrow> r | Some v \<Rightarrow> dset key v r) else r"
  have "dget ?r k = dget r k" using Cons.prems by (auto simp: dget_dset split: option.split)
  then show ?case using Cons.IH [of ?r] Cons.prems by simp
qed simp

lemma device_row_cells:
  assumes "(k, v) \<in> {(''device_group'', VStr (dev_group d)), (''device_name'', VStr (dev_name d)), (''driver_type'', VStr (dev_driver_type d))}"
  shows "item_get (text_row device_csv_fields (device_csv_row d t)) k = VStr (cell_text v)"
proof -
  have k: "k \<in> {''device_group'', ''device_name'', ''driver_type''}" using assms by auto
  have "dget (device_csv_row d t) k = Some v"
  proof (cases t)
    case None
    then show ?thesis using assms by (auto simp: device_csv_row_def Let_def fold_add_keeps)
  next
    case (Some u)
    moreover have "k \<notin> fst ` set (tag_cells ''tag_name'' ''tag_enabled'' u)" using k by (auto simp: tag_cells_def)
    ultimately show ?thesis using assms
      by (auto simp: device_csv_row_def Let_def fold_add_keeps dget_dupdate_notin)
  qed
  moreover have "k \<in> set device_csv_fields" using k by (auto simp: device_csv_fields_def)
  ultimately show ?thesis by (simp add: text_row_lookup get_or_def)
qed

lemma dict_within_get: "dict_within d e \<Longrightarrow> dget d k = Some v \<Longrightarrow> \<exists>w. dget e k = Some w \<and> py_eq v w"
  by (induction d) (auto split: if_splits option.splits)

text \<open>A monitor's export is refused by its own gateway.  The device file has no column for the capture time, so the row
  exported for an RTU monitor whose capture time is not five seconds is rejected when it is imported into
  the gateway that exported it.\<close>

theorem monitor_reimport_refused:
  assumes "dev_driver_type d = ''modbus_rtu_monitor''" "dget (dev_connection d) ''capture_wait_s'' = Some v"
    and "\<not> py_eq v (VFloat (whole_float 5))"
    and "dget index (device_import_key d) = Some d" "csv_text_ok (dev_name d)" "dev_name d \<noteq> []" "csv_text_ok (dev_group d)"
  shows "\<exists>e. import_device_row (text_row device_csv_fields (device_csv_row d t)) index s = (Inl e, s)"
proof (cases "device_from_csv_row (text_row device_csv_fields (device_csv_row d t))")
  case (Inl e)
  then show ?thesis by (simp add: import_device_row_def svc_simps)
next
  case (Inr d')
  let ?row = "text_row device_csv_fields (device_csv_row d t)"
  have cells: "item_get ?row ''device_group'' = VStr (dev_group d)" "item_get ?row ''device_name'' = VStr (dev_name d)"
    "item_get ?row ''driver_type'' = VStr ''modbus_rtu_monitor''"
    using assms(1) by (auto simp: device_row_cells)
  have driver: "row_text ?row ''driver_type'' ''modbus_tcp'' = ''modbus_rtu_monitor''"
    by (simp add: row_text_def cells or_val_def str_simps)
  obtain conn where conn: "csv_connection ''modbus_rtu_monitor'' ?row = Inr conn" "dev_connection d' = conn"
    using Inr by (auto simp: device_from_csv_row_def driver rbind_Inr_iff Let_def)
  have key: "device_import_key d' = device_import_key d"
    using Inr assms(5-7) by (auto simp: device_from_csv_row_def rbind_Inr_iff Let_def device_import_key_def row_text_def
        cells or_val_def csv_text_ok_def)
  have "\<not> dict_within (dev_connection d) conn"
    using dict_within_get [OF _ assms(2)] capture_wait_reset [OF conn(1)] assms(3) by fastforce
  then have "\<not> py_eq (VDict (dev_connection d)) (VDict (dev_connection d'))" using conn(2) by simp
  then have "validate_same_device_config d d' = value_error (''device '' @ quoted (dev_name d') @ '' in group '' @
        quoted (if dev_group d' = [] then ''default'' else dev_group d') @ '' already exists with different connection/settings'')"
    unfolding validate_same_device_config_def by (simp only: simp_thms if_True)
  then show ?thesis using Inr key assms(4)
    by (simp add: import_device_row_def sbind_def value_error_def)
qed

definition sample_monitor :: device_spec where
  "sample_monitor = (sample_device [(''capture_wait_s'', VInt 9)])\<lparr>dev_driver_type := ''modbus_rtu_monitor''\<rparr>"

lemma whole_five: "whole_float 5 = FFin False (5 * 2 ^ 50) (-50)"
  by (simp add: whole_float_def fl_ratio_def fl_eval round_half_even_def Let_def)

lemma monitor_reimport_refused_witness:
  "\<exists>e. import_device_row (text_row device_csv_fields (device_csv_row sample_monitor None)) [(([], ''boiler plc''), sample_monitor)] plant_db = (Inl e, plant_db)"
  by (rule monitor_reimport_refused [where v = "VInt 9"])
    (simp_all add: sample_monitor_def sample_device_def device_import_key_def csv_text_ok_def plain_cell_def return_def str_simps
      whole_five float_eq_int_def signed_def)

text \<open>A plugin's export resets its timeouts.  Whatever the plugin file says, an MQTT plugin that is imported from it has
  the default stale timeout and status interval, since the file has no columns for them.\<close>

theorem plugin_import_resets_timeouts:
  assumes "csv_plugin_config ''mqtt'' (text_row plugin_csv_fields row) = Inr c"
  shows "dget c ''message_stale_timeout_s'' = Some (VInt 15) \<and> dget c ''status_publish_interval_s'' = Some (VInt 60)"
proof -
  have "plugin_field ''message_stale_timeout_s'' ''Message stale sec'' ''int'' (VInt 15) (Some 1) (Some 86400) \<in> set (plugin_fields ''mqtt'')"
    "plugin_field ''status_publish_interval_s'' ''Status publish sec'' ''int'' (VInt 60) (Some 1) (Some 86400) \<in> set (plugin_fields ''mqtt'')"
    by (simp_all add: plugin_fields_def plugin_tables)
  then show ?thesis using plugin_column_missing [OF assms] by (force simp: plugin_field_def plugin_csv_fields_def)
qed

lemma csv_values_blank:
  "\<forall>f\<in>set fs. item_get row (fst f) \<in> {VNone, VStr []} \<Longrightarrow> csv_values conv fs row vals = Inr vals"
  by (induction conv fs row vals rule: csv_values.induct) auto

lemma plugin_import_resets_timeouts_witness:
  "dget (default_plugin_config ''mqtt'') ''message_stale_timeout_s'' = Some (VInt 15) \<and>
   dget (default_plugin_config ''mqtt'') ''status_publish_interval_s'' = Some (VInt 60)"
proof (rule plugin_import_resets_timeouts [of "[]"])
  have "item_get (text_row plugin_csv_fields []) k \<in> {VNone, VStr []}" for k
    by (cases "k \<in> set plugin_csv_fields") (simp_all add: text_row_lookup item_get_dget)
  then have "csv_values csv_plugin_value (map (\<lambda>f. (pf_key f, pf_kind f)) (plugin_fields ''mqtt'')) (text_row plugin_csv_fields []) [] = Inr []"
    by (intro csv_values_blank) auto
  then show "csv_plugin_config ''mqtt'' (text_row plugin_csv_fields []) = Inr (default_plugin_config ''mqtt'')"
    by (simp add: csv_plugin_config_def normalize_plugin_config_def)
qed

section \<open>Imports keep the integrity of the database\<close>

lemma keeps_smap [intro]: "(\<And>x. keeps P (f x)) \<Longrightarrow> keeps P (smap f xs)"
  by (induction xs) auto

lemma keeps_upsert [intro]: "keeps db_reachable (upsert_tag j t)"
  unfolding upsert_tag_def by (intro keeps_sbind keeps_pure keeps_store_ops)

lemma keeps_plugin [intro]: "keeps db_reachable (save_plugin k)"
  unfolding save_plugin_def by (rule keeps_store_ops)

lemma keeps_device_row [intro]: "keeps db_reachable (import_device_row row index)"
  unfolding import_device_row_def
  by (auto intro!: keeps_sbind keeps_pure keeps_store_ops keeps_upsert simp: Let_def split: option.split prod.split)

lemma keeps_device_rows: "keeps db_reachable (import_device_rows rows index d t)"
  by (induction rows arbitrary: index d t) (auto intro!: keeps_sbind split: prod.split)

lemma keeps_route_row [intro]: "keeps db_reachable (import_plugin_route_row row index existing)"
  unfolding import_plugin_route_row_def Let_def by (intro keeps_sbind keeps_pure keeps_store_ops)

lemma keeps_route_rows: "keeps db_reachable (import_route_rows rows index existing n)"
  by (induction rows arbitrary: existing n) (auto intro!: keeps_sbind keeps_pure)

lemma keeps_plugin_rows: "keeps db_reachable (import_plugin_rows rows index existing p r sel)"
  by (induction rows arbitrary: existing p r sel) (auto intro!: keeps_sbind keeps_pure)

lemma keeps_end [intro]: "keeps P (end_of_rows e)"
  by (simp add: end_of_rows_def keeps_pure)

lemma imports_keep_reachable:
  "keeps db_reachable (cfg_import_tags_csv j text)" "keeps db_reachable (cfg_import_devices_csv text)"
  "keeps db_reachable (cfg_import_plugin_routes_csv text)" "keeps db_reachable (cfg_import_plugins_csv text)"
  unfolding cfg_import_tags_csv_def import_tag_row_def cfg_import_devices_csv_def cfg_import_plugin_routes_csv_def cfg_import_plugins_csv_def
  by (auto intro!: keeps_sbind keeps_pure keeps_get keeps_smap keeps_upsert keeps_device_rows keeps_route_rows keeps_plugin_rows
      keeps_end keeps_plugin split: prod.split option.split)

end
