(* ===== verification/Registry.thy ===== *)
theory Registry
  imports Config_Schema
begin

text \<open>
  \<^verbatim>\<open>src/industrial_gateway/registry.py\<close> and \<^verbatim>\<open>src/industrial_gateway/defaults.py\<close>: registries of
  driver and sink classes whose keys are compared without case and surrounding white space. The
  registered classes are named by the datatypes \<open>driver_class\<close> and \<open>sink_class\<close>.
\<close>

type_synonym 'a registry = "(string, 'a) pydict"

definition normalize_key :: "string \<Rightarrow> string" where
  "normalize_key key = py_lower (py_strip key)"

definition registry_register :: "string \<Rightarrow> 'a \<Rightarrow> 'a registry \<Rightarrow> 'a registry res" where
  "registry_register key item r =
     (let normalized = normalize_key key in
      if normalized = [] then value_error ''registry key is required'' else Inr (dset normalized item r))"

definition registry_get :: "string \<Rightarrow> 'a registry \<Rightarrow> 'a res" where
  "registry_get key r = (case dget r (normalize_key key) of
     Some item \<Rightarrow> Inr item
   | None \<Rightarrow> Inl (Raise KeyError (quoted (''unknown registry key: '' @ key))))"

definition registry_keys :: "'a registry \<Rightarrow> string list" where
  "registry_keys r = sort (dkeys r)"

definition registry_items :: "'a registry \<Rightarrow> (string \<times> 'a) list" where
  "registry_items r = r"

datatype driver_class = ModbusTcpDriver | ModbusSerialDriver | ModbusRtuMonitorDriver | OpcUaDriver | MqttInputDriver

datatype sink_class = MqttSink | PostgresSink

fun register_all :: "(string \<times> 'a) list \<Rightarrow> 'a registry \<Rightarrow> 'a registry res" where
  "register_all [] r = Inr r"
| "register_all ((k, x) # ks) r = rbind (registry_register k x r) (register_all ks)"

definition driver_registry :: "driver_class registry res" where
  "driver_registry = register_all
     [(''modbus_tcp'', ModbusTcpDriver), (''modbus_serial'', ModbusSerialDriver),
      (''modbus_rtu_monitor'', ModbusRtuMonitorDriver), (''opcua'', OpcUaDriver), (''mqtt'', MqttInputDriver)] []"

definition sink_registry :: "string option \<Rightarrow> sink_class registry res" where
  "sink_registry env = register_all
     ((''mqtt'', MqttSink) #
      (if ''postgresql'' \<in> set (enabled_plugin_types env) then [(''postgresql'', PostgresSink)] else [])) []"

section \<open>Lookup\<close>

lemma lower_upper_char: "lower_char (lower_char c) = lower_char c"
  by (cases c) (simp add: lower_char_def Let_def)

lemma registry_get_register:
  assumes "registry_register key item r = Inr r'"
  shows "registry_get k r' = (if normalize_key k = normalize_key key then Inr item else registry_get k r)"
  using assms by (auto simp: registry_register_def registry_get_def Let_def dget_dset value_error_def split: if_splits)

lemma driver_registry_entries:
  "driver_registry = Inr [(''modbus_tcp'', ModbusTcpDriver), (''modbus_serial'', ModbusSerialDriver),
     (''modbus_rtu_monitor'', ModbusRtuMonitorDriver), (''opcua'', OpcUaDriver), (''mqtt'', MqttInputDriver)]"
  by (simp add: driver_registry_def registry_register_def normalize_key_def py_lower_def lower_char_def str_simps Let_def)

end
