(* ===== verification/Json_Text.thy ===== *)
theory Json_Text
  imports Py_Repr
begin

text \<open>
  \<open>json.dumps\<close> and \<open>json.loads\<close> of the standard library on the dynamically typed values. Text is written as with
  \<open>ensure_ascii=False\<close>; the two separators and the sorting of keys are arguments. The reader is the decoder's grammar
  with its extensions for the non-finite floats; \<open>None\<close> is its error. A string is a list of UTF-8 bytes, so an escape
  \<open>\u\<close> stands for the bytes of its code point.
\<close>

section \<open>Writing\<close>

definition json_char :: "char \<Rightarrow> string" where
  "json_char c =
     (let n = of_char c :: nat; backslash = char_of (92 :: nat) in
      if n = 34 \<or> n = 92 then [backslash, c]
      else if n = 8 then [backslash, CHR ''b'']
      else if n = 9 then [backslash, CHR ''t'']
      else if n = 10 then [backslash, CHR ''n'']
      else if n = 12 then [backslash, CHR ''f'']
      else if n = 13 then [backslash, CHR ''r'']
      else if n < 32 then [backslash, CHR ''u'', CHR ''0'', CHR ''0'', hex_digit (n div 16), hex_digit (n mod 16)]
      else [c])"

definition json_string :: "string \<Rightarrow> string" where
  "json_string s = [char_of (34 :: nat)] @ concat (map json_char s) @ [char_of (34 :: nat)]"

fun json_float :: "pyfloat \<Rightarrow> string" where
  "json_float FNan = ''NaN''"
| "json_float (FInf s) = (if s then ''-Infinity'' else ''Infinity'')"
| "json_float x = show_float x"

fun json_dumps :: "string \<Rightarrow> string \<Rightarrow> pyval \<Rightarrow> string" where
  "json_dumps isep ksep VNone = ''null''"
| "json_dumps isep ksep (VBool b) = (if b then ''true'' else ''false'')"
| "json_dumps isep ksep (VInt i) = show_int i"
| "json_dumps isep ksep (VFloat x) = json_float x"
| "json_dumps isep ksep (VStr s) = json_string s"
| "json_dumps isep ksep (VList xs) = ''['' @ py_join isep (map (json_dumps isep ksep) xs) @ '']''"
| "json_dumps isep ksep (VDict d) = ''{'' @
     py_join isep (map (\<lambda>p. json_string (fst p) @ ksep @ json_dumps isep ksep (snd p)) d) @ ''}''"

text \<open>\<open>sort_keys=True\<close>.\<close>

fun json_sorted :: "pyval \<Rightarrow> pyval" where
  "json_sorted (VList xs) = VList (map json_sorted xs)"
| "json_sorted (VDict d) = VDict (sort_key fst (map (\<lambda>p. (fst p, json_sorted (snd p))) d))"
| "json_sorted v = v"

section \<open>Reading\<close>

definition json_space :: "char \<Rightarrow> bool" where
  "json_space c \<longleftrightarrow> (of_char c :: nat) \<in> {9, 10, 13, 32}"

definition skip_space :: "string \<Rightarrow> string" where
  "skip_space s = dropWhile json_space s"

definition hex_val :: "char \<Rightarrow> nat option" where
  "hex_val c = (let n = of_char c :: nat in
     if 48 \<le> n \<and> n \<le> 57 then Some (n - 48)
     else if 65 \<le> n \<and> n \<le> 70 then Some (n - 55)
     else if 97 \<le> n \<and> n \<le> 102 then Some (n - 87) else None)"

fun hex4 :: "string \<Rightarrow> (nat \<times> string) option" where
  "hex4 (a # b # c # d # r) = (case (hex_val a, hex_val b, hex_val c, hex_val d) of
     (Some w, Some x, Some y, Some z) \<Rightarrow> Some (((w * 16 + x) * 16 + y) * 16 + z, r)
   | _ \<Rightarrow> None)"
| "hex4 s = None"

definition utf8 :: "nat \<Rightarrow> string" where
  "utf8 n =
     (if n < 0x80 then [char_of n]
      else if n < 0x800 then [char_of (0xC0 + n div 64), char_of (0x80 + n mod 64)]
      else if n < 0x10000 then [char_of (0xE0 + n div 4096), char_of (0x80 + n div 64 mod 64), char_of (0x80 + n mod 64)]
      else [char_of (0xF0 + n div 262144), char_of (0x80 + n div 4096 mod 64), char_of (0x80 + n div 64 mod 64),
            char_of (0x80 + n mod 64)])"

text \<open>After \<open>\u\<close>: a code unit, joined with a following low surrogate if it is a high one.\<close>

definition read_unicode :: "string \<Rightarrow> (string \<times> string) option" where
  "read_unicode s = (case hex4 s of
     None \<Rightarrow> None
   | Some (n, r) \<Rightarrow>
       (if 0xD800 \<le> n \<and> n < 0xDC00 \<and> take 2 r = [char_of (92 :: nat), CHR ''u'']
        then (case hex4 (drop 2 r) of
            None \<Rightarrow> None
          | Some (l, r') \<Rightarrow> if 0xDC00 \<le> l \<and> l < 0xE000
              then Some (utf8 (0x10000 + (n - 0xD800) * 1024 + (l - 0xDC00)), r') else Some (utf8 n, r))
        else Some (utf8 n, r)))"

definition simple_escape :: "char \<Rightarrow> char option" where
  "simple_escape c = (let n = of_char c :: nat in
     if n = 34 \<or> n = 92 \<or> n = 47 then Some c
     else if c = CHR ''b'' then Some (char_of (8 :: nat))
     else if c = CHR ''f'' then Some (char_of (12 :: nat))
     else if c = CHR ''n'' then Some (char_of (10 :: nat))
     else if c = CHR ''r'' then Some (char_of (13 :: nat))
     else if c = CHR ''t'' then Some (char_of (9 :: nat)) else None)"

text \<open>The characters of a string up to its closing quote; every character consumes input.\<close>

fun read_string :: "nat \<Rightarrow> string \<Rightarrow> string \<Rightarrow> (string \<times> string) option" where
  "read_string n acc [] = None"
| "read_string 0 acc s = None"
| "read_string (Suc n) acc (c # r) =
     (if of_char c = (34 :: nat) then Some (acc, r)
      else if of_char c = (92 :: nat) then
        (case r of
           [] \<Rightarrow> None
         | e # r' \<Rightarrow> if e = CHR ''u''
             then (case read_unicode r' of None \<Rightarrow> None | Some (t, r'') \<Rightarrow> read_string n (acc @ t) r'')
             else (case simple_escape e of None \<Rightarrow> None | Some x \<Rightarrow> read_string n (acc @ [x]) r'))
      else if of_char c < (32 :: nat) then None
      else read_string n (acc @ [c]) r)"

definition json_text :: "string \<Rightarrow> (string \<times> string) option" where
  "json_text s = read_string (length s) [] s"

definition take_digits :: "string \<Rightarrow> string" where "take_digits s = takeWhile is_digit s"
definition drop_digits :: "string \<Rightarrow> string" where "drop_digits s = dropWhile is_digit s"

definition fraction_text :: "string \<Rightarrow> string" where
  "fraction_text s = (case s of [] \<Rightarrow> []
     | c # r \<Rightarrow> if c = CHR ''.'' \<and> take_digits r \<noteq> [] then c # take_digits r else [])"

definition exponent_text :: "string \<Rightarrow> string" where
  "exponent_text s = (case s of [] \<Rightarrow> []
     | c # r \<Rightarrow> if c = CHR ''e'' \<or> c = CHR ''E'' then
         (let sign = takeWhile (\<lambda>d. d = CHR ''+'' \<or> d = CHR ''-'') (take 1 r); ds = take_digits (drop (length sign) r)
          in if ds = [] then [] else c # sign @ ds)
       else [])"

definition number_text :: "string \<Rightarrow> (string \<times> string \<times> string) option" where
  "number_text s =
     (let minus = takeWhile (\<lambda>c. c = CHR ''-'') (take 1 s); r = drop (length minus) s;
          whole = (if take 1 r = ''0'' then ''0'' else take_digits r);
          r1 = drop (length whole) r; frac = fraction_text r1; r2 = drop (length frac) r1
      in if whole = [] then None else Some (minus @ whole, frac @ exponent_text r2, drop (length (exponent_text r2)) r2))"

definition json_number :: "string \<Rightarrow> (pyval \<times> string) option" where
  "json_number s = (case number_text s of
     None \<Rightarrow> None
   | Some (whole, rest, r) \<Rightarrow>
       (if rest = [] then map_option (\<lambda>i. (VInt i, r)) (parse_int whole)
        else map_option (\<lambda>x. (VFloat x, r)) (parse_float (whole @ rest))))"

definition json_word :: "string \<Rightarrow> (pyval \<times> string) option" where
  "json_word s =
     (if starts_with ''null'' s then Some (VNone, drop 4 s)
      else if starts_with ''true'' s then Some (VBool True, drop 4 s)
      else if starts_with ''false'' s then Some (VBool False, drop 5 s)
      else if starts_with ''NaN'' s then Some (VFloat FNan, drop 3 s)
      else if starts_with ''Infinity'' s then Some (VFloat (FInf False), drop 8 s)
      else if starts_with ''-Infinity'' s then Some (VFloat (FInf True), drop 9 s)
      else json_number s)"

text \<open>A value, the items of a list after its bracket, the members of an object after its brace.\<close>

fun json_value :: "nat \<Rightarrow> string \<Rightarrow> (pyval \<times> string) option"
  and json_items :: "nat \<Rightarrow> pyval list \<Rightarrow> string \<Rightarrow> (pyval \<times> string) option"
  and json_members :: "nat \<Rightarrow> settings \<Rightarrow> string \<Rightarrow> (pyval \<times> string) option" where
  "json_value 0 s = None"
| "json_value (Suc n) [] = None"
| "json_value (Suc n) (c # r) =
     (if of_char c = (34 :: nat) then map_option (\<lambda>(t, r'). (VStr t, r')) (json_text r)
      else if c = CHR ''['' then
        (if take 1 (skip_space r) = '']'' then Some (VList [], drop 1 (skip_space r)) else json_items n [] (skip_space r))
      else if c = CHR ''{'' then
        (if take 1 (skip_space r) = ''}'' then Some (VDict [], drop 1 (skip_space r)) else json_members n [] (skip_space r))
      else json_word (c # r))"
| "json_items 0 acc s = None"
| "json_items (Suc n) acc s = (case json_value n s of
     None \<Rightarrow> None
   | Some (v, r) \<Rightarrow> (case skip_space r of
         [] \<Rightarrow> None
       | c # r' \<Rightarrow> if c = CHR '','' then json_items n (acc @ [v]) (skip_space r')
           else if c = CHR '']'' then Some (VList (acc @ [v]), r') else None))"
| "json_members 0 acc s = None"
| "json_members (Suc n) acc s = (if take 1 s \<noteq> [char_of (34 :: nat)] then None else
     (case json_text (drop 1 s) of
        None \<Rightarrow> None
      | Some (k, r) \<Rightarrow> (if take 1 (skip_space r) \<noteq> '':'' then None else
          (case json_value n (skip_space (drop 1 (skip_space r))) of
             None \<Rightarrow> None
           | Some (v, r1) \<Rightarrow> (case skip_space r1 of
                 [] \<Rightarrow> None
               | c # r2 \<Rightarrow> if c = CHR '','' then json_members n (dset k v acc) (skip_space r2)
                   else if c = CHR ''}'' then Some (VDict (dset k v acc), r2) else None)))))"

definition json_loads :: "string \<Rightarrow> pyval option" where
  "json_loads s = (case json_value (2 * length s + 2) (skip_space s) of
     None \<Rightarrow> None
   | Some (v, r) \<Rightarrow> if skip_space r = [] then Some v else None)"

section \<open>Reading what was written\<close>

text \<open>What follows a value inside a document: nothing, a comma or a closing bracket.\<close>

definition delimited :: "string \<Rightarrow> bool" where
  "delimited r \<longleftrightarrow> (case r of [] \<Rightarrow> True | c # _ \<Rightarrow> c \<in> {CHR '','', CHR '']'', CHR ''}''})"

lemma hex_val_digit: "k < 16 \<Longrightarrow> hex_val (hex_digit k) = Some k"
  by (auto simp: hex_val_def hex_digit_def digit_char_def Let_def)

lemma char_eqI: "(of_char c :: nat) = of_char d \<Longrightarrow> c = d"
  by (metis of_char_eq_iff)

lemma read_json_char:
  "read_string (Suc n) acc (json_char c @ r) = read_string n (acc @ [c]) r"
proof -
  let ?n = "of_char c :: nat"
  consider "?n = 34" | "?n = 92" | "?n = 8" | "?n = 9" | "?n = 10" | "?n = 12" | "?n = 13"
    | "?n < 32" "?n \<notin> {8, 9, 10, 12, 13}" | "32 \<le> ?n" "?n \<notin> {34, 92}" by fastforce
  then show ?thesis
  proof cases
    case 8
    have h: "hex_val (hex_digit (?n div 16)) = Some (?n div 16)" "hex_val (hex_digit (?n mod 16)) = Some (?n mod 16)"
      using 8 by (simp_all add: hex_val_digit)
    have z: "hex_val (CHR ''0'') = Some 0" by (simp add: hex_val_def)
    have "read_unicode (CHR ''0'' # CHR ''0'' # hex_digit (?n div 16) # hex_digit (?n mod 16) # r) = Some ([c], r)"
      using 8 by (simp add: read_unicode_def h z utf8_def)
    then show ?thesis using 8 by (simp add: json_char_def Let_def)
  next
    case 9
    then show ?thesis by (simp add: json_char_def Let_def)
  qed (auto simp: json_char_def simple_escape_def Let_def intro!: arg_cong [where f = "\<lambda>x. read_string n (acc @ [x]) r"] char_eqI)
qed

lemma read_json_string:
  "length s < n \<Longrightarrow> read_string n acc (concat (map json_char s) @ char_of (34 :: nat) # r) = Some (acc @ s, r)"
proof (induction s arbitrary: n acc)
  case Nil
  then show ?case by (cases n) simp_all
next
  case (Cons c s)
  then obtain k where "n = Suc k" by (cases n) auto
  with Cons show ?case by (simp add: read_json_char)
qed

lemma json_char_length: "1 \<le> length (json_char c)"
  by (simp add: json_char_def Let_def)

lemma concat_json_length: "length s \<le> length (concat (map json_char s))"
proof (induction s)
  case (Cons c s)
  then show ?case using json_char_length [of c] by (simp del: length_greater_0_conv)
qed simp

lemma json_text_string: "json_text (concat (map json_char s) @ char_of (34 :: nat) # r) = Some (s, r)"
  unfolding json_text_def using concat_json_length [of s] by (subst read_json_string) simp_all

lemma takeWhile_stop: "r = [] \<or> \<not> P (hd r) \<Longrightarrow> takeWhile P (s @ r) = takeWhile P s"
  by (induction s) (cases r, auto)

lemma delimited_hd: "delimited r \<Longrightarrow> r = [] \<or> hd r = CHR '','' \<or> hd r = CHR '']'' \<or> hd r = CHR ''}''"
  by (cases r) (auto simp: delimited_def)

lemma take_digits_delimited: "delimited r \<Longrightarrow> take_digits (s @ r) = take_digits s"
  unfolding take_digits_def by (rule takeWhile_stop) (use delimited_hd in \<open>fastforce simp: is_digit_def\<close>)

lemma fraction_delimited: "delimited r \<Longrightarrow> fraction_text (s @ r) = fraction_text s"
  by (cases s; cases r) (auto simp: fraction_text_def take_digits_delimited dest: delimited_hd)

lemma sign_delimited:
  "delimited r \<Longrightarrow> takeWhile (\<lambda>d. d = CHR ''+'' \<or> d = CHR ''-'') (take 1 (s @ r)) = takeWhile (\<lambda>d. d = CHR ''+'' \<or> d = CHR ''-'') (take 1 s)"
  "delimited r \<Longrightarrow> takeWhile (\<lambda>c. c = CHR ''-'') (take 1 (s @ r)) = takeWhile (\<lambda>c. c = CHR ''-'') (take 1 s)"
  by (cases s; cases r; auto dest: delimited_hd)+

lemma exponent_delimited: "delimited r \<Longrightarrow> exponent_text (s @ r) = exponent_text s"
proof (cases s)
  case Nil
  assume "delimited r"
  then show ?thesis using Nil by (cases r) (auto simp: exponent_text_def dest: delimited_hd)
next
  case (Cons c t)
  assume d: "delimited r"
  let ?sign = "takeWhile (\<lambda>d. d = CHR ''+'' \<or> d = CHR ''-'') (take 1 t)"
  have "length ?sign \<le> length t" by (cases t) auto
  then have "take_digits (drop (length ?sign) (t @ r)) = take_digits (drop (length ?sign) t)"
    using d by (simp add: take_digits_delimited)
  then show ?thesis
    by (simp only: Cons append_Cons exponent_text_def list.case Let_def sign_delimited(1) [OF d])
qed

lemma take_digits_le: "length (take_digits s) \<le> length s" by (simp add: take_digits_def length_takeWhile_le)

lemma fraction_le: "length (fraction_text s) \<le> length s"
  by (cases s) (simp_all add: fraction_text_def take_digits_le)

lemma exponent_le: "length (exponent_text s) \<le> length s"
proof (cases s)
  case (Cons c t)
  let ?sign = "takeWhile (\<lambda>d. d = CHR ''+'' \<or> d = CHR ''-'') (take 1 t)"
  have "length ?sign \<le> length t" by (cases t) auto
  moreover have "length (take_digits (drop (length ?sign) t)) \<le> length t - length ?sign"
    using take_digits_le [of "drop (length ?sign) t"] by simp
  ultimately have "length ?sign + length (take_digits (drop (length ?sign) t)) \<le> length t" by linarith
  then show ?thesis by (simp only: Cons exponent_text_def list.case Let_def) simp
qed (simp add: exponent_text_def)

lemma drop_delimited: "n \<le> length s \<Longrightarrow> drop n (s @ r) = drop n s @ r"
  by simp

lemma number_delimited:
  assumes "number_text t = Some (w, f, [])" "delimited r"
  shows "number_text (t @ r) = Some (w, f, r)"
proof -
  define minus where "minus = takeWhile (\<lambda>c. c = CHR ''-'') (take 1 t)"
  define u where "u = drop (length minus) t"
  define whole where "whole = (if take 1 u = ''0'' then ''0'' else take_digits u)"
  define r1 where "r1 = drop (length whole) u"
  define frac where "frac = fraction_text r1"
  define r2 where "r2 = drop (length frac) r1"
  have t: "whole \<noteq> []" "w = minus @ whole" "f = frac @ exponent_text r2" "drop (length (exponent_text r2)) r2 = []"
    using assms(1) by (auto simp: number_text_def Let_def minus_def u_def whole_def r1_def frac_def r2_def split: if_splits)
  have "length minus \<le> length t" by (cases t) (auto simp: minus_def)
  then have u: "drop (length minus) (t @ r) = u @ r" by (simp add: u_def)
  have un: "u \<noteq> []" using t(1) by (auto simp: whole_def take_digits_def split: if_splits)
  have whole: "(if take 1 (u @ r) = ''0'' then ''0'' else take_digits (u @ r)) = whole"
    using un by (simp add: whole_def take_digits_delimited [OF assms(2)]) (cases u; simp)
  have "length whole \<le> length u" using un take_digits_le [of u] by (cases u) (auto simp: whole_def)
  then have r1: "drop (length whole) (u @ r) = r1 @ r" by (simp add: r1_def)
  have r2: "drop (length frac) (r1 @ r) = r2 @ r" using fraction_le [of r1] by (simp add: r2_def frac_def)
  have ex: "drop (length (exponent_text r2)) (r2 @ r) = r" using t(4) exponent_le [of r2] by simp
  show ?thesis
    unfolding number_text_def sign_delimited(2) [OF assms(2)] Let_def minus_def [symmetric] u whole r1
      fraction_delimited [OF assms(2)] frac_def [symmetric] r2 exponent_delimited [OF assms(2)] ex
    using t by simp
qed

definition starts_number :: "string \<Rightarrow> bool" where
  "starts_number t \<longleftrightarrow> t \<noteq> [] \<and> (is_digit (hd t) \<or> (hd t = CHR ''-'' \<and> tl t \<noteq> [] \<and> is_digit (hd (tl t))))"

lemma starts_with_Cons: "starts_with (x # p) (y # s) \<longleftrightarrow> x = y \<and> starts_with p s"
  by (auto simp: starts_with_def)

lemma starts_number_word:
  assumes "starts_number t"
  shows "json_word (t @ r) = json_number (t @ r)"
proof -
  obtain c u where t: "t = c # u" using assms by (cases t) (auto simp: starts_number_def)
  have no: "\<not> is_digit (CHR ''n'')" "\<not> is_digit (CHR ''t'')" "\<not> is_digit (CHR ''f'')" "\<not> is_digit (CHR ''N'')"
    "\<not> is_digit (CHR ''I'')" "\<not> is_digit (CHR ''-'')" by (simp_all add: is_digit_def)
  show ?thesis
  proof (cases "is_digit c")
    case True
    then have "CHR ''n'' \<noteq> c" "CHR ''t'' \<noteq> c" "CHR ''f'' \<noteq> c" "CHR ''N'' \<noteq> c" "CHR ''I'' \<noteq> c" "CHR ''-'' \<noteq> c" using no by auto
    then show ?thesis by (simp only: t append_Cons json_word_def starts_with_Cons simp_thms if_False)
  next
    case False
    then obtain d v where dv: "c = CHR ''-''" "u = d # v" "is_digit d" using assms by (cases u) (auto simp: starts_number_def t)
    then have "CHR ''I'' \<noteq> d" using no by auto
    then show ?thesis by (simp add: t dv json_word_def starts_with_Cons)
  qed
qed

lemma json_number_delimited: "json_number t = Some (v, []) \<Longrightarrow> delimited r \<Longrightarrow> json_number (t @ r) = Some (v, r)"
  by (auto simp: json_number_def number_delimited split: option.splits if_splits)

lemma digit_char_0: "digit_char 0 = CHR ''0''"
  by code_simp

lemma hd_show_nat: "0 < n \<Longrightarrow> hd (show_nat n) \<noteq> CHR ''0''"
proof (induction n rule: show_nat.induct)
  case (1 n)
  show ?case
  proof (cases "n < 10")
    case True
    then show ?thesis using 1(2) 
      by (auto simp: show_nat.simps [of n] dest: arg_cong [where f = digit_val] simp flip: digit_char_0 simp: digit_char_props)
  next
    case False
    then show ?thesis using 1 by (simp add: show_nat.simps [of n])
  qed
qed

lemma take_digits_show_nat: "take_digits (show_nat n) = show_nat n"
  using show_nat_digits [of n] by (simp add: take_digits_def takeWhile_eq_all_conv)

lemma number_text_nat: "number_text (show_nat n) = Some (show_nat n, [], [])"
proof -
  obtain c u where cu: "show_nat n = c # u" by (cases "show_nat n") auto
  have c: "is_digit c" using show_nat_digits [of n] cu by simp
  then have m: "c \<noteq> CHR ''-''" by (auto simp: is_digit_def)
  have "(if take 1 (show_nat n) = ''0'' then ''0'' else take_digits (show_nat n)) = show_nat n"
  proof (cases "n = 0")
    case True
    then show ?thesis by (simp add: show_nat.simps digit_char_0)
  next
    case False
    then have "c \<noteq> CHR ''0''" using hd_show_nat [of n] cu by simp
    then show ?thesis using cu take_digits_show_nat [of n] by simp
  qed
  moreover have "takeWhile (\<lambda>c. c = CHR ''-'') (take 1 (show_nat n)) = []" using m cu by simp
  moreover have "fraction_text [] = []" "exponent_text [] = []" by (simp_all add: fraction_text_def exponent_text_def)
  ultimately show ?thesis by (simp only: number_text_def Let_def drop_0 list.size append_Nil append_Nil2 drop_all le_refl show_nat_ne if_False)
qed

lemma number_text_minus: "is_digit (hd t) \<Longrightarrow> t \<noteq> [] \<Longrightarrow> number_text t = Some (w, f, r) \<Longrightarrow>
    number_text (CHR ''-'' # t) = Some (CHR ''-'' # w, f, r)"
  by (cases t) (auto simp: number_text_def Let_def is_digit_def split: if_splits)

lemma show_nat_hd: "is_digit (hd (show_nat n))"
  using show_nat_digits [of n] by simp

lemma json_int: "starts_number (show_int i)" "json_number (show_int i) = Some (VInt i, [])"
proof -
  show "starts_number (show_int i)" by (simp add: starts_number_def show_int_def show_nat_hd)
  have "number_text (show_int i) = Some (show_int i, [], [])"
    by (simp add: show_int_def number_text_nat number_text_minus show_nat_hd)
  then show "json_number (show_int i) = Some (VInt i, [])" by (simp add: json_number_def)
qed

text \<open>A float whose text reads back as itself.\<close>

definition float_readable :: "pyfloat \<Rightarrow> bool" where
  "float_readable x \<longleftrightarrow> (case x of
     FFin s m e \<Rightarrow> starts_number (show_float x) \<and> json_number (show_float x) = Some (VFloat x, [])
   | _ \<Rightarrow> True)"

fun json_ok :: "pyval \<Rightarrow> bool" where
  "json_ok (VFloat x) = float_readable x"
| "json_ok (VList xs) = list_all json_ok xs"
| "json_ok (VDict d) = (dwf d \<and> list_all (\<lambda>p. json_ok (snd p)) d)"
| "json_ok v = True"

definition json_separators :: "string \<Rightarrow> string \<Rightarrow> bool" where
  "json_separators isep ksep \<longleftrightarrow> take 1 isep = '','' \<and> list_all json_space (drop 1 isep) \<and>
     take 1 ksep = '':'' \<and> list_all json_space (drop 1 ksep)"

lemma skip_spaces: "list_all json_space sp \<Longrightarrow> skip_space (sp @ s) = skip_space s"
  by (induction sp) (simp_all add: skip_space_def)

lemma json_float_word:
  assumes "float_readable x" "delimited r"
  shows "json_word (json_float x @ r) = Some (VFloat x, r)"
proof (cases x)
  case (FFin s m e)
  then show ?thesis using assms json_number_delimited [of "show_float x" "VFloat x" r] starts_number_word [of "show_float x" r]
    by (simp add: float_readable_def)
qed (simp_all add: json_word_def starts_with_def)

definition value_start :: "char \<Rightarrow> bool" where
  "value_start c \<longleftrightarrow> is_digit c \<or> (of_char c :: nat) = 34 \<or> c \<in> {CHR ''-'', CHR ''n'', CHR ''t'', CHR ''f'', CHR ''N'', CHR ''I'', CHR ''['', CHR ''{''}"

lemma value_start_simps:
  "value_start c \<Longrightarrow> \<not> json_space c" "value_start c \<Longrightarrow> c \<noteq> CHR '']''" "value_start c \<Longrightarrow> c \<noteq> CHR ''}''"
  by (auto simp: value_start_def json_space_def is_digit_def Let_def)

lemma starts_number_start: "starts_number t \<Longrightarrow> \<exists>c u. t = c # u \<and> value_start c"
  by (cases t) (auto simp: starts_number_def value_start_def)

lemma dumps_start: "json_ok v \<Longrightarrow> \<exists>c u. json_dumps isep ksep v = c # u \<and> value_start c"
proof (cases v)
  case (VFloat x)
  assume "json_ok v"
  then show ?thesis using VFloat
    by (cases x) (auto simp: float_readable_def value_start_def simp del: show_float.simps dest: starts_number_start)
next
  case (VInt i)
  show ?thesis using starts_number_start [OF json_int(1) [of i]] VInt by simp
qed (auto simp: value_start_def json_string_def)

lemma skip_dumps: "json_ok v \<Longrightarrow> skip_space (json_dumps isep ksep v @ r) = json_dumps isep ksep v @ r"
  using dumps_start [of v isep ksep] value_start_simps by (fastforce simp: skip_space_def)

lemma skip_delimited: "delimited r \<Longrightarrow> skip_space r = r"
  by (cases r) (auto simp: delimited_def skip_space_def json_space_def)

lemma skip_bracket: "skip_space (CHR '']'' # r) = CHR '']'' # r" "skip_space (CHR ''}'' # r) = CHR ''}'' # r"
  "skip_space (CHR '','' # r) = CHR '','' # r" "skip_space (CHR '':'' # r) = CHR '':'' # r"
  by (simp_all add: skip_space_def json_space_def)

lemma separators_split:
  assumes "json_separators isep ksep"
  obtains sp1 sp2 where "isep = CHR '','' # sp1" "ksep = CHR '':'' # sp2" "list_all json_space sp1" "list_all json_space sp2"
  using assms by (cases isep; cases ksep) (auto simp: json_separators_def)

lemma read_items:
  assumes sep: "json_separators isep ksep" and
    item: "\<And>x n r. x \<in> set xs \<Longrightarrow> delimited r \<Longrightarrow> 2 * length (json_dumps isep ksep x) \<le> n \<Longrightarrow>
      json_value n (json_dumps isep ksep x @ r) = Some (x, r)"
  shows "xs \<noteq> [] \<Longrightarrow> list_all json_ok xs \<Longrightarrow> 2 * length (py_join isep (map (json_dumps isep ksep) xs)) + 1 \<le> n \<Longrightarrow>
    json_items n acc (py_join isep (map (json_dumps isep ksep) xs) @ CHR '']'' # r) = Some (VList (acc @ xs), r)"
  using item
proof (induction xs arbitrary: n acc)
  case (Cons x xs)
  obtain sp1 sp2 where sp: "isep = CHR '','' # sp1" "list_all json_space sp1" using sep by (rule separators_split)
  let ?J = "py_join isep (map (json_dumps isep ksep) xs)"
  obtain k where n: "n = Suc k" using Cons.prems(3) by (cases n) auto
  show ?case
  proof (cases xs)
    case Nil
    have "json_value k (json_dumps isep ksep x @ CHR '']'' # r) = Some (x, CHR '']'' # r)"
      using Cons.prems(3) by (intro Cons.prems(4)) (simp_all add: delimited_def n Nil)
    then show ?thesis by (simp add: n Nil skip_bracket)
  next
    case (Cons y ys)
    have J: "py_join isep (map (json_dumps isep ksep) (x # xs)) = json_dumps isep ksep x @ isep @ ?J" by (simp add: Cons)
    have le: "2 * length (json_dumps isep ksep x) \<le> k" "2 * length ?J + 1 \<le> k"
      using Cons.prems(3) unfolding J n by (simp_all add: sp(1))
    have v: "json_value k (json_dumps isep ksep x @ isep @ ?J @ CHR '']'' # r) = Some (x, isep @ ?J @ CHR '']'' # r)"
      using le(1) by (intro Cons.prems(4)) (simp_all add: delimited_def sp(1))
    have start: "skip_space (sp1 @ ?J @ CHR '']'' # r) = ?J @ CHR '']'' # r"
      using skip_dumps [of y isep ksep] Cons.prems(2) by (cases ys) (simp_all add: Cons skip_spaces [OF sp(2)])
    have rest: "json_items k (acc @ [x]) (?J @ CHR '']'' # r) = Some (VList ((acc @ [x]) @ xs), r)"
      using Cons.prems Cons le(2) by (intro Cons.IH) simp_all
    have "json_items n acc ((json_dumps isep ksep x @ isep @ ?J) @ CHR '']'' # r) = json_items k (acc @ [x]) (?J @ CHR '']'' # r)"
      using v start by (simp add: n sp(1) skip_bracket)
    then show ?thesis unfolding J rest by simp
  qed
qed simp

lemma read_key: "json_text (drop 1 (json_string k @ r)) = Some (k, r)" "take 1 (json_string k @ r) = [char_of (34 :: nat)]"
  by (simp_all add: json_string_def json_text_string)

lemma skip_string: "skip_space (json_string k @ r) = json_string k @ r"
  by (simp add: json_string_def skip_space_def json_space_def)

abbreviation member_text :: "string \<Rightarrow> string \<Rightarrow> string \<times> pyval \<Rightarrow> string" where
  "member_text isep ksep p \<equiv> json_string (fst p) @ ksep @ json_dumps isep ksep (snd p)"

lemma read_member:
  assumes "json_separators isep ksep" "json_ok v" "json_value k (json_dumps isep ksep v @ r) = Some (v, r)"
  shows "json_members (Suc k) acc (member_text isep ksep (key, v) @ r) = (case skip_space r of [] \<Rightarrow> None
    | c # r2 \<Rightarrow> if c = CHR '','' then json_members k (dset key v acc) (skip_space r2)
        else if c = CHR ''}'' then Some (VDict (dset key v acc), r2) else None)"
proof -
  obtain sp2 where sp: "ksep = CHR '':'' # sp2" "list_all json_space sp2" using assms(1) by (rule separators_split)
  show ?thesis using assms(3)
    by (simp add: read_key [simplified] sp(1) skip_bracket skip_spaces [OF sp(2)] skip_dumps [OF assms(2)])
qed

lemma read_members:
  assumes sep: "json_separators isep ksep" and
    item: "\<And>p n r. p \<in> set d \<Longrightarrow> delimited r \<Longrightarrow> 2 * length (json_dumps isep ksep (snd p)) \<le> n \<Longrightarrow>
      json_value n (json_dumps isep ksep (snd p) @ r) = Some (snd p, r)"
  shows "d \<noteq> [] \<Longrightarrow> list_all (\<lambda>p. json_ok (snd p)) d \<Longrightarrow> dwf (acc @ d) \<Longrightarrow>
    2 * length (py_join isep (map (member_text isep ksep) d)) + 1 \<le> n \<Longrightarrow>
    json_members n acc (py_join isep (map (member_text isep ksep) d) @ CHR ''}'' # r) = Some (VDict (acc @ d), r)"
  using item
proof (induction d arbitrary: n acc)
  case (Cons p d)
  obtain sp1 sp2 where sp: "isep = CHR '','' # sp1" "list_all json_space sp1" using sep by (rule separators_split)
  obtain key v where p: "p = (key, v)" by (cases p)
  let ?J = "py_join isep (map (member_text isep ksep) d)"
  obtain k where n: "n = Suc k" using Cons.prems(4) by (cases n) auto
  have fresh: "dset key v acc = acc @ [(key, v)]"
    using Cons.prems(3) by (intro dset_fresh) (auto simp: dwf_def p)
  have ok: "json_ok v" using Cons.prems(2) p by simp
  show ?case
  proof (cases d)
    case Nil
    have "json_value k (json_dumps isep ksep v @ CHR ''}'' # r) = Some (v, CHR ''}'' # r)"
      using Cons.prems(4) Cons.prems(5) [of p "CHR ''}'' # r" k] by (simp add: delimited_def n Nil p)
    then show ?thesis using read_member [OF sep ok, of k "CHR ''}'' # r" acc key] by (simp add: n Nil p skip_bracket fresh)
  next
    case (Cons q d')
    have J: "py_join isep (map (member_text isep ksep) (p # d)) = member_text isep ksep p @ isep @ ?J" by (simp add: Cons)
    have le: "2 * length (json_dumps isep ksep v) \<le> k" "2 * length ?J + 1 \<le> k"
      using Cons.prems(4) unfolding J n by (simp_all add: sp(1) p)
    have v: "json_value k (json_dumps isep ksep v @ isep @ ?J @ CHR ''}'' # r) = Some (v, isep @ ?J @ CHR ''}'' # r)"
      using le(1) Cons.prems(5) [of p "isep @ ?J @ CHR ''}'' # r" k] by (simp add: delimited_def sp(1) p)
    have start: "skip_space (sp1 @ ?J @ CHR ''}'' # r) = ?J @ CHR ''}'' # r"
      by (cases d') (simp_all add: Cons skip_spaces [OF sp(2)] skip_string)
    have rest: "json_members k (acc @ [(key, v)]) (?J @ CHR ''}'' # r) = Some (VDict ((acc @ [(key, v)]) @ d), r)"
      using Cons.prems Cons le(2) p by (intro Cons.IH) simp_all
    have "json_members n acc ((member_text isep ksep p @ isep @ ?J) @ CHR ''}'' # r) =
        json_members k (acc @ [(key, v)]) (?J @ CHR ''}'' # r)"
      using read_member [OF sep ok v, of acc key] start by (simp add: n p sp(1) skip_bracket fresh)
    then show ?thesis unfolding J rest by (simp add: p)
  qed
qed simp

lemma quote_char: "char_of (34 :: nat) \<noteq> CHR ''}''" "char_of (34 :: nat) \<noteq> CHR '']''"
  by code_simp+

lemma number_start:
  assumes "starts_number t"
  obtains c u where "t = c # u" "is_digit c \<or> c \<in> {CHR ''-'', CHR ''N'', CHR ''I''}"
proof (cases t)
  case (Cons c u)
  then have "is_digit c \<or> c = CHR ''-''" using assms unfolding starts_number_def by auto
  then show ?thesis using that [OF Cons] by blast
qed (use assms in \<open>simp add: starts_number_def\<close>)

lemma json_value_word:
  assumes "t = c # u" "is_digit c \<or> c \<in> {CHR ''-'', CHR ''N'', CHR ''I''}"
  shows "json_value (Suc n) (t @ r) = json_word (t @ r)"
proof -
  have "of_char c \<noteq> (34 :: nat)" "c \<noteq> CHR ''[''" "c \<noteq> CHR ''{''" using assms(2) by (auto simp: is_digit_def)
  then show ?thesis by (simp add: assms(1))
qed

text \<open>A value is read back from its text, whatever follows it, and so is a document.\<close>

lemma json_value_dumps:
  assumes sep: "json_separators isep ksep"
  shows "json_ok v \<Longrightarrow> delimited r \<Longrightarrow> 2 * length (json_dumps isep ksep v) \<le> n \<Longrightarrow>
    json_value n (json_dumps isep ksep v @ r) = Some (v, r)"
proof (induction v arbitrary: n r)
  case (VList xs)
  obtain k where n: "n = Suc k" using VList.prems(3) by (cases n) auto
  show ?case
  proof (cases xs)
    case Nil
    then show ?thesis by (simp add: n skip_bracket)
  next
    case (Cons x ys)
    have "json_items k [] (py_join isep (map (json_dumps isep ksep) xs) @ CHR '']'' # r) = Some (VList ([] @ xs), r)"
      using VList by (intro read_items [OF sep]) (auto simp: n Cons list_all_iff)
    moreover have "\<exists>c u. py_join isep (map (json_dumps isep ksep) xs) = c # u \<and> value_start c"
      using dumps_start [of x isep ksep] VList.prems(1) by (cases ys) (auto simp: Cons)
    ultimately show ?thesis using value_start_simps by (fastforce simp: n skip_space_def)
  qed
next
  case (VDict d)
  obtain k where n: "n = Suc k" using VDict.prems(3) by (cases n) auto
  have item: "json_value n (json_dumps isep ksep (snd p) @ r) = Some (snd p, r)"
    if "p \<in> set d" "delimited r" "2 * length (json_dumps isep ksep (snd p)) \<le> n" for p n r
    using VDict.IH [of p "snd p" r n] VDict.prems(1) that by (cases p) (auto simp: list_all_iff)
  show ?case
  proof (cases d)
    case Nil
    then show ?thesis by (simp add: n skip_bracket)
  next
    case (Cons p ds)
    have "json_members k [] (py_join isep (map (member_text isep ksep) d) @ CHR ''}'' # r) = Some (VDict ([] @ d), r)"
      using VDict.prems by (intro read_members [OF sep] item) (auto simp: n Cons)
    moreover have "\<exists>u. py_join isep (map (member_text isep ksep) d) = char_of (34 :: nat) # u"
      by (cases ds) (auto simp: Cons json_string_def)
    ultimately show ?thesis using quote_char by (auto simp: n skip_space_def json_space_def)
  qed
next
  case (VInt i)
  obtain c u where c: "show_int i = c # u" "is_digit c \<or> c \<in> {CHR ''-'', CHR ''N'', CHR ''I''}"
    using json_int(1) [of i] by (rule number_start)
  moreover obtain k where "n = Suc k" using VInt.prems(3) c by (cases n) auto
  ultimately show ?case
    using json_number_delimited [OF json_int(2) VInt.prems(2), of i] starts_number_word [OF json_int(1), of i r]
      json_value_word [OF c, of k r] by (simp only: json_dumps.simps)
next
  case (VFloat x)
  obtain c u where c: "json_float x = c # u" "is_digit c \<or> c \<in> {CHR ''-'', CHR ''N'', CHR ''I''}"
  proof (cases x)
    case (FFin s m e)
    then have "starts_number (json_float x)" using VFloat.prems(1) by (simp add: float_readable_def del: show_float.simps)
    then show ?thesis using that by (rule number_start)
  next
    case (FInf s)
    then show ?thesis using that by (cases s) simp_all
  next
    case FNan
    then show ?thesis using that by simp
  qed
  moreover obtain k where "n = Suc k" using VFloat.prems(3) c by (cases n) auto
  ultimately show ?case using json_float_word [of x r] VFloat.prems json_value_word [OF c, of k r] by (simp only: json_dumps.simps json_ok.simps)
next
  case (VStr t)
  then obtain k where "n = Suc k" by (cases n) (auto simp: json_string_def)
  then show ?case by (simp add: json_string_def json_text_string)
next
  case VNone
  then show ?case by (cases n) (simp_all add: json_word_def starts_with_def)
next
  case (VBool b)
  then show ?case by (cases n; cases b) (simp_all add: json_word_def starts_with_def)
qed

lemma json_loads_dumps:
  assumes "json_separators isep ksep" "json_ok v"
  shows "json_loads (json_dumps isep ksep v) = Some v"
proof -
  have "json_value (2 * length (json_dumps isep ksep v) + 2) (json_dumps isep ksep v @ []) = Some (v, [])"
    by (rule json_value_dumps [OF assms]) (simp_all add: delimited_def)
  then show ?thesis using skip_dumps [OF assms(2), of isep ksep "[]"] by (simp add: json_loads_def skip_space_def)
qed

section \<open>The fuel of the reader\<close>

text \<open>Every piece that is read consumes input, so the reader's fuel is never what ends it.\<close>

lemma hex4_length: "hex4 s = Some (n, r) \<Longrightarrow> length s = length r + 4"
  by (cases s rule: hex4.cases) (auto split: option.splits)

lemma read_unicode_length: "read_unicode s = Some (t, r) \<Longrightarrow> length r < length s"
  by (auto simp: read_unicode_def dest!: hex4_length split: option.splits if_splits)

lemma read_string_length: "read_string n acc s = Some (t, r) \<Longrightarrow> length r < length s"
proof (induction n acc s rule: read_string.induct)
  case (3 n acc c s)
  then show ?case
    by (fastforce split: if_splits list.splits option.splits dest: read_unicode_length)
qed auto

lemma json_text_length: "json_text s = Some (t, r) \<Longrightarrow> length r < length s"
  unfolding json_text_def by (rule read_string_length)

lemma skip_space_length: "length (skip_space s) \<le> length s"
  by (simp add: skip_space_def length_dropWhile_le)

lemma number_text_length:
  assumes "number_text s = Some (w, f, r)"
  shows "length r < length s"
proof -
  define minus where "minus = takeWhile (\<lambda>c. c = CHR ''-'') (take 1 s)"
  define u where "u = drop (length minus) s"
  define whole where "whole = (if take 1 u = ''0'' then ''0'' else take_digits u)"
  define r1 where "r1 = drop (length whole) u"
  define frac where "frac = fraction_text r1"
  define r2 where "r2 = drop (length frac) r1"
  have t: "whole \<noteq> []" "r = drop (length (exponent_text r2)) r2"
    using assms by (auto simp: number_text_def Let_def minus_def u_def whole_def r1_def frac_def r2_def split: if_splits)
  then have u: "u \<noteq> []" by (auto simp: whole_def take_digits_def split: if_splits)
  have "length r \<le> length r1" by (simp add: t(2) r2_def)
  moreover have "length r1 < length u" using t(1) u by (simp add: r1_def)
  moreover have "length u \<le> length s" by (simp add: u_def)
  ultimately show ?thesis by linarith
qed

lemma json_word_length:
  assumes "json_word s = Some (v, r)"
  shows "length r < length s"
proof (cases s)
  case Nil
  then show ?thesis using assms by (simp add: json_word_def starts_with_def json_number_def number_text_def take_digits_def)
next
  case (Cons c t)
  then show ?thesis using assms
    by (auto simp: json_word_def json_number_def less_Suc_eq_le dest: number_text_length split: if_splits option.splits)
qed

lemma json_length:
  "json_value n s = Some (v, r) \<Longrightarrow> length r < length s"
  "json_items n xs s = Some (v, r) \<Longrightarrow> length r < length s"
  "json_members n d s = Some (v, r) \<Longrightarrow> length r < length s"
proof (induction n s and n xs s and n d s arbitrary: v r and v r and v r rule: json_value_json_items_json_members.induct)
  case (3 n c s)
  have "length (skip_space s) \<le> length s" by (rule skip_space_length)
  with 3 show ?case by (fastforce split: if_splits dest: json_text_length json_word_length)
next
  case (5 n acc s)
  obtain v' r' where v: "json_value n s = Some (v', r')" using "5.prems" by (auto split: option.splits)
  obtain c r'' where c: "skip_space r' = c # r''" using "5.prems" v by (auto split: list.splits)
  have "length r' < length s" by (rule 5(1) [OF v])
  then have le: "length r'' < length s" "length (skip_space r'') < length s"
    using skip_space_length [of r'] skip_space_length [of r''] c by auto
  show ?case
  proof (cases "c = CHR '',''")
    case True
    then have "json_items n (acc @ [v']) (skip_space r'') = Some (v, r)" using "5.prems" v c by simp
    then show ?thesis using 5(2) [OF v refl c True] le by fastforce
  next
    case False
    then show ?thesis using "5.prems" v c le by (auto split: if_splits)
  qed
next
  case (7 n acc s)
  obtain k r0 where k: "json_text (drop 1 s) = Some (k, r0)" using "7.prems" by (auto split: if_splits option.splits)
  obtain v' r' where v: "json_value n (skip_space (drop 1 (skip_space r0))) = Some (v', r')"
    using "7.prems" k by (auto split: if_splits option.splits)
  obtain c r'' where c: "skip_space r' = c # r''" using "7.prems" k v by (auto split: list.splits if_splits)
  have q: "\<not> take 1 s \<noteq> [char_of (34 :: nat)]" "\<not> take 1 (skip_space r0) \<noteq> '':''" using "7.prems" k by (auto split: if_splits)
  have "length r' < length (skip_space (drop 1 (skip_space r0)))" by (rule 7(1) [OF q(1) k refl q(2) v])
  then have le: "length r'' < length s" "length (skip_space r'') < length s"
    using skip_space_length [of r'] skip_space_length [of r''] skip_space_length [of r0]
      skip_space_length [of "drop 1 (skip_space r0)"] json_text_length [OF k] c by auto
  show ?case
  proof (cases "c = CHR '',''")
    case True
    then have "json_members n (dset k v' acc) (skip_space r'') = Some (v, r)" using "7.prems" k v c q by simp
    then show ?thesis using 7(2) [OF q(1) k refl q(2) v refl c True] le by fastforce
  next
    case False
    then show ?thesis using "7.prems" k v c q le by (auto split: if_splits)
  qed
qed simp_all

lemma json_fuel_step:
  "2 * length s \<le> n \<Longrightarrow> json_value (Suc n) s = json_value n s"
  "2 * length s + 1 \<le> n \<Longrightarrow> json_items (Suc n) xs s = json_items n xs s"
  "2 * length s + 1 \<le> n \<Longrightarrow> json_members (Suc n) d s = json_members n d s"
proof (induction n arbitrary: s xs d)
  case 0
  {
    case 1
    then show ?case by simp
  next
    case 2
    then show ?case by simp
  next
    case 3
    then show ?case by simp
  }
next
  case (Suc n)
  note ih = Suc.IH
  {
    case 1
    show ?case
    proof (cases s)
      case (Cons c r)
      have "2 * length (skip_space r) + 1 \<le> n" using 1 skip_space_length [of r] Cons by simp
      note ih(2,3) [OF this]
      then show ?thesis unfolding Cons json_value.simps by simp
    qed simp
  next
    case 2
    have v: "json_value (Suc n) s = json_value n s" using 2 by (intro ih(1)) simp
    have i: "json_items (Suc n) ys (skip_space r') = json_items n ys (skip_space r')"
      if "json_value n s = Some (w, r)" "skip_space r = c # r'" for ys w r c r'
    proof (rule ih(2))
      have "length (skip_space r') < length s"
        using json_length(1) [OF that(1)] skip_space_length [of r] skip_space_length [of r'] that(2) by simp
      then show "2 * length (skip_space r') + 1 \<le> n" using 2 by simp
    qed
    show ?case unfolding json_items.simps(2) [of "Suc n"] json_items.simps(2) [of n xs s] v
      by (auto simp: i simp del: json_items.simps json_value.simps split: option.split list.split)
  next
    case 3
    have v: "json_value (Suc n) (skip_space (drop 1 (skip_space r))) = json_value n (skip_space (drop 1 (skip_space r)))"
      if "json_text (drop 1 s) = Some (k, r)" for k r
    proof (rule ih(1))
      have "length r < length s" using json_text_length [OF that] by simp
      then show "2 * length (skip_space (drop 1 (skip_space r))) \<le> n"
        using 3 skip_space_length [of r] skip_space_length [of "drop 1 (skip_space r)"] by simp
    qed
    have m: "json_members (Suc n) e (skip_space r2) = json_members n e (skip_space r2)"
      if "json_text (drop 1 s) = Some (k, r)" "json_value n (skip_space (drop 1 (skip_space r))) = Some (w, r1)"
        "skip_space r1 = c # r2" for e k r w r1 c r2
    proof (rule ih(3))
      have "length (skip_space r2) < length s"
        using json_text_length [OF that(1)] json_length(1) [OF that(2)] that(3) skip_space_length [of r] skip_space_length [of r1]
          skip_space_length [of r2] skip_space_length [of "drop 1 (skip_space r)"] by simp
      then show "2 * length (skip_space r2) + 1 \<le> n" using 3 by simp
    qed
    show ?case unfolding json_members.simps(2) [of "Suc n"] json_members.simps(2) [of n d s]
      by (auto simp: v m simp del: One_nat_def json_members.simps json_value.simps split: option.split list.split)
  }
qed

lemma json_fuel_enough: "2 * length s \<le> n \<Longrightarrow> json_value (n + k) s = json_value n s"
  by (induction k) (simp_all add: json_fuel_step(1))

end
