(* ===== verification/Py_Date.thy ===== *)
theory Py_Date
  imports Py_Repr
begin

text \<open>
  \<open>datetime.fromisoformat\<close> and \<open>datetime.strptime(text, "%Y-%m-%d %H:%M:%S")\<close>; \<open>None\<close> is their \<open>ValueError\<close>. Dates are
  read in the extended calendar form; the basic and the week forms, and offsets that are no whole number of minutes, are
  taken as unreadable.
\<close>

definition month_days :: "nat \<Rightarrow> nat \<Rightarrow> nat" where
  "month_days y m = (if m = 2 then (if leap_year y then 29 else 28) else if m \<in> {4, 6, 9, 11} then 30 else 31)"

definition date_valid :: "nat \<Rightarrow> nat \<Rightarrow> nat \<Rightarrow> bool" where
  "date_valid y m d \<longleftrightarrow> 1 \<le> y \<and> 1 \<le> m \<and> m \<le> 12 \<and> 1 \<le> d \<and> d \<le> month_days y m"

definition make_datetime ::
  "nat \<Rightarrow> nat \<Rightarrow> nat \<Rightarrow> nat \<Rightarrow> nat \<Rightarrow> nat \<Rightarrow> nat \<Rightarrow> int option \<Rightarrow> datetime option" where
  "make_datetime y m d h mi s us tz =
     (if date_valid y m d \<and> h < 24 \<and> mi < 60 \<and> s < 60 \<and> us < 1000000
      then Some \<lparr>dt_year = y, dt_month = m, dt_day = d, dt_hour = h, dt_minute = mi, dt_second = s, dt_micro = us, dt_tz = tz\<rparr>
      else None)"

definition datetime_ok :: "datetime \<Rightarrow> bool" where
  "datetime_ok t \<longleftrightarrow> date_valid (dt_year t) (dt_month t) (dt_day t) \<and> dt_year t < 10000 \<and> dt_hour t < 24 \<and> dt_minute t < 60 \<and>
     dt_second t < 60 \<and> dt_micro t < 1000000 \<and> (case dt_tz t of None \<Rightarrow> True | Some z \<Rightarrow> \<bar>z\<bar> < 1440)"

text \<open>Exactly \<open>k\<close> digits.\<close>

definition take_nat :: "nat \<Rightarrow> string \<Rightarrow> (nat \<times> string) option" where
  "take_nat k s = (if length (take k s) = k \<and> list_all is_digit (take k s)
     then map_option (\<lambda>n. (n, drop k s)) (parse_nat (take k s)) else None)"

text \<open>What may follow the last field of a time: nothing or a fraction, whose first six digits count.\<close>

definition fraction_micros :: "string \<Rightarrow> nat option" where
  "fraction_micros s = (case s of [] \<Rightarrow> Some 0
     | c # ds \<Rightarrow> if (c = CHR ''.'' \<or> c = CHR '','') \<and> ds \<noteq> [] \<and> list_all is_digit ds
         then parse_nat (take 6 (ds @ zeros 6)) else None)"

definition after_colon :: "bool \<Rightarrow> string \<Rightarrow> string option" where
  "after_colon colon s = (if \<not> colon then Some s else (case s of [] \<Rightarrow> None | c # r \<Rightarrow> if c = CHR '':'' then Some r else None))"

definition iso_clock :: "string \<Rightarrow> (nat \<times> nat \<times> nat \<times> nat) option" where
  "iso_clock s =
     Option.bind (take_nat 2 s) (\<lambda>(h, r). case fraction_micros r of
       Some us \<Rightarrow> Some (h, 0, 0, us)
     | None \<Rightarrow> let colon = (hd r = CHR '':'') in
        Option.bind (after_colon colon r) (\<lambda>r1. Option.bind (take_nat 2 r1) (\<lambda>(mi, r2). case fraction_micros r2 of
          Some us \<Rightarrow> Some (h, mi, 0, us)
        | None \<Rightarrow> Option.bind (after_colon colon r2) (\<lambda>r3. Option.bind (take_nat 2 r3) (\<lambda>(sec, r4).
            map_option (\<lambda>us. (h, mi, sec, us)) (fraction_micros r4))))))"

definition iso_offset :: "string \<Rightarrow> int option option" where
  "iso_offset s = (case s of [] \<Rightarrow> Some None
     | c # r \<Rightarrow> if c = CHR ''Z'' then (if r = [] then Some (Some 0) else None)
         else (case iso_clock r of
             Some (h, mi, 0, 0) \<Rightarrow> if h * 60 + mi < 1440
               then Some (Some (if c = CHR ''-'' then - int (h * 60 + mi) else int (h * 60 + mi))) else None
           | _ \<Rightarrow> None))"

definition iso_date :: "string \<Rightarrow> (nat \<times> nat \<times> nat) option" where
  "iso_date s =
     (if length s = 10 \<and> s ! 4 = CHR ''-'' \<and> s ! 7 = CHR ''-'' then
        Option.bind (take_nat 4 s) (\<lambda>(y, _). Option.bind (take_nat 2 (drop 5 s)) (\<lambda>(m, _).
          map_option (\<lambda>(d, _). (y, m, d)) (take_nat 2 (drop 8 s))))
      else None)"

definition is_offset_start :: "char \<Rightarrow> bool" where
  "is_offset_start c \<longleftrightarrow> c \<in> {CHR ''+'', CHR ''-'', CHR ''Z''}"

definition from_isoformat :: "string \<Rightarrow> datetime option" where
  "from_isoformat s = Option.bind (iso_date (take 10 s)) (\<lambda>(y, m, d).
     if length s = 10 then make_datetime y m d 0 0 0 0 None
     else let t = drop 11 s in
       Option.bind (iso_clock (takeWhile (\<lambda>c. \<not> is_offset_start c) t)) (\<lambda>(h, mi, sec, us).
       Option.bind (iso_offset (dropWhile (\<lambda>c. \<not> is_offset_start c) t)) (make_datetime y m d h mi sec us)))"

text \<open>One or two digits.\<close>

definition short_nat :: "string \<Rightarrow> (nat \<times> string) option" where
  "short_nat s = (let ds = takeWhile is_digit s in
     if ds \<noteq> [] \<and> length ds \<le> 2 then map_option (\<lambda>n. (n, drop (length ds) s)) (parse_nat ds) else None)"

definition expect :: "char \<Rightarrow> string \<Rightarrow> string option" where
  "expect c s = (case s of [] \<Rightarrow> None | d # r \<Rightarrow> if d = c then Some r else None)"

definition day_field :: "string \<Rightarrow> (nat \<times> string) option" where
  "day_field s = (if take 1 s = '' '' then (case take_nat 1 (drop 1 s) of
       Some (n, r) \<Rightarrow> if 1 \<le> n then Some (n, r) else None | None \<Rightarrow> None)
     else short_nat s)"

definition strptime_seconds :: "string \<Rightarrow> datetime option" where
  "strptime_seconds s =
     Option.bind (take_nat 4 s) (\<lambda>(y, r). Option.bind (expect (CHR ''-'') r) (\<lambda>r.
     Option.bind (short_nat r) (\<lambda>(m, r). Option.bind (expect (CHR ''-'') r) (\<lambda>r.
     Option.bind (day_field r) (\<lambda>(d, r). if r = [] \<or> \<not> is_space (hd r) then None else
     Option.bind (short_nat (dropWhile is_space r)) (\<lambda>(h, r). Option.bind (expect (CHR '':'') r) (\<lambda>r.
     Option.bind (short_nat r) (\<lambda>(mi, r). Option.bind (expect (CHR '':'') r) (\<lambda>r.
     Option.bind (short_nat r) (\<lambda>(sec, r). if r = [] then make_datetime y m d h mi sec 0 None else None))))))))))"

section \<open>Reading what \<open>isoformat\<close> wrote\<close>

lemma show_nat_length: "n < 10 ^ w \<Longrightarrow> 0 < w \<Longrightarrow> length (show_nat n) \<le> w"
proof (induction n arbitrary: w rule: show_nat.induct)
  case (1 n)
  show ?case
  proof (cases "n < 10")
    case True
    then show ?thesis using 1(3) by (simp add: show_nat.simps [of n])
  next
    case False
    then obtain v where w: "w = Suc v" "0 < v" using 1(2,3) by (cases w; cases "w - 1") auto
    then have "n div 10 < 10 ^ v" using 1(2) by (simp add: less_mult_imp_div_less mult.commute)
    then show ?thesis using 1(1) [OF False _ w(2)] False w by (simp add: show_nat.simps [of n])
  qed
qed

lemma pad_nat_length: "n < 10 ^ w \<Longrightarrow> 0 < w \<Longrightarrow> length (pad_nat w n) = w"
  using show_nat_length [of n w] by (simp add: pad_nat_def)

lemma pad_nat_digits: "c \<in> set (pad_nat w n) \<Longrightarrow> is_digit c"
  using show_nat_digits [of n] by (auto simp: pad_nat_def is_digit_def split: if_splits)

lemma parse_zeros: "parse_digits 0 (replicate k (CHR ''0'') @ s) = parse_digits 0 s"
  by (induction k) (simp_all add: is_digit_def digit_val_def)

lemma parse_nat_pad: "parse_nat (pad_nat w n) = Some n"
proof -
  obtain c r where cr: "pad_nat w n = c # r" by (cases "pad_nat w n") (auto simp: pad_nat_def)
  have "parse_nat (pad_nat w n) = parse_digits 0 (pad_nat w n)"
    using pad_nat_digits [of c w n] cr by (simp add: parse_nat_def)
  also have "\<dots> = parse_digits 0 (show_nat n @ [])" by (simp add: pad_nat_def parse_zeros)
  also have "\<dots> = Some n" by (subst parse_digits_append) (auto simp: show_nat_digits fold_show_nat)
  finally show ?thesis .
qed

lemma take_nat_pad: "n < 10 ^ w \<Longrightarrow> 0 < w \<Longrightarrow> take_nat w (pad_nat w n @ r) = Some (n, r)"
  using pad_nat_length [of n w] pad_nat_digits [of _ w n]
  by (auto simp: take_nat_def parse_nat_pad list_all_iff)

lemma iso_date_parts:
  assumes "y < 10000" "m < 100" "d < 100"
  shows "iso_date (pad_nat 4 y @ ''-'' @ pad_nat 2 m @ ''-'' @ pad_nat 2 d) = Some (y, m, d)"
    and "length (pad_nat 4 y @ ''-'' @ pad_nat 2 m @ ''-'' @ pad_nat 2 d) = 10"
proof -
  have l: "length (pad_nat 4 y) = 4" "length (pad_nat 2 m) = 2" "length (pad_nat 2 d) = 2"
    using assms by (simp_all add: pad_nat_length)
  show len: "length (pad_nat 4 y @ ''-'' @ pad_nat 2 m @ ''-'' @ pad_nat 2 d) = 10" using l by simp
  have t: "take_nat 4 (pad_nat 4 y @ r) = Some (y, r)" "take_nat 2 (pad_nat 2 m @ r) = Some (m, r)"
    "take_nat 2 (pad_nat 2 d) = Some (d, [])" for r
    using assms take_nat_pad [of y 4 r] take_nat_pad [of m 2 r] take_nat_pad [of d 2 "[]"] by simp_all
  have n: "(pad_nat 4 y @ ''-'' @ pad_nat 2 m @ ''-'' @ pad_nat 2 d) ! 4 = CHR ''-''"
    "(pad_nat 4 y @ ''-'' @ pad_nat 2 m @ ''-'' @ pad_nat 2 d) ! 7 = CHR ''-''"
    by (simp_all add: nth_append l)
  have dr: "drop 5 (pad_nat 4 y @ ''-'' @ pad_nat 2 m @ ''-'' @ pad_nat 2 d) = pad_nat 2 m @ ''-'' @ pad_nat 2 d"
    "drop 8 (pad_nat 4 y @ ''-'' @ pad_nat 2 m @ ''-'' @ pad_nat 2 d) = pad_nat 2 d"
    by (simp_all add: l)
  show "iso_date (pad_nat 4 y @ ''-'' @ pad_nat 2 m @ ''-'' @ pad_nat 2 d) = Some (y, m, d)"
    unfolding iso_date_def len n dr t by (simp add: t)
qed

lemma fraction_millis: "ms < 1000 \<Longrightarrow> fraction_micros (CHR ''.'' # pad_nat 3 ms) = Some (ms * 1000)"
proof -
  assume ms: "ms < 1000"
  have l: "length (pad_nat 3 ms) = 3" using ms by (simp add: pad_nat_length)
  have z: "zeros 6 = zeros 3 @ zeros 3" by (simp add: zeros_def flip: replicate_add)
  obtain c r where cr: "pad_nat 3 ms = c # r" using l by (cases "pad_nat 3 ms") auto
  have "parse_nat (pad_nat 3 ms @ zeros 3) = parse_digits 0 (pad_nat 3 ms @ zeros 3)"
    using pad_nat_digits [of c 3 ms] cr by (simp add: parse_nat_def)
  also have "\<dots> = parse_digits (fold (\<lambda>c a. 10 * a + digit_val c) (pad_nat 3 ms) 0) (zeros 3)"
    by (rule parse_digits_append) (simp add: pad_nat_digits)
  also have "fold (\<lambda>c a. 10 * a + digit_val c) (pad_nat 3 ms) 0 = ms"
    using parse_nat_pad [of 3 ms] parse_digits_append [of "pad_nat 3 ms" 0 "[]"] pad_nat_digits [of _ 3 ms] cr
    by (simp add: parse_nat_def split: if_splits)
  finally show ?thesis using l pad_nat_digits [of _ 3 ms]
    by (auto simp: fraction_micros_def z list_all_iff zeros_def numeral_3_eq_3 is_digit_def digit_val_def)
qed

lemma iso_clock_parts:
  assumes "h < 100" "mi < 100" "sec < 100" "ms < 1000"
  shows "iso_clock (pad_nat 2 h @ '':'' @ pad_nat 2 mi @ '':'' @ pad_nat 2 sec @ ''.'' @ pad_nat 3 ms) = Some (h, mi, sec, ms * 1000)"
  using assms take_nat_pad [of h 2] take_nat_pad [of mi 2] take_nat_pad [of sec 2] fraction_millis [of ms]
  by (simp add: iso_clock_def fraction_micros_def [of "CHR '':'' # _"] after_colon_def)

definition truncate_millis :: "datetime \<Rightarrow> datetime" where
  "truncate_millis t = t\<lparr>dt_micro := dt_micro t div 1000 * 1000\<rparr>"

lemma offset_start: "is_offset_start (CHR ''+'')" "is_offset_start (CHR ''-'')" "is_digit c \<Longrightarrow> \<not> is_offset_start c"
  "\<not> is_offset_start (CHR '':'')" "\<not> is_offset_start (CHR ''.'')"
  by (auto simp: is_offset_start_def is_digit_def)

lemma iso_offset_parts:
  assumes "dt_tz t = Some z" "\<bar>z\<bar> < 1440"
  shows "iso_offset (offset_part '':'' t) = Some (Some z)"
proof -
  define n where "n = nat \<bar>z\<bar>"
  have n: "n < 1440" using assms(2) by (simp add: n_def)
  then have hm: "n div 60 < 100" "n mod 60 < 100" by (simp_all add: less_mult_imp_div_less)
  have n0: "fraction_micros [] = Some 0" by (simp add: fraction_micros_def)
  have "iso_clock (pad_nat 2 (n div 60) @ '':'' @ pad_nat 2 (n mod 60)) = Some (n div 60, n mod 60, 0, 0)"
    using take_nat_pad [of "n div 60" 2] take_nat_pad [of "n mod 60" 2 "[]"] hm
    by (simp add: iso_clock_def fraction_micros_def [of "CHR '':'' # _"] after_colon_def n0)
  moreover have "n div 60 * 60 + n mod 60 = n" by simp
  moreover have "int n = \<bar>z\<bar>" by (simp add: n_def)
  ultimately show ?thesis using n assms(1)
    unfolding offset_part_def iso_offset_def assms(1) option.case n_def [symmetric]
    by (auto simp: abs_if split: if_splits)
qed

lemma from_isoformat_millis:
  assumes "datetime_ok t" "dt_tz t = Some z"
  shows "from_isoformat (isoformat_millis t) = Some (truncate_millis t)"
proof -
  let ?ms = "dt_micro t div 1000"
  have b: "dt_year t < 10000" "dt_month t < 100" "dt_day t < 100" "dt_hour t < 24" "dt_minute t < 60" "dt_second t < 60" "?ms < 1000"
    "\<bar>z\<bar> < 1440" "date_valid (dt_year t) (dt_month t) (dt_day t)"
    using assms by (auto simp: datetime_ok_def date_valid_def month_days_def less_mult_imp_div_less split: if_splits)
  let ?time = "clock_part t @ ''.'' @ millis_part t"
  have s: "isoformat_millis t = date_part t @ ''T'' @ ?time @ offset_part '':'' t"
    by (simp add: isoformat_millis_def)
  have d: "iso_date (date_part t) = Some (dt_year t, dt_month t, dt_day t)" "length (date_part t) = 10"
    using iso_date_parts [OF b(1-3)] by (simp_all add: date_part_def)
  have c: "iso_clock ?time = Some (dt_hour t, dt_minute t, dt_second t, ?ms * 1000)"
    using iso_clock_parts [of "dt_hour t" "dt_minute t" "dt_second t" ?ms] b by (simp add: clock_part_def millis_part_def)
  have all: "\<forall>c\<in>set ?time. \<not> is_offset_start c"
    by (auto simp: clock_part_def millis_part_def offset_start dest: pad_nat_digits)
  obtain o' where o: "offset_part '':'' t = o'" "\<exists>c r. o' = c # r \<and> is_offset_start c"
    using assms(2) by (auto simp: offset_part_def offset_start)
  have tw: "takeWhile (\<lambda>c. \<not> is_offset_start c) (?time @ offset_part '':'' t) = ?time"
    "dropWhile (\<lambda>c. \<not> is_offset_start c) (?time @ offset_part '':'' t) = offset_part '':'' t"
    using all o by (auto simp: takeWhile_append takeWhile_tail dropWhile_append)
  have "from_isoformat (isoformat_millis t) = make_datetime (dt_year t) (dt_month t) (dt_day t) (dt_hour t) (dt_minute t) (dt_second t) (?ms * 1000) (Some z)"
    using d c tw iso_offset_parts [OF assms(2) b(8)] by (simp add: from_isoformat_def s)
  then show ?thesis using b assms(2) by (simp add: make_datetime_def truncate_millis_def)
qed

end
