(* ===== verification/Sinks.thy ===== *)
theory Sinks
  imports Publisher Json_Text Py_Date Config_Service
begin

text \<open>
  The sinks: \<^verbatim>\<open>src/industrial_gateway/sinks/mqtt.py\<close> and \<^verbatim>\<open>src/industrial_gateway/sinks/database.py\<close>. The MQTT client
  and the PostgreSQL connection are parameters: for the calls made before and the next one they answer with an
  exception or, for the client, a result code. The trace of calls is part of a sink's state. The configuration's
  text settings are texts; another value is an error here where the code would pass it on to the client.
\<close>

section \<open>Exceptions raised by the sinks\<close>

fun exc_name :: "exc_kind \<Rightarrow> string" where
  "exc_name ValueError = ''ValueError''"
| "exc_name TypeError = ''TypeError''"
| "exc_name KeyError = ''KeyError''"
| "exc_name IndexError = ''IndexError''"
| "exc_name RuntimeError = ''RuntimeError''"
| "exc_name OverflowError = ''OverflowError''"
| "exc_name IntegrityError = ''IntegrityError''"
| "exc_name OperationalError = ''OperationalError''"
| "exc_name StopIteration = ''StopIteration''"
| "exc_name AttributeError = ''AttributeError''"
| "exc_name CsvError = ''Error''"

text \<open>As the logger sees it; the text of a \<open>KeyError\<close> is the representation of the key already.\<close>

definition raised :: "(string \<times> nat \<times> string) list \<Rightarrow> pyerr \<Rightarrow> exn" where
  "raised frames e = \<lparr>ex_text = err_text e, ex_type = exc_name (err_kind e),
     ex_repr = exc_name (err_kind e) @ ''('' @ (if err_kind e = KeyError then err_text e else repr_str (err_text e)) @ '')'',
     ex_frames = frames\<rparr>"

section \<open>MQTT\<close>

definition mqtt_sink_config :: "settings \<Rightarrow> mqtt_config res" where
  "mqtt_sink_config p =
     rbind (text_item (get_or p ''host'' (VStr ''localhost''))) (\<lambda>host.
     rbind (py_int (get_or p ''port'' (VInt 1883))) (\<lambda>port.
     rbind (text_item (get_or p ''base_topic'' (VStr ''industrial''))) (\<lambda>base.
     rbind (optional_text (item_get p ''username'')) (\<lambda>user.
     rbind (optional_text (item_get p ''password'')) (\<lambda>password.
     rbind (text_item (get_or p ''client_id'' (VStr ''industrial-gateway''))) (\<lambda>client.
     rbind (py_int (get_or p ''qos'' (VInt 0))) (\<lambda>qos.
       Inr \<lparr>mq_host = host, mq_port = port, mq_base_topic = base, mq_username = user, mq_password = password,
         mq_client_id = client, mq_qos = qos, mq_enabled = truthy (get_or p ''enabled'' (VBool True))\<rparr>)))))))"

datatype mqtt_call = NewClient string | SetLogin string "string option" | Connect string int | LoopStart | LoopStop
  | Disconnect | Send string string int | Subscribe string int | Unsubscribe string
  | ConnectKeepalive string int int | SubscribeAll "(string \<times> int) list"

type_synonym mqtt_broker = "mqtt_call list \<Rightarrow> mqtt_call \<Rightarrow> exn + int"

text \<open>A broker that accepts every call.\<close>

definition accepts_all :: "mqtt_broker \<Rightarrow> bool" where
  "accepts_all b \<longleftrightarrow> (\<forall>cs k. b cs k = Inr 0)"

record mqtt_sink =
  ms_config :: mqtt_config
  ms_client :: bool
  ms_calls :: "mqtt_call list"

definition new_mqtt_sink :: "mqtt_config \<Rightarrow> mqtt_sink" where
  "new_mqtt_sink c = \<lparr>ms_config = c, ms_client = False, ms_calls = []\<rparr>"

definition mqtt_do :: "mqtt_broker \<Rightarrow> mqtt_call \<Rightarrow> mqtt_sink \<Rightarrow> (exn + int) \<times> mqtt_sink" where
  "mqtt_do b k s = (b (ms_calls s) k, s\<lparr>ms_calls := ms_calls s @ [k]\<rparr>)"

text \<open>\<open>stop\<close>: the client is disconnected even when stopping its loop raises; the last exception is the one that leaves.\<close>

definition mqtt_stop :: "mqtt_broker \<Rightarrow> mqtt_sink \<Rightarrow> exn option \<times> mqtt_sink" where
  "mqtt_stop b s = (if \<not> ms_client s then (None, s) else
     (let (r1, s1) = mqtt_do b LoopStop (s\<lparr>ms_client := False\<rparr>);
          (r2, s2) = mqtt_do b Disconnect s1
      in (case r2 of Inl e \<Rightarrow> Some e | Inr _ \<Rightarrow> (case r1 of Inl e \<Rightarrow> Some e | Inr _ \<Rightarrow> None), s2)))"

definition mqtt_connect :: "mqtt_broker \<Rightarrow> mqtt_sink \<Rightarrow> exn option \<times> mqtt_sink" where
  "mqtt_connect b s = (case mqtt_do b (Connect (mq_host (ms_config s)) (mq_port (ms_config s))) s of
     (Inl e, s1) \<Rightarrow> (Some e, s1)
   | (Inr _, s1) \<Rightarrow> (case mqtt_do b LoopStart s1 of (Inl e, s2) \<Rightarrow> (Some e, s2) | (Inr _, s2) \<Rightarrow> (None, s2)))"

definition mqtt_login :: "mqtt_broker \<Rightarrow> mqtt_sink \<Rightarrow> exn option \<times> mqtt_sink" where
  "mqtt_login b s = (if \<not> has_text (mq_username (ms_config s)) then (None, s)
     else (case mqtt_do b (SetLogin (the (mq_username (ms_config s))) (mq_password (ms_config s))) s of
         (Inl e, s1) \<Rightarrow> (Some e, s1) | (Inr _, s1) \<Rightarrow> (None, s1)))"

definition mqtt_start :: "mqtt_broker \<Rightarrow> mqtt_sink \<Rightarrow> exn option \<times> mqtt_sink" where
  "mqtt_start b s = (if \<not> mq_enabled (ms_config s) then (None, s) else
     (case mqtt_do b (NewClient (mq_client_id (ms_config s))) s of
        (Inl e, s1) \<Rightarrow> (Some e, s1)
      | (Inr _, s1) \<Rightarrow> (case mqtt_login b (s1\<lparr>ms_client := True\<rparr>) of
          (Some e, s2) \<Rightarrow> (Some e, s2)
        | (None, s2) \<Rightarrow> (case mqtt_connect b s2 of
            (None, s3) \<Rightarrow> (None, s3)
          | (Some e, s3) \<Rightarrow> (case mqtt_stop b s3 of
                (Some x, s4) \<Rightarrow> (Some x, s4)
              | (None, s4) \<Rightarrow> (Some e, s4))))))"

subsection \<open>The payload\<close>

definition space_for_t :: "string \<Rightarrow> string" where
  "space_for_t s = replace_char (CHR ''T'') (CHR '' '') s"

text \<open>\<open>Z\<close> at the end is read as \<open>+00:00\<close>.\<close>

definition parse_timestamp :: "string \<Rightarrow> datetime option" where
  "parse_timestamp s =
     (let t = py_strip s in
      if t = [] then None
      else from_isoformat (if ends_with ''Z'' t then butlast t @ ''+00:00'' else t))"

definition mqtt_timestamp :: "pyval \<Rightarrow> string" where
  "mqtt_timestamp v =
     (if v = VNone then []
      else (case (case v of VStr s \<Rightarrow> parse_timestamp s | _ \<Rightarrow> None) of
          None \<Rightarrow> space_for_t (py_str v)
        | Some t \<Rightarrow> (let offset = offset_part [] t in
            date_part t @ '' '' @ clock_part t @ ''.'' @ millis_part t @ (if 3 \<le> length offset then take 3 offset else offset))))"

text \<open>The tags of a message as values under their names; tags without a name are skipped.\<close>

definition flatten_tag :: "pyval \<Rightarrow> settings \<Rightarrow> settings" where
  "flatten_tag t d = (case t of
     VDict tag \<Rightarrow> if truthy (item_get tag ''name'') then dset (py_str (item_get tag ''name'')) (item_get tag ''value'') d else d
   | _ \<Rightarrow> d)"

fun list_of :: "pyval \<Rightarrow> pyval list" where
  "list_of (VList xs) = xs"
| "list_of v = []"

definition mqtt_payload :: "batch_message \<Rightarrow> settings" where
  "mqtt_payload m =
     (if dget (msg_payload m) ''tags'' = None then msg_payload m
      else fold flatten_tag (list_of (item_get (msg_payload m) ''tags''))
        [(''timestamp'', VStr (mqtt_timestamp (item_get (msg_payload m) ''timestamp'')))])"

definition effective_topic :: "mqtt_config \<Rightarrow> batch_message \<Rightarrow> string" where
  "effective_topic c m = (if msg_use_topic m then strip_slash (msg_topic m) else strip_slash (mq_base_topic c))"

definition mqtt_publish_batch :: "mqtt_broker \<Rightarrow> batch_message \<Rightarrow> mqtt_sink \<Rightarrow> exn option \<times> mqtt_sink" where
  "mqtt_publish_batch b m s =
     (if \<not> ms_client s
      then (Some (raised [(''workers.py'', 572, ''_publish_message''), (''mqtt.py'', 43, ''publish_batch'')]
        (Raise RuntimeError ''MQTT sink is not started'')), s)
      else (case mqtt_do b (Send (effective_topic (ms_config s) m) (json_dumps '','' '':'' (VDict (mqtt_payload m))) (msg_qos m)) s of
          (Inl e, s1) \<Rightarrow> (Some e, s1)
        | (Inr rc, s1) \<Rightarrow> (if rc = 0 then (None, s1)
            else (Some (raised [(''workers.py'', 572, ''_publish_message''), (''mqtt.py'', 47, ''publish_batch'')]
              (Raise RuntimeError (''MQTT publish failed with rc='' @ show_int rc))), s1))))"

section \<open>PostgreSQL\<close>

datatype pg_call = PgConnect pyval int pyval pyval pyval | Execute string "pyval list" | Commit | Close

type_synonym pg_server = "pg_call list \<Rightarrow> pg_call \<Rightarrow> exn option"

record postgres_sink =
  ps_config :: settings
  ps_open :: bool
  ps_calls :: "pg_call list"

definition new_postgres_sink :: "settings \<Rightarrow> postgres_sink" where
  "new_postgres_sink c = \<lparr>ps_config = c, ps_open = False, ps_calls = []\<rparr>"

definition pg_do :: "pg_server \<Rightarrow> pg_call \<Rightarrow> postgres_sink \<Rightarrow> exn option \<times> postgres_sink" where
  "pg_do p k s = (p (ps_calls s) k, s\<lparr>ps_calls := ps_calls s @ [k]\<rparr>)"

text \<open>Calls in order, up to the first that raises.\<close>

fun pg_all :: "pg_server \<Rightarrow> pg_call list \<Rightarrow> postgres_sink \<Rightarrow> exn option \<times> postgres_sink" where
  "pg_all p [] s = (None, s)"
| "pg_all p (k # ks) s = (case pg_do p k s of (Some e, s') \<Rightarrow> (Some e, s') | (None, s') \<Rightarrow> pg_all p ks s')"

definition safe_table_name :: "string \<Rightarrow> string res" where
  "safe_table_name v =
     (let t = filter (\<lambda>c. c \<noteq> CHR ''_'') v; alnum = (\<lambda>c. is_digit c \<or> (let n = of_char (upper_char c) :: nat in 65 \<le> n \<and> n \<le> 90)) in
      if t \<noteq> [] \<and> list_all alnum t then Inr v
      else value_error ''table name may only contain letters, numbers, and underscores'')"

definition table_name :: "settings \<Rightarrow> string res" where
  "table_name c = rbind (text_item (get_or c ''table'' (VStr ''gateway_tag_values''))) safe_table_name"

definition newline :: string where "newline = [char_of (10 :: nat)]"

definition create_table_sql :: "string \<Rightarrow> string" where
  "create_table_sql table = newline @ ''    CREATE TABLE IF NOT EXISTS '' @ table @ '' ('' @ newline @
     ''        id BIGINT GENERATED BY DEFAULT AS IDENTITY PRIMARY KEY,'' @ newline @
     ''        device_id INTEGER,'' @ newline @ ''        device_name VARCHAR(255) NOT NULL,'' @ newline @
     ''        tag_name VARCHAR(255) NOT NULL,'' @ newline @ ''        tag_address INTEGER,'' @ newline @
     ''        value_json TEXT,'' @ newline @ ''        quality VARCHAR(32) NOT NULL,'' @ newline @
     ''        error TEXT,'' @ newline @ ''        tag_timestamp VARCHAR(64) NOT NULL,'' @ newline @
     ''        inserted_at TIMESTAMP DEFAULT CURRENT_TIMESTAMP'' @ newline @ ''    )'' @ newline @ ''    ''"

definition insert_sql :: "string \<Rightarrow> string \<Rightarrow> string" where
  "insert_sql table placeholder = ''INSERT INTO '' @ table @
     '' (device_id, device_name, tag_name, tag_address, value_json, quality, error, tag_timestamp) VALUES ('' @
     py_join '', '' (replicate 8 placeholder) @ '')''"

fun dict_of :: "pyval \<Rightarrow> settings" where
  "dict_of (VDict d) = d"
| "dict_of v = []"

definition tag_params :: "settings \<Rightarrow> settings \<Rightarrow> settings \<Rightarrow> pyval list" where
  "tag_params payload device tag =
     [item_get device ''id'', item_get device ''name'', item_get tag ''name'', item_get tag ''address'',
      VStr (json_dumps '', '' '': '' (item_get tag ''value'')), item_get tag ''quality'', item_get tag ''error'',
      or_val (item_get tag ''timestamp'') (item_get payload ''timestamp'')]"

definition params_from_message :: "batch_message \<Rightarrow> pyval list list res" where
  "params_from_message m =
     rbind (item_req (msg_payload m) ''device'') (\<lambda>device.
     rbind (item_req (msg_payload m) ''tags'') (\<lambda>tags.
       Inr (map (\<lambda>t. tag_params (msg_payload m) (dict_of device) (dict_of t)) (list_of tags))))"

definition pg_publish_batch :: "pg_server \<Rightarrow> batch_message \<Rightarrow> postgres_sink \<Rightarrow> exn option \<times> postgres_sink" where
  "pg_publish_batch p m s =
     (if \<not> ps_open s
      then (Some (raised [(''workers.py'', 572, ''_publish_message''), (''database.py'', 30, ''publish_batch'')]
        (Raise RuntimeError ''database sink is not started'')), s)
      else (case table_name (ps_config s) of
          Inl e \<Rightarrow> (Some (raised [(''workers.py'', 572, ''_publish_message''), (''database.py'', 31, ''publish_batch''),
              (''database.py'', 38, ''table_name''), (''database.py'', 106, ''_safe_table_name'')] e), s)
        | Inr table \<Rightarrow> (case params_from_message m of
            Inl e \<Rightarrow> (Some (raised [(''workers.py'', 572, ''_publish_message''), (''database.py'', 32, ''publish_batch''),
                (''database.py'', if dget (msg_payload m) ''device'' = None then 86 else 88, ''_params_from_message'')] e), s)
          | Inr rows \<Rightarrow> pg_all p (map (Execute (insert_sql table (CHR ''%'' # ''s''))) rows @ [Commit]) s)))"

definition pg_stop :: "pg_server \<Rightarrow> postgres_sink \<Rightarrow> exn option \<times> postgres_sink" where
  "pg_stop p s = (if \<not> ps_open s then (None, s) else
     (case pg_do p Close s of (Some e, s1) \<Rightarrow> (Some e, s1) | (None, s1) \<Rightarrow> (None, s1\<lparr>ps_open := False\<rparr>)))"

text \<open>\<open>_connect_postgres\<close> and \<open>start\<close>; frames of exceptions that leave \<open>start\<close> begin in \<open>run\<close> of the publisher.\<close>

definition connect_postgres :: "settings \<Rightarrow> pg_call res" where
  "connect_postgres c =
     rbind (py_int (get_or c ''port'' (VInt 5432))) (\<lambda>port.
       Inr (PgConnect (get_or c ''host'' (VStr ''localhost'')) port (get_or c ''database'' (VStr ''postgres''))
         (item_get c ''username'') (item_get c ''password'')))"

definition start_frames :: "(string \<times> nat \<times> string) list \<Rightarrow> (string \<times> nat \<times> string) list" where
  "start_frames fs = (''workers.py'', 584, ''run'') # fs"

definition pg_start :: "pg_server \<Rightarrow> postgres_sink \<Rightarrow> exn option \<times> postgres_sink" where
  "pg_start p s = (case connect_postgres (ps_config s) of
     Inl e \<Rightarrow> (Some (raised (start_frames [(''database.py'', 18, ''start''), (''database.py'', 52, ''_connect_postgres'')]) e), s)
   | Inr k \<Rightarrow> (case pg_do p k s of
       (Some e, s1) \<Rightarrow> (Some e, s1)
     | (None, s1) \<Rightarrow>
         (let s2 = s1\<lparr>ps_open := True\<rparr> in
          if \<not> truthy (get_or (ps_config s) ''auto_create'' (VBool True)) then (None, s2)
          else (case table_name (ps_config s) of
              Inl e \<Rightarrow> (Some (raised (start_frames [(''database.py'', 20, ''start''), (''database.py'', 38, ''table_name''),
                  (''database.py'', 106, ''_safe_table_name'')]) e), s2)
            | Inr table \<Rightarrow> pg_all p [Execute (create_table_sql table) [], Commit] s2))))"

end
