(* ===== verification/Mqtt_Input.thy ===== *)
theory Mqtt_Input
  imports Sinks Poller
begin

text \<open>
  \<open>MqttInputDriver\<close> of \<^verbatim>\<open>src/industrial_gateway/drivers/mqtt.py\<close>: a subscription driver whose readings come out of the
  JSON messages of a broker. The client is the broker parameter of \<open>Sinks\<close>; the callbacks the client's thread makes are
  events. \<open>input_env\<close> holds what the standard library and the machine give: the texts of the errors of the JSON
  decoder and of \<open>strptime\<close>, and the local time zone. A message is its text, or the error of decoding its bytes.
  \<open>fr\<close> are the stack frames of the caller, which only the log shows.
\<close>

section \<open>State\<close>

record mqtt_input =
  mi_client :: bool
  mi_emit :: bool
  mi_connected :: bool
  mi_error :: "string option"
  mi_calls :: "mqtt_call list"

definition new_mqtt_input :: mqtt_input where
  "new_mqtt_input = \<lparr>mi_client = False, mi_emit = False, mi_connected = False, mi_error = None, mi_calls = []\<rparr>"

record input_env =
  ie_json_error :: "string \<Rightarrow> string"
  ie_time_error :: "string \<Rightarrow> string"
  ie_local :: "datetime \<Rightarrow> datetime"

type_synonym frames = "(string \<times> nat \<times> string) list"

definition mi_do :: "mqtt_broker \<Rightarrow> mqtt_call \<Rightarrow> mqtt_input \<Rightarrow> (exn + int) \<times> mqtt_input" where
  "mi_do b k s = (b (mi_calls s) k, s\<lparr>mi_calls := mi_calls s @ [k]\<rparr>)"

text \<open>\<open>str(connection.get(key) or default)\<close>.\<close>

definition conn_text :: "device_spec \<Rightarrow> string \<Rightarrow> string \<Rightarrow> string" where
  "conn_text d key fallback = py_str (or_val (item_get (dev_connection d) key) (VStr fallback))"

definition client_id :: "device_spec \<Rightarrow> string" where
  "client_id d =
     (let base = py_strip (conn_text d ''client_id'' ''industrial-gateway-input'');
          suffix = replace_char (CHR '' '') (CHR ''-'')
            (py_strip (case dev_id d of None \<Rightarrow> dev_name d | Some i \<Rightarrow> if i = 0 then dev_name d else show_int i))
      in if suffix = [] \<or> ends_with (''-'' @ suffix) base then base else base @ ''-'' @ suffix)"

section \<open>Connecting\<close>

definition mi_raise :: "frames \<Rightarrow> nat \<Rightarrow> string \<Rightarrow> pyerr \<Rightarrow> exn" where
  "mi_raise fr line function e = raised (fr @ [(''mqtt.py'', line, function)]) e"

definition mi_new_client :: "mqtt_broker \<Rightarrow> device_spec \<Rightarrow> mqtt_input \<Rightarrow> exn option \<times> mqtt_input" where
  "mi_new_client b d s = (if mi_client s then (None, s)
     else (case mi_do b (NewClient (client_id d)) s of
         (Inl e, s1) \<Rightarrow> (Some e, s1)
       | (Inr _, s1) \<Rightarrow> (None, s1\<lparr>mi_client := True\<rparr>)))"

definition mi_login :: "mqtt_broker \<Rightarrow> device_spec \<Rightarrow> mqtt_input \<Rightarrow> exn option \<times> mqtt_input" where
  "mi_login b d s =
     (let user = conn_text d ''username'' []; password = conn_text d ''password'' [] in
      if user = [] then (None, s)
      else (case mi_do b (SetLogin user (if password = [] then None else Some password)) s of
          (Inl e, s1) \<Rightarrow> (Some e, s1) | (Inr _, s1) \<Rightarrow> (None, s1)))"

definition mi_open :: "mqtt_broker \<Rightarrow> frames \<Rightarrow> device_spec \<Rightarrow> mqtt_input \<Rightarrow> exn option \<times> mqtt_input" where
  "mi_open b fr d s =
     (case py_int (or_val (item_get (dev_connection d) ''port'') (VInt 1883)) of
        Inl e \<Rightarrow> (Some (mi_raise fr 35 ''connect'' e), s)
      | Inr port \<Rightarrow> (case mi_do b (Connect (conn_text d ''host'' ''localhost'') port) s of
          (Inl e, s1) \<Rightarrow> (Some e, s1)
        | (Inr rc, s1) \<Rightarrow>
            (if rc \<noteq> 0
             then (Some (mi_raise fr 38 ''connect'' (Raise RuntimeError (''MQTT input connect failed with rc='' @ show_int rc))), s1)
             else (case mi_do b LoopStart s1 of
                 (Inl e, s2) \<Rightarrow> (Some e, s2)
               | (Inr _, s2) \<Rightarrow> (None, s2\<lparr>mi_connected := True, mi_error := None\<rparr>)))))"

definition mi_connect :: "mqtt_broker \<Rightarrow> frames \<Rightarrow> device_spec \<Rightarrow> mqtt_input \<Rightarrow> exn option \<times> mqtt_input" where
  "mi_connect b fr d s = (case mi_new_client b d s of
     (Some e, s1) \<Rightarrow> (Some e, s1)
   | (None, s1) \<Rightarrow> (case mi_login b d s1 of
       (Some e, s2) \<Rightarrow> (Some e, s2)
     | (None, s2) \<Rightarrow> mi_open b fr d s2))"

definition mi_disconnect :: "mqtt_broker \<Rightarrow> mqtt_input \<Rightarrow> exn option \<times> mqtt_input" where
  "mi_disconnect b s = (if \<not> mi_client s then (None, s) else
     (let (r1, s1) = mi_do b LoopStop (s\<lparr>mi_client := False, mi_emit := False\<rparr>);
          (r2, s2) = mi_do b Disconnect s1
      in (case r2 of Inl e \<Rightarrow> Some e | Inr _ \<Rightarrow> (case r1 of Inl e \<Rightarrow> Some e | Inr _ \<Rightarrow> None), s2\<lparr>mi_connected := False\<rparr>)))"

definition mi_on_connect :: "int \<Rightarrow> mqtt_input \<Rightarrow> mqtt_input" where
  "mi_on_connect rc s = s\<lparr>mi_connected := (rc = 0),
     mi_error := (if rc = 0 then None else Some (''MQTT input connect failed with rc='' @ show_int rc))\<rparr>"

definition mi_on_disconnect :: "int \<Rightarrow> mqtt_input \<Rightarrow> mqtt_input" where
  "mi_on_disconnect rc s = s\<lparr>mi_connected := False,
     mi_error := Some (if rc = 0 then ''MQTT input client disconnected''
       else ''MQTT input client disconnected with rc='' @ show_int rc)\<rparr>"

section \<open>Subscribing\<close>

definition topic_filter :: "device_spec \<Rightarrow> string" where
  "topic_filter d = py_strip (conn_text d ''topic_filter'' [])"

definition mi_start_subscription :: "mqtt_broker \<Rightarrow> frames \<Rightarrow> device_spec \<Rightarrow> mqtt_input \<Rightarrow> exn option \<times> mqtt_input" where
  "mi_start_subscription b fr d s =
     (if \<not> mi_client s
      then (Some (mi_raise fr 68 ''start_subscription'' (Raise RuntimeError ''MQTT input client is not connected'')), s)
      else let s1 = s\<lparr>mi_emit := True\<rparr> in
        if topic_filter d = []
        then (Some (mi_raise fr 73 ''start_subscription'' (Raise RuntimeError ''MQTT topic_filter is required'')), s1)
        else (case py_int (or_val (item_get (dev_connection d) ''qos'') (VInt 0)) of
            Inl e \<Rightarrow> (Some (mi_raise fr 74 ''start_subscription'' e), s1)
          | Inr qos \<Rightarrow> (case mi_do b (Subscribe (topic_filter d) qos) s1 of
                (Inl e, s2) \<Rightarrow> (Some e, s2) | (Inr _, s2) \<Rightarrow> (None, s2))))"

definition mi_stop_subscription :: "mqtt_broker \<Rightarrow> device_spec \<Rightarrow> mqtt_input \<Rightarrow> exn option \<times> mqtt_input" where
  "mi_stop_subscription b d s =
     (if \<not> mi_client s then (None, s)
      else if topic_filter d = [] then (None, s\<lparr>mi_emit := False\<rparr>)
      else (case mi_do b (Unsubscribe (topic_filter d)) s of
          (Inl e, s1) \<Rightarrow> (Some e, s1) | (Inr _, s1) \<Rightarrow> (None, s1\<lparr>mi_emit := False\<rparr>)))"

text \<open>What \<open>run_subscription_once\<close> does after its sleep.\<close>

definition mi_run_once :: "frames \<Rightarrow> mqtt_input \<Rightarrow> exn option" where
  "mi_run_once fr s = (if mi_connected s then None
     else Some (mi_raise fr 89 ''run_subscription_once''
       (Raise RuntimeError (or_opt (mi_error s) ''MQTT input client disconnected''))))"

definition mi_server_status :: "frames \<Rightarrow> mqtt_input \<Rightarrow> exn + pyval" where
  "mi_server_status fr s = (if mi_connected s then Inr (VDict [(''connected'', VBool True)])
     else Inl (mi_raise fr 63 ''read_server_status'' (Raise RuntimeError ''MQTT input client is not connected'')))"

section \<open>Messages\<close>

definition input_bad :: "tag_spec \<Rightarrow> datetime \<Rightarrow> string \<Rightarrow> tag_result" where
  "input_bad t now e = \<lparr>res_name = tag_name t, res_address = tag_address t, res_value = VNone, res_quality = Bad,
     res_error = Some e, res_timestamp = now, res_node_id = tag_node_id t, res_tag_group = tag_group t\<rparr>"

definition mi_read_tags :: "tag_spec list \<Rightarrow> datetime \<Rightarrow> tag_result list" where
  "mi_read_tags tags now = map (\<lambda>t. input_bad t now ''MQTT input driver only supports subscription mode'') tags"

fun field_at :: "pyval \<Rightarrow> string list \<Rightarrow> pyval" where
  "field_at v [] = v"
| "field_at (VDict d) (p # ps) = (case dget d p of None \<Rightarrow> VNone | Some v \<Rightarrow> field_at v ps)"
| "field_at v (p # ps) = VNone"

definition field_value :: "pyval \<Rightarrow> string \<Rightarrow> pyval" where
  "field_value payload field = field_at payload (split_char (CHR ''.'') field)"

text \<open>\<open>None\<close> when the configuration names no field or the message does not have it.\<close>

definition payload_timestamp :: "input_env \<Rightarrow> pyval \<Rightarrow> device_spec \<Rightarrow> datetime option res" where
  "payload_timestamp env payload d =
     (let field = py_strip (conn_text d ''timestamp_field'' []); v = field_value payload field; s = py_strip (py_str v) in
      if field = [] \<or> v = VNone \<or> s = [] then Inr None
      else (case (case from_isoformat s of None \<Rightarrow> strptime_seconds s | Some t \<Rightarrow> Some t) of
          None \<Rightarrow> value_error (ie_time_error env s)
        | Some t \<Rightarrow> Inr (Some (if dt_tz t = None then ie_local env t else t))))"

definition auto_value :: "pyval \<Rightarrow> pyval" where
  "auto_value v = (case v of
     VStr s \<Rightarrow> (let t = py_strip s in
       if t = [] then v
       else if CHR ''.'' \<in> set t \<or> CHR ''e'' \<in> set t \<or> CHR ''E'' \<in> set t
       then (case parse_float t of None \<Rightarrow> v | Some x \<Rightarrow> VFloat x)
       else (case parse_int t of None \<Rightarrow> v | Some i \<Rightarrow> VInt i))
   | _ \<Rightarrow> v)"

definition input_coerce :: "pyval \<Rightarrow> tag_spec \<Rightarrow> pyval res" where
  "input_coerce v t =
     (if tag_data_type t = ''auto'' then Inr (auto_value v)
      else if tag_data_type t = ''string'' then Inr (VStr (py_str v))
      else if tag_data_type t = ''bool'' then Inr (VBool (truthy v))
      else if tag_data_type t \<in> {''int16'', ''uint16'', ''int32'', ''uint32''}
      then rbind (py_int v) (\<lambda>i. rbind (int_to_float i) (\<lambda>x. Inr (VFloat (fl_mult x (tag_scale t)))))
      else if tag_data_type t \<in> {''float32'', ''float64''}
      then rbind (py_float v) (\<lambda>x. Inr (VFloat (fl_mult x (tag_scale t))))
      else Inr v)"

definition input_field :: "tag_spec \<Rightarrow> string" where
  "input_field t = or_opt (tag_node_id t) (tag_name t)"

definition input_good :: "tag_spec \<Rightarrow> datetime \<Rightarrow> pyval \<Rightarrow> tag_result" where
  "input_good t now v = \<lparr>res_name = tag_name t, res_address = tag_address t, res_value = v, res_quality = Good,
     res_error = None, res_timestamp = now, res_node_id = Some (input_field t), res_tag_group = tag_group t\<rparr>"

definition input_tag_result :: "tag_spec \<Rightarrow> pyval \<Rightarrow> datetime \<Rightarrow> tag_result" where
  "input_tag_result t payload now =
     (let v = field_value payload (input_field t) in
      case (if v = VNone then Inl (Raise KeyError (repr_str (input_field t))) else input_coerce v t) of
        Inr w \<Rightarrow> input_good t now w
      | Inl e \<Rightarrow> (input_bad t now (err_text e))\<lparr>res_node_id := Some (input_field t)\<rparr>)"

text \<open>The time and the readings of a message that arrived at \<open>now\<close>.\<close>

definition read_message ::
  "input_env \<Rightarrow> device_spec \<Rightarrow> tag_spec list \<Rightarrow> datetime \<Rightarrow> string + string \<Rightarrow> datetime \<times> tag_result list" where
  "read_message env d tags now m =
     (case (case m of Inl e \<Rightarrow> value_error e
        | Inr s \<Rightarrow> (case json_loads s of
            None \<Rightarrow> value_error (ie_json_error env s)
          | Some payload \<Rightarrow> rbind (payload_timestamp env payload d) (\<lambda>t. Inr (payload, t)))) of
        Inl e \<Rightarrow> (now, map (\<lambda>t. input_bad t now (err_text e)) tags)
      | Inr (payload, t) \<Rightarrow> (let ts = (case t of None \<Rightarrow> now | Some x \<Rightarrow> x) in
          (ts, map (\<lambda>tag. input_tag_result tag payload ts) tags)))"

definition mi_on_message ::
  "input_env \<Rightarrow> device_spec \<Rightarrow> tag_spec list \<Rightarrow> datetime \<Rightarrow> string + string \<Rightarrow> mqtt_input \<Rightarrow> read_result list" where
  "mi_on_message env d tags now m s =
     (if \<not> mi_emit s then []
      else let (ts, rs) = read_message env d tags now m in
        [\<lparr>rr_device = d, rr_timestamp = ts, rr_tags = rs, rr_error = None\<rparr>])"

section \<open>In the subscription worker\<close>

text \<open>What the client's thread does while \<open>run_subscription_once\<close> sleeps.\<close>

datatype mqtt_event = Message datetime "string + string" | Connected int | Disconnected int

fun mi_event :: "input_env \<Rightarrow> device_spec \<Rightarrow> tag_spec list \<Rightarrow> mqtt_event \<Rightarrow> mqtt_input \<Rightarrow> read_result list \<times> mqtt_input" where
  "mi_event env d tags (Message now m) s = (mi_on_message env d tags now m s, s)"
| "mi_event env d tags (Connected rc) s = ([], mi_on_connect rc s)"
| "mi_event env d tags (Disconnected rc) s = ([], mi_on_disconnect rc s)"

fun mi_events ::
  "input_env \<Rightarrow> device_spec \<Rightarrow> tag_spec list \<Rightarrow> mqtt_event list \<Rightarrow> mqtt_input \<Rightarrow> read_result list \<times> mqtt_input" where
  "mi_events env d tags [] s = ([], s)"
| "mi_events env d tags (e # es) s =
     (let (rs, s1) = mi_event env d tags e s; (rs', s2) = mi_events env d tags es s1 in (rs @ rs', s2))"

text \<open>The worker's steps: each has its events, the reading of the clock and the time of its health check.\<close>

fun mi_steps ::
  "input_env \<Rightarrow> device_spec \<Rightarrow> tag_spec list \<Rightarrow> (mqtt_event list \<times> pyfloat \<times> datetime) list \<Rightarrow> mqtt_input \<Rightarrow>
     sub_step list \<times> mqtt_input" where
  "mi_steps env d tags [] s = ([], s)"
| "mi_steps env d tags ((es, clock, now) # rs) s =
     (let (emits, s1) = mi_events env d tags es s;
          status = (case mi_server_status [] s1 of Inl e \<Rightarrow> Some e | Inr _ \<Rightarrow> None);
          (steps, s2) = mi_steps env d tags rs s1
      in (\<lparr>st_emits = emits, st_run = mi_run_once [] s1, st_health = Some status, st_clock = clock, st_time = now\<rparr> # steps, s2))"

text \<open>A session of the worker with the driver of an MQTT device, on a broker and with the events of its steps.\<close>

definition mi_session ::
  "mqtt_broker \<Rightarrow> input_env \<Rightarrow> device_spec \<Rightarrow> tag_spec list \<Rightarrow> (mqtt_event list \<times> pyfloat \<times> datetime) list \<Rightarrow>
     datetime \<Rightarrow> bool \<Rightarrow> session" where
  "mi_session b env d tags rounds now stopped =
     (let (c, s1) = mi_connect b [] d new_mqtt_input;
          (st, s2) = mi_start_subscription b [] d s1;
          (steps, s3) = mi_steps env d tags rounds s2;
          (sp, s4) = mi_stop_subscription b d s3
      in \<lparr>se_factory = (\<lambda>d tags. Inr \<lparr>sd_connect = c, sd_start_emits = [], sd_start = st, sd_stop = sp,
            sd_disconnect = fst (mi_disconnect b (if c = None \<and> st = None then s4 else if c = None then s2 else s1))\<rparr>),
          se_steps = steps, se_time = now, se_stopped = stopped\<rparr>)"

end
