(* ===== verification/Sinks_Props.thy ===== *)
theory Sinks_Props
  imports Sinks Publisher_Thms
begin

text \<open>
  What the sinks do with the publisher's messages: the rows PostgreSQL gets and the failures it cannot recover from, the
  flat payload of the MQTT sink and what is left of a start that failed.
\<close>

section \<open>PostgreSQL\<close>

lemma item_get_Cons [simp]: "item_get ((k', v) # d) k = (if k' = k then v else item_get d k)" "item_get [] k = VNone"
  by (simp_all add: item_get_def)

definition tag_row :: "device_spec \<Rightarrow> tag_result \<Rightarrow> pyval list" where
  "tag_row d t = [int_val (dev_id d), VStr (dev_name d), VStr (res_name t), VInt (res_address t),
     VStr (json_dumps '', '' '': '' (res_value t)), VStr (quality_text (res_quality t)), str_val (res_error t),
     VStr (iso (res_timestamp t))]"

lemma params_from_results: "params_from_message (from_results d tags ts mqtt) = Inr (map (tag_row d) tags)"
proof -
  have "iso u \<noteq> []" for u by (simp add: iso_def isoformat_millis_def date_part_def pad_nat_def)
  then have "tag_params payload [(''id'', int_val (dev_id d)), (''name'', VStr (dev_name d))] (to_payload t) = tag_row d t" for t payload
    by (simp add: tag_params_def to_payload_def tag_row_def or_val_def)
  then show ?thesis by (simp add: params_from_message_def from_results_def item_req_def)
qed

lemma pg_all_ok: "list_all (\<lambda>k. \<forall>cs. p cs k = None) ks \<Longrightarrow> pg_all p ks s = (None, s\<lparr>ps_calls := ps_calls s @ ks\<rparr>)"
  by (induction ks arbitrary: s) (simp_all add: pg_do_def)

abbreviation insert_row :: "string \<Rightarrow> pyval list \<Rightarrow> pg_call" where
  "insert_row table \<equiv> Execute (insert_sql table (CHR ''%'' # ''s''))"

text \<open>C30: One row per tag.  A measurement message that an open PostgreSQL sink publishes to a server that accepts its statements
  inserts exactly one row per tag, in order, and commits; the row's value column reads back as the value of the tag.\<close>

theorem postgres_inserts_every_tag:
  assumes "ps_open s" "table_name (ps_config s) = Inr table" "\<And>cs k. p cs k = None"
    and "list_all (\<lambda>t. json_ok (res_value t)) tags"
  shows "pg_publish_batch p (from_results d tags ts mqtt) s =
      (None, s\<lparr>ps_calls := ps_calls s @ map (insert_row table) (map (tag_row d) tags) @ [Commit]\<rparr>) \<and>
    list_all (\<lambda>t. \<exists>text. tag_row d t ! 4 = VStr text \<and> json_loads text = Some (res_value t)) tags"
proof
  show "pg_publish_batch p (from_results d tags ts mqtt) s =
      (None, s\<lparr>ps_calls := ps_calls s @ map (insert_row table) (map (tag_row d) tags) @ [Commit]\<rparr>)"
    using assms(1-3) by (simp add: pg_publish_batch_def params_from_results pg_all_ok list_all_iff)
  have "json_separators '', '' '': ''" by (simp add: json_separators_def json_space_def)
  then show "list_all (\<lambda>t. \<exists>text. tag_row d t ! 4 = VStr text \<and> json_loads text = Some (res_value t)) tags"
    using assms(4) by (auto simp: list_all_iff tag_row_def json_loads_dumps)
qed

definition open_postgres :: postgres_sink where
  "open_postgres = (new_postgres_sink [])\<lparr>ps_open := True\<rparr>"

lemma open_postgres_table: "ps_open open_postgres" "table_name (ps_config open_postgres) = Inr ''gateway_tag_values''"
  by (simp_all add: open_postgres_def new_postgres_sink_def table_name_def safe_table_name_def is_digit_def upper_char_def Let_def)

lemma postgres_inserts_every_tag_witness:
  "pg_publish_batch (\<lambda>cs k. None) (from_results (sample_device []) [sample_reading ''flow'' Good] noon default_mqtt_config) open_postgres =
      (None, open_postgres\<lparr>ps_calls := ps_calls open_postgres @ map (insert_row ''gateway_tag_values'')
        (map (tag_row (sample_device [])) [sample_reading ''flow'' Good]) @ [Commit]\<rparr>) \<and>
    list_all (\<lambda>t. \<exists>text. tag_row (sample_device []) t ! 4 = VStr text \<and> json_loads text = Some (res_value t)) [sample_reading ''flow'' Good]"
  by (rule postgres_inserts_every_tag [OF open_postgres_table]) (simp_all add: sample_reading_def)

text \<open>PostgreSQL never takes a status message.  The status message that follows every measurement, and every heartbeat, has
  no device in its payload: the sink raises \<open>KeyError\<close> for it without sending anything, whatever the server does.\<close>

theorem postgres_rejects_status_messages:
  assumes "ps_open s" "table_name (ps_config s) = Inr table"
    and "sm \<in> {ctm_status_message m tags conn err ts, system_heartbeat_status_message r ts}"
  shows "\<exists>e. pg_publish_batch p sm s = (Some e, s) \<and> ex_type e = ''KeyError''"
proof -
  have "dget (msg_payload sm) ''device'' = None"
    using assms(3) by (auto simp: ctm_status_message_def system_heartbeat_status_message_def Let_def)
  then show ?thesis using assms(1,2)
    by (simp add: pg_publish_batch_def params_from_message_def item_req_def key_error_def raised_def)
qed

lemma postgres_rejects_status_messages_witness:
  "\<exists>e. pg_publish_batch (\<lambda>cs k. None) (ctm_status_message (from_results (sample_device []) [] noon default_mqtt_config) [] ''on'' None noon)
     open_postgres = (Some e, open_postgres) \<and> ex_type e = ''KeyError''"
  by (rule postgres_rejects_status_messages [OF open_postgres_table,
        where m = "from_results (sample_device []) [] noon default_mqtt_config" and tags = "[]" and conn = "''on''" and err = None and ts = noon]) simp

text \<open>PostgreSQL's rule for a transaction in which a statement failed: every later statement fails until the transaction
  ends.\<close>

definition aborts_transactions :: "pg_server \<Rightarrow> bool" where
  "aborts_transactions p \<longleftrightarrow> (\<forall>cs sql ps rest sql' ps'. p cs (Execute sql ps) \<noteq> None \<and> Commit \<notin> set rest \<and> Close \<notin> set rest \<longrightarrow>
     p (cs @ Execute sql ps # rest) (Execute sql' ps') \<noteq> None)"

text \<open>The state of a sink whose transaction was aborted.\<close>

definition aborted :: "pg_server \<Rightarrow> postgres_sink \<Rightarrow> bool" where
  "aborted p s \<longleftrightarrow> (\<exists>cs sql ps rest. ps_calls s = cs @ Execute sql ps # rest \<and> p cs (Execute sql ps) \<noteq> None \<and>
     Commit \<notin> set rest \<and> Close \<notin> set rest)"

lemma aborted_publish:
  assumes "aborts_transactions p" "aborted p s" "params_from_message m \<noteq> Inr []"
  shows "fst (pg_publish_batch p m s) \<noteq> None" "aborted p (snd (pg_publish_batch p m s))"
proof -
  have "fst (pg_publish_batch p m s) \<noteq> None \<and> aborted p (snd (pg_publish_batch p m s))"
  proof (cases "ps_open s \<and> (\<exists>table row rows. table_name (ps_config s) = Inr table \<and> params_from_message m = Inr (row # rows))")
    case True
    then obtain table row rows where m: "ps_open s" "table_name (ps_config s) = Inr table" "params_from_message m = Inr (row # rows)"
      by blast
    let ?k = "insert_row table row"
    obtain cs sql ps rest where a: "ps_calls s = cs @ Execute sql ps # rest" "p cs (Execute sql ps) \<noteq> None"
        "Commit \<notin> set rest" "Close \<notin> set rest"
      using assms(2) unfolding aborted_def by blast
    obtain e where e: "p (ps_calls s) ?k = Some e"
      using assms(1) a unfolding aborts_transactions_def by (metis not_Some_eq)
    then have "pg_publish_batch p m s = (Some e, s\<lparr>ps_calls := ps_calls s @ [?k]\<rparr>)"
      using m by (simp add: pg_publish_batch_def pg_do_def)
    moreover have "aborted p (s\<lparr>ps_calls := ps_calls s @ [?k]\<rparr>)"
      unfolding aborted_def using a by (intro exI [where x = cs] exI [where x = sql] exI [where x = ps] exI [where x = "rest @ [?k]"]) simp
    ultimately show ?thesis by simp
  next
    case False
    then have "fst (pg_publish_batch p m s) \<noteq> None" "snd (pg_publish_batch p m s) = s"
      using assms(3) by (auto simp: pg_publish_batch_def split: sum.splits list.splits) (metis list.exhaust)+
    then show ?thesis using assms(2) by simp
  qed
  then show "fst (pg_publish_batch p m s) \<noteq> None" "aborted p (snd (pg_publish_batch p m s))" by blast+
qed

fun pg_outcomes :: "pg_server \<Rightarrow> batch_message list \<Rightarrow> postgres_sink \<Rightarrow> exn option list" where
  "pg_outcomes p [] s = []"
| "pg_outcomes p (m # ms) s = fst (pg_publish_batch p m s) # pg_outcomes p ms (snd (pg_publish_batch p m s))"

lemma aborted_outcomes:
  "aborts_transactions p \<Longrightarrow> aborted p s \<Longrightarrow> list_all (\<lambda>m. params_from_message m \<noteq> Inr []) ms \<Longrightarrow>
    list_all (\<lambda>x. x \<noteq> None) (pg_outcomes p ms s)"
  by (induction ms arbitrary: s) (simp_all add: aborted_publish del: not_None_eq)

text \<open>C31: One failed insert silences PostgreSQL for good.  On a server that fails every statement of an aborted transaction, as
  PostgreSQL does, nothing in the sink ends the transaction of a failed insert: every later message that
  carries a tag, and every status message, fails too, however long the gateway runs.\<close>

theorem postgres_never_recovers:
  assumes "aborts_transactions p" "ps_open s" "table_name (ps_config s) = Inr table"
    and "params_from_message m = Inr (row # rows)" "p (ps_calls s) (insert_row table row) \<noteq> None"
    and "list_all (\<lambda>m. params_from_message m \<noteq> Inr []) ms"
  shows "list_all (\<lambda>x. x \<noteq> None) (pg_outcomes p (m # ms) s)"
proof -
  obtain e where e: "p (ps_calls s) (insert_row table row) = Some e" using assms(5) by auto
  then have m: "pg_publish_batch p m s = (Some e, s\<lparr>ps_calls := ps_calls s @ [insert_row table row]\<rparr>)"
    using assms(2-4) by (simp add: pg_publish_batch_def pg_do_def)
  have "aborted p (s\<lparr>ps_calls := ps_calls s @ [insert_row table row]\<rparr>)"
    unfolding aborted_def using e
    by (intro exI [where x = "ps_calls s"] exI [where x = "insert_sql table (CHR ''%'' # ''s'')"] exI [where x = row] exI [where x = "[]"]) simp
  from aborted_outcomes [OF assms(1) this assms(6)] show ?thesis by (simp add: m)
qed

text \<open>A server that refuses rows without a name.\<close>

definition strict_server :: pg_server where
  "strict_server cs k =
     (if list_ex (\<lambda>c. case c of Execute sql ps \<Rightarrow> ps \<noteq> [] \<and> ps ! 1 = VStr [] | _ \<Rightarrow> False) (takeWhile (\<lambda>c. c \<noteq> Commit \<and> c \<noteq> Close) (rev (cs @ [k])))
      then Some (raised [] (Raise ValueError ''current transaction is aborted'')) else None)"

lemma strict_server_aborts: "aborts_transactions strict_server"
proof -
  have t: "takeWhile P (xs @ ys) = xs @ takeWhile P ys" if "\<forall>x\<in>set xs. P x" for P :: "pg_call \<Rightarrow> bool" and xs ys
    using that by (induction xs) auto
  have "takeWhile (\<lambda>c. c \<noteq> Commit \<and> c \<noteq> Close) (rev rest @ ys) = rev rest @ takeWhile (\<lambda>c. c \<noteq> Commit \<and> c \<noteq> Close) ys"
    if "Commit \<notin> set rest" "Close \<notin> set rest" for rest ys using that by (intro t) auto
  then show ?thesis by (auto simp: aborts_transactions_def strict_server_def)
qed

lemma postgres_never_recovers_witness:
  "list_all (\<lambda>x. x \<noteq> None) (pg_outcomes strict_server
     [from_results ((sample_device [])\<lparr>dev_name := []\<rparr>) [sample_reading ''flow'' Good] noon default_mqtt_config,
      from_results (sample_device []) [sample_reading ''flow'' Good] noon default_mqtt_config] open_postgres)"
  by (rule postgres_never_recovers [OF strict_server_aborts open_postgres_table, where
        row = "tag_row ((sample_device [])\<lparr>dev_name := []\<rparr>) (sample_reading ''flow'' Good)" and rows = "[]"])
    (simp_all add: params_from_results strict_server_def tag_row_def open_postgres_def new_postgres_sink_def)

section \<open>MQTT\<close>

text \<open>A failed start leaves no client.  When connecting, or starting the client's loop, raises, the exception leaves the start
  (unless stopping raises another), the sink has no client any more, and the client was stopped and
  disconnected; so the sink can be started again.\<close>

theorem mqtt_failed_start_cleans_up:
  assumes "mq_enabled (ms_config s)" "b (ms_calls s) (NewClient (mq_client_id (ms_config s))) = Inr n"
    and "mqtt_login b (s\<lparr>ms_calls := ms_calls s @ [NewClient (mq_client_id (ms_config s))], ms_client := True\<rparr>) = (None, s2)"
    and "mqtt_connect b s2 = (Some e, s3)"
  shows "\<exists>x s4. mqtt_start b s = (Some x, s4) \<and> \<not> ms_client s4 \<and> ms_calls s4 = ms_calls s3 @ [LoopStop, Disconnect] \<and>
    (x = e \<or> b (ms_calls s3) LoopStop = Inl x \<or> b (ms_calls s3 @ [LoopStop]) Disconnect = Inl x)"
proof -
  have "ms_client s2" using assms(3) by (auto simp: mqtt_login_def mqtt_do_def split: if_splits sum.splits)
  then have c: "ms_client s3" using assms(4) by (auto simp: mqtt_connect_def mqtt_do_def split: sum.splits)
  show ?thesis using assms(1-4) c
    by (cases "b (ms_calls s3) LoopStop"; cases "b (ms_calls s3 @ [LoopStop]) Disconnect")
      (simp_all add: mqtt_start_def mqtt_stop_def mqtt_do_def)
qed

definition refusing_broker :: mqtt_broker where
  "refusing_broker cs k = (case k of Connect h p \<Rightarrow> Inl (raised [] (Raise ValueError ''connection refused'')) | _ \<Rightarrow> Inr 0)"

definition sample_mqtt_sink :: mqtt_sink where
  "sample_mqtt_sink = new_mqtt_sink default_mqtt_config"

lemma mqtt_failed_start_cleans_up_witness:
  "\<exists>x s4. mqtt_start refusing_broker sample_mqtt_sink = (Some x, s4) \<and> \<not> ms_client s4 \<and>
    ms_calls s4 = [NewClient ''industrial-gateway'', Connect ''localhost'' 1883] @ [LoopStop, Disconnect] \<and>
    (x = raised [] (Raise ValueError ''connection refused'') \<or>
     refusing_broker [NewClient ''industrial-gateway'', Connect ''localhost'' 1883] LoopStop = Inl x \<or>
     refusing_broker ([NewClient ''industrial-gateway'', Connect ''localhost'' 1883] @ [LoopStop]) Disconnect = Inl x)"
  using mqtt_failed_start_cleans_up [of sample_mqtt_sink refusing_broker 0
      "sample_mqtt_sink\<lparr>ms_client := True, ms_calls := [NewClient ''industrial-gateway'']\<rparr>" "raised [] (Raise ValueError ''connection refused'')"
      "sample_mqtt_sink\<lparr>ms_client := True, ms_calls := [NewClient ''industrial-gateway'', Connect ''localhost'' 1883]\<rparr>"]
  by (simp add: sample_mqtt_sink_def new_mqtt_sink_def default_mqtt_config_def refusing_broker_def mqtt_login_def has_text_def
      mqtt_connect_def mqtt_do_def)

lemma flatten_fresh:
  "distinct (map res_name tags) \<Longrightarrow> list_all (\<lambda>t. res_name t \<noteq> [] \<and> res_name t \<notin> fst ` set d) tags \<Longrightarrow>
    fold flatten_tag (map (\<lambda>t. VDict (to_payload t)) tags) d = d @ map (\<lambda>t. (res_name t, res_value t)) tags"
proof (induction tags arbitrary: d)
  case (Cons t tags)
  have "flatten_tag (VDict (to_payload t)) d = d @ [(res_name t, res_value t)]"
    using Cons.prems(2) by (simp add: flatten_tag_def to_payload_def dset_fresh)
  moreover have "list_all (\<lambda>u. res_name u \<noteq> [] \<and> res_name u \<notin> fst ` set (d @ [(res_name t, res_value t)])) tags"
    using Cons.prems by (auto simp: list_all_iff intro: rev_image_eqI)
  ultimately show ?case using Cons.IH [of "d @ [(res_name t, res_value t)]"] Cons.prems(1) by simp
qed simp

lemma iso_ends:
  assumes "datetime_ok t"
  shows "\<exists>c r. iso t = c # r \<and> is_digit c" "\<exists>c r. iso t = r @ [c] \<and> is_digit c"
proof -
  obtain z where z: "dt_tz (assume_utc t) = Some z" by (cases "dt_tz t") (auto simp: assume_utc_def)
  have pad: "\<exists>c r. pad_nat w n = c # r \<and> is_digit c" "\<exists>c r. pad_nat w n = r @ [c] \<and> is_digit c" for w n
  proof -
    have ne: "pad_nat w n \<noteq> []" by (simp add: pad_nat_def)
    show "\<exists>c r. pad_nat w n = c # r \<and> is_digit c"
      using ne pad_nat_digits [of _ w n] by (cases "pad_nat w n") auto
    show "\<exists>c r. pad_nat w n = r @ [c] \<and> is_digit c"
      using ne pad_nat_digits [of _ w n] by (cases "pad_nat w n" rule: rev_cases) auto
  qed
  show "\<exists>c r. iso t = c # r \<and> is_digit c"
    using pad(1) [of 4 "dt_year (assume_utc t)"] by (auto simp: iso_def isoformat_millis_def date_part_def)
  show "\<exists>c r. iso t = r @ [c] \<and> is_digit c"
    using pad(2) [of 2 "nat \<bar>z\<bar> mod 60"] by (auto simp: iso_def isoformat_millis_def offset_part_def z)
qed

lemma mqtt_timestamp_iso:
  assumes "datetime_ok t"
  shows "mqtt_timestamp (VStr (iso t)) = telegraf_status_time t"
proof -
  let ?u = "assume_utc t"
  obtain z where z: "dt_tz ?u = Some z" by (cases "dt_tz t") (auto simp: assume_utc_def)
  have ok: "datetime_ok ?u" using assms by (auto simp: assume_utc_def datetime_ok_def split: if_splits)
  obtain c r c' r' where e: "iso t = c # r" "is_digit c" "iso t = r' @ [c']" "is_digit c'" using iso_ends [OF assms] by blast
  have "c' \<noteq> CHR ''Z''" using e(4) by (auto simp: is_digit_def)
  then have "\<not> ends_with ''Z'' (iso t)" using e(3) by (simp add: ends_with_def starts_with_def)
  moreover have "py_strip (iso t) = iso t"
  proof -
    have "dropWhile is_space (iso t) = iso t" using e(1) is_digit_not_space [OF e(2)] by simp
    moreover have "\<not> is_space (last (iso t))" using e(3) is_digit_not_space [OF e(4)] by simp
    ultimately show ?thesis by (simp add: py_strip_def strip_if_def lstrip_if_def rstrip_if_id)
  qed
  ultimately have p: "parse_timestamp (iso t) = Some (truncate_millis ?u)"
    using e(1) from_isoformat_millis [OF ok z] by (simp add: parse_timestamp_def iso_def)
  show ?thesis
    by (simp add: mqtt_timestamp_def p telegraf_status_time_def truncate_millis_def date_part_def clock_part_def
        millis_part_def offset_part_def z Let_def)
qed

text \<open>The MQTT sink publishes a flat object.  For readings with distinct names, none empty or the word \<open>timestamp\<close>, the
  payload is the time of the message followed by each reading's value under its name, and nothing else.\<close>

theorem mqtt_payload_is_flat:
  assumes "datetime_ok ts" "distinct (map res_name tags)" "list_all (\<lambda>t. res_name t \<noteq> [] \<and> res_name t \<noteq> ''timestamp'') tags"
  shows "mqtt_payload (from_results d tags ts mqtt) =
    (''timestamp'', VStr (telegraf_status_time ts)) # map (\<lambda>t. (res_name t, res_value t)) tags"
  using assms(2,3) flatten_fresh [of tags "[(''timestamp'', VStr (telegraf_status_time ts))]"] mqtt_timestamp_iso [OF assms(1)]
  by (simp add: mqtt_payload_def from_results_def)

lemma mqtt_payload_is_flat_witness:
  "mqtt_payload (from_results (sample_device []) [sample_reading ''flow'' Good, sample_reading ''level'' Good] noon default_mqtt_config) =
    (''timestamp'', VStr (telegraf_status_time noon)) # map (\<lambda>t. (res_name t, res_value t)) [sample_reading ''flow'' Good, sample_reading ''level'' Good]"
  by (rule mqtt_payload_is_flat) (simp_all add: noon_def datetime_ok_def date_valid_def month_days_def sample_reading_def)

text \<open>A message that no route gave a topic goes to the base topic, whatever its device.\<close>

lemma unrouted_topic: "effective_topic c (from_results d tags ts mqtt) = strip_slash (mq_base_topic c)"
  by (simp add: effective_topic_def from_results_def)

end
