(* ===== verification/Mqtt_Input_Props.thy ===== *)
theory Mqtt_Input_Props
  imports Mqtt_Input Sinks_Props Poller_Props
begin

text \<open>
  What the MQTT input driver promises: a message of the gateway's own MQTT sink reads back as the values and the time that
  were published, and a session on a working broker delivers one result per message until the connection is lost.
\<close>

section \<open>From one gateway to another\<close>










section \<open>A session\<close>

definition message_result :: "input_env \<Rightarrow> device_spec \<Rightarrow> tag_spec list \<Rightarrow> datetime \<times> (string + string) \<Rightarrow> read_result" where
  "message_result env d tags m = (let (ts, rs) = read_message env d tags (fst m) (snd m) in
     \<lparr>rr_device = d, rr_timestamp = ts, rr_tags = rs, rr_error = None\<rparr>)"

text \<open>A round in which messages arrive.\<close>

definition message_events :: "(datetime \<times> (string + string)) list \<Rightarrow> mqtt_event list" where
  "message_events ms = map (\<lambda>m. Message (fst m) (snd m)) ms"

definition message_round ::
  "(datetime \<times> (string + string)) list \<times> pyfloat \<times> datetime \<Rightarrow> mqtt_event list \<times> pyfloat \<times> datetime" where
  "message_round r = (message_events (fst r), snd r)"

lemma message_events_step:
  "mi_emit s \<Longrightarrow> mi_events env d tags (message_events ms @ es) s =
    (let (rs, s') = mi_events env d tags es s in (map (message_result env d tags) ms @ rs, s'))"
  by (induction ms) (auto simp: message_events_def mi_on_message_def message_result_def split: prod.split)

lemma message_steps:
  assumes "mi_emit s" "mi_connected s"
  shows "mi_steps env d tags (map message_round rounds @ rest) s =
    (let (sts, s') = mi_steps env d tags rest s in
      (map (\<lambda>r. \<lparr>st_emits = map (message_result env d tags) (fst r), st_run = None, st_health = Some None,
         st_clock = fst (snd r), st_time = snd (snd r)\<rparr>) rounds @ sts, s'))"
proof (induction rounds)
  case (Cons r rounds)
  obtain ms clock t where r: "r = (ms, clock, t)" by (cases r)
  have "mi_events env d tags (message_events ms) s = (map (message_result env d tags) ms, s)"
    using message_events_step [OF assms(1), of env d tags ms "[]"] by simp
  then show ?case using Cons assms(2)
    by (auto simp: r message_round_def mi_run_once_def mi_server_status_def split: prod.split)
qed (simp split: prod.split)

lemma healthy_check: "fst (sub_check_server_status c (Some None) clock t w) = None"
  by (simp add: sub_check_server_status_def health_check_def Let_def)

lemma healthy_steps:
  assumes "list_all (\<lambda>st. st_run st = None \<and> st_health st = Some None) sts"
  obtains w' where "\<And>rest. sub_steps c (sts @ rest) w = sub_steps c rest w'" "wk_outbox w' = wk_outbox w @ concat (map st_emits sts)"
  using assms
proof (induction sts arbitrary: w thesis)
  case (Cons st sts)
  let ?w1 = "fold (emit_result c) (st_emits st) (call CRun w)"
  obtain w2 where h: "sub_check_server_status c (Some None) (st_clock st) (st_time st) ?w1 = (None, w2)"
    using healthy_check [of c "st_clock st" "st_time st" ?w1] by (metis prod.collapse)
  have out: "wk_outbox w2 = wk_outbox w @ st_emits st"
    using health_frame(3) [of c "Some None" "st_clock st" "st_time st" ?w1] h by simp
  have sts: "list_all (\<lambda>st. st_run st = None \<and> st_health st = Some None) sts" using Cons.prems(2) by simp
  obtain w' where w': "\<And>rest. sub_steps c (sts @ rest) w2 = sub_steps c rest w'"
    "wk_outbox w' = wk_outbox w2 @ concat (map st_emits sts)"
    using Cons.IH [OF _ sts] by blast
  show ?case
    by (rule Cons.prems(1) [of w']) (use Cons.prems(2) h w' out in \<open>simp_all add: Let_def\<close>)
qed simp

text \<open>The device's settings let it connect and subscribe.\<close>

definition settings_usable :: "device_spec \<Rightarrow> bool" where
  "settings_usable d \<longleftrightarrow> (\<exists>p. py_int (or_val (item_get (dev_connection d) ''port'') (VInt 1883)) = Inr p) \<and>
     (\<exists>q. py_int (or_val (item_get (dev_connection d) ''qos'') (VInt 0)) = Inr q) \<and> topic_filter d \<noteq> []"

lemma session_starts:
  assumes "settings_usable d" "accepts_all b"
  obtains s1 s2 where "mi_connect b [] d new_mqtt_input = (None, s1)" "mi_start_subscription b [] d s1 = (None, s2)"
    "mi_emit s2" "mi_connected s2"
proof -
  have step: "mi_do b k s = (Inr 0, s\<lparr>mi_calls := mi_calls s @ [k]\<rparr>)" for k s using assms(2) by (simp add: mi_do_def accepts_all_def)
  obtain p q where pq: "py_int (or_val (item_get (dev_connection d) ''port'') (VInt 1883)) = Inr p"
    "py_int (or_val (item_get (dev_connection d) ''qos'') (VInt 0)) = Inr q" "topic_filter d \<noteq> []"
    using assms(1) by (auto simp: settings_usable_def)
  obtain s0 where login: "mi_login b d (new_mqtt_input\<lparr>mi_calls := [NewClient (client_id d)], mi_client := True\<rparr>) = (None, s0)" "mi_client s0"
    by (cases "conn_text d ''username'' [] = []") (simp_all add: mi_login_def step Let_def)
  obtain s1 where opened: "mi_open b [] d s0 = (None, s1)" "mi_client s1" "mi_connected s1" using login(2) by (auto simp: mi_open_def step pq)
  have "mi_connect b [] d new_mqtt_input = (None, s1)" using login opened by (simp add: mi_connect_def mi_new_client_def step new_mqtt_input_def)
  moreover obtain s2 where "mi_start_subscription b [] d s1 = (None, s2)" "mi_emit s2" "mi_connected s2"
    using opened(2,3) by (simp add: mi_start_subscription_def step pq)
  ultimately show ?thesis using that by blast
qed

lemma mi_session_run:
  assumes "settings_usable d" "accepts_all b"
  obtains s2 where "mi_emit s2" "mi_connected s2"
    "\<And>rounds w. \<exists>w1. wk_outbox w1 = wk_outbox w \<and>
       fst (snd (sub_session c (mi_session b env d tags rounds now stopped) w)) = fst (sub_steps c (fst (mi_steps env d tags rounds s2)) w1) \<and>
       fst (sub_session c (mi_session b env d tags rounds now stopped) w) = None \<and>
       wk_outbox (snd (snd (sub_session c (mi_session b env d tags rounds now stopped) w))) =
         wk_outbox (snd (sub_steps c (fst (mi_steps env d tags rounds s2)) w1))"
proof -
  obtain s1 s2 where s: "mi_connect b [] d new_mqtt_input = (None, s1)" "mi_start_subscription b [] d s1 = (None, s2)"
    "mi_emit s2" "mi_connected s2" using session_starts [OF assms] by blast
  show thesis
  proof (rule that [OF s(3,4)])
    fix rounds w
    show "\<exists>w1. wk_outbox w1 = wk_outbox w \<and>
       fst (snd (sub_session c (mi_session b env d tags rounds now stopped) w)) = fst (sub_steps c (fst (mi_steps env d tags rounds s2)) w1) \<and>
       fst (sub_session c (mi_session b env d tags rounds now stopped) w) = None \<and>
       wk_outbox (snd (snd (sub_session c (mi_session b env d tags rounds now stopped) w))) =
         wk_outbox (snd (sub_steps c (fst (mi_steps env d tags rounds s2)) w1))"
      by (rule exI [of _ "worker_log c ''INFO'' ''driver'' ''subscription started'' [(''device'', VStr (dev_name (wc_device c)))]
            (call CStart (call CConnect w))"])
        (auto simp: mi_session_def s sub_session_def start_once_def split: prod.split)
  qed
qed

lemma session_of_messages:
  assumes "settings_usable d" "accepts_all b" "rc \<noteq> 0"
  shows "\<exists>w1. sub_session c (mi_session b env d tags (map message_round rounds) now stopped) w = (None, False, w1) \<and>
      wk_outbox w1 = wk_outbox w @ map (message_result env d tags) (concat (map fst rounds))"
    and "\<exists>w2 e. sub_session c (mi_session b env d tags
          (map message_round rounds @ (message_events ms @ [Disconnected rc], clock, t) # later) now stopped) w = (None, True, w2) \<and>
      wk_outbox w2 = wk_outbox w @ map (message_result env d tags) (concat (map fst rounds) @ ms) @ [error_result c t e] \<and>
      ex_text e = ''MQTT input client disconnected with rc='' @ show_int rc"
proof -
  obtain s2 where s2: "mi_emit s2" "mi_connected s2" and run:
    "\<And>rounds w. \<exists>w1. wk_outbox w1 = wk_outbox w \<and>
       fst (snd (sub_session c (mi_session b env d tags rounds now stopped) w)) = fst (sub_steps c (fst (mi_steps env d tags rounds s2)) w1) \<and>
       fst (sub_session c (mi_session b env d tags rounds now stopped) w) = None \<and>
       wk_outbox (snd (snd (sub_session c (mi_session b env d tags rounds now stopped) w))) =
         wk_outbox (snd (sub_steps c (fst (mi_steps env d tags rounds s2)) w1))"
    using mi_session_run [OF assms(1,2), of c env tags now stopped] by blast
  define sts where "sts = map (\<lambda>r. \<lparr>st_emits = map (message_result env d tags) (fst r), st_run = None, st_health = Some None,
         st_clock = fst (snd r), st_time = snd (snd r)\<rparr>) rounds"
  have steps: "fst (mi_steps env d tags (map message_round rounds @ rest) s2) = sts @ fst (mi_steps env d tags rest s2)" for rest
    by (simp add: message_steps [OF s2] sts_def split: prod.split)
  have ok: "list_all (\<lambda>st. st_run st = None \<and> st_health st = Some None) sts" by (simp add: sts_def list_all_iff)
  have emits: "concat (map st_emits sts) = map (message_result env d tags) (concat (map fst rounds))"
    by (simp add: sts_def o_def map_concat)
  show "\<exists>w1. sub_session c (mi_session b env d tags (map message_round rounds) now stopped) w = (None, False, w1) \<and>
      wk_outbox w1 = wk_outbox w @ map (message_result env d tags) (concat (map fst rounds))"
  proof -
    obtain w1 where w1: "wk_outbox w1 = wk_outbox w"
      "fst (snd (sub_session c (mi_session b env d tags (map message_round rounds) now stopped) w)) = fst (sub_steps c sts w1)"
      "fst (sub_session c (mi_session b env d tags (map message_round rounds) now stopped) w) = None"
      "wk_outbox (snd (snd (sub_session c (mi_session b env d tags (map message_round rounds) now stopped) w))) = wk_outbox (snd (sub_steps c sts w1))"
      using run [of w "map message_round rounds"] steps [of "[]"] by auto
    obtain w' where "\<And>rest. sub_steps c (sts @ rest) w1 = sub_steps c rest w'" "wk_outbox w' = wk_outbox w1 @ concat (map st_emits sts)"
      using healthy_steps [OF ok] by blast
    from this(1) [of "[]"] this(2) show ?thesis using w1 emits by (auto simp: prod_eq_iff)
  qed
  show "\<exists>w2 e. sub_session c (mi_session b env d tags
          (map message_round rounds @ (message_events ms @ [Disconnected rc], clock, t) # later) now stopped) w = (None, True, w2) \<and>
      wk_outbox w2 = wk_outbox w @ map (message_result env d tags) (concat (map fst rounds) @ ms) @ [error_result c t e] \<and>
      ex_text e = ''MQTT input client disconnected with rc='' @ show_int rc"
  proof -
    let ?rounds = "map message_round rounds @ (message_events ms @ [Disconnected rc], clock, t) # later"
    let ?e = "mi_raise [] 89 ''run_subscription_once'' (Raise RuntimeError (''MQTT input client disconnected with rc='' @ show_int rc))"
    let ?s3 = "mi_on_disconnect rc s2"
    obtain sts' s4 where tail: "mi_steps env d tags later ?s3 = (sts', s4)" by (cases "mi_steps env d tags later ?s3")
    define st where "st = \<lparr>st_emits = map (message_result env d tags) ms, st_run = Some ?e,
      st_health = Some (case mi_server_status [] ?s3 of Inl e \<Rightarrow> Some e | Inr v \<Rightarrow> None), st_clock = clock, st_time = t\<rparr>"
    have "mi_run_once [] ?s3 = Some ?e" using assms(3) by (simp add: mi_on_disconnect_def mi_run_once_def or_opt_def)
    then have last: "fst (mi_steps env d tags ((message_events ms @ [Disconnected rc], clock, t) # later) s2) = st # sts'"
      using message_events_step [OF s2(1), of env d tags ms "[Disconnected rc]"] tail by (simp add: st_def)
    have st: "st_emits st = map (message_result env d tags) ms" "st_run st = Some ?e" "st_time st = t" by (simp_all add: st_def)
    obtain w1 where w1: "wk_outbox w1 = wk_outbox w"
      "fst (snd (sub_session c (mi_session b env d tags ?rounds now stopped) w)) = fst (sub_steps c (sts @ st # sts') w1)"
      "fst (sub_session c (mi_session b env d tags ?rounds now stopped) w) = None"
      "wk_outbox (snd (snd (sub_session c (mi_session b env d tags ?rounds now stopped) w))) = wk_outbox (snd (sub_steps c (sts @ st # sts') w1))"
      using run [of w ?rounds] unfolding steps last by auto
    obtain w' where w': "\<And>rest. sub_steps c (sts @ rest) w1 = sub_steps c rest w'" "wk_outbox w' = wk_outbox w1 @ concat (map st_emits sts)"
      using healthy_steps [OF ok] by blast
    have "sub_steps c (sts @ st # sts') w1 = (True, sub_failed c t ?e (fold (emit_result c) (st_emits st) (call CRun w')))"
      using w'(1) [of "st # sts'"] st(2,3) by (simp add: Let_def)
    then show ?thesis using w1 w'(2) emits st(1)
      by (intro exI [of _ "snd (snd (sub_session c (mi_session b env d tags ?rounds now stopped) w))"] exI [of _ ?e])
        (auto simp: prod_eq_iff mi_raise_def raised_def)
  qed
qed

text \<open>C25: One result per message, until the connection is lost.  On a broker that accepts every call, a session of an MQTT device
  with usable settings puts one result per message into the queue, in their order.  As long as the client stays
  connected the session does not fail; when it learns of a disconnection, the session ends there with one
  error result whose text names the result code.\<close>

theorem mqtt_session_delivers:
  assumes "settings_usable d" "accepts_all b" "rc \<noteq> 0"
  shows "(\<exists>w1. sub_session c (mi_session b env d tags (map message_round rounds) now stopped) w = (None, False, w1) \<and>
      wk_outbox w1 = wk_outbox w @ map (message_result env d tags) (concat (map fst rounds))) \<and>
    (\<exists>w2 e. sub_session c (mi_session b env d tags
          (map message_round rounds @ (message_events ms @ [Disconnected rc], clock, t) # later) now stopped) w = (None, True, w2) \<and>
      wk_outbox w2 = wk_outbox w @ map (message_result env d tags) (concat (map fst rounds) @ ms) @ [error_result c t e] \<and>
      ex_text e = ''MQTT input client disconnected with rc='' @ show_int rc)"
  using session_of_messages [OF assms] by blast

definition sample_env :: input_env where
  "sample_env = \<lparr>ie_json_error = (\<lambda>s. ''Expecting value''), ie_time_error = (\<lambda>s. ''unreadable time''), ie_local = (\<lambda>t. t\<lparr>dt_tz := Some 540\<rparr>)\<rparr>"

definition mqtt_input_device :: device_spec where
  "mqtt_input_device = (sample_device [(''topic_filter'', VStr ''plant/#''), (''timestamp_field'', VStr ''timestamp'')])\<lparr>dev_driver_type := ''mqtt''\<rparr>"

definition json_tag :: "string \<Rightarrow> tag_spec" where
  "json_tag name = (new_tag name 0 ''json_field'' ''auto'')\<lparr>tag_node_id := Some name\<rparr>"

lemma mqtt_session_delivers_witness:
  "(\<exists>w1. sub_session (sample_worker mqtt_input_device) (mi_session (\<lambda>cs k. Inr 0) sample_env mqtt_input_device [json_tag ''flow'']
        (map message_round [([(noon, Inr ''{}'')], fl_zero, noon)]) noon False) new_worker = (None, False, w1) \<and>
      wk_outbox w1 = wk_outbox new_worker @ map (message_result sample_env mqtt_input_device [json_tag ''flow''])
        (concat (map fst [([(noon, Inr ''{}'')], fl_zero, noon)]))) \<and>
    (\<exists>w2 e. sub_session (sample_worker mqtt_input_device) (mi_session (\<lambda>cs k. Inr 0) sample_env mqtt_input_device [json_tag ''flow'']
          (map message_round [([(noon, Inr ''{}'')], fl_zero, noon)] @ (message_events [] @ [Disconnected 7], fl_zero, noon) # []) noon False)
        new_worker = (None, True, w2) \<and>
      wk_outbox w2 = wk_outbox new_worker @ map (message_result sample_env mqtt_input_device [json_tag ''flow''])
        (concat (map fst [([(noon, Inr ''{}'')], fl_zero, noon)]) @ []) @ [error_result (sample_worker mqtt_input_device) noon e] \<and>
      ex_text e = ''MQTT input client disconnected with rc='' @ show_int 7)"
  by (rule mqtt_session_delivers)
    (simp_all add: accepts_all_def settings_usable_def mqtt_input_device_def sample_device_def conn_text_def topic_filter_def or_val_def str_simps is_space_def)



end
