(* ===== verification/Logging.thy ===== *)
theory Logging
  imports Json_Text
begin

text \<open>
  \<open>AsyncLogWorker\<close> of \<^verbatim>\<open>src/industrial_gateway/logging_worker.py\<close>: the queue of log records, what is shown of them and
  what goes to the daily files. A record is a dictionary; \<open>now\<close> is the local time in ISO format. \<open>disk\<close> tells whether a
  file can be written; the lines written to each file are kept by its path.
\<close>

section \<open>State\<close>

record log_dirs =
  ld_runtime :: "string option"
  ld_error :: "string option"
  ld_audit :: "string option"

record log_worker =
  lw_input :: "settings list"
  lw_display :: "string list"
  lw_debug :: bool
  lw_runtime :: bool
  lw_files :: "(string, string list) pydict"
  lw_stopped :: bool

definition new_log_worker :: log_worker where
  "new_log_worker = \<lparr>lw_input = [], lw_display = [], lw_debug = False, lw_runtime = True, lw_files = [],
     lw_stopped = False\<rparr>"

definition set_debug_enabled :: "bool \<Rightarrow> log_worker \<Rightarrow> log_worker" where
  "set_debug_enabled b s = s\<lparr>lw_debug := b\<rparr>"

definition set_runtime_log_enabled :: "bool \<Rightarrow> log_worker \<Rightarrow> log_worker" where
  "set_runtime_log_enabled b s = s\<lparr>lw_runtime := b\<rparr>"

definition log_put :: "settings \<Rightarrow> log_worker \<Rightarrow> log_worker" where
  "log_put r s = s\<lparr>lw_input := lw_input s @ [r]\<rparr>"

definition log_stop :: "log_worker \<Rightarrow> log_worker" where
  "log_stop s = s\<lparr>lw_stopped := True\<rparr>"

definition log_message :: "string \<Rightarrow> string \<Rightarrow> string \<Rightarrow> string \<Rightarrow> settings \<Rightarrow> log_worker \<Rightarrow> log_worker" where
  "log_message now level source message data s = log_put
     [(''timestamp'', VStr now), (''level'', VStr (py_upper level)), (''source'', VStr source), (''message'', VStr message),
      (''data'', VDict data)] s"

section \<open>Records\<close>

definition normalize_record :: "string \<Rightarrow> settings \<Rightarrow> settings" where
  "normalize_record now r =
     [(''timestamp'', or_val (item_get r ''timestamp'') (VStr now)),
      (''level'', VStr (py_upper (py_str (get_or r ''level'' (VStr ''INFO''))))),
      (''source'', get_or r ''source'' (VStr ''app'')),
      (''message'', get_or r ''message'' (VStr [])),
      (''data'', or_val (item_get r ''data'') (VDict []))]"

definition is_error_record :: "settings \<Rightarrow> bool" where
  "is_error_record r \<longleftrightarrow> py_upper (py_str (item_get r ''level'')) \<in> {''ERROR'', ''CRITICAL'', ''EXCEPTION''}"

definition is_audit_record :: "settings \<Rightarrow> bool" where
  "is_audit_record r \<longleftrightarrow> py_lower (py_str (item_get r ''source'')) \<in> {''button'', ''ui'', ''config'', ''settings''}"

definition log_date :: "settings \<Rightarrow> string" where
  "log_date r = take 10 (py_str (item_get r ''timestamp''))"

text \<open>The data as a dictionary; the methods of other types do not have \<open>get\<close>.\<close>

fun data_dict :: "pyval \<Rightarrow> settings res" where
  "data_dict (VDict d) = Inr d"
| "data_dict v = Inl (Raise AttributeError (quoted (type_name v) @ '' object has no attribute '' @ quoted ''get''))"

definition format_source :: "settings \<Rightarrow> string res" where
  "format_source r =
     (let source = py_str (item_get r ''source'') in
      if source = ''driver'' then rbind (data_dict (item_get r ''data'')) (\<lambda>d.
           Inr (let v = or_val (item_get d ''driver'') (item_get d ''driver_type'') in
             if truthy v then ''[driver]['' @ py_str v @ '']'' else ''[driver]''))
         else if source \<in> {''sink'', ''plugin''} then rbind (data_dict (item_get r ''data'')) (\<lambda>d.
           Inr (let v = or_val (or_val (item_get d ''plugin'') (item_get d ''plugin_type'')) (item_get d ''sink_type'') in
             if truthy v then ''[plugin]['' @ py_str v @ '']'' else ''[plugin]''))
         else Inr (''['' @ source @ '']''))"

definition format_record :: "settings \<Rightarrow> string res" where
  "format_record r =
     (let data = json_dumps '', '' '': '' (json_sorted (item_get r ''data'')) in
      rbind (format_source r) (\<lambda>source.
        Inr (py_str (item_get r ''timestamp'') @ '' ['' @ py_str (item_get r ''level'') @ ''] '' @ source @ '' '' @
          py_str (item_get r ''message'') @ '' '' @ data)))"

section \<open>Files\<close>

definition append_line :: "string \<Rightarrow> string \<Rightarrow> (string, string list) pydict \<Rightarrow> (string, string list) pydict" where
  "append_line path line files = dset path ((case dget files path of None \<Rightarrow> [] | Some ls \<Rightarrow> ls) @ [line]) files"

definition write_daily_log ::
  "(string \<Rightarrow> bool) \<Rightarrow> string option \<Rightarrow> string \<Rightarrow> settings \<Rightarrow> string \<Rightarrow> log_worker \<Rightarrow> log_worker" where
  "write_daily_log disk dir prefix r line s = (case dir of
     None \<Rightarrow> s
   | Some d \<Rightarrow> (let path = d @ ''/'' @ prefix @ ''_'' @ log_date r @ ''.log'' in
       if disk path then s\<lparr>lw_files := append_line path line (lw_files s)\<rparr> else s))"

definition write_file_log :: "(string \<Rightarrow> bool) \<Rightarrow> log_dirs \<Rightarrow> settings \<Rightarrow> string \<Rightarrow> log_worker \<Rightarrow> log_worker" where
  "write_file_log disk dirs r line s =
     (let s1 = write_daily_log disk (ld_runtime dirs) ''industrial_gateway'' r line s;
          s2 = (if is_error_record r then write_daily_log disk (ld_error dirs) ''industrial_gateway_error'' r line s1 else s1)
      in if is_audit_record r then write_daily_log disk (ld_audit dirs) ''industrial_gateway_audit'' r line s2 else s2)"

section \<open>Draining\<close>

text \<open>Whether a normalised record is shown.\<close>

definition log_shown :: "log_worker \<Rightarrow> settings \<Rightarrow> bool" where
  "log_shown s r \<longleftrightarrow> \<not> (item_get r ''level'' = VStr ''DEBUG'' \<and> \<not> lw_debug s) \<and> (lw_runtime s \<or> is_error_record r)"

text \<open>\<open>drain_once\<close>: whether there was a record, or the exception of formatting it.\<close>

definition log_drain_once :: "(string \<Rightarrow> bool) \<Rightarrow> log_dirs \<Rightarrow> string \<Rightarrow> log_worker \<Rightarrow> bool res \<times> log_worker" where
  "log_drain_once disk dirs now s = (case lw_input s of
     [] \<Rightarrow> (Inr False, s)
   | raw # rest \<Rightarrow>
       (let r = normalize_record now raw; s1 = s\<lparr>lw_input := rest\<rparr> in
        if \<not> log_shown s1 r then (Inr True, s1)
        else (case format_record r of
            Inl e \<Rightarrow> (Inl e, s1)
          | Inr line \<Rightarrow> (Inr True, write_file_log disk dirs r line (s1\<lparr>lw_display := lw_display s1 @ [line]\<rparr>)))))"

text \<open>The thread: one round per moment at which it takes a record or finds none, until it is stopped or a record cannot be
  formatted.\<close>

fun log_run :: "(string \<Rightarrow> bool) \<Rightarrow> log_dirs \<Rightarrow> string list \<Rightarrow> log_worker \<Rightarrow> pyerr option \<times> log_worker" where
  "log_run disk dirs [] s = (None, s)"
| "log_run disk dirs (now # later) s = (if lw_stopped s then (None, s)
     else (case log_drain_once disk dirs now s of
         (Inl e, s') \<Rightarrow> (Some e, s')
       | (Inr _, s') \<Rightarrow> log_run disk dirs later s'))"

lemma write_daily_log_simps [simp]:
  "lw_input (write_daily_log disk dir p r line s) = lw_input s" "lw_display (write_daily_log disk dir p r line s) = lw_display s"
  "lw_debug (write_daily_log disk dir p r line s) = lw_debug s" "lw_runtime (write_daily_log disk dir p r line s) = lw_runtime s"
  by (simp_all add: write_daily_log_def Let_def split: option.split)

lemma write_file_log_simps [simp]:
  "lw_input (write_file_log disk dirs r line s) = lw_input s" "lw_display (write_file_log disk dirs r line s) = lw_display s"
  "lw_debug (write_file_log disk dirs r line s) = lw_debug s" "lw_runtime (write_file_log disk dirs r line s) = lw_runtime s"
  by (simp_all add: write_file_log_def Let_def)

lemma log_drain_once_input:
  "log_drain_once disk dirs now s = (x, s') \<Longrightarrow> lw_input s' = tl (lw_input s)"
  by (auto simp: log_drain_once_def Let_def split: list.splits if_splits sum.splits)

text \<open>\<open>while logger.drain_once(): pass\<close>.\<close>

function log_drain :: "(string \<Rightarrow> bool) \<Rightarrow> log_dirs \<Rightarrow> string \<Rightarrow> log_worker \<Rightarrow> unit res \<times> log_worker" where
  "log_drain disk dirs now s = (if lw_input s = [] then (Inr (), s) else
     (case log_drain_once disk dirs now s of
        (Inl e, s') \<Rightarrow> (Inl e, s')
      | (Inr _, s') \<Rightarrow> log_drain disk dirs now s'))"
  by pat_completeness auto
termination
  by (relation "measure (\<lambda>(disk, dirs, now, s). length (lw_input s))") (auto dest!: log_drain_once_input [OF sym])

declare log_drain.simps [simp del]

section \<open>What draining shows\<close>

definition record_line :: "settings \<Rightarrow> string" where
  "record_line r = (case format_record r of Inr line \<Rightarrow> line | Inl e \<Rightarrow> [])"

definition shown_records :: "string \<Rightarrow> log_worker \<Rightarrow> settings list" where
  "shown_records now s = filter (log_shown s) (map (normalize_record now) (lw_input s))"

definition formattable :: "settings \<Rightarrow> bool" where
  "formattable r \<longleftrightarrow> (\<exists>line. format_record r = Inr line)"

lemma formattable_dict: "item_get r ''data'' = VDict d \<Longrightarrow> formattable r"
  by (auto simp: formattable_def format_record_def format_source_def Let_def)

lemma log_drain_result:
  "list_all formattable (shown_records now s) \<Longrightarrow>
    \<exists>s'. log_drain disk dirs now s = (Inr (), s') \<and> lw_input s' = [] \<and>
      lw_display s' = lw_display s @ map record_line (shown_records now s)"
proof (induction disk dirs now s rule: log_drain.induct)
  case (1 disk dirs now s)
  show ?case
  proof (cases "lw_input s")
    case Nil
    then show ?thesis by (simp add: log_drain.simps [of _ _ _ s] shown_records_def)
  next
    case (Cons raw rest)
    let ?r = "normalize_record now raw"
    have shown: "shown_records now s = (if log_shown s ?r then [?r] else []) @ filter (log_shown s) (map (normalize_record now) rest)"
      by (simp add: shown_records_def Cons)
    obtain s1 where step: "log_drain_once disk dirs now s = (Inr True, s1)" and s1: "lw_input s1 = rest"
        "lw_display s1 = lw_display s @ (if log_shown s ?r then [record_line ?r] else [])"
        "lw_debug s1 = lw_debug s" "lw_runtime s1 = lw_runtime s"
    proof (cases "log_shown s ?r")
      case True
      then obtain line where "format_record ?r = Inr line" using 1(2) by (auto simp: shown formattable_def)
      then show ?thesis using that True by (auto simp: log_drain_once_def Cons log_shown_def record_line_def Let_def)
    next
      case False
      then show ?thesis using that by (auto simp: log_drain_once_def Cons log_shown_def Let_def)
    qed
    have eq: "log_shown s1 = log_shown s" by (rule ext) (simp add: log_shown_def s1)
    have rest: "shown_records now s1 = filter (log_shown s) (map (normalize_record now) rest)"
      by (simp add: shown_records_def s1 eq)
    have "list_all formattable (shown_records now s1)" using 1(2) shown rest by simp
    from 1(1) [OF _ step [symmetric] refl this] show ?thesis
      using step s1(2) Cons rest shown by (auto simp: log_drain.simps [of _ _ _ s])
  qed
qed

text \<open>The log loses nothing it should show.  When every record carries its data as a dictionary, draining the queue empties
  it and shows, in order, the line of each record that is not silenced: debug records unless debugging is on,
  and with runtime logging off everything but errors.\<close>

theorem log_drained:
  assumes "list_all (\<lambda>r. case item_get r ''data'' of VDict d \<Rightarrow> True | VNone \<Rightarrow> True | _ \<Rightarrow> False) (lw_input s)"
  shows "\<exists>s'. log_drain disk dirs now s = (Inr (), s') \<and> lw_input s' = [] \<and>
    lw_display s' = lw_display s @ map record_line (shown_records now s)"
proof (rule log_drain_result)
  have "formattable (normalize_record now r)" if "r \<in> set (lw_input s)" for r
  proof -
    have "\<exists>d. or_val (item_get r ''data'') (VDict []) = VDict d"
      using assms that by (cases "item_get r ''data''") (auto simp: list_all_iff or_val_def)
    then obtain d where "item_get (normalize_record now r) ''data'' = VDict d"
      by (auto simp: normalize_record_def item_get_def)
    then show ?thesis by (rule formattable_dict)
  qed
  then show "list_all formattable (shown_records now s)" by (auto simp: shown_records_def list_all_iff)
qed

definition sample_log :: log_worker where
  "sample_log = log_put [(''level'', VStr ''error''), (''source'', VStr ''driver''), (''message'', VStr ''read failed''),
       (''data'', VDict [(''driver'', VStr ''opcua'')])]
     (log_put [(''level'', VStr ''DEBUG''), (''message'', VStr ''poll'')] new_log_worker)"

lemma log_drained_witness:
  "\<exists>s'. log_drain (\<lambda>path. False) \<lparr>ld_runtime = None, ld_error = None, ld_audit = None\<rparr> ''2026-01-01T00:00:00'' sample_log = (Inr (), s') \<and>
    lw_input s' = [] \<and> lw_display s' = lw_display sample_log @ map record_line (shown_records ''2026-01-01T00:00:00'' sample_log)"
  by (rule log_drained) (simp add: sample_log_def log_put_def new_log_worker_def item_get_def)

end
