(* ===== verification/Runtime_Manager.thy ===== *)
theory Runtime_Manager
  imports Sinks Poller Logging Registry Output_Routes
begin

text \<open>
  \<open>RuntimeManager\<close> of \<^verbatim>\<open>src/industrial_gateway/services/runtime_manager.py\<close>: it builds the sink, the publisher and one
  worker per enabled device from the stored configuration, starts and stops their threads, and turns status items and log
  lines into events. Its attributes are the record \<open>runtime\<close>; the store is passed beside it. The threads it starts, stops
  and joins are kept as a trace. \<open>runtime_env\<close> holds the constructor's registries, the topic resolver, the clock and the
  environment variables. A method that raises leaves what it had done before.

  The health interval is an integer; workers hold it as a float, as they compare it with float differences only.
\<close>

section \<open>State\<close>

datatype thread = PublisherThread | ResponderThread | RefreshThread | DeviceThread device_spec

text \<open>\<open>Stopped t\<close>: the thread was told to stop. \<open>Joined t\<close>: \<open>join\<close> was called on it and has returned, within its two seconds,
  whether the thread had ended by then or not; the code does not ask.\<close>

datatype thread_call = Started thread | Stopped thread | Joined thread

datatype sink_object = MqttObject mqtt_sink | PostgresObject postgres_sink

record runtime =
  rm_results :: read_queue
  rm_status :: status_queue
  rm_logger :: log_worker
  rm_pollers :: "worker_config list"
  rm_subs :: "worker_config list"
  rm_sink :: "sink_object option"
  rm_publisher :: "pub_config option"
  rm_responder :: bool
  rm_refresher :: bool
  rm_refresh_stop :: bool
  rm_running :: bool
  rm_health :: int
  rm_log_enabled :: bool
  rm_tags :: "(string \<times> string, settings) pydict"
  rm_servers :: "(string, settings) pydict"
  rm_lines :: "string list"
  rm_trace :: "thread_call list"

definition new_runtime :: runtime where
  "new_runtime = \<lparr>rm_results = [], rm_status = empty_status_queue, rm_logger = new_log_worker, rm_pollers = [], rm_subs = [],
     rm_sink = None, rm_publisher = None, rm_responder = False, rm_refresher = False, rm_refresh_stop = False,
     rm_running = False, rm_health = 10, rm_log_enabled = False, rm_tags = [], rm_servers = [], rm_lines = [], rm_trace = []\<rparr>"

record runtime_env =
  re_drivers :: "driver_class registry"
  re_sinks :: "sink_class registry"
  re_resolver :: topic_resolver
  re_now :: datetime
  re_plugins :: "string option"
  re_responder :: string
  re_log_dirs :: log_dirs
  re_disk :: "string \<Rightarrow> bool"
  re_local_time :: string

definition trace :: "thread_call list \<Rightarrow> runtime \<Rightarrow> runtime" where
  "trace ts s = s\<lparr>rm_trace := rm_trace s @ ts\<rparr>"

section \<open>Helper functions\<close>

definition uses_subscription_worker :: "device_spec \<Rightarrow> bool" where
  "uses_subscription_worker d \<longleftrightarrow> dev_driver_type d = ''mqtt'' \<or>
     (dev_driver_type d = ''opcua'' \<and> item_get (dev_connection d) ''mode'' = VStr ''subscription'')"

definition device_mode :: "device_spec \<Rightarrow> string" where
  "device_mode d =
     (if dev_driver_type d = ''modbus_rtu_monitor'' then ''Monitoring''
      else if uses_subscription_worker d then ''Subscription'' else ''Polling'')"

definition route_topic :: "string \<Rightarrow> pyval \<Rightarrow> string" where
  "route_topic base_topic v =
     (let raw = py_strip (py_str (or_val v (VStr []))); topic = strip_slash raw; base = strip_slash base_topic in
      if starts_with ''C-S/'' raw then raw
      else if topic = [] then []
      else if base = [] \<or> topic = base \<or> starts_with (base @ ''/'') topic then topic
      else base @ ''/'' @ topic)"

definition route_publish_topic :: "settings \<Rightarrow> pyval" where
  "route_publish_topic c =
     (if truthy (item_get c ''dynamic_topic_enabled'') \<and> truthy (item_get c ''resolved_topic'')
      then item_get c ''resolved_topic'' else item_get c ''topic'')"

text \<open>Only \<open>TypeError\<close> and \<open>ValueError\<close> give the default.\<close>

definition float_config :: "settings \<Rightarrow> string \<Rightarrow> pyfloat \<Rightarrow> pyfloat res" where
  "float_config c key dflt = (case py_float (get_or c key (VFloat dflt)) of
     Inr x \<Rightarrow> Inr x
   | Inl e \<Rightarrow> if err_kind e \<in> {TypeError, ValueError} then Inr dflt else Inl e)"

definition bool_config :: "settings \<Rightarrow> string \<Rightarrow> bool \<Rightarrow> bool" where
  "bool_config c key dflt = (case get_or c key (VBool dflt) of
     VBool b \<Rightarrow> b
   | v \<Rightarrow> py_lower (py_strip (py_str v)) \<in> {''1'', ''true'', ''yes'', ''y'', ''on''})"

definition topic_responder_enabled :: "runtime_env \<Rightarrow> bool" where
  "topic_responder_enabled env \<longleftrightarrow> py_lower (py_strip (re_responder env)) \<in> {''1'', ''true'', ''yes'', ''on''} \<and>
     ''postgresql'' \<in> set (enabled_plugin_types (re_plugins env))"

definition interval_float :: "int \<Rightarrow> pyfloat" where
  "interval_float i = (case fl_of_int i of Some x \<Rightarrow> x | None \<Rightarrow> FInf (i < 0))"

section \<open>What is shown\<close>

definition rm_snapshot :: "runtime \<Rightarrow> settings" where
  "rm_snapshot s =
     [(''running'', VBool (rm_running s)), (''device_count'', VInt (int (length (rm_pollers s) + length (rm_subs s)))),
      (''health_interval_s'', VInt (rm_health s)), (''runtime_log_enabled'', VBool (rm_log_enabled s)),
      (''runtime_tags'', VList (map VDict (dvalues (rm_tags s)))), (''server_statuses'', VList (map VDict (dvalues (rm_servers s)))),
      (''logs'', VList (map VStr (rm_lines s)))]"

definition initial_row :: "device_spec \<Rightarrow> tag_spec \<Rightarrow> settings" where
  "initial_row d t =
     [(''type'', VStr ''tag_update''), (''device'', VStr (dev_name d)), (''tag_group'', VStr (tag_group t)),
      (''tag'', VStr (tag_name t)), (''node_id'', VStr (or_opt (tag_node_id t) [])), (''mode'', VStr (device_mode d)),
      (''timestamp'', VStr []), (''quality'', VStr ''unknown''), (''error'', VNone)]"

definition row_key :: "device_spec \<Rightarrow> tag_spec \<Rightarrow> string \<times> string" where
  "row_key d t = (dev_name d, or_opt (tag_node_id t) (tag_name t))"

definition initial_runtime_tags :: "db \<Rightarrow> (string \<times> string, settings) pydict" where
  "initial_runtime_tags db =
     fold (\<lambda>(d, t). dset (row_key d t) (initial_row d t))
       (concat (map (\<lambda>d. map (Pair d) (filter tag_enabled (list_tags (id_or_zero d) db))) (filter dev_enabled (list_devices db)))) []"

definition update_key :: "settings \<Rightarrow> string \<times> string" where
  "update_key i = (py_str (get_or i ''device'' (VStr [])), py_str (or_val (item_get i ''node_id'') (get_or i ''tag'' (VStr []))))"

definition record_status :: "status_item \<Rightarrow> runtime \<Rightarrow> settings \<times> runtime" where
  "record_status item s = (case item of
     StText m \<Rightarrow> ([(''type'', VStr ''status''), (''message'', VStr m)], s)
   | StDict i \<Rightarrow>
       (if item_get i ''type'' = VStr ''tag_update'' then
          (let k = update_key i; merged = dupdate (case dget (rm_tags s) k of None \<Rightarrow> [] | Some d \<Rightarrow> d) i in
           (merged, s\<lparr>rm_tags := dset k merged (rm_tags s)\<rparr>))
        else if item_get i ''type'' = VStr ''server_status'' then
          (i, s\<lparr>rm_servers := dset (py_str (get_or i ''device'' (VStr []))) i (rm_servers s)\<rparr>)
        else ([(''type'', VStr ''status''), (''message'', VStr (py_str (VDict i)))], s)))"

text \<open>At most \<open>n\<close> status items.\<close>

fun drain_status :: "nat \<Rightarrow> runtime \<Rightarrow> settings list \<times> runtime" where
  "drain_status 0 s = ([], s)"
| "drain_status (Suc n) s = (case sq_get (rm_status s) of
     None \<Rightarrow> ([], s)
   | Some (item, q) \<Rightarrow> (let (e, s1) = record_status item (s\<lparr>rm_status := q\<rparr>); (es, s2) = drain_status n s1 in (e # es, s2)))"

text \<open>The deque of the last 500 lines.\<close>

definition add_line :: "string \<Rightarrow> string list \<Rightarrow> string list" where
  "add_line l ls = drop (Suc (length ls) - 500) (ls @ [l])"

definition show_lines :: "runtime \<Rightarrow> settings list \<times> runtime" where
  "show_lines s = (map (\<lambda>l. [(''type'', VStr ''log''), (''message'', VStr l)]) (lw_display (rm_logger s)),
     s\<lparr>rm_lines := fold add_line (lw_display (rm_logger s)) (rm_lines s), rm_logger := (rm_logger s)\<lparr>lw_display := []\<rparr>\<rparr>)"

definition drain_events :: "runtime_env \<Rightarrow> nat \<Rightarrow> runtime \<Rightarrow> settings list res \<times> runtime" where
  "drain_events env limit s =
     (let (events, s1) = drain_status limit s;
          (r, lg) = log_drain (re_disk env) (re_log_dirs env) (re_local_time env) (rm_logger s1);
          s2 = s1\<lparr>rm_logger := lg\<rparr>
      in (case r of
            Inl e \<Rightarrow> (Inl e, s2)
          | Inr _ \<Rightarrow> (let (lines, s3) = show_lines s2 in (Inr (events @ lines), s3))))"

section \<open>The publisher's configuration\<close>

definition output_route_of :: "settings \<Rightarrow> output_route_config \<Rightarrow> output_route res" where
  "output_route_of c r =
     (let base = strip_slash (py_str (or_val (item_get c ''base_topic'') (VStr ''industrial''))) in
      rbind (py_int (get_or c ''qos'' (VInt 0))) (\<lambda>qos.
      rbind (float_config (rt_config r) ''heartbeat_interval_s'' fl_one) (\<lambda>interval.
        Inr \<lparr>or_device_id = rt_device_id r, or_tag_group = rt_tag_group r, or_sink_type = rt_sink_type r,
          or_mqtt = default_mqtt_config\<lparr>mq_base_topic := base, mq_qos := qos\<rparr>,
          or_topic = route_topic base (route_publish_topic (rt_config r)),
          or_kind = py_str (or_val (item_get (rt_config r) ''route_kind'') (VStr ''data'')),
          or_interval = interval,
          or_sensor = py_str (or_val (item_get (rt_config r) ''sensor_code'') (VStr ''SYSTEM''))\<rparr>)))"

definition output_routes :: "db \<Rightarrow> output_route list res" where
  "output_routes db =
     (let k = get_sink_config None db in
      if sk_sink_type k \<noteq> ''mqtt'' then Inr []
      else rmap (output_route_of (sk_config k)) (filter (\<lambda>r. rt_enabled r \<and> rt_sink_type r = ''mqtt'') (list_output_routes db)))"

definition make_sink :: "runtime_env \<Rightarrow> sink_config \<Rightarrow> sink_object res" where
  "make_sink env k =
     rbind (registry_get (sk_sink_type k) (re_sinks env)) (\<lambda>c.
       let config = dset ''enabled'' (VBool (sk_enabled k)) (sk_config k) in
       case c of
         MqttSink \<Rightarrow> rbind (mqtt_sink_config config) (\<lambda>m. Inr (MqttObject (new_mqtt_sink m)))
       | PostgresSink \<Rightarrow> Inr (PostgresObject (new_postgres_sink config)))"

definition make_publisher :: "runtime_env \<Rightarrow> sink_config \<Rightarrow> db \<Rightarrow> (sink_object \<times> pub_config) res" where
  "make_publisher env k db =
     rbind (make_sink env k) (\<lambda>sink.
     rbind (text_item (get_or (sk_config k) ''base_topic'' (VStr ''industrial''))) (\<lambda>base.
     rbind (py_int (get_or (sk_config k) ''qos'' (VInt 0))) (\<lambda>qos.
     rbind (output_routes db) (\<lambda>routes.
     rbind (float_config (sk_config k) ''message_stale_timeout_s'' (whole_float 15)) (\<lambda>stale.
     rbind (float_config (sk_config k) ''status_publish_interval_s'' (whole_float 60)) (\<lambda>status.
       Inr (sink, \<lparr>pc_mqtt = default_mqtt_config\<lparr>mq_base_topic := base, mq_qos := qos\<rparr>, pc_plugin_type = sk_sink_type k,
         pc_routes = routes, pc_stale_timeout = stale, pc_status_interval = status, pc_has_status = True, pc_has_log = True\<rparr>)))))))"

section \<open>Topic refresh\<close>

definition refresh_record :: "settings \<Rightarrow> settings" where
  "refresh_record r =
     (let e = item_get r ''error'';
          mac = get_or (dict_of (get_or r ''route'' (VDict []))) ''mac_address'' (VStr [])
      in if truthy e
         then [(''level'', VStr ''ERROR''), (''source'', VStr ''topic_request''), (''message'', VStr (py_str e)), (''mac_address'', mac)]
         else [(''level'', VStr ''INFO''), (''source'', VStr ''topic_request''), (''message'', VStr ''route topic resolved''),
               (''mac_address'', mac), (''topic'', get_or r ''resolved_topic'' (VStr []))])"

definition refresh_dynamic_route_topics :: "runtime_env \<Rightarrow> db \<times> runtime \<Rightarrow> unit res \<times> db \<times> runtime" where
  "refresh_dynamic_route_topics env st =
     (case refresh_dynamic_output_route_topics (re_resolver env) (re_now env) (fst st) of
        (Inl e, db1) \<Rightarrow> (Inl e, db1, snd st)
      | (Inr results, db1) \<Rightarrow>
          (let s1 = (snd st)\<lparr>rm_logger := fold (log_put \<circ> refresh_record) results (rm_logger (snd st))\<rparr> in
           case rm_publisher s1 of
             None \<Rightarrow> (Inr (), db1, s1)
           | Some p \<Rightarrow> (case output_routes db1 of
                 Inl e \<Rightarrow> (Inl e, db1, s1)
               | Inr routes \<Rightarrow> (Inr (), db1, s1\<lparr>rm_publisher := Some (p\<lparr>pc_routes := routes\<rparr>)\<rparr>))))"

definition start_topic_refresh_thread :: "settings \<Rightarrow> runtime \<Rightarrow> unit res \<times> runtime" where
  "start_topic_refresh_thread c s = (case float_config c ''topic_refresh_interval_s'' (whole_float 300) of
     Inl e \<Rightarrow> (Inl e, s)
   | Inr interval \<Rightarrow>
       (if fl_le interval fl_zero then (Inr (), s)
        else (Inr (), trace [Started RefreshThread] (s\<lparr>rm_refresh_stop := False, rm_refresher := True\<rparr>))))"

text \<open>One turn of \<open>refresh_loop\<close>, after its wait: every loop watches the manager's one event. \<open>True\<close> when the loop goes
  on; an exception ends it.\<close>

definition refresh_turn :: "runtime_env \<Rightarrow> db \<times> runtime \<Rightarrow> bool \<times> db \<times> runtime" where
  "refresh_turn env st =
     (if rm_refresh_stop (snd st) then (False, st)
      else (let (r, st') = refresh_dynamic_route_topics env st in (case r of Inl _ \<Rightarrow> False | Inr _ \<Rightarrow> True, st')))"

section \<open>Starting\<close>

definition clear_queues :: "runtime \<Rightarrow> runtime" where
  "clear_queues s = s\<lparr>rm_results := clear_results (rm_results s), rm_status := clear_statuses (rm_status s)\<rparr>"

definition prepare_start :: "int option \<Rightarrow> bool option \<Rightarrow> db \<Rightarrow> runtime \<Rightarrow> runtime" where
  "prepare_start health logging db s =
     (let h = (case health of None \<Rightarrow> rm_health s | Some i \<Rightarrow> i); l = (case logging of None \<Rightarrow> rm_log_enabled s | Some b \<Rightarrow> b) in
      (clear_queues s)\<lparr>rm_health := h, rm_log_enabled := l, rm_logger := set_runtime_log_enabled l (rm_logger s),
        rm_refresh_stop := False, rm_tags := initial_runtime_tags db, rm_servers := []\<rparr>)"

definition device_worker :: "runtime \<Rightarrow> db \<Rightarrow> device_spec \<Rightarrow> worker_config" where
  "device_worker s db d =
     (if uses_subscription_worker d
      then new_subscription_config d (list_tags (id_or_zero d) db) True True (interval_float (rm_health s)) (whole_float 10)
        (rm_log_enabled s)
      else new_worker_config d (list_tags (id_or_zero d) db) True True (interval_float (rm_health s)) (whole_float 10) False)"

definition start_device :: "runtime_env \<Rightarrow> db \<Rightarrow> device_spec \<Rightarrow> runtime \<Rightarrow> unit res \<times> runtime" where
  "start_device env db d s = (case registry_get (dev_driver_type d) (re_drivers env) of
     Inl e \<Rightarrow> (Inl e, s)
   | Inr c \<Rightarrow>
       (let s1 = trace [Started (DeviceThread d)] s; w = device_worker s db d in
        (Inr (), if uses_subscription_worker d then s1\<lparr>rm_subs := rm_subs s @ [w]\<rparr> else s1\<lparr>rm_pollers := rm_pollers s @ [w]\<rparr>)))"

fun start_devices :: "runtime_env \<Rightarrow> db \<Rightarrow> device_spec list \<Rightarrow> runtime \<Rightarrow> unit res \<times> runtime" where
  "start_devices env db [] s = (Inr (), s)"
| "start_devices env db (d # ds) s =
     (if \<not> dev_enabled d then start_devices env db ds s
      else (case start_device env db d s of
          (Inl e, s1) \<Rightarrow> (Inl e, s1)
        | (Inr _, s1) \<Rightarrow> start_devices env db ds s1))"

definition start_responder :: "runtime_env \<Rightarrow> runtime \<Rightarrow> runtime" where
  "start_responder env s =
     (if topic_responder_enabled env then trace [Started ResponderThread] (s\<lparr>rm_responder := True\<rparr>)
      else s\<lparr>rm_responder := False\<rparr>)"

text \<open>From the publisher's start on.\<close>

definition start_threads :: "runtime_env \<Rightarrow> sink_config \<Rightarrow> db \<Rightarrow> sink_object \<times> pub_config \<Rightarrow> runtime \<Rightarrow> settings res \<times> runtime" where
  "start_threads env k db p s =
     (let s1 = trace [Started PublisherThread] (s\<lparr>rm_sink := Some (fst p), rm_publisher := Some (snd p)\<rparr>) in
      case start_topic_refresh_thread (sk_config k) s1 of
        (Inl e, s2) \<Rightarrow> (Inl e, s2)
      | (Inr _, s2) \<Rightarrow>
          (case start_devices env db (list_devices db) ((start_responder env s2)\<lparr>rm_pollers := [], rm_subs := []\<rparr>) of
             (Inl e, s3) \<Rightarrow> (Inl e, s3)
           | (Inr _, s3) \<Rightarrow> (Inr (rm_snapshot (s3\<lparr>rm_running := True\<rparr>)), s3\<lparr>rm_running := True\<rparr>)))"

definition wants_topics :: "sink_config \<Rightarrow> bool" where
  "wants_topics k \<longleftrightarrow> sk_sink_type k = ''mqtt'' \<and> bool_config (sk_config k) ''topic_request_on_start'' True"

definition rm_prepare :: "runtime_env \<Rightarrow> int option \<Rightarrow> bool option \<Rightarrow> db \<times> runtime \<Rightarrow> unit res \<times> db \<times> runtime" where
  "rm_prepare env health logging st =
     (let s1 = prepare_start health logging (fst st) (snd st) in
      if wants_topics (get_sink_config None (fst st)) then refresh_dynamic_route_topics env (fst st, s1) else (Inr (), fst st, s1))"

definition rm_start :: "runtime_env \<Rightarrow> int option \<Rightarrow> bool option \<Rightarrow> db \<times> runtime \<Rightarrow> settings res \<times> db \<times> runtime" where
  "rm_start env health logging st =
     (if rm_running (snd st) then (Inr (rm_snapshot (snd st)), st)
      else
        (let k = get_sink_config None (fst st); (r, db2, s2) = rm_prepare env health logging st in
         case r of
           Inl e \<Rightarrow> (Inl e, db2, s2)
         | Inr _ \<Rightarrow> (case make_publisher env k db2 of
               Inl e \<Rightarrow> (Inl e, db2, s2)
             | Inr p \<Rightarrow> (let (x, s3) = start_threads env k db2 p s2 in (x, db2, s3)))))"

section \<open>Stopping\<close>

definition device_threads :: "runtime \<Rightarrow> thread list" where
  "device_threads s = map (DeviceThread \<circ> wc_device) (rm_pollers s @ rm_subs s)"

definition rm_stop :: "runtime \<Rightarrow> settings \<times> runtime" where
  "rm_stop s =
     (if \<not> rm_running s then (rm_snapshot s, s)
      else
        (let s1 = trace (map Stopped (device_threads s) @ (if rm_responder s then [Stopped ResponderThread] else [])) s;
             s2 = trace (if rm_refresher s then [Stopped RefreshThread, Joined RefreshThread] else [])
               (s1\<lparr>rm_refresh_stop := True, rm_refresher := False\<rparr>);
             s3 = trace ((if rm_publisher s = None then [] else [Stopped PublisherThread]) @ map Joined (device_threads s) @
               (if rm_responder s then [Joined ResponderThread] else []) @ (if rm_publisher s = None then [] else [Joined PublisherThread])) s2;
             s4 = s3\<lparr>rm_running := False\<rparr>
         in (rm_snapshot s4, s4)))"

definition rm_shutdown :: "runtime \<Rightarrow> runtime" where
  "rm_shutdown s = (let s1 = snd (rm_stop s) in s1\<lparr>rm_logger := log_stop (rm_logger s1)\<rparr>)"

definition set_health_interval :: "int \<Rightarrow> runtime \<Rightarrow> settings \<times> runtime" where
  "set_health_interval seconds s =
     (let set_health = (\<lambda>w. w\<lparr>wc_health_interval := interval_float seconds\<rparr>);
          s1 = s\<lparr>rm_health := seconds, rm_pollers := map set_health (rm_pollers s), rm_subs := map set_health (rm_subs s)\<rparr>
      in (rm_snapshot s1, s1))"

end
