(* ===== verification/Runtime_Props.thy ===== *)
theory Runtime_Props
  imports Runtime_Manager
begin

text \<open>
  What the runtime manager promises: a start that returns makes one worker per enabled device, every thread a start
  started is told to stop and then joined by the stop that follows, as long as no start raises, and draining reports the
  latest update of each tag. A join gives up after two seconds, and the manager does not ask whether the thread has
  ended, so nothing here says that a thread ends.
\<close>

section \<open>Threads told to stop and joined\<close>

text \<open>A thread is started, then told to stop, then joined. The state after some calls is the threads not yet told to stop
  and those told and not yet joined; a thread joined before it was told, or told before it was started, is an error.\<close>

fun after_call :: "thread_call \<Rightarrow> (thread multiset \<times> thread multiset) option \<Rightarrow> (thread multiset \<times> thread multiset) option" where
  "after_call (Started t) (Some (r, w)) = Some (add_mset t r, w)"
| "after_call (Stopped t) (Some (r, w)) = (if t \<in># r then Some (r - {#t#}, add_mset t w) else None)"
| "after_call (Joined t) (Some (r, w)) = (if t \<in># w then Some (r, w - {#t#}) else None)"
| "after_call c None = None"

definition threads_after :: "thread_call list \<Rightarrow> (thread multiset \<times> thread multiset) option" where
  "threads_after ts = fold after_call ts (Some ({#}, {#}))"

definition threads_of :: "runtime \<Rightarrow> thread list" where
  "threads_of s = device_threads s @ (if rm_responder s then [ResponderThread] else []) @
     (if rm_refresher s then [RefreshThread] else []) @ (if rm_publisher s = None then [] else [PublisherThread])"

lemma threads_append: "threads_after (ts @ us) = fold after_call us (threads_after ts)"
  by (simp add: threads_after_def)

lemma after_started: "fold after_call (map Started ts) (Some (r, w)) = Some (mset ts + r, w)"
  by (induction ts arbitrary: r) simp_all

lemma after_stopped: "fold after_call (map Stopped ts) (Some (mset ts + r, w)) = Some (r, mset ts + w)"
  by (induction ts arbitrary: r w) simp_all

lemma after_joined: "fold after_call (map Joined ts) (Some (r, mset ts + w)) = Some (r, w)"
  by (induction ts arbitrary: r w) simp_all

lemma trace_simps [simp]:
  "rm_trace (trace ts s) = rm_trace s @ ts" "rm_pollers (trace ts s) = rm_pollers s" "rm_subs (trace ts s) = rm_subs s"
  "rm_publisher (trace ts s) = rm_publisher s" "rm_responder (trace ts s) = rm_responder s" "rm_refresher (trace ts s) = rm_refresher s"
  "rm_running (trace ts s) = rm_running s" "rm_lines (trace ts s) = rm_lines s" "rm_health (trace ts s) = rm_health s"
  "rm_log_enabled (trace ts s) = rm_log_enabled s" "rm_refresh_stop (trace ts s) = rm_refresh_stop s" "rm_tags (trace ts s) = rm_tags s" "rm_status (trace ts s) = rm_status s"
  by (simp_all add: trace_def)

text \<open>The threads not yet told to stop are those the manager holds, when it is running, and none otherwise.\<close>

definition rm_balanced :: "runtime \<Rightarrow> bool" where
  "rm_balanced s \<longleftrightarrow> (if rm_running s then threads_after (rm_trace s) = Some (mset (threads_of s), {#})
     else threads_after (rm_trace s) = Some ({#}, {#}) \<and> \<not> rm_refresher s) \<and> length (rm_lines s) \<le> 500"

section \<open>A start that returns\<close>

text \<open>The fields the steps before the publisher leave alone.\<close>

definition same_threads :: "runtime \<Rightarrow> runtime \<Rightarrow> bool" where
  "same_threads s s' \<longleftrightarrow> rm_trace s' = rm_trace s \<and> rm_refresher s' = rm_refresher s \<and> rm_running s' = rm_running s \<and>
     rm_lines s' = rm_lines s \<and> rm_responder s' = rm_responder s \<and> rm_pollers s' = rm_pollers s \<and> rm_subs s' = rm_subs s \<and>
     (rm_publisher s' = None \<longleftrightarrow> rm_publisher s = None)"

lemma refresh_same_threads:
  "refresh_dynamic_route_topics env (db, s) = (r, db', s') \<Longrightarrow> same_threads s s'"
  by (auto simp: refresh_dynamic_route_topics_def same_threads_def Let_def split: prod.splits sum.splits option.splits)

lemma prepare_same_threads:
  "rm_prepare env h l (db, s) = (r, db', s') \<Longrightarrow> same_threads s s'"
proof -
  have "same_threads s (prepare_start h l db s)"
    by (simp add: prepare_start_def clear_queues_def same_threads_def Let_def)
  moreover assume "rm_prepare env h l (db, s) = (r, db', s')"
  ultimately show ?thesis
    by (auto simp: rm_prepare_def Let_def same_threads_def split: if_splits dest!: refresh_same_threads)
qed

lemma start_devices_ok:
  "start_devices env db ds s = (Inr x, s') \<Longrightarrow>
    rm_trace s' = rm_trace s @ map (Started \<circ> DeviceThread) (filter dev_enabled ds) \<and>
    rm_pollers s' = rm_pollers s @ map (device_worker s db) (filter (\<lambda>d. dev_enabled d \<and> \<not> uses_subscription_worker d) ds) \<and>
    rm_subs s' = rm_subs s @ map (device_worker s db) (filter (\<lambda>d. dev_enabled d \<and> uses_subscription_worker d) ds) \<and>
    rm_health s' = rm_health s \<and> rm_log_enabled s' = rm_log_enabled s \<and> rm_publisher s' = rm_publisher s \<and>
    rm_responder s' = rm_responder s \<and> rm_refresher s' = rm_refresher s \<and> rm_lines s' = rm_lines s \<and>
    rm_refresh_stop s' = rm_refresh_stop s"
proof (induction ds arbitrary: s)
  case (Cons d ds)
  show ?case
  proof (cases "dev_enabled d")
    case True
    then obtain c where c: "registry_get (dev_driver_type d) (re_drivers env) = Inr c"
      using Cons.prems by (auto simp: start_device_def split: sum.splits)
    define s1 where "s1 = snd (start_device env db d s)"
    have s1: "start_devices env db ds s1 = (Inr x, s')"
      using Cons.prems True c by (simp add: s1_def start_device_def Let_def split: if_splits)
    have "device_worker s1 db = device_worker s db"
      by (rule ext) (simp add: s1_def start_device_def c device_worker_def Let_def)
    then show ?thesis using Cons.IH [OF s1] True
      by (auto simp: s1_def start_device_def c Let_def split: if_splits)
  next
    case False
    then show ?thesis using Cons by simp
  qed
qed simp

lemma wc_device_worker: "wc_device (device_worker s db d) = d"
  by (simp add: device_worker_def new_worker_config_def new_subscription_config_def)

lemma device_threads_mset:
  assumes "rm_pollers s = map (device_worker u db) (filter (\<lambda>d. dev_enabled d \<and> \<not> uses_subscription_worker d) ds)"
    and "rm_subs s = map (device_worker u db) (filter (\<lambda>d. dev_enabled d \<and> uses_subscription_worker d) ds)"
  shows "mset (device_threads s) = mset (map DeviceThread (filter dev_enabled ds))"
proof -
  have "DeviceThread \<circ> wc_device \<circ> device_worker u db = DeviceThread" by (rule ext) (simp add: wc_device_worker)
  then have "mset (device_threads s) = image_mset DeviceThread
      (filter_mset (\<lambda>d. dev_enabled d \<and> \<not> uses_subscription_worker d) (mset ds) + filter_mset (\<lambda>d. dev_enabled d \<and> uses_subscription_worker d) (mset ds))"
    by (simp add: device_threads_def assms o_def wc_device_worker)
  also have "filter_mset (\<lambda>d. dev_enabled d \<and> \<not> uses_subscription_worker d) (mset ds) +
      filter_mset (\<lambda>d. dev_enabled d \<and> uses_subscription_worker d) (mset ds) = filter_mset dev_enabled (mset ds)"
    by (induction ds) auto
  finally show ?thesis by simp
qed


definition refresh_wanted :: "settings \<Rightarrow> bool" where
  "refresh_wanted c \<longleftrightarrow> (case py_float (get_or c ''topic_refresh_interval_s'' (VFloat (whole_float 300))) of
     Inr x \<Rightarrow> \<not> fl_le x fl_zero | Inl _ \<Rightarrow> \<not> fl_le (whole_float 300) fl_zero)"





lemma start_threads_ok:
  assumes "start_threads env k db p s = (Inr x, s')"
  shows "rm_running s'" "rm_publisher s' = Some (snd p)" "rm_lines s' = rm_lines s" "rm_refresher s \<Longrightarrow> rm_refresher s'"
    "rm_pollers s' = map (device_worker s' db) (filter (\<lambda>d. dev_enabled d \<and> \<not> uses_subscription_worker d) (list_devices db))"
    "rm_subs s' = map (device_worker s' db) (filter (\<lambda>d. dev_enabled d \<and> uses_subscription_worker d) (list_devices db))"
    "\<not> rm_refresher s \<Longrightarrow> threads_after (rm_trace s) = Some ({#}, {#}) \<Longrightarrow> threads_after (rm_trace s') = Some (mset (threads_of s'), {#})"
    "rm_responder s' = topic_responder_enabled env" "x = rm_snapshot s'"
    "\<not> rm_refresher s \<Longrightarrow> rm_refresher s' \<longleftrightarrow> refresh_wanted (sk_config k)"
    "rm_health s' = rm_health s" "rm_log_enabled s' = rm_log_enabled s" "\<not> rm_refresh_stop s \<Longrightarrow> \<not> rm_refresh_stop s'"
proof -
  let ?s1 = "trace [Started PublisherThread] (s\<lparr>rm_sink := Some (fst p), rm_publisher := Some (snd p)\<rparr>)"
  obtain s2 where s2: "start_topic_refresh_thread (sk_config k) ?s1 = (Inr (), s2)"
    using assms by (auto simp: start_threads_def Let_def split: prod.splits sum.splits)
  have r2: "rm_publisher s2 = Some (snd p)" "rm_lines s2 = rm_lines s" "rm_refresher s \<Longrightarrow> rm_refresher s2"
    "\<not> rm_refresher s \<Longrightarrow> rm_trace s2 = rm_trace s @ map Started (PublisherThread # (if rm_refresher s2 then [RefreshThread] else []))"
    using s2 by (auto simp: start_topic_refresh_thread_def split: sum.splits if_splits)
  have f2: "\<not> rm_refresher s \<Longrightarrow> rm_refresher s2 \<longleftrightarrow> refresh_wanted (sk_config k)" "rm_health s2 = rm_health s"
    "rm_log_enabled s2 = rm_log_enabled s" "\<not> rm_refresh_stop s \<Longrightarrow> \<not> rm_refresh_stop s2"
    using s2 by (auto simp: start_topic_refresh_thread_def refresh_wanted_def float_config_def split: sum.splits if_splits)
  let ?s3 = "(start_responder env s2)\<lparr>rm_pollers := [], rm_subs := []\<rparr>"
  have r3: "rm_publisher ?s3 = Some (snd p)" "rm_lines ?s3 = rm_lines s" "rm_refresher ?s3 = rm_refresher s2"
    "rm_responder ?s3 = topic_responder_enabled env"
    "rm_trace ?s3 = rm_trace s2 @ map Started (if topic_responder_enabled env then [ResponderThread] else [])"
    using r2 by (simp_all add: start_responder_def)
  obtain s4 where s4: "start_devices env db (list_devices db) ?s3 = (Inr (), s4)" "s' = s4\<lparr>rm_running := True\<rparr>" "x = rm_snapshot s'"
    using assms s2 by (auto simp: start_threads_def Let_def split: prod.splits sum.splits)
  note d = start_devices_ok [OF s4(1), simplified]
  have w: "device_worker s' db = device_worker ?s3 db" using d s4(2) by (intro ext) (simp add: device_worker_def)
  show "rm_running s'" "rm_publisher s' = Some (snd p)" "rm_lines s' = rm_lines s" "rm_refresher s \<Longrightarrow> rm_refresher s'"
    "rm_responder s' = topic_responder_enabled env" "x = rm_snapshot s'"
    using d s4(2,3) r2 r3 by simp_all
  show "\<not> rm_refresher s \<Longrightarrow> rm_refresher s' \<longleftrightarrow> refresh_wanted (sk_config k)" "rm_health s' = rm_health s"
    "rm_log_enabled s' = rm_log_enabled s" "\<not> rm_refresh_stop s \<Longrightarrow> \<not> rm_refresh_stop s'"
    using d s4(2) f2 r3(3) by (simp_all add: start_responder_def split: if_splits)
  show pollers: "rm_pollers s' = map (device_worker s' db) (filter (\<lambda>d. dev_enabled d \<and> \<not> uses_subscription_worker d) (list_devices db))"
    and subs: "rm_subs s' = map (device_worker s' db) (filter (\<lambda>d. dev_enabled d \<and> uses_subscription_worker d) (list_devices db))"
    unfolding w using d s4(2) by (simp_all add: device_worker_def)
  assume fresh: "\<not> rm_refresher s" "threads_after (rm_trace s) = Some ({#}, {#})"
  have "rm_trace s' = rm_trace s @ map Started (PublisherThread # (if rm_refresher s' then [RefreshThread] else []) @
      (if rm_responder s' then [ResponderThread] else []) @ map DeviceThread (filter dev_enabled (list_devices db)))"
    using d s4(2) r2(4) [OF fresh(1)] r3 by (simp add: o_def)
  then have "threads_after (rm_trace s') = Some (mset (PublisherThread # (if rm_refresher s' then [RefreshThread] else []) @
      (if rm_responder s' then [ResponderThread] else []) @ map DeviceThread (filter dev_enabled (list_devices db))), {#})"
    by (simp only: threads_append fresh(2) after_started) simp
  then show "threads_after (rm_trace s') = Some (mset (threads_of s'), {#})"
    using device_threads_mset [OF pollers subs] d s4(2) r3 by (simp add: threads_of_def)
qed

lemma prepare_settings:
  assumes "rm_prepare env h l (db, s) = (r, db', s')"
  shows "rm_health s' = (case h of None \<Rightarrow> rm_health s | Some i \<Rightarrow> i)"
    "rm_log_enabled s' = (case l of None \<Rightarrow> rm_log_enabled s | Some b \<Rightarrow> b)" "\<not> rm_refresh_stop s'"
  using assms
  by (auto simp: rm_prepare_def prepare_start_def clear_queues_def refresh_dynamic_route_topics_def Let_def
      split: if_splits prod.splits sum.splits option.splits)

lemma rm_start_ok:
  assumes "rm_start env h l (db, s) = (Inr x, db', s')" "\<not> rm_running s"
  obtains p s2 where "rm_prepare env h l (db, s) = (Inr (), db', s2)" "make_publisher env (get_sink_config None db) db' = Inr p"
    "start_threads env (get_sink_config None db) db' p s2 = (Inr x, s')"
  using assms by (auto simp: rm_start_def Let_def split: prod.splits sum.splits)

lemma start_balanced:
  assumes "rm_start env h l (db, s) = (Inr x, db', s')" "rm_balanced s"
  shows "rm_balanced s'"
proof (cases "rm_running s")
  case True
  then show ?thesis using assms by (simp add: rm_start_def)
next
  case False
  obtain p s2 where p: "rm_prepare env h l (db, s) = (Inr (), db', s2)" "start_threads env (get_sink_config None db) db' p s2 = (Inr x, s')"
    using rm_start_ok [OF assms(1) False] by blast
  then show ?thesis using prepare_same_threads [OF p(1)] start_threads_ok [OF p(2)] assms(2) False
    by (simp add: rm_balanced_def same_threads_def)
qed

section \<open>A stop tells and joins every thread\<close>

lemma stop_balanced: "rm_balanced s \<Longrightarrow> rm_balanced (snd (rm_stop s)) \<and> \<not> rm_running (snd (rm_stop s))"
proof (cases "rm_running s")
  case True
  assume b: "rm_balanced s"
  let ?pub = "if rm_publisher s = None then [] else [PublisherThread]" and ?res = "if rm_responder s then [ResponderThread] else []"
  let ?ref = "if rm_refresher s then [RefreshThread] else []" and ?dev = "device_threads s @ (if rm_responder s then [ResponderThread] else [])"
  have t: "rm_trace (snd (rm_stop s)) = rm_trace s @ map Stopped ?dev @ map Stopped ?ref @ map Joined ?ref @
      map Stopped ?pub @ map Joined (?dev @ ?pub)"
    using True by (simp add: rm_stop_def Let_def)
  have start: "threads_after (rm_trace s) = Some (mset ?dev + (mset ?ref + (mset ?pub + {#})), {#})"
    using b True by (simp add: rm_balanced_def threads_of_def ac_simps)
  have "threads_after (rm_trace (snd (rm_stop s))) = fold after_call (map Joined (?dev @ ?pub))
      (fold after_call (map Stopped ?pub) (fold after_call (map Joined ?ref) (fold after_call (map Stopped ?ref)
        (fold after_call (map Stopped ?dev) (Some (mset ?dev + (mset ?ref + (mset ?pub + {#})), {#}))))))"
    unfolding t threads_append start by simp
  also have "\<dots> = fold after_call (map Joined (?dev @ ?pub)) (Some ({#}, mset ?pub + mset ?dev))"
    unfolding after_stopped after_joined by simp
  also have "\<dots> = Some ({#}, {#})"
    using after_joined [of "?dev @ ?pub" "{#}" "{#}"] by (simp add: ac_simps)
  finally show ?thesis using b True by (simp add: rm_balanced_def rm_stop_def Let_def)
qed (simp add: rm_stop_def)

lemma record_status_same: "same_threads s (snd (record_status i s))"
  by (simp add: record_status_def same_threads_def Let_def split: status_item.split)

lemma same_threads_trans: "same_threads s t \<Longrightarrow> same_threads t u \<Longrightarrow> same_threads s u"
  by (simp add: same_threads_def)

lemma same_threads_refl: "same_threads s s" by (simp add: same_threads_def)

lemma drain_status_same: "same_threads s (snd (drain_status n s))"
proof (induction n arbitrary: s)
  case (Suc n)
  show ?case
  proof (cases "sq_get (rm_status s)")
    case (Some p)
    obtain i q where p: "p = (i, q)" by (cases p)
    have "same_threads s (s\<lparr>rm_status := q\<rparr>)" by (simp add: same_threads_def)
    then have "same_threads s (snd (record_status i (s\<lparr>rm_status := q\<rparr>)))"
      using record_status_same same_threads_trans by blast
    then show ?thesis using Suc [of "snd (record_status i (s\<lparr>rm_status := q\<rparr>))"] Some p same_threads_trans
      by (auto simp: split: prod.split)
  qed (simp add: same_threads_refl)
qed (simp add: same_threads_refl)

lemma add_line_bound: "length (add_line l ls) \<le> 500" by (simp add: add_line_def)

lemma add_lines_bound: "length ls \<le> 500 \<Longrightarrow> length (fold add_line new ls) \<le> 500"
  by (induction new arbitrary: ls) (simp_all add: add_line_bound)

lemma balanced_same: "same_threads s t \<Longrightarrow> rm_balanced t \<longleftrightarrow> rm_balanced s"
  by (simp add: rm_balanced_def same_threads_def threads_of_def device_threads_def)

lemma drain_balanced: "rm_balanced s \<Longrightarrow> rm_balanced (snd (drain_events env n s))"
proof -
  assume b: "rm_balanced s"
  obtain es s1 where s1: "drain_status n s = (es, s1)" by (cases "drain_status n s")
  have b1: "rm_balanced s1" using drain_status_same [of s n] balanced_same b s1 by simp
  then have "rm_balanced (s1\<lparr>rm_logger := lg\<rparr>)" for lg by (simp add: rm_balanced_def threads_of_def device_threads_def)
  moreover have "rm_balanced (snd (show_lines t))" if "rm_balanced t" for t
    using that add_lines_bound by (simp add: show_lines_def rm_balanced_def threads_of_def device_threads_def)
  ultimately show ?thesis
    by (auto simp: drain_events_def s1 Let_def split: prod.split sum.split) (metis snd_conv)+
qed

lemma set_health_balanced: "rm_balanced s \<Longrightarrow> rm_balanced (snd (set_health_interval i s))"
  by (simp add: set_health_interval_def rm_balanced_def threads_of_def device_threads_def Let_def o_def)

text \<open>What happens to the manager between two moments: a method returns, a thread puts an item into one of its queues or the
  log, a round of the refresher, or a change of the stored configuration.\<close>

inductive rm_step :: "runtime_env \<Rightarrow> db \<times> runtime \<Rightarrow> db \<times> runtime \<Rightarrow> bool" for env where
  start: "rm_start env h l (db, s) = (Inr x, db', s') \<Longrightarrow> rm_step env (db, s) (db', s')"
| stop: "rm_step env (db, s) (db, snd (rm_stop s))"
| drain: "rm_step env (db, s) (db, snd (drain_events env n s))"
| health: "rm_step env (db, s) (db, snd (set_health_interval i s))"
| refresh: "refresh_dynamic_route_topics env (db, s) = (r, db', s') \<Longrightarrow> rm_step env (db, s) (db', s')"
| status: "rm_step env (db, s) (db, s\<lparr>rm_status := sq_put item (rm_status s)\<rparr>)"
| result: "rm_step env (db, s) (db, s\<lparr>rm_results := rq_put r (rm_results s)\<rparr>)"
| taken: "rm_step env (db, s) (db, s\<lparr>rm_results := q\<rparr>)"
| logged: "rm_step env (db, s) (db, s\<lparr>rm_logger := log_put r (rm_logger s)\<rparr>)"
| configured: "rm_step env (db, s) (db', s)"

inductive_cases rm_stepE: "rm_step env st st'"

lemma step_balanced: "rm_step env st st' \<Longrightarrow> rm_balanced (snd st) \<Longrightarrow> rm_balanced (snd st')"
proof (induction rule: rm_step.induct)
  case start
  then show ?case using start_balanced by simp
next
  case refresh
  then show ?case using balanced_same [OF refresh_same_threads] by simp
qed (simp_all add: stop_balanced drain_balanced set_health_balanced, simp_all add: rm_balanced_def threads_of_def device_threads_def)

lemma reachable_balanced:
  assumes "(rm_step env)\<^sup>*\<^sup>* (db0, new_runtime) (db, s)"
  shows "rm_balanced s"
  using assms
proof (induction "(db, s)" arbitrary: db s rule: rtranclp_induct)
  case base
  then show ?case by (simp add: new_runtime_def rm_balanced_def threads_after_def)
next
  case (step y)
  then show ?case using step_balanced [of env y] by (cases y) auto
qed

text \<open>C17: Every thread is told to stop and then joined.  Whatever the order of starts that return, stops, drains, changes of the
  health interval, topic refreshes, thread actions and configuration changes, no thread is joined before it was told
  to stop nor told before it was started; the threads not yet told are exactly those the manager holds while it
  runs, and none while it does not; a stop tells each of them once and joins each once. At most 500 log lines
  are kept. A join waits two seconds at most: that the thread has ended is not claimed.\<close>

theorem runtime_threads_balanced:
  assumes "(rm_step env)\<^sup>*\<^sup>* (db0, new_runtime) (db, s)"
  shows "threads_after (rm_trace s) = Some (if rm_running s then mset (threads_of s) else {#}, {#}) \<and>
    threads_after (rm_trace (snd (rm_stop s))) = Some ({#}, {#}) \<and> length (rm_lines s) \<le> 500"
  using reachable_balanced [OF assms] stop_balanced [of s] by (auto simp: rm_balanced_def split: if_splits)


text \<open>A refresher that outlives its join comes back to life.  After a stop the next turn of any refresh loop would end it;
  the start that follows clears the one event all loops watch, whether or not it starts a loop of its own, and the next
  turn of the old loop refreshes the topics and goes on.\<close>

lemma restart_revives_refresher:
  assumes "rm_running s" "rm_start env h l (db, snd (rm_stop s)) = (Inr x, db', s')"
  shows "refresh_turn env (db, snd (rm_stop s)) = (False, db, snd (rm_stop s))"
    "refresh_turn env (db', s') = (let (r, st') = refresh_dynamic_route_topics env (db', s') in (\<exists>u. r = Inr u, st'))"
proof -
  have stop: "\<not> rm_running (snd (rm_stop s))" "rm_refresh_stop (snd (rm_stop s))"
    using assms(1) by (simp_all add: rm_stop_def Let_def trace_def)
  then show "refresh_turn env (db, snd (rm_stop s)) = (False, db, snd (rm_stop s))" by (simp add: refresh_turn_def)
  obtain p s2 where p: "rm_prepare env h l (db, snd (rm_stop s)) = (Inr (), db', s2)"
    "start_threads env (get_sink_config None db) db' p s2 = (Inr x, s')"
    using rm_start_ok [OF assms(2) stop(1)] by blast
  have "\<not> rm_refresh_stop s'" using start_threads_ok(13) [OF p(2)] prepare_settings(3) [OF p(1)] by blast
  then show "refresh_turn env (db', s') = (let (r, st') = refresh_dynamic_route_topics env (db', s') in (\<exists>u. r = Inr u, st'))"
    by (auto simp: refresh_turn_def Let_def split: prod.split sum.split)
qed

text \<open>A thread of this kind was started and not told to stop since.\<close>

definition never_told :: "thread \<Rightarrow> thread_call list \<Rightarrow> bool" where
  "never_told t ts \<longleftrightarrow> (\<exists>before since. ts = before @ [Started t] @ since \<and> Stopped t \<notin> set since)"

lemma start_fails_with_publisher:
  assumes "\<not> rm_running s" "rm_prepare env h l (db, s) = (Inr (), db2, s2)" "make_publisher env (get_sink_config None db) db2 = Inr p"
    and "d \<in> set (list_devices db2)" "dev_enabled d" "registry_get (dev_driver_type d) (re_drivers env) = Inl x"
  shows "\<exists>e s'. rm_start env h l (db, s) = (Inl e, db2, s') \<and> \<not> rm_running s' \<and> never_told PublisherThread (rm_trace s') \<and>
    snd (rm_stop s') = s'"
proof -
  have fails: "\<exists>e t ts. start_devices env db2 ds u = (Inl e, t) \<and> rm_running t = rm_running u \<and> rm_trace t = rm_trace u @ map (Started \<circ> DeviceThread) ts"
    if "d \<in> set ds" for ds u using that
  proof (induction ds arbitrary: u)
    case (Cons c ds)
    show ?case
    proof (cases "dev_enabled c \<and> (\<exists>e. registry_get (dev_driver_type c) (re_drivers env) = Inl e)")
      case True
      then obtain e where "registry_get (dev_driver_type c) (re_drivers env) = Inl e" by blast
      then have "start_devices env db2 (c # ds) u = (Inl e, u)" using True by (simp add: start_device_def)
      then show ?thesis by (intro exI [of _ e] exI [of _ u] exI [of _ "[]"]) simp
    next
      case False
      then have rest: "d \<in> set ds" using Cons.prems assms(5,6) by auto
      show ?thesis
      proof (cases "dev_enabled c")
        case True
        then obtain k where k: "registry_get (dev_driver_type c) (re_drivers env) = Inr k" using False by (cases "registry_get (dev_driver_type c) (re_drivers env)") auto
        define u1 where "u1 = snd (start_device env db2 c u)"
        obtain e t ts where "start_devices env db2 ds u1 = (Inl e, t)" "rm_running t = rm_running u1"
          "rm_trace t = rm_trace u1 @ map (Started \<circ> DeviceThread) ts" using Cons.IH [OF rest, of u1] by blast
        then show ?thesis using True k
          by (intro exI [of _ e] exI [of _ t] exI [of _ "c # ts"]) (auto simp: u1_def start_device_def Let_def)
      qed (use Cons.IH [OF rest, of u] in simp)
    qed
  qed simp
  have s2: "\<not> rm_running s2" using prepare_same_threads [OF assms(2)] assms(1) by (simp add: same_threads_def)
  let ?s1 = "trace [Started PublisherThread] (s2\<lparr>rm_sink := Some (fst p), rm_publisher := Some (snd p)\<rparr>)"
  obtain r s3 where s3: "start_topic_refresh_thread (sk_config (get_sink_config None db)) ?s1 = (r, s3)"
    by (cases "start_topic_refresh_thread (sk_config (get_sink_config None db)) ?s1")
  have t3: "\<not> rm_running s3" "\<exists>ts. rm_trace s3 = rm_trace s2 @ [Started PublisherThread] @ map Started ts"
  proof -
    show "\<not> rm_running s3" using s3 s2 by (auto simp: start_topic_refresh_thread_def split: sum.splits if_splits)
    have "rm_trace s3 = rm_trace s2 @ [Started PublisherThread] @ map Started [] \<or>
        rm_trace s3 = rm_trace s2 @ [Started PublisherThread] @ map Started [RefreshThread]"
      using s3 by (auto simp: start_topic_refresh_thread_def split: sum.splits if_splits)
    then show "\<exists>ts. rm_trace s3 = rm_trace s2 @ [Started PublisherThread] @ map Started ts" by blast
  qed
  obtain e s4 us where s4: "start_threads env (get_sink_config None db) db2 p s2 = (Inl e, s4)" "\<not> rm_running s4"
    "rm_trace s4 = rm_trace s2 @ [Started PublisherThread] @ map Started us"
  proof (cases r)
    case (Inl e)
    then show ?thesis using that s3 t3 by (auto simp: start_threads_def Let_def)
  next
    case (Inr u)
    obtain ts where ts: "rm_trace s3 = rm_trace s2 @ [Started PublisherThread] @ map Started ts" using t3(2) by blast
    let ?s5 = "(start_responder env s3)\<lparr>rm_pollers := [], rm_subs := []\<rparr>"
    obtain e t vs where t: "start_devices env db2 (list_devices db2) ?s5 = (Inl e, t)" "rm_running t = rm_running ?s5"
      "rm_trace t = rm_trace ?s5 @ map (Started \<circ> DeviceThread) vs" using fails [OF assms(4), of ?s5] by blast
    show ?thesis
      by (rule that [of e t "ts @ (if topic_responder_enabled env then [ResponderThread] else []) @ map DeviceThread vs"])
        (use s3 t ts t3(1) Inr in \<open>simp_all add: start_threads_def start_responder_def Let_def\<close>)
  qed
  have "never_told PublisherThread (rm_trace s4)" unfolding s4(3) never_told_def
    by (intro exI [of _ "rm_trace s2"] exI [of _ "map Started us"]) auto
  then show ?thesis using s4 assms(1-3) by (simp add: rm_start_def rm_stop_def Let_def)
qed

text \<open>A start that raises leaves its publisher running.  When the sink and the publisher can be built but an enabled device has a
  driver type that is not registered, the start raises with the publisher's thread already running while the manager does
  not count as running: the stop that follows changes nothing, so the thread goes on publishing.\<close>

theorem failed_start_leaks_publisher:
  assumes "\<not> rm_running s" "rm_prepare env h l (db, s) = (Inr (), db2, s2)" "make_publisher env (get_sink_config None db) db2 = Inr p"
    and "d \<in> set (list_devices db2)" "dev_enabled d" "registry_get (dev_driver_type d) (re_drivers env) = Inl x"
  shows "\<exists>e s'. rm_start env h l (db, s) = (Inl e, db2, s') \<and> \<not> rm_running s' \<and> never_told PublisherThread (rm_trace s') \<and>
    snd (rm_stop s') = s'"
  using assms by (rule start_fails_with_publisher)

section \<open>Draining\<close>

text \<open>A tag update as the publisher writes it: its device and its tag or node are texts.\<close>

definition plain_update :: "settings \<Rightarrow> bool" where
  "plain_update i \<longleftrightarrow> item_get i ''type'' = VStr ''tag_update'' \<and> (\<exists>d. item_get i ''device'' = VStr d) \<and>
     (\<exists>n. or_val (item_get i ''node_id'') (item_get i ''tag'') = VStr n)"

fun text_key :: "string \<times> string \<Rightarrow> status_key" where
  "text_key (d, n) = TagUpdateKey (VStr d) (VStr n)"

lemma get_or_text: "item_get i k = VStr x \<Longrightarrow> get_or i k v = VStr x"
  by (simp add: item_get_def get_or_def split: option.splits)

lemma plain_key: "plain_update i \<Longrightarrow> status_key (StDict i) n = (text_key (update_key i), n)"
proof -
  assume p: "plain_update i"
  then obtain d m where dm: "item_get i ''device'' = VStr d" "or_val (item_get i ''node_id'') (item_get i ''tag'') = VStr m"
    by (auto simp: plain_update_def)
  have "or_val (item_get i ''node_id'') (get_or i ''tag'' (VStr [])) = VStr m"
    using dm(2) get_or_text [of i "''tag''"] by (auto simp: or_val_def split: if_splits)
  then show ?thesis using p dm by (simp add: status_key_def plain_update_def update_key_def get_or_text [OF dm(1)])
qed

lemma put_updates:
  "list_all plain_update items \<Longrightarrow> fold sq_put (map StDict items) q =
    fold (\<lambda>(k, v). sq_put1 k v) (map (\<lambda>i. (text_key (update_key i), StDict i)) items) q"
proof (induction items arbitrary: q)
  case (Cons i items)
  then show ?case by (simp add: sq_put_def plain_key)
qed simp

lemma keep_last_map:
  "inj f \<Longrightarrow> keep_last (map (\<lambda>(k, v). (f k, h v)) kvs) = map (\<lambda>(k, v). (f k, h v)) (keep_last kvs)"
proof (induction kvs)
  case (Cons p kvs)
  obtain k v where p: "p = (k, v)" by (cases p)
  have "f k \<in> fst ` set (map (\<lambda>(k, v). (f k, h v)) kvs) \<longleftrightarrow> k \<in> fst ` set kvs"
    using Cons.prems by (auto simp: image_iff inj_eq split: prod.splits) force+
  then show ?case using Cons by (simp add: p)
qed simp

lemma map_of_keep_last: "map_of (keep_last kvs) = map_of (rev kvs)"
proof (induction kvs)
  case (Cons p kvs)
  obtain k v where p: "p = (k, v)" by (cases p)
  show ?case
  proof (cases "k \<in> fst ` set kvs")
    case True
    then have "k \<in> dom (map_of (rev kvs))" by (simp add: dom_map_of_conv_image_fst)
    then show ?thesis using True Cons p by (auto simp: map_add_def fun_eq_iff split: option.splits)
  next
    case False
    then have "map_of (rev kvs) k = None" by (simp add: map_of_eq_None_iff)
    then show ?thesis using False Cons p by (auto simp: map_add_def fun_eq_iff split: option.splits)
  qed
qed simp

lemma text_key_inj: "inj text_key"
  by (rule injI) (auto elim!: text_key.elims)

lemma drain_updates:
  assumes "sq_items (rm_status s) = map (\<lambda>i. (text_key (update_key i), StDict i)) items"
    and "distinct (map update_key items)" "list_all plain_update items" "length items \<le> n"
  shows "sq_items (rm_status (snd (drain_status n s))) = [] \<and>
    (\<forall>k. dget (rm_tags (snd (drain_status n s))) k = (case map_of (map (\<lambda>i. (update_key i, i)) items) k of
       None \<Rightarrow> dget (rm_tags s) k
     | Some i \<Rightarrow> Some (dupdate (case dget (rm_tags s) k of None \<Rightarrow> [] | Some d \<Rightarrow> d) i)))"
  using assms
proof (induction items arbitrary: n s)
  case Nil
  then show ?case by (cases n) (simp_all add: sq_get_def)
next
  case (Cons i items)
  then obtain m where n: "n = Suc m" "length items \<le> m" by (cases n) auto
  let ?q = "(rm_status s)\<lparr>sq_items := map (\<lambda>i. (text_key (update_key i), StDict i)) items\<rparr>"
  let ?s1 = "snd (record_status (StDict i) (s\<lparr>rm_status := ?q\<rparr>))"
  have get: "sq_get (rm_status s) = Some (StDict i, ?q)" using Cons.prems(1) by (simp add: sq_get_def)
  have s1: "rm_tags ?s1 = dset (update_key i) (dupdate (case dget (rm_tags s) (update_key i) of None \<Rightarrow> [] | Some d \<Rightarrow> d) i) (rm_tags s)"
    "rm_status ?s1 = ?q"
    using Cons.prems(3) by (simp_all add: record_status_def plain_update_def Let_def)
  have step: "snd (drain_status n s) = snd (drain_status m ?s1)" by (simp add: n get split: prod.split)
  have "sq_items (rm_status ?s1) = map (\<lambda>i. (text_key (update_key i), StDict i)) items" by (simp only: s1) simp
  note ih = Cons.IH [OF this _ _ n(2)]
  have absent: "map_of (map (\<lambda>i. (update_key i, i)) items) (update_key i) = None"
    using Cons.prems(2) by (auto simp: map_of_eq_None_iff)
  show ?case using ih Cons.prems(2,3) absent unfolding step s1(1)
    by (auto simp: dget_dset split: option.splits)
qed

text \<open>Draining reports the latest of each tag.  However many tag updates were put since the queue was last empty, draining with a
  limit of at least their number empties the queue, and afterwards the row of each tag is its old row updated with
  the last update put for it; the rows of the other tags are unchanged.\<close>

theorem drain_reports_latest:
  assumes "sq_items (rm_status s) = []" "list_all plain_update items" "length items \<le> n"
  shows "let s' = snd (drain_events env n (s\<lparr>rm_status := fold sq_put (map StDict items) (rm_status s)\<rparr>)) in
    sq_items (rm_status s') = [] \<and>
    (\<forall>k. dget (rm_tags s') k = (case map_of (rev (map (\<lambda>i. (update_key i, i)) items)) k of
       None \<Rightarrow> dget (rm_tags s) k
     | Some i \<Rightarrow> Some (dupdate (case dget (rm_tags s) k of None \<Rightarrow> [] | Some d \<Rightarrow> d) i)))"
proof -
  define kvs where "kvs = keep_last (map (\<lambda>i. (update_key i, i)) items)"
  define kept where "kept = map snd kvs"
  have keyed: "fst p = update_key (snd p) \<and> plain_update (snd p)" if "p \<in> set kvs" for p
    using that keep_last_subset [of "map (\<lambda>i. (update_key i, i)) items"] assms(2) by (auto simp: kvs_def list_all_iff)
  then have kvs: "kvs = map (\<lambda>i. (update_key i, i)) kept"
    unfolding kept_def by (simp add: map_idI prod_eq_iff)
  have len: "length (keep_last xs) \<le> length xs" for xs :: "((string \<times> string) \<times> settings) list"
    by (induction xs rule: keep_last.induct) (simp_all add: le_SucI)
  let ?s = "s\<lparr>rm_status := fold sq_put (map StDict items) (rm_status s)\<rparr>"
  have "sq_items (rm_status ?s) = keep_last (map (\<lambda>i. (text_key (update_key i), StDict i)) items)"
    using status_queue.put_all [of "rm_status s" "map (\<lambda>i. (text_key (update_key i), StDict i)) items"] assms(1)
    by (simp add: put_updates [OF assms(2)])
  also have "\<dots> = map (\<lambda>(k, v). (text_key k, StDict v)) kvs"
    using keep_last_map [OF text_key_inj, of StDict "map (\<lambda>i. (update_key i, i)) items"] by (simp add: kvs_def o_def)
  finally have queue: "sq_items (rm_status ?s) = map (\<lambda>i. (text_key (update_key i), StDict i)) kept"
    by (simp add: kvs o_def)
  have "distinct (map fst kvs)" using keep_last_dwf by (simp add: kvs_def dwf_def)
  then have d: "distinct (map update_key kept)" by (simp add: kvs o_def)
  have p: "list_all plain_update kept" using keyed by (auto simp: kept_def list_all_iff)
  have l: "length kept \<le> n" using len [of "map (\<lambda>i. (update_key i, i)) items"] assms(3) by (simp add: kept_def kvs_def)
  have m: "map_of (map (\<lambda>i. (update_key i, i)) kept) = map_of (rev (map (\<lambda>i. (update_key i, i)) items))"
    using map_of_keep_last [of "map (\<lambda>i. (update_key i, i)) items"] by (simp add: kvs [symmetric] kvs_def)
  have "rm_tags (snd (drain_events env n t)) = rm_tags (snd (drain_status n t))"
    "rm_status (snd (drain_events env n t)) = rm_status (snd (drain_status n t))" for t
    by (auto simp: drain_events_def show_lines_def Let_def split: prod.split sum.split)
  moreover have "rm_tags ?s = rm_tags s" by simp
  ultimately show ?thesis unfolding Let_def using drain_updates [OF queue d p l] by (simp only: m simp_thms)
qed

section \<open>A sample gateway\<close>

definition sample_runtime_env :: runtime_env where
  "sample_runtime_env = \<lparr>re_drivers = [(''modbus_tcp'', ModbusTcpDriver)], re_sinks = [(''mqtt'', MqttSink)],
     re_resolver = (\<lambda>mac c. Inl ''no answer''), re_now = noon, re_plugins = None, re_responder = [],
     re_log_dirs = \<lparr>ld_runtime = None, ld_error = None, ld_audit = None\<rparr>, re_disk = (\<lambda>p. True), re_local_time = ''2026-05-16T21:00:00''\<rparr>"

definition sample_gateway :: "string \<Rightarrow> db" where
  "sample_gateway driver_type = empty_db\<lparr>db_devices := [(7, (sample_device [])\<lparr>dev_driver_type := driver_type\<rparr>)],
     db_next_device := 8, db_sinks := [(''mqtt'', True, [(''topic_request_on_start'', VBool False), (''topic_refresh_interval_s'', VInt 0)])]\<rparr>"

definition sample_start :: "string \<Rightarrow> settings res \<times> db \<times> runtime" where
  "sample_start driver_type = rm_start sample_runtime_env None None (sample_gateway driver_type, new_runtime)"

lemmas sample_gateway_defs = sample_runtime_env_def sample_gateway_def empty_db_def new_runtime_def sample_device_def
  get_sink_config_def get_selected_sink_type_def list_devices_def list_tags_def list_output_routes_def dvalues_def

lemma sample_prepare:
  "rm_prepare sample_runtime_env None None (sample_gateway d, new_runtime) = (Inr (), sample_gateway d, prepare_start None None (sample_gateway d) new_runtime)"
  by (simp add: rm_prepare_def wants_topics_def bool_config_def sample_gateway_defs)

lemma sample_publisher:
  "\<exists>p. make_publisher sample_runtime_env (get_sink_config None (sample_gateway d)) (sample_gateway d) = Inr p"
  by (simp add: make_publisher_def make_sink_def registry_get_def normalize_key_def py_lower_def lower_char_def str_simps is_space_def
      mqtt_sink_config_def optional_text_def item_get_def output_routes_def float_config_def sample_gateway_defs Let_def)

lemma sample_devices:
  "list_devices (sample_gateway d) = [(sample_device [])\<lparr>dev_driver_type := d\<rparr>]"
  by (simp add: sample_gateway_defs)

lemma new_runtime_balanced: "rm_balanced new_runtime" "\<not> rm_running new_runtime"
  by (simp_all add: rm_balanced_def new_runtime_def threads_after_def)

lemma sample_enabled: "dev_enabled ((sample_device [])\<lparr>dev_driver_type := d\<rparr>)" "dev_enabled (sample_device c)"
  by (simp_all add: sample_device_def)

lemma sample_start_ok: "\<exists>x. sample_start ''modbus_tcp'' = (Inr x, snd (sample_start ''modbus_tcp''))"
proof -
  obtain p where p: "make_publisher sample_runtime_env (get_sink_config None (sample_gateway ''modbus_tcp'')) (sample_gateway ''modbus_tcp'') = Inr p"
    using sample_publisher by blast
  have "float_config (sk_config (get_sink_config None (sample_gateway ''modbus_tcp''))) ''topic_refresh_interval_s'' (whole_float 300) = Inr fl_zero"
    by (simp add: float_config_def int_to_float_def fl_of_int_def fl_round_def fl_zero_def sample_gateway_defs)
  moreover have "fl_le fl_zero fl_zero" by (simp add: fl_zero_def)
  moreover have "registry_get ''modbus_tcp'' (re_drivers sample_runtime_env) = Inr ModbusTcpDriver"
    by (simp add: registry_get_def normalize_key_def py_lower_def lower_char_def str_simps is_space_def sample_runtime_env_def)
  ultimately show ?thesis
    by (simp add: sample_start_def rm_start_def sample_prepare p start_threads_def start_topic_refresh_thread_def sample_devices
        start_device_def new_runtime_balanced(2) sample_enabled Let_def)
qed

lemma sample_start_parts:
  obtains x db' s' where "rm_start sample_runtime_env None None (sample_gateway ''modbus_tcp'', new_runtime) = (Inr x, db', s')"
    "sample_start ''modbus_tcp'' = (Inr x, db', s')"
  using sample_start_ok by (cases "sample_start ''modbus_tcp''") (auto simp: sample_start_def)


lemma runtime_threads_balanced_witness:
  "\<exists>db s. (rm_step sample_runtime_env)\<^sup>*\<^sup>* (sample_gateway ''modbus_tcp'', new_runtime) (db, s) \<and> rm_trace s \<noteq> [] \<and>
    threads_after (rm_trace s) = Some (if rm_running s then mset (threads_of s) else {#}, {#}) \<and>
    threads_after (rm_trace (snd (rm_stop s))) = Some ({#}, {#}) \<and> length (rm_lines s) \<le> 500"
proof (rule sample_start_parts)
  fix x db' s'
  assume s': "rm_start sample_runtime_env None None (sample_gateway ''modbus_tcp'', new_runtime) = (Inr x, db', s')"
  then have steps: "(rm_step sample_runtime_env)\<^sup>*\<^sup>* (sample_gateway ''modbus_tcp'', new_runtime) (db', s')"
    by (blast intro: rm_step.start)
  obtain p s2 where st: "start_threads sample_runtime_env (get_sink_config None (sample_gateway ''modbus_tcp'')) db' p s2 = (Inr x, s')"
    using rm_start_ok [OF s' new_runtime_balanced(2)] by metis
  have "threads_after (rm_trace s') = Some (mset (threads_of s'), {#})"
    using start_balanced [OF s' new_runtime_balanced(1)] start_threads_ok(1) [OF st] by (simp add: rm_balanced_def)
  moreover have "threads_of s' \<noteq> []" using start_threads_ok(2) [OF st] by (simp add: threads_of_def)
  ultimately have "rm_trace s' \<noteq> []" by (auto simp: threads_after_def)
  then show ?thesis using runtime_threads_balanced [OF steps] steps by blast
qed

lemma failed_start_leaks_publisher_witness:
  "\<exists>e db2 s'. rm_start sample_runtime_env None None (sample_gateway ''bacnet'', new_runtime) = (Inl e, db2, s') \<and> \<not> rm_running s' \<and>
    never_told PublisherThread (rm_trace s') \<and> snd (rm_stop s') = s'"
proof -
  obtain p where p: "make_publisher sample_runtime_env (get_sink_config None (sample_gateway ''bacnet'')) (sample_gateway ''bacnet'') = Inr p"
    using sample_publisher by blast
  have d: "(sample_device [])\<lparr>dev_driver_type := ''bacnet''\<rparr> \<in> set (list_devices (sample_gateway ''bacnet''))"
    "dev_enabled ((sample_device [])\<lparr>dev_driver_type := ''bacnet''\<rparr>)"
    by (simp_all add: sample_devices) (simp add: sample_device_def)
  have "\<exists>e. registry_get (dev_driver_type ((sample_device [])\<lparr>dev_driver_type := ''bacnet''\<rparr>)) (re_drivers sample_runtime_env) = Inl e"
    by (simp add: registry_get_def normalize_key_def py_lower_def lower_char_def str_simps is_space_def sample_runtime_env_def)
  then show ?thesis using failed_start_leaks_publisher [OF new_runtime_balanced(2) sample_prepare p d] by blast
qed

definition sample_update :: "string \<Rightarrow> settings" where
  "sample_update q = [(''type'', VStr ''tag_update''), (''device'', VStr ''boiler plc''), (''tag'', VStr ''flow''), (''quality'', VStr q)]"

lemma drain_reports_latest_witness:
  "let s' = snd (drain_events sample_runtime_env 1000 (new_runtime\<lparr>rm_status :=
      fold sq_put (map StDict [sample_update ''bad'', sample_update ''good'']) (rm_status new_runtime)\<rparr>)) in
    sq_items (rm_status s') = [] \<and>
    (\<forall>k. dget (rm_tags s') k = (case map_of (rev (map (\<lambda>i. (update_key i, i)) [sample_update ''bad'', sample_update ''good''])) k of
       None \<Rightarrow> dget (rm_tags new_runtime) k
     | Some i \<Rightarrow> Some (dupdate (case dget (rm_tags new_runtime) k of None \<Rightarrow> [] | Some d \<Rightarrow> d) i)))"
  by (rule drain_reports_latest)
    (simp_all add: new_runtime_def empty_status_queue_def sample_update_def plain_update_def item_get_def or_val_def)

end
