(* ===== verification/Topic_Service.thy ===== *)
theory Topic_Service
  imports Sinks Logging Output_Routes
begin

text \<open>
  Asking for topics over MQTT: \<open>TopicResponder\<close> of \<^verbatim>\<open>src/industrial_gateway/services/topic_responder.py\<close>, which answers
  from a database view, and \<open>request_topic_by_mac\<close> of \<^verbatim>\<open>src/industrial_gateway/services/topic_request_client.py\<close>, which
  asks. The MQTT clients are broker parameters, the database is a parameter that answers each statement; the values of
  its rows are JSON values. A message is its text, or the error of decoding its bytes.
\<close>

section \<open>JSON in ASCII\<close>

text \<open>\<open>json.dumps\<close> with its default \<open>ensure_ascii=True\<close>: the text written without it, with an escape for every character
  outside the printable ASCII ones. The characters are read from their UTF-8 bytes.\<close>

definition u_escape :: "nat \<Rightarrow> string" where
  "u_escape n = [char_of (92 :: nat), CHR ''u'', hex_digit (n div 4096), hex_digit (n div 256 mod 16),
     hex_digit (n div 16 mod 16), hex_digit (n mod 16)]"

definition code_point_escape :: "nat \<Rightarrow> string" where
  "code_point_escape n = (if n < 0x10000 then u_escape n
     else u_escape (0xD800 + (n - 0x10000) div 1024) @ u_escape (0xDC00 + (n - 0x10000) mod 1024))"

definition continue_utf8 :: "nat \<Rightarrow> string \<Rightarrow> nat" where
  "continue_utf8 n s = fold (\<lambda>c a. a * 64 + of_char c mod 64) s n"

function ascii_json :: "string \<Rightarrow> string" where
  "ascii_json s = (case s of [] \<Rightarrow> []
     | c # r \<Rightarrow> (let n = of_char c :: nat; k = (if n < 0xC0 then 0 else if n < 0xE0 then 1 else if n < 0xF0 then 2 else 3) in
         if n < 127 then c # ascii_json r
         else code_point_escape (continue_utf8 (if k = 0 then n else if k = 1 then n mod 32 else if k = 2 then n mod 16 else n mod 8) (take k r)) @
           ascii_json (drop k r)))"
  by pat_completeness auto
termination by (relation "measure length") (auto split: if_splits)

declare ascii_json.simps [simp del]

section \<open>The responder\<close>

definition request_topic :: string where "request_topic = ''C-S/request-topic''"
definition request_sensor_code :: string where "request_sensor_code = ''C-S/request-sensor_cd''"

record responder_config =
  rc_db_host :: string
  rc_db_port :: int
  rc_db_name :: string
  rc_db_user :: string
  rc_db_password :: string
  rc_db_timeout :: int
  rc_mqtt_host :: string
  rc_mqtt_port :: int
  rc_keepalive :: int
  rc_refresh :: pyfloat

definition int_env :: "(string, string) pydict \<Rightarrow> string \<Rightarrow> int \<Rightarrow> int" where
  "int_env e key dflt = (case dget e key of None \<Rightarrow> dflt
     | Some s \<Rightarrow> (case parse_int s of None \<Rightarrow> dflt | Some i \<Rightarrow> i))"

definition float_env :: "(string, string) pydict \<Rightarrow> string \<Rightarrow> pyfloat \<Rightarrow> pyfloat" where
  "float_env e key dflt = (case dget e key of None \<Rightarrow> dflt
     | Some s \<Rightarrow> (case parse_float s of None \<Rightarrow> dflt | Some x \<Rightarrow> x))"

definition env_text :: "(string, string) pydict \<Rightarrow> string \<Rightarrow> string \<Rightarrow> string" where
  "env_text e key dflt = (case dget e key of None \<Rightarrow> dflt | Some s \<Rightarrow> s)"

definition responder_config_from_env :: "(string, string) pydict \<Rightarrow> responder_config" where
  "responder_config_from_env e =
     \<lparr>rc_db_host = env_text e ''DB_HOST'' ''127.0.0.1'', rc_db_port = int_env e ''DB_PORT'' 5432,
      rc_db_name = env_text e ''DB_NAME'' ''edge_hmi'', rc_db_user = env_text e ''DB_USER'' ''admin'',
      rc_db_password = env_text e ''DB_PASSWORD'' ''1q2w3e4r'', rc_db_timeout = int_env e ''DB_CONNECT_TIMEOUT'' 5,
      rc_mqtt_host = env_text e ''MQTT_HOST'' ''127.0.0.1'', rc_mqtt_port = int_env e ''MQTT_PORT'' 1883,
      rc_keepalive = int_env e ''MQTT_KEEPALIVE'' 60,
      rc_refresh = float_env e ''TOPIC_RESPONDER_MAPPING_REFRESH_S'' (fl_ratio False 60 1)\<rparr>"

text \<open>A database answers a connection, asked for with the parameters of \<open>psycopg.connect\<close>, and then each statement with its
  columns and rows. A column has a name, or is a sequence that starts with it.\<close>

type_synonym db_column = "string option \<times> pyval"

record topic_db =
  td_connect :: "settings \<Rightarrow> exn option"
  td_query :: "string \<Rightarrow> pyval list \<Rightarrow> exn + (db_column list \<times> pyval list list)"

record responder =
  tr_map :: "(string, settings) pydict"
  tr_client :: bool
  tr_stopped :: bool
  tr_calls :: "mqtt_call list"

definition new_responder :: responder where
  "new_responder = \<lparr>tr_map = [], tr_client = False, tr_stopped = False, tr_calls = []\<rparr>"

definition column_name :: "db_column \<Rightarrow> string" where
  "column_name c = (if has_text (fst c) then the (fst c) else py_str (snd c))"

definition rows_to_dicts :: "db_column list \<Rightarrow> pyval list list \<Rightarrow> settings list" where
  "rows_to_dicts columns rows = map (\<lambda>row. dupdate [] (zip (map column_name columns) row)) rows"

definition db_parameters :: "responder_config \<Rightarrow> settings" where
  "db_parameters c = [(''host'', VStr (rc_db_host c)), (''port'', VInt (rc_db_port c)), (''dbname'', VStr (rc_db_name c)),
     (''user'', VStr (rc_db_user c)), (''password'', VStr (rc_db_password c)), (''connect_timeout'', VInt (rc_db_timeout c))]"

definition fetch_rows :: "topic_db \<Rightarrow> responder_config \<Rightarrow> string \<Rightarrow> pyval list \<Rightarrow> exn + settings list" where
  "fetch_rows db c sql params = (case td_connect db (db_parameters c) of
     Some e \<Rightarrow> Inl e
   | None \<Rightarrow> (case td_query db ''SET search_path TO core, public'' [] of
       Inl e \<Rightarrow> Inl e
     | Inr _ \<Rightarrow> map_sum id (\<lambda>(columns, rows). rows_to_dicts columns rows) (td_query db sql params)))"

definition fetch_mapping_rows :: "topic_db \<Rightarrow> responder_config \<Rightarrow> exn + settings list" where
  "fetch_mapping_rows db c = fetch_rows db c
     ''SELECT mac_address, process_type, line_code, equip_name, plant_bd, plant_cd FROM v_topic_mapping;'' []"

definition fetch_sensor_rows :: "topic_db \<Rightarrow> responder_config \<Rightarrow> string \<Rightarrow> exn + settings list" where
  "fetch_sensor_rows db c mac = fetch_rows db c
     (''SELECT * FROM sensor_mst WHERE mac_address = '' @ [CHR ''%'', CHR ''s''] @ '';'') [VStr mac]"

definition refresh_mapping_once :: "topic_db \<Rightarrow> responder_config \<Rightarrow> responder \<Rightarrow> exn option \<times> responder" where
  "refresh_mapping_once db c s = (case fetch_mapping_rows db c of
     Inl e \<Rightarrow> (Some e, s)
   | Inr rows \<Rightarrow> (None, s\<lparr>tr_map := dupdate [] (map (\<lambda>row. (py_str (item_get row ''mac_address''), row))
       (filter (\<lambda>row. truthy (item_get row ''mac_address'')) rows))\<rparr>))"

text \<open>Calls of the client, up to the first that raises.\<close>

fun tr_do :: "mqtt_broker \<Rightarrow> mqtt_call list \<Rightarrow> responder \<Rightarrow> exn option \<times> responder" where
  "tr_do b [] s = (None, s)"
| "tr_do b (k # ks) s = (let s1 = s\<lparr>tr_calls := tr_calls s @ [k]\<rparr> in
     case b (tr_calls s) k of Inl e \<Rightarrow> (Some e, s1) | Inr _ \<Rightarrow> tr_do b ks s1)"

definition tr_publish :: "mqtt_broker \<Rightarrow> string \<Rightarrow> pyval \<Rightarrow> responder \<Rightarrow> exn option \<times> responder" where
  "tr_publish b topic payload s =
     (let send = Send topic (json_dumps '', '' '': '' payload) 0 in
      if tr_client s then tr_do b [send] s
      else (case tr_do b [NewClient []] s of
          (Some e, s1) \<Rightarrow> (Some e, s1)
        | (None, s1) \<Rightarrow> tr_do b [send] (s1\<lparr>tr_client := True\<rparr>)))"

definition mapped_topic :: "(string, settings) pydict \<Rightarrow> string \<Rightarrow> string" where
  "mapped_topic m mac = (case dget m mac of
     Some (p # r) \<Rightarrow> (let g = (\<lambda>k. py_str (item_get (p # r) k)) in
       g ''plant_cd'' @ ''/'' @ g ''plant_bd'' @ ''/'' @ g ''process_type'' @ ''/'' @ g ''line_code'' @ ''/'' @
       g ''equip_name'' @ ''/-/'')
   | _ \<Rightarrow> ''Unknown MAC'')"

definition publish_topic_response :: "mqtt_broker \<Rightarrow> string \<Rightarrow> responder \<Rightarrow> exn option \<times> responder" where
  "publish_topic_response b mac s =
     tr_publish b (''S-C/request-topic/'' @ mac) (VDict [(''topic'', VStr (mapped_topic (tr_map s) mac))]) s"

definition publish_sensor_code_response ::
  "mqtt_broker \<Rightarrow> topic_db \<Rightarrow> responder_config \<Rightarrow> string \<Rightarrow> responder \<Rightarrow> exn option \<times> responder" where
  "publish_sensor_code_response b db c mac s = (case fetch_sensor_rows db c mac of
     Inl e \<Rightarrow> (Some e, s)
   | Inr rows \<Rightarrow> tr_publish b (''S-C/request-sensor_cd/'' @ mac) (VList (map VDict rows)) s)"

definition handle_payload ::
  "mqtt_broker \<Rightarrow> topic_db \<Rightarrow> responder_config \<Rightarrow> string \<Rightarrow> string + string \<Rightarrow> responder \<Rightarrow> exn option \<times> responder" where
  "handle_payload b db c topic payload s =
     (case (case payload of Inl _ \<Rightarrow> None | Inr t \<Rightarrow> json_loads t) of
        None \<Rightarrow> (None, s)
      | Some v \<Rightarrow> (case data_dict v of
            Inl e \<Rightarrow> (Some (raised [(''topic_responder.py'', 144, ''_on_message''), (''topic_responder.py'', 91, ''handle_payload'')] e), s)
          | Inr d \<Rightarrow> (let mac = py_strip (py_str (or_val (item_get d ''mac'') (VStr []))) in
              if mac = [] then (None, s)
              else if topic = request_topic then publish_topic_response b mac s
              else if topic = request_sensor_code then publish_sensor_code_response b db c mac s
              else (None, s))))"

definition tr_on_connect :: "mqtt_broker \<Rightarrow> int \<Rightarrow> responder \<Rightarrow> exn option \<times> responder" where
  "tr_on_connect b rc s = (if rc = 0 then tr_do b [Subscribe request_topic 0, Subscribe request_sensor_code 0] s else (None, s))"

subsection \<open>The thread\<close>

definition tr_stop :: "responder \<Rightarrow> responder" where
  "tr_stop s = s\<lparr>tr_stopped := True\<rparr>"

text \<open>What happens between two waits of the thread: the client's callbacks, whose exceptions stay in the client's thread.\<close>

datatype responder_event = Received string "string + string" | Acknowledged int

fun tr_event :: "mqtt_broker \<Rightarrow> topic_db \<Rightarrow> responder_config \<Rightarrow> responder_event \<Rightarrow> responder \<Rightarrow> responder" where
  "tr_event b db c (Received topic payload) s = snd (handle_payload b db c topic payload s)"
| "tr_event b db c (Acknowledged rc) s = snd (tr_on_connect b rc s)"

text \<open>Rounds: the events before a wait ends, and the database at the refresh that follows. The thread ends when it is stopped
  or a refresh raises, and then stops the client.\<close>

fun tr_rounds ::
  "mqtt_broker \<Rightarrow> responder_config \<Rightarrow> (responder_event list \<times> topic_db) list \<Rightarrow> responder \<Rightarrow> exn option \<times> responder" where
  "tr_rounds b c [] s = (None, s)"
| "tr_rounds b c ((es, db) # rs) s = (let s1 = fold (tr_event b db c) es s in
     if tr_stopped s1 then (None, s1)
     else (case refresh_mapping_once db c s1 of
         (Some e, s2) \<Rightarrow> (Some e, s2)
       | (None, s2) \<Rightarrow> tr_rounds b c rs s2))"

definition tr_finally :: "mqtt_broker \<Rightarrow> exn option \<times> responder \<Rightarrow> exn option \<times> responder" where
  "tr_finally b r = (case tr_do b [LoopStop, Disconnect] (snd r) of
     (Some e, s) \<Rightarrow> (Some e, s) | (None, s) \<Rightarrow> (fst r, s))"

definition responder_run ::
  "mqtt_broker \<Rightarrow> topic_db \<Rightarrow> responder_config \<Rightarrow> (responder_event list \<times> topic_db) list \<Rightarrow> responder \<Rightarrow> exn option \<times> responder" where
  "responder_run b db c rounds s = (case refresh_mapping_once db c s of
     (Some e, s1) \<Rightarrow> (Some e, s1)
   | (None, s1) \<Rightarrow> (case tr_do b [NewClient []] s1 of
       (Some e, s2) \<Rightarrow> (Some e, s2)
     | (None, s2) \<Rightarrow> (case tr_do b [ConnectKeepalive (rc_mqtt_host c) (rc_mqtt_port c) (rc_keepalive c), LoopStart] (s2\<lparr>tr_client := True\<rparr>) of
         (Some e, s3) \<Rightarrow> (Some e, s3)
       | (None, s3) \<Rightarrow> tr_finally b (tr_rounds b c rounds s3))))"

section \<open>The request\<close>

record topic_answer =
  ta_topic :: string
  ta_count :: int
  ta_topic_set :: bool
  ta_sensor_set :: bool

definition no_answer :: topic_answer where
  "no_answer = \<lparr>ta_topic = [], ta_count = 0, ta_topic_set = False, ta_sensor_set = False\<rparr>"

text \<open>The callback; a payload that is no JSON raises in the client's thread.\<close>

definition take_answer :: "string \<Rightarrow> string \<times> string \<Rightarrow> topic_answer \<Rightarrow> topic_answer" where
  "take_answer mac m s = (case json_loads (snd m) of
     None \<Rightarrow> s
   | Some v \<Rightarrow>
       (if fst m = ''S-C/request-topic/'' @ mac \<and> v = VDict (dict_of v)
        then s\<lparr>ta_topic := py_str (or_val (item_get (dict_of v) ''topic'') (VStr [])), ta_topic_set := True\<rparr>
        else if fst m = ''S-C/request-sensor_cd/'' @ mac \<and> v = VList (list_of v)
        then s\<lparr>ta_count := int (length (list_of v)), ta_sensor_set := True\<rparr>
        else s))"

fun client_do :: "mqtt_broker \<Rightarrow> mqtt_call list \<Rightarrow> mqtt_call list \<Rightarrow> exn option \<times> mqtt_call list" where
  "client_do b [] cs = (None, cs)"
| "client_do b (k # ks) cs = (case b cs k of Inl e \<Rightarrow> (Some e, cs @ [k]) | Inr _ \<Rightarrow> client_do b ks (cs @ [k]))"

definition mac_request :: "string \<Rightarrow> string" where
  "mac_request mac = ascii_json (json_dumps '', '' '': '' (VDict [(''mac'', VStr mac)]))"

definition request_client :: "int \<Rightarrow> settings \<Rightarrow> mqtt_call list" where
  "request_client millis c =
     NewClient (py_str (or_val (item_get c ''client_id'') (VStr ''industrial-gateway'')) @ ''-topic-request-'' @ show_int millis) #
     (if truthy (item_get c ''username'')
      then [SetLogin (py_str (item_get c ''username''))
        (if truthy (item_get c ''password'') then Some (py_str (item_get c ''password'')) else None)]
      else [])"

text \<open>The body of the \<open>try\<close>; \<open>first\<close> and \<open>second\<close> are the messages that arrive during its two waits.\<close>

definition request_body ::
  "mqtt_broker \<Rightarrow> string \<Rightarrow> settings \<Rightarrow> (string \<times> string) list \<Rightarrow> (string \<times> string) list \<Rightarrow> mqtt_call list \<Rightarrow>
     (exn + settings) \<times> mqtt_call list" where
  "request_body b mac c first second cs =
     (let frames = [(''topic_request_client.py'', 39, ''request_topic_by_mac'')] in
      case py_int (or_val (item_get c ''port'') (VInt 1883)) of
        Inl e \<Rightarrow> (Inl (raised frames e), cs)
      | Inr port \<Rightarrow>
          (case client_do b [Connect (py_str (or_val (item_get c ''host'') (VStr ''localhost''))) port,
               SubscribeAll [(''S-C/request-topic/'' @ mac, 2), (''S-C/request-sensor_cd/'' @ mac, 2)], LoopStart,
               Send request_topic (mac_request mac) 2] cs of
             (Some e, cs1) \<Rightarrow> (Inl e, cs1)
           | (None, cs1) \<Rightarrow>
               (let s1 = fold (take_answer mac) first no_answer in
                if \<not> ta_topic_set s1
                then (Inl \<lparr>ex_text = ''topic response timeout for '' @ mac, ex_type = ''TimeoutError'',
                    ex_repr = ''TimeoutError('' @ repr_str (''topic response timeout for '' @ mac) @ '')'',
                    ex_frames = [(''topic_request_client.py'', 44, ''request_topic_by_mac'')]\<rparr>, cs1)
                else (case client_do b [Send request_sensor_code (mac_request mac) 2] cs1 of
                    (Some e, cs2) \<Rightarrow> (Inl e, cs2)
                  | (None, cs2) \<Rightarrow>
                      (let s2 = fold (take_answer mac) second s1 in
                       (Inr [(''topic'', VStr (ta_topic s2)), (''sensor_count'', VInt (ta_count s2))], cs2))))))"

definition request_topic_by_mac ::
  "mqtt_broker \<Rightarrow> int \<Rightarrow> string \<Rightarrow> settings \<Rightarrow> (string \<times> string) list \<Rightarrow> (string \<times> string) list \<Rightarrow>
     (exn + settings) \<times> mqtt_call list" where
  "request_topic_by_mac b millis mac_address c first second =
     (let mac = py_strip mac_address in
      if mac = []
      then (Inl (raised [(''topic_request_client.py'', 17, ''request_topic_by_mac'')] (Raise ValueError ''mac_address is required'')), [])
      else (case client_do b (request_client millis c) [] of
          (Some e, cs) \<Rightarrow> (Inl e, cs)
        | (None, cs) \<Rightarrow>
            (let (r, cs1) = request_body b mac c first second cs in
             case client_do b [LoopStop, Disconnect] cs1 of
               (Some e, cs2) \<Rightarrow> (Inl e, cs2)
             | (None, cs2) \<Rightarrow> (r, cs2))))"

end
