(* ===== verification/Topic_Props.thy ===== *)
theory Topic_Props
  imports Topic_Service Output_Routes_Props
begin

text \<open>
  The topic request and the responder understand one another, and what becomes of their answer in the configuration; the
  responder does not outlive its database.
\<close>

section \<open>Request and answer\<close>

lemma ascii_json_id: "list_all (\<lambda>c. of_char c < (127 :: nat)) s \<Longrightarrow> ascii_json s = s"
proof (induction s)
  case Nil
  then show ?case by (simp add: ascii_json.simps)
next
  case (Cons c s)
  then show ?case by (simp add: ascii_json.simps [of "c # s"])
qed

lemma hex_digit_ascii: "n < 16 \<Longrightarrow> of_char (hex_digit n) < (127 :: nat)"
  by (simp add: hex_digit_def digit_char_def)

lemma json_char_ascii: "of_char c < (127 :: nat) \<Longrightarrow> list_all (\<lambda>c. of_char c < (127 :: nat)) (json_char c)"
  by (simp add: json_char_def Let_def hex_digit_ascii)

definition ascii_text :: "string \<Rightarrow> bool" where
  "ascii_text s \<longleftrightarrow> list_all (\<lambda>c. of_char c < (127 :: nat)) s"

lemma mac_request_text:
  assumes "ascii_text mac"
  shows "mac_request mac = json_dumps '', '' '': '' (VDict [(''mac'', VStr mac)])"
proof -
  have "list_all (\<lambda>c. of_char c < (127 :: nat)) (concat (map json_char mac))"
    using assms by (induction mac) (simp_all add: ascii_text_def json_char_ascii)
  then show ?thesis unfolding mac_request_def
    by (intro ascii_json_id) (simp add: json_string_def json_char_def)
qed

lemma plain_separators: "json_separators '', '' '': ''"
  by (simp add: json_separators_def json_space_def)

lemma request_read:
  assumes "ascii_text mac"
  shows "json_loads (mac_request mac) = Some (VDict [(''mac'', VStr mac)])"
  unfolding mac_request_text [OF assms] by (rule json_loads_dumps [OF plain_separators]) (simp add: dwf_def)

lemma tr_do_ok: "accepts_all b \<Longrightarrow> tr_do b ks s = (None, s\<lparr>tr_calls := tr_calls s @ ks\<rparr>)"
  by (induction ks arbitrary: s) (simp_all add: accepts_all_def)

lemma client_do_ok: "accepts_all b \<Longrightarrow> client_do b ks cs = (None, cs @ ks)"
  by (induction ks arbitrary: cs) (simp_all add: accepts_all_def)

text \<open>The answers the responder sends for a MAC address.\<close>

definition topic_reply :: "(string, settings) pydict \<Rightarrow> string \<Rightarrow> string" where
  "topic_reply m mac = json_dumps '', '' '': '' (VDict [(''topic'', VStr (mapped_topic m mac))])"

definition sensor_reply :: "settings list \<Rightarrow> string" where
  "sensor_reply rows = json_dumps '', '' '': '' (VList (map VDict rows))"

lemma responder_answers:
  assumes "accepts_all b" "tr_client s" "ascii_text mac" "py_strip mac = mac" "mac \<noteq> []" "fetch_sensor_rows db c mac = Inr sensors"
  shows "handle_payload b db c request_topic (Inr (mac_request mac)) s =
      (None, s\<lparr>tr_calls := tr_calls s @ [Send (''S-C/request-topic/'' @ mac) (topic_reply (tr_map s) mac) 0]\<rparr>)"
    and "handle_payload b db c request_sensor_code (Inr (mac_request mac)) s =
      (None, s\<lparr>tr_calls := tr_calls s @ [Send (''S-C/request-sensor_cd/'' @ mac) (sensor_reply sensors) 0]\<rparr>)"
proof -
  have d: "data_dict (VDict [(''mac'', VStr mac)]) = Inr [(''mac'', VStr mac)]" by simp
  have t: "request_sensor_code \<noteq> request_topic" by (simp add: request_sensor_code_def request_topic_def)
  show "handle_payload b db c request_topic (Inr (mac_request mac)) s =
      (None, s\<lparr>tr_calls := tr_calls s @ [Send (''S-C/request-topic/'' @ mac) (topic_reply (tr_map s) mac) 0]\<rparr>)"
    "handle_payload b db c request_sensor_code (Inr (mac_request mac)) s =
      (None, s\<lparr>tr_calls := tr_calls s @ [Send (''S-C/request-sensor_cd/'' @ mac) (sensor_reply sensors) 0]\<rparr>)"
    using assms t
    by (simp_all add: handle_payload_def request_read d item_get_def or_val_def publish_topic_response_def tr_publish_def tr_do_ok
        topic_reply_def publish_sensor_code_response_def sensor_reply_def Let_def del: tr_do.simps json_dumps.simps)
qed

lemma replies_taken:
  assumes "list_all (\<lambda>r. json_ok (VDict r)) sensors"
  shows "take_answer mac (''S-C/request-topic/'' @ mac, topic_reply m mac) a = a\<lparr>ta_topic := mapped_topic m mac, ta_topic_set := True\<rparr>"
    "take_answer mac (''S-C/request-sensor_cd/'' @ mac, sensor_reply sensors) a = a\<lparr>ta_count := int (length sensors), ta_sensor_set := True\<rparr>"
proof -
  have "json_loads (topic_reply m mac) = Some (VDict [(''topic'', VStr (mapped_topic m mac))])"
    unfolding topic_reply_def by (rule json_loads_dumps [OF plain_separators]) (simp add: dwf_def)
  then show "take_answer mac (''S-C/request-topic/'' @ mac, topic_reply m mac) a = a\<lparr>ta_topic := mapped_topic m mac, ta_topic_set := True\<rparr>"
    by (simp add: take_answer_def item_get_def or_val_def)
  have "json_loads (sensor_reply sensors) = Some (VList (map VDict sensors))"
    unfolding sensor_reply_def by (rule json_loads_dumps [OF plain_separators]) (use assms in \<open>simp add: list_all_iff\<close>)
  then show "take_answer mac (''S-C/request-sensor_cd/'' @ mac, sensor_reply sensors) a = a\<lparr>ta_count := int (length sensors), ta_sensor_set := True\<rparr>"
    by (simp add: take_answer_def)
qed

text \<open>C21: The topic request gets the responder's topic.  For an ASCII MAC address without outer blanks, a connected responder handles
  each of the client's two requests by sending one reply; and when these replies reach the client, on a broker
  that accepts its calls, the request returns the topic the responder's map has for the address (or its words
  \<open>Unknown MAC\<close>) with the number of sensor rows, and has stopped and disconnected its client.\<close>

theorem topic_request_answered:
  assumes "accepts_all b" "accepts_all b'" "tr_client s" "ascii_text mac" "py_strip mac = mac" "mac \<noteq> []"
    and "fetch_sensor_rows db c mac = Inr sensors" "list_all (\<lambda>r. json_ok (VDict r)) sensors"
    and "py_int (or_val (item_get cfg ''port'') (VInt 1883)) = Inr port"
  shows "\<exists>p1 p2 cs.
    handle_payload b db c request_topic (Inr (mac_request mac)) s =
      (None, s\<lparr>tr_calls := tr_calls s @ [Send (''S-C/request-topic/'' @ mac) p1 0]\<rparr>) \<and>
    handle_payload b db c request_sensor_code (Inr (mac_request mac)) s =
      (None, s\<lparr>tr_calls := tr_calls s @ [Send (''S-C/request-sensor_cd/'' @ mac) p2 0]\<rparr>) \<and>
    request_topic_by_mac b' millis mac cfg [(''S-C/request-topic/'' @ mac, p1)] [(''S-C/request-sensor_cd/'' @ mac, p2)] =
      (Inr [(''topic'', VStr (mapped_topic (tr_map s) mac)), (''sensor_count'', VInt (int (length sensors)))], cs @ [LoopStop, Disconnect])"
proof (intro exI conjI)
  note r = responder_answers [OF assms(1,3-7)]
  show "handle_payload b db c request_topic (Inr (mac_request mac)) s =
      (None, s\<lparr>tr_calls := tr_calls s @ [Send (''S-C/request-topic/'' @ mac) (topic_reply (tr_map s) mac) 0]\<rparr>)" by (rule r(1))
  show "handle_payload b db c request_sensor_code (Inr (mac_request mac)) s =
      (None, s\<lparr>tr_calls := tr_calls s @ [Send (''S-C/request-sensor_cd/'' @ mac) (sensor_reply sensors) 0]\<rparr>)" by (rule r(2))
  show "request_topic_by_mac b' millis mac cfg [(''S-C/request-topic/'' @ mac, topic_reply (tr_map s) mac)]
      [(''S-C/request-sensor_cd/'' @ mac, sensor_reply sensors)] =
    (Inr [(''topic'', VStr (mapped_topic (tr_map s) mac)), (''sensor_count'', VInt (int (length sensors)))],
     (request_client millis cfg @ [Connect (py_str (or_val (item_get cfg ''host'') (VStr ''localhost''))) port,
        SubscribeAll [(''S-C/request-topic/'' @ mac, 2), (''S-C/request-sensor_cd/'' @ mac, 2)], LoopStart,
        Send request_topic (mac_request mac) 2, Send request_sensor_code (mac_request mac) 2]) @ [LoopStop, Disconnect])"
    using assms(5,6) replies_taken [OF assms(8)]
    by (simp add: request_topic_by_mac_def client_do_ok [OF assms(2)] request_body_def assms(9) no_answer_def Let_def del: client_do.simps)
qed

section \<open>The service's resolver\<close>

text \<open>What the configuration service stores when the responder does not know the address: the request succeeds and the words of
  the refusal become the route's topic.\<close>

lemma unknown_mac_stored:
  assumes "dget m mac = None"
  shows "read_answer (Inr [(''topic'', VStr (mapped_topic m mac)), (''sensor_count'', VInt n)]) = Inr (''C-S/Unknown MAC'', n)"
  using assms by (simp add: mapped_topic_def read_answer_def item_get_def or_val_def received_topic_path_def starts_with_def str_simps Let_def)

section \<open>The responder and its database\<close>

lemma tr_event_stopped: "tr_stopped (tr_event b db c e s) = tr_stopped s"
proof -
  have do: "tr_stopped (snd (tr_do b ks s)) = tr_stopped s" for ks s
    by (induction ks arbitrary: s) (auto simp: Let_def split: sum.split)
  have pub: "tr_stopped (snd (tr_publish b t p s)) = tr_stopped s" for t p
    using do [of "[NewClient []]" s]
    by (cases "tr_do b [NewClient []] s"; cases "fst (tr_do b [NewClient []] s)") (simp_all add: tr_publish_def do Let_def del: tr_do.simps)
  have "tr_stopped (snd (handle_payload b db c t p s)) = tr_stopped s" for t p
    by (auto simp: handle_payload_def publish_topic_response_def publish_sensor_code_response_def pub Let_def
        split: option.split sum.split)
  then show ?thesis by (cases e) (simp_all add: tr_on_connect_def do del: tr_do.simps)
qed

lemma tr_events_stopped: "tr_stopped (fold (tr_event b db c) es s) = tr_stopped s"
  by (induction es arbitrary: s) (simp_all add: tr_event_stopped)

lemma refresh_stopped: "tr_stopped (snd (refresh_mapping_once db c s)) = tr_stopped s"
  by (simp add: refresh_mapping_once_def split: sum.split)

text \<open>A database failure ends the responder.  On a broker that accepts its calls, a responder that nobody stops ends with the
  exception of the first refresh that fails, whatever happened before: nothing at all was sent to the broker
  if it was the first refresh, and otherwise it stopped and disconnected its client and answers no more.\<close>

theorem responder_ends_with_database:
  assumes "accepts_all b" "\<not> tr_stopped s" "list_all (\<lambda>r. \<exists>rows. fetch_mapping_rows (snd r) c = Inr rows) rounds"
    and "fetch_mapping_rows down c = Inl e"
  shows "(case fetch_mapping_rows db c of
      Inl x \<Rightarrow> responder_run b db c (rounds @ (es, down) # later) s = (Some x, s)
    | Inr _ \<Rightarrow> \<exists>s'. responder_run b db c (rounds @ (es, down) # later) s = (Some e, s') \<and>
        (\<exists>cs. tr_calls s' = cs @ [LoopStop, Disconnect]))"
proof (cases "fetch_mapping_rows db c")
  case (Inl x)
  then show ?thesis by (simp add: responder_run_def refresh_mapping_once_def)
next
  case (Inr rows)
  have fails: "\<exists>u. tr_rounds b c (rounds @ (es, down) # later) t = (Some e, u)" if "\<not> tr_stopped t" for t
    using that assms(3)
  proof (induction rounds arbitrary: t)
    case Nil
    then show ?case using assms(4) by (simp add: Let_def tr_events_stopped refresh_mapping_once_def)
  next
    case (Cons r rounds)
    obtain es' db' where r: "r = (es', db')" by (cases r)
    obtain rows' where rows': "fetch_mapping_rows db' c = Inr rows'" using Cons.prems(2) by (auto simp: r)
    let ?t = "fold (tr_event b db' c) es' t"
    obtain t' where t': "refresh_mapping_once db' c ?t = (None, t')" using rows' by (simp add: refresh_mapping_once_def)
    have "\<not> tr_stopped t'" using refresh_stopped [of db' c ?t] t' Cons.prems(1) by (simp add: tr_events_stopped)
    then obtain u where "tr_rounds b c (rounds @ (es, down) # later) t' = (Some e, u)" using Cons by auto
    then show ?case using Cons.prems(1) t' by (simp add: r Let_def tr_events_stopped)
  qed
  obtain s1 where s1: "refresh_mapping_once db c s = (None, s1)" using Inr by (simp add: refresh_mapping_once_def)
  let ?s3 = "s1\<lparr>tr_client := True,
    tr_calls := tr_calls s1 @ [NewClient [], ConnectKeepalive (rc_mqtt_host c) (rc_mqtt_port c) (rc_keepalive c), LoopStart]\<rparr>"
  have "\<not> tr_stopped ?s3" using refresh_stopped [of db c s] s1 assms(2) by simp
  then obtain u where u: "tr_rounds b c (rounds @ (es, down) # later) ?s3 = (Some e, u)" using fails by blast
  have "responder_run b db c (rounds @ (es, down) # later) s = (Some e, u\<lparr>tr_calls := tr_calls u @ [LoopStop, Disconnect]\<rparr>)"
    using s1 u by (simp add: responder_run_def tr_do_ok [OF assms(1)] tr_finally_def del: tr_do.simps)
  then show ?thesis using Inr by (auto intro!: exI [of _ "tr_calls u"])
qed

section \<open>Samples\<close>

definition sample_topic_db :: topic_db where
  "sample_topic_db = \<lparr>td_connect = (\<lambda>c. None), td_query = (\<lambda>sql ps. Inr ([(Some ''sensor_code'', VNone)], [[VStr ''T1'']]))\<rparr>"

definition down_topic_db :: topic_db where
  "down_topic_db = \<lparr>td_connect = (\<lambda>c. Some (raised [] (Raise RuntimeError ''connection refused''))), td_query = (\<lambda>sql ps. Inr ([], []))\<rparr>"

lemma topic_request_answered_witness:
  "\<exists>p1 p2 cs.
    handle_payload (\<lambda>cs k. Inr 0) sample_topic_db (responder_config_from_env []) request_topic (Inr (mac_request ''aa:01'')) (new_responder\<lparr>tr_client := True\<rparr>) =
      (None, (new_responder\<lparr>tr_client := True\<rparr>)\<lparr>tr_calls := tr_calls (new_responder\<lparr>tr_client := True\<rparr>) @ [Send (''S-C/request-topic/'' @ ''aa:01'') p1 0]\<rparr>) \<and>
    handle_payload (\<lambda>cs k. Inr 0) sample_topic_db (responder_config_from_env []) request_sensor_code (Inr (mac_request ''aa:01'')) (new_responder\<lparr>tr_client := True\<rparr>) =
      (None, (new_responder\<lparr>tr_client := True\<rparr>)\<lparr>tr_calls := tr_calls (new_responder\<lparr>tr_client := True\<rparr>) @ [Send (''S-C/request-sensor_cd/'' @ ''aa:01'') p2 0]\<rparr>) \<and>
    request_topic_by_mac (\<lambda>cs k. Inr 0) 0 ''aa:01'' [] [(''S-C/request-topic/'' @ ''aa:01'', p1)] [(''S-C/request-sensor_cd/'' @ ''aa:01'', p2)] =
      (Inr [(''topic'', VStr (mapped_topic (tr_map (new_responder\<lparr>tr_client := True\<rparr>)) ''aa:01'')),
            (''sensor_count'', VInt (int (length [[(''sensor_code'', VStr ''T1'')]])))], cs @ [LoopStop, Disconnect])"
  by (rule topic_request_answered [where port = 1883])
    (simp_all add: accepts_all_def ascii_text_def str_simps is_space_def fetch_sensor_rows_def fetch_rows_def sample_topic_db_def
      rows_to_dicts_def column_name_def has_text_def dwf_def item_get_def or_val_def)

lemma responder_ends_with_database_witness:
  "case fetch_mapping_rows sample_topic_db (responder_config_from_env []) of
      Inl x \<Rightarrow> responder_run (\<lambda>cs k. Inr 0) sample_topic_db (responder_config_from_env []) ([([Acknowledged 0], sample_topic_db)] @ ([], down_topic_db) # []) new_responder =
        (Some x, new_responder)
    | Inr _ \<Rightarrow> \<exists>s'. responder_run (\<lambda>cs k. Inr 0) sample_topic_db (responder_config_from_env []) ([([Acknowledged 0], sample_topic_db)] @ ([], down_topic_db) # [])
          new_responder = (Some (raised [] (Raise RuntimeError ''connection refused'')), s') \<and>
        (\<exists>cs. tr_calls s' = cs @ [LoopStop, Disconnect])"
  by (rule responder_ends_with_database)
    (simp_all add: accepts_all_def new_responder_def fetch_mapping_rows_def fetch_rows_def sample_topic_db_def down_topic_db_def)

end
