(* ===== verification/Opcua.thy ===== *)
theory Opcua
  imports Mqtt_Input
begin

text \<open>
  \<open>OpcUaDriver\<close> of \<^verbatim>\<open>src/industrial_gateway/drivers/opcua.py\<close>, for polling and for subscriptions. The asyncua client is a
  parameter: after the calls made so far it answers the next one with an exception or a value. Values are JSON values. The
  handler of data changes runs only while the driver runs its event loop, so a change is an event of a sleep.
  The last section: what one reading is, and that both modes give the same.
\<close>

section \<open>State\<close>

datatype opcua_call = NewOpcClient pyval | OpcConnect | OpcDisconnect | OpcRead string | OpcSubscribe int | OpcMonitor "string list"
  | OpcDelete | OpcSleep

type_synonym opcua_server = "opcua_call list \<Rightarrow> opcua_call \<Rightarrow> exn + pyval"

record opcua =
  oc_client :: bool
  oc_loop :: bool
  oc_subscription :: bool
  oc_nodes :: "(string, tag_spec) pydict"
  oc_calls :: "opcua_call list"

definition new_opcua :: opcua where
  "new_opcua = \<lparr>oc_client = False, oc_loop = False, oc_subscription = False, oc_nodes = [], oc_calls = []\<rparr>"

definition oc_do :: "opcua_server \<Rightarrow> opcua_call \<Rightarrow> opcua \<Rightarrow> (exn + pyval) \<times> opcua" where
  "oc_do v k s = (v (oc_calls s) k, s\<lparr>oc_calls := oc_calls s @ [k]\<rparr>)"

text \<open>\<open>_run\<close> makes an event loop when there is none.\<close>

definition oc_run :: "opcua_server \<Rightarrow> opcua_call \<Rightarrow> opcua \<Rightarrow> (exn + pyval) \<times> opcua" where
  "oc_run v k s = oc_do v k (s\<lparr>oc_loop := True\<rparr>)"

definition oc_raise :: "frames \<Rightarrow> nat \<Rightarrow> string \<Rightarrow> pyerr \<Rightarrow> exn" where
  "oc_raise fr line function e = raised (fr @ [(''opcua.py'', line, function)]) e"

definition no_value :: "(exn + pyval) \<times> opcua \<Rightarrow> exn option \<times> opcua" where
  "no_value r = (case r of (Inl e, s) \<Rightarrow> (Some e, s) | (Inr _, s) \<Rightarrow> (None, s))"

section \<open>Connecting\<close>

definition oc_new_client :: "opcua_server \<Rightarrow> frames \<Rightarrow> device_spec \<Rightarrow> opcua \<Rightarrow> exn option \<times> opcua" where
  "oc_new_client v fr d s = (if oc_client s then (None, s)
     else (let endpoint = or_val (item_get (dev_connection d) ''endpoint'') (item_get (dev_connection d) ''url'') in
       if \<not> truthy endpoint
       then (Some (oc_raise fr 28 ''connect'' (Raise RuntimeError ''OPC UA endpoint is required in connection JSON'')), s)
       else (case oc_do v (NewOpcClient endpoint) s of
           (Inl e, s1) \<Rightarrow> (Some e, s1) | (Inr _, s1) \<Rightarrow> (None, s1\<lparr>oc_client := True\<rparr>))))"

definition oc_connect :: "opcua_server \<Rightarrow> frames \<Rightarrow> device_spec \<Rightarrow> opcua \<Rightarrow> exn option \<times> opcua" where
  "oc_connect v fr d s = (case oc_new_client v fr d (s\<lparr>oc_loop := True\<rparr>) of
     (Some e, s1) \<Rightarrow> (Some e, s1)
   | (None, s1) \<Rightarrow> no_value (oc_run v OpcConnect s1))"

text \<open>An exception of the client's own disconnect is swallowed.\<close>

definition oc_disconnect :: "opcua_server \<Rightarrow> opcua \<Rightarrow> opcua" where
  "oc_disconnect v s =
     (let s1 = s\<lparr>oc_subscription := False\<rparr>;
          s2 = (if oc_client s \<and> oc_loop s then snd (oc_run v OpcDisconnect s1) else s1)
      in s2\<lparr>oc_loop := False\<rparr>)"

section \<open>Readings\<close>

definition opcua_coerce :: "pyval \<Rightarrow> tag_spec \<Rightarrow> pyval res" where
  "opcua_coerce v t =
     (if tag_data_type t = ''auto'' then Inr v
      else if tag_data_type t = ''string'' then Inr (VStr (py_str v))
      else if tag_data_type t = ''bool'' then Inr (VBool (truthy v))
      else if tag_data_type t \<in> {''int16'', ''uint16'', ''int32'', ''uint32''}
      then rbind (py_int v) (\<lambda>i. rbind (int_to_float i) (\<lambda>x. Inr (VFloat (fl_mult x (tag_scale t)))))
      else if tag_data_type t \<in> {''float32'', ''float64''}
      then rbind (py_float v) (\<lambda>x. Inr (VFloat (fl_mult x (tag_scale t))))
      else Inr v)"

definition opcua_bad :: "tag_spec \<Rightarrow> datetime \<Rightarrow> string \<Rightarrow> tag_result" where
  "opcua_bad t now e = \<lparr>res_name = tag_name t, res_address = tag_address t, res_value = VNone, res_quality = Bad,
     res_error = Some e, res_timestamp = now, res_node_id = tag_node_id t, res_tag_group = tag_group t\<rparr>"

definition opcua_good :: "tag_spec \<Rightarrow> datetime \<Rightarrow> pyval \<Rightarrow> tag_result" where
  "opcua_good t now v = \<lparr>res_name = tag_name t, res_address = tag_address t, res_value = v, res_quality = Good,
     res_error = None, res_timestamp = now, res_node_id = tag_node_id t, res_tag_group = tag_group t\<rparr>"

definition opcua_read_tag :: "opcua_server \<Rightarrow> datetime \<Rightarrow> tag_spec \<Rightarrow> opcua \<Rightarrow> tag_result \<times> opcua" where
  "opcua_read_tag v now t s =
     (if \<not> has_text (tag_node_id t) then (opcua_bad t now ''OPC UA node_id is required'', s)
      else (case oc_run v (OpcRead (the (tag_node_id t))) s of
          (Inl e, s1) \<Rightarrow> (opcua_bad t now (ex_text e), s1)
        | (Inr x, s1) \<Rightarrow> (case opcua_coerce x t of
              Inl e \<Rightarrow> (opcua_bad t now (err_text e), s1)
            | Inr y \<Rightarrow> (opcua_good t now y, s1))))"

fun opcua_read_each :: "opcua_server \<Rightarrow> datetime \<Rightarrow> tag_spec list \<Rightarrow> opcua \<Rightarrow> tag_result list \<times> opcua" where
  "opcua_read_each v now [] s = ([], s)"
| "opcua_read_each v now (t # ts) s =
     (let (r, s1) = opcua_read_tag v now t s; (rs, s2) = opcua_read_each v now ts s1 in (r # rs, s2))"

definition opcua_read_tags :: "opcua_server \<Rightarrow> datetime \<Rightarrow> tag_spec list \<Rightarrow> opcua \<Rightarrow> tag_result list \<times> opcua" where
  "opcua_read_tags v now tags s =
     (if \<not> oc_client s then (map (\<lambda>t. opcua_bad t now ''OPC UA client is not connected'') tags, s)
      else opcua_read_each v now tags s)"

definition opcua_server_status :: "opcua_server \<Rightarrow> frames \<Rightarrow> opcua \<Rightarrow> (exn + pyval) \<times> opcua" where
  "opcua_server_status v fr s =
     (if \<not> oc_client s
      then (Inl (oc_raise fr 55 ''read_server_status'' (Raise RuntimeError ''OPC UA client is not connected'')), s)
      else oc_run v (OpcRead ''ns=0;i=2259'') s)"

section \<open>Subscriptions\<close>

definition node_map :: "tag_spec list \<Rightarrow> (string, tag_spec) pydict" where
  "node_map tags = dupdate [] (map (\<lambda>t. (the (tag_node_id t), t)) (filter (\<lambda>t. has_text (tag_node_id t)) tags))"

definition opcua_subscribe :: "opcua_server \<Rightarrow> tag_spec list \<Rightarrow> int \<Rightarrow> opcua \<Rightarrow> exn option \<times> opcua" where
  "opcua_subscribe v tags interval s = (case oc_run v (OpcSubscribe interval) s of
     (Inl e, s1) \<Rightarrow> (Some e, s1)
   | (Inr _, s1) \<Rightarrow> no_value (oc_run v (OpcMonitor (map (the \<circ> tag_node_id) (filter (\<lambda>t. has_text (tag_node_id t)) tags)))
         (s1\<lparr>oc_subscription := True, oc_nodes := node_map tags\<rparr>)))"

definition opcua_start_subscription ::
  "opcua_server \<Rightarrow> frames \<Rightarrow> device_spec \<Rightarrow> tag_spec list \<Rightarrow> opcua \<Rightarrow> exn option \<times> opcua" where
  "opcua_start_subscription v fr d tags s =
     (if \<not> oc_client s
      then (Some (oc_raise fr 61 ''start_subscription'' (Raise RuntimeError ''OPC UA client is not connected'')), s)
      else (case py_int (get_or (dev_connection d) ''subscription_interval_ms'' (VInt (dev_poll_interval_ms d))) of
          Inl e \<Rightarrow> (Some (oc_raise fr 62 ''start_subscription'' e), s)
        | Inr interval \<Rightarrow> opcua_subscribe v tags interval s))"

definition opcua_stop_subscription :: "opcua_server \<Rightarrow> opcua \<Rightarrow> exn option \<times> opcua" where
  "opcua_stop_subscription v s =
     (if \<not> oc_subscription s then (None, s)
      else (case oc_run v OpcDelete s of
          (Inl e, s1) \<Rightarrow> (Some e, s1) | (Inr _, s1) \<Rightarrow> (None, s1\<lparr>oc_subscription := False\<rparr>)))"

definition opcua_run_once :: "opcua_server \<Rightarrow> opcua \<Rightarrow> exn option \<times> opcua" where
  "opcua_run_once v s = (if \<not> oc_subscription s then (None, s) else no_value (oc_run v OpcSleep s))"

text \<open>What \<open>_node_id_text\<close> sees of the object a notification carries: its \<open>nodeid\<close>, if it has one, the text its
  \<open>to_string\<close> returns, if that is callable, and its \<open>str\<close>.\<close>

datatype opc_object = OpcObject (oo_nodeid: "opc_object option") (oo_to_string: "string option") (oo_str: string)

definition node_id_text :: "opc_object \<Rightarrow> string" where
  "node_id_text node =
     (let node_id = (case oo_nodeid node of Some n \<Rightarrow> n | None \<Rightarrow> node)
      in case oo_to_string node_id of Some s \<Rightarrow> s | None \<Rightarrow> oo_str node_id)"

text \<open>\<open>datachange_notification\<close>: the tag is looked up in the handler's map by the text of the node.\<close>

definition opcua_datachange ::
  "device_spec \<Rightarrow> (string, tag_spec) pydict \<Rightarrow> datetime \<Rightarrow> opc_object \<Rightarrow> pyval \<Rightarrow> read_result list" where
  "opcua_datachange d nodes now node value = (case dget nodes (node_id_text node) of
     None \<Rightarrow> []
   | Some t \<Rightarrow> [\<lparr>rr_device = d, rr_timestamp = now, rr_tags = [case opcua_coerce value t of
       Inl e \<Rightarrow> opcua_bad t now (err_text e) | Inr y \<Rightarrow> opcua_good t now y], rr_error = None\<rparr>])"

section \<open>In the polling worker\<close>

text \<open>A poll's driver, on a server: the outcomes of its calls in the order the worker makes them.\<close>

definition opcua_driver :: "opcua_server \<Rightarrow> datetime \<Rightarrow> bool \<Rightarrow> device_spec \<Rightarrow> tag_spec list \<Rightarrow> driver" where
  "opcua_driver v now due d tags =
     (let (c, s1) = oc_connect v [] d new_opcua;
          (h, s2) = (if due then opcua_server_status v [] s1 else (Inr VNone, s1));
          (rs, s3) = opcua_read_tags v now tags s2
      in \<lparr>dr_connect = c, dr_health = Some (case h of Inl e \<Rightarrow> Some e | Inr _ \<Rightarrow> None), dr_read = Inr rs, dr_disconnect = None\<rparr>)"

section \<open>Readings of both modes\<close>

text \<open>What a value read from a tag's node becomes.\<close>

definition opcua_reading :: "tag_spec \<Rightarrow> datetime \<Rightarrow> exn + pyval \<Rightarrow> tag_result" where
  "opcua_reading t now r = (case r of
     Inl e \<Rightarrow> opcua_bad t now (ex_text e)
   | Inr x \<Rightarrow> (case opcua_coerce x t of Inl e \<Rightarrow> opcua_bad t now (err_text e) | Inr y \<Rightarrow> opcua_good t now y))"

text \<open>A server whose answers do not depend on the calls before.\<close>

definition steady :: "opcua_server \<Rightarrow> (opcua_call \<Rightarrow> exn + pyval) \<Rightarrow> bool" where
  "steady v a \<longleftrightarrow> (\<forall>cs k. v cs k = a k)"

lemma read_tag_reading:
  "steady v a \<Longrightarrow> fst (opcua_read_tag v now t s) =
    (if has_text (tag_node_id t) then opcua_reading t now (a (OpcRead (the (tag_node_id t))))
     else opcua_bad t now ''OPC UA node_id is required'')"
  by (auto simp: opcua_read_tag_def oc_run_def oc_do_def opcua_reading_def steady_def split: sum.split)

lemma read_each_readings:
  "steady v a \<Longrightarrow> fst (opcua_read_each v now ts s) = map (\<lambda>t.
    if has_text (tag_node_id t) then opcua_reading t now (a (OpcRead (the (tag_node_id t))))
    else opcua_bad t now ''OPC UA node_id is required'') ts"
proof (induction ts arbitrary: s)
  case (Cons t ts)
  obtain r s1 where r: "opcua_read_tag v now t s = (r, s1)" by (cases "opcua_read_tag v now t s")
  have "fst (opcua_read_each v now (t # ts) s) = r # fst (opcua_read_each v now ts s1)" by (simp add: r split: prod.split)
  then show ?case using read_tag_reading [OF Cons.prems, of now t s] Cons.IH [OF Cons.prems, of s1] by (simp add: r)
qed simp

lemma node_map_lookup:
  assumes "t \<in> set tags" "has_text (tag_node_id t)" "\<And>u. u \<in> set tags \<Longrightarrow> tag_node_id u = tag_node_id t \<Longrightarrow> u = t"
  shows "dget (node_map tags) (the (tag_node_id t)) = Some t"
proof -
  let ?kvs = "map (\<lambda>t. (the (tag_node_id t), t)) (filter (\<lambda>t. has_text (tag_node_id t)) tags)"
  have mem: "(the (tag_node_id t), t) \<in> set ?kvs" using assms(1,2) by force
  have uniq: "v = t" if "(the (tag_node_id t), v) \<in> set ?kvs" for v
  proof -
    have v: "v \<in> set tags" "has_text (tag_node_id v)" "the (tag_node_id v) = the (tag_node_id t)" using that by auto
    then have "tag_node_id v = tag_node_id t"
      using assms(2) by (cases "tag_node_id v"; cases "tag_node_id t") (auto simp: has_text_def)
    then show ?thesis using assms(3) v(1) by blast
  qed
  have "the (tag_node_id t) \<in> fst ` set (rev ?kvs)" using mem by force
  then obtain v where v: "map_of (rev ?kvs) (the (tag_node_id t)) = Some v"
    by (cases "map_of (rev ?kvs) (the (tag_node_id t))") (auto simp: map_of_eq_None_iff)
  then have "(the (tag_node_id t), v) \<in> set ?kvs" using map_of_SomeD by fastforce
  then show ?thesis using uniq v unfolding node_map_def dget_dupdate v by simp
qed

lemma node_map_foreign:
  assumes "\<forall>u \<in> set tags. tag_node_id u \<noteq> Some n"
  shows "dget (node_map tags) n = None"
proof -
  have "map_of (rev (map (\<lambda>t. (the (tag_node_id t), t)) (filter (\<lambda>t. has_text (tag_node_id t)) tags))) n = None"
    using assms by (auto simp: map_of_eq_None_iff has_text_def split: option.splits)
  then show ?thesis unfolding node_map_def dget_dupdate by simp
qed

text \<open>What a reading of a tag must be when its node holds a value: the tag's name, address, node and group, and the value
  unchanged for \<open>auto\<close>, its text, its truth, or the number it stands for times the scale; bad with the error if
  it stands for none.\<close>

definition reads_as :: "tag_result \<Rightarrow> pyval res \<Rightarrow> bool" where
  "reads_as r y \<longleftrightarrow> (case y of
     Inr v \<Rightarrow> res_quality r = Good \<and> res_error r = None \<and> res_value r = v
   | Inl e \<Rightarrow> res_quality r = Bad \<and> res_error r = Some (err_text e) \<and> res_value r = VNone)"

definition number_of :: "string \<Rightarrow> pyval \<Rightarrow> pyfloat res" where
  "number_of dt x = (if dt = ''float32'' \<or> dt = ''float64'' then py_float x
     else case py_int x of Inl e \<Rightarrow> Inl e | Inr i \<Rightarrow> int_to_float i)"

definition opcua_expected :: "tag_spec \<Rightarrow> datetime \<Rightarrow> pyval \<Rightarrow> tag_result \<Rightarrow> bool" where
  "opcua_expected t now x r \<longleftrightarrow> res_name r = tag_name t \<and> res_address r = tag_address t \<and> res_timestamp r = now
     \<and> res_node_id r = tag_node_id t \<and> res_tag_group r = tag_group t
     \<and> (tag_data_type t = ''auto'' \<longrightarrow> reads_as r (Inr x))
     \<and> (tag_data_type t = ''string'' \<longrightarrow> reads_as r (Inr (VStr (py_str x))))
     \<and> (tag_data_type t = ''bool'' \<longrightarrow> reads_as r (Inr (VBool (truthy x))))
     \<and> (tag_data_type t \<in> {''int16'', ''uint16'', ''int32'', ''uint32'', ''float32'', ''float64''} \<longrightarrow>
         reads_as r (case number_of (tag_data_type t) x of Inl e \<Rightarrow> Inl e
           | Inr y \<Rightarrow> Inr (VFloat (fl_mult y (tag_scale t)))))"

lemma reading_expected: "opcua_expected t now x (opcua_reading t now (Inr x))"
  by (auto simp: opcua_expected_def reads_as_def opcua_reading_def opcua_coerce_def number_of_def rbind_def
      opcua_good_def opcua_bad_def split: sum.splits)

text \<open>C29: Both modes read the same.  The server's answers do not change, the driver is connected, the tag has a node that
  no other tag of the device names, and reading it gives a value. Then a poll gives the tag that value, converted to
  its data type. A data change carries a node object, whose id the client renders as a text of its own: when that
  text is the tag's configured node, the subscription puts the very same reading; when no tag is configured with
  that text (asyncua renders \<open>ns=0;i=2258\<close> as \<open>i=2258\<close>), it puts nothing, and the tag is never updated.\<close>

theorem opcua_modes_agree:
  assumes "steady v a" "oc_client s" "i < length tags" "tag_node_id (tags ! i) = Some n" "n \<noteq> []"
    and "\<forall>u \<in> set tags. tag_node_id u = Some n \<longrightarrow> u = tags ! i" "a (OpcRead n) = Inr x"
    and "oo_nodeid node = Some nid" "oo_to_string nid = Some rendered"
  shows "opcua_expected (tags ! i) now x (fst (opcua_read_tags v now tags s) ! i) \<and>
    (rendered = n \<longrightarrow> opcua_datachange d (node_map tags) now node x =
      [\<lparr>rr_device = d, rr_timestamp = now, rr_tags = [fst (opcua_read_tags v now tags s) ! i], rr_error = None\<rparr>]) \<and>
    ((\<forall>u \<in> set tags. tag_node_id u \<noteq> Some rendered) \<longrightarrow> opcua_datachange d (node_map tags) now node x = [])"
proof -
  have has: "has_text (tag_node_id (tags ! i))" "the (tag_node_id (tags ! i)) = n"
    using assms(4,5) by (simp_all add: has_text_def)
  have poll: "fst (opcua_read_tags v now tags s) ! i = opcua_reading (tags ! i) now (Inr x)"
    using assms(2,3,7) has by (simp add: opcua_read_tags_def read_each_readings [OF assms(1)])
  have node: "node_id_text node = rendered" using assms(8,9) by (simp add: node_id_text_def)
  have "dget (node_map tags) n = Some (tags ! i)"
    using node_map_lookup [OF nth_mem [OF assms(3)] has(1)] assms(4,6) has(2) by auto
  then have "opcua_datachange d (node_map tags) now node x =
      [\<lparr>rr_device = d, rr_timestamp = now, rr_tags = [opcua_reading (tags ! i) now (Inr x)], rr_error = None\<rparr>]"
    if "rendered = n"
    using that by (simp add: opcua_datachange_def node opcua_reading_def)
  then show ?thesis
    using node_map_foreign [of tags rendered] by (simp add: poll reading_expected opcua_datachange_def node)
qed

definition node_tag :: tag_spec where
  "node_tag = (new_tag ''flow'' 0 ''opcua_node'' ''auto'')\<lparr>tag_node_id := Some ''ns=2;s=flow''\<rparr>"

text \<open>The node object asyncua hands over: its id renders without the default namespace.\<close>

definition client_node :: "string \<Rightarrow> opc_object" where
  "client_node rendered = OpcObject (Some (OpcObject None (Some rendered) ''NodeId'')) None (''Node('' @ rendered @ '')'')"

lemma opcua_modes_agree_witness:
  "opcua_expected node_tag noon (VInt 5)
     (fst (opcua_read_tags (\<lambda>cs k. Inr (VInt 5)) noon [node_tag] (new_opcua\<lparr>oc_client := True\<rparr>)) ! 0) \<and>
   opcua_datachange (sample_device []) (node_map [node_tag]) noon (client_node ''ns=2;s=flow'') (VInt 5) =
      [\<lparr>rr_device = sample_device [], rr_timestamp = noon,
        rr_tags = [fst (opcua_read_tags (\<lambda>cs k. Inr (VInt 5)) noon [node_tag] (new_opcua\<lparr>oc_client := True\<rparr>)) ! 0], rr_error = None\<rparr>]"
  using opcua_modes_agree [where a = "\<lambda>k. Inr (VInt 5)" and v = "\<lambda>cs k. Inr (VInt 5)" and tags = "[node_tag]" and i = 0
      and s = "new_opcua\<lparr>oc_client := True\<rparr>" and n = "''ns=2;s=flow''" and x = "VInt 5" and now = noon
      and node = "client_node ''ns=2;s=flow''" and d = "sample_device []"]
  by (simp add: steady_def new_opcua_def node_tag_def new_tag_def client_node_def)

text \<open>Of two tags with one node, only the later one is ever updated by data changes.\<close>

lemma shadowed_tag_silent:
  assumes "tag_node_id t = Some n" "tag_node_id u = Some n" "n \<noteq> []" "tag_name t \<noteq> tag_name u" "node_id_text node = n"
  shows "\<exists>r. opcua_datachange d (node_map [t, u]) now node x = [r] \<and> map res_name (rr_tags r) = [tag_name u]"
  using assms
  by (auto simp: opcua_datachange_def node_map_def has_text_def opcua_bad_def opcua_good_def split: sum.split)

text \<open>A tag configured with the namespace written out is polled, and its data changes are dropped.\<close>

lemma explicit_namespace_dropped:
  "opcua_datachange d (node_map [node_tag\<lparr>tag_node_id := Some ''ns=0;i=2258''\<rparr>]) now (client_node ''i=2258'') x = []"
  by (simp add: opcua_datachange_def node_map_def node_id_text_def client_node_def has_text_def)

end
