(* ===== verification/Rtu_Probe.thy ===== *)
theory Rtu_Probe
  imports Rtu_Stream Py_Repr
begin

text \<open>
  \<^verbatim>\<open>src/industrial_gateway/drivers/modbus_rtu_monitor.py\<close>: the dictionaries and the text a probe of
  the serial line answers with, and the connection state of the monitor driver. The clock readings
  of \<open>datetime.now\<close> are arguments, one for each call.
\<close>

section \<open>Frames and connection settings as dictionaries\<close>

definition opt_entry :: "string \<Rightarrow> ('a \<Rightarrow> pyval) \<Rightarrow> 'a option \<Rightarrow> settings" where
  "opt_entry k f v = (case v of None \<Rightarrow> [] | Some x \<Rightarrow> [(k, f x)])"

definition int_list_val :: "int list \<Rightarrow> pyval" where
  "int_list_val xs = VList (map VInt xs)"

definition frame_dict :: "rtu_frame \<Rightarrow> settings" where
  "frame_dict fr =
     [(''status'', VStr ''ok''), (''slave_id'', VInt (fr_slave fr)), (''function'', VInt (fr_function fr)),
      (''function_name'', VStr (fr_function_name fr)), (''raw_hex'', VStr (fr_raw_hex fr)),
      (''length'', VInt (fr_length fr)), (''crc'', VStr ''ok'')]
     @ opt_entry ''exception_code'' VInt (fr_exception_code fr)
     @ opt_entry ''start_address'' VInt (fr_start_address fr)
     @ opt_entry ''quantity'' VInt (fr_quantity fr)
     @ opt_entry ''byte_count'' VInt (fr_byte_count fr)
     @ opt_entry ''registers'' int_list_val (fr_registers fr)
     @ opt_entry ''data_hex'' VStr (fr_data_hex fr)
     @ opt_entry ''value'' VInt (fr_value fr)"

definition connection_metadata :: "settings \<Rightarrow> datetime \<Rightarrow> settings res" where
  "connection_metadata conn now =
     rbind (py_int (get_or conn ''baudrate'' (VInt 9600))) (\<lambda>baud.
     rbind (py_int (get_or conn ''stopbits'' (VInt 1))) (\<lambda>stop.
     rbind (py_int (get_or conn ''bytesize'' (VInt 8))) (\<lambda>size.
       Inr [(''port'', get_or conn ''port'' (VStr ''COM1'')), (''baudrate'', VInt baud),
            (''parity'', get_or conn ''parity'' (VStr ''N'')), (''stopbits'', VInt stop),
            (''bytesize'', VInt size), (''captured_at'', VStr (isoformat now))])))"

section \<open>Text\<close>

text \<open>\<open>f"{x:g}"\<close>: six significant digits, rounded half to even on the exact value, without the zeros
  at the end; an exponent below -4 or of at least 6 is written.\<close>

definition general_digits :: "nat \<Rightarrow> nat \<Rightarrow> nat \<times> int" where
  "general_digits p q =
     (let k = decimal_point p q;
          d = hd (neighbours p q (k - 6))
      in if d = 10 ^ 6 then (10 ^ 5, k + 1) else (d, k))"

definition general_text :: "string \<Rightarrow> int \<Rightarrow> string" where
  "general_text ds point =
     (if -4 < point \<and> point \<le> 6 then
        if point \<le> 0 then ''0.'' @ zeros (nat (- point)) @ ds
        else if int (length ds) \<le> point then ds @ zeros (nat point - length ds)
        else take (nat point) ds @ ''.'' @ drop (nat point) ds
      else take 1 ds @ (if length ds = 1 then [] else ''.'' @ drop 1 ds) @ ''e'' @ show_exponent (point - 1))"

fun format_general :: "pyfloat \<Rightarrow> string" where
  "format_general FNan = ''nan''"
| "format_general (FInf s) = (if s then ''-inf'' else ''inf'')"
| "format_general (FFin s m e) = (if s then ''-'' else []) @
     (if m = 0 then ''0''
      else let (d, point) = general_digits (fl_num m e) (fl_den e)
           in general_text (rstrip_if (\<lambda>c. c = CHR ''0'') (show_nat d)) point)"

definition lines_text :: "string list \<Rightarrow> string" where
  "lines_text ls = py_join [char_of (10 :: nat)] ls"

text \<open>The lines \<open>key: value\<close> of the keys that are present, in the order asked for.\<close>

definition key_lines :: "string list \<Rightarrow> settings \<Rightarrow> string list" where
  "key_lines ks d = concat (map (\<lambda>k. case dget d k of None \<Rightarrow> [] | Some v \<Rightarrow> [k @ '': '' @ py_str v]) ks)"

definition port_keys :: "string list" where
  "port_keys = [''port'', ''baudrate'', ''parity'', ''stopbits'', ''bytesize'']"

definition format_probe_result :: "settings \<Rightarrow> string" where
  "format_probe_result result = lines_text
     ([''status: '' @ py_str (get_or result ''status'' (VStr ''''))]
      @ key_lines port_keys result
      @ key_lines [''slave_id'', ''function'', ''function_name'', ''byte_count'', ''start_address'', ''quantity'',
          ''value'', ''raw_hex'', ''registers'', ''data_hex'', ''crc'', ''captured_at''] result
      @ (if truthy (item_get result ''message'') \<and> item_get result ''status'' \<noteq> VStr ''ok''
         then [''message: '' @ py_str (item_get result ''message'')] else []))"

definition response_lines :: "settings \<Rightarrow> string list" where
  "response_lines r =
     [[], ''[slave '' @ py_str (item_get r ''slave_id'') @ '']'',
      ''function: '' @ py_str (item_get r ''function'') @ '' '' @ py_str (item_get r ''function_name'')]
     @ key_lines [''byte_count'', ''value'', ''raw_hex'', ''registers'', ''data_hex'', ''crc''] r"

definition format_responses_probe_result :: "settings \<Rightarrow> settings list \<Rightarrow> string" where
  "format_responses_probe_result result responses = lines_text
     ([''status: '' @ py_str (get_or result ''status'' (VStr '''')),
       ''captured_responses: '' @ py_str (get_or result ''captured_responses'' (VInt 0)),
       ''valid_slave_ids: '' @ py_str (get_or result ''valid_slave_ids'' (VList []))]
      @ key_lines (port_keys @ [''captured_at'']) result
      @ concat (map response_lines responses))"

section \<open>Probe results\<close>

definition timeout_probe_result :: "settings \<Rightarrow> nat \<Rightarrow> byte list \<Rightarrow> string \<Rightarrow> datetime \<Rightarrow> settings res" where
  "timeout_probe_result conn bytes_seen last_raw last_error now =
     rbind (capture_wait conn) (\<lambda>wait.
       let raw = (if last_raw \<noteq> [] then [(''last_raw_hex'', hex_text last_raw)] else []);
           err = (if last_error \<noteq> [] then [(''last_error'', last_error)] else []);
           entries = raw @ err
       in Inr ([(''status'', VStr ''timeout''), (''port'', get_or conn ''port'' (VStr ''COM1'')),
                (''capture_wait_s'', VFloat wait), (''bytes_seen'', VInt (int bytes_seen)),
                (''captured_at'', VStr (isoformat now))]
               @ map (\<lambda>(k, v). (k, VStr v)) entries
               @ [(''message'', VStr (lines_text
                   ([''status: timeout'',
                     ''message: no valid Modbus RTU frame captured within '' @ format_general wait @ '' sec'',
                     ''bytes_seen: '' @ show_nat bytes_seen]
                    @ map (\<lambda>(k, v). k @ '': '' @ v) entries
                    @ [''hint: check baudrate/parity/RS485 A-B polarity/GND/common line activity''])))]))"

definition with_probe_metadata :: "settings \<Rightarrow> settings \<Rightarrow> datetime \<Rightarrow> settings res" where
  "with_probe_metadata result conn now =
     rbind (connection_metadata conn now) (\<lambda>meta.
       let enriched = dupdate result meta
       in Inr (dset ''message'' (VStr (format_probe_result enriched)) enriched))"

definition responses_probe_result :: "settings \<Rightarrow> rtu_frame list \<Rightarrow> datetime \<Rightarrow> settings res" where
  "responses_probe_result conn frames now =
     rbind (connection_metadata conn now) (\<lambda>meta.
       let responses = map frame_dict frames;
           result = dupdate [(''status'', VStr ''ok'')] meta @
             [(''captured_responses'', VInt (int (length frames))),
              (''valid_slave_ids'', VList (map (VInt \<circ> fr_slave) frames)),
              (''responses'', VList (map VDict responses))]
       in Inr (result @ [(''message'', VStr (format_responses_probe_result result responses))]))"

definition probe_dict :: "settings \<Rightarrow> datetime \<Rightarrow> probe_result \<Rightarrow> settings res" where
  "probe_dict conn now r = (case r of
       ProbeOk frames \<Rightarrow> responses_probe_result conn frames now
     | ProbeTimeout n raw er \<Rightarrow> timeout_probe_result conn n raw er now)"

text \<open>\<open>probe_responses\<close> with its dictionary; \<open>None\<close> when the feed ends before the loop does.\<close>

definition probe_line :: "settings \<Rightarrow> pyfloat \<Rightarrow> feed \<Rightarrow> datetime \<Rightarrow> settings option res" where
  "probe_line conn t0 feed now =
     rbind (probe_responses conn t0 feed) (\<lambda>r. case r of
       None \<Rightarrow> Inr None | Some p \<Rightarrow> map_sum id Some (probe_dict conn now p))"

definition first_frame_result :: "settings \<Rightarrow> settings \<Rightarrow> datetime \<Rightarrow> datetime \<Rightarrow> settings res" where
  "first_frame_result frame conn now1 now2 =
     rbind (connection_metadata conn now1) (\<lambda>meta1.
     rbind (connection_metadata conn now2) (\<lambda>meta2.
       Inr (dset ''message'' (VStr (format_probe_result (dupdate frame meta2))) (dupdate frame meta1))))"

definition probe_first_frame ::
  "settings \<Rightarrow> pyfloat \<Rightarrow> feed \<Rightarrow> datetime \<Rightarrow> datetime \<Rightarrow> datetime \<Rightarrow> settings option res" where
  "probe_first_frame conn t0 feed now now1 now2 =
     rbind (probe_line conn t0 feed now) (\<lambda>answer. case answer of
       None \<Rightarrow> Inr None
     | Some result \<Rightarrow>
         (case item_get result ''responses'' of
            VList (VDict frame # frames) \<Rightarrow>
              if item_get result ''status'' = VStr ''ok''
              then map_sum id Some (first_frame_result frame conn now1 now2) else Inr (Some result)
          | other \<Rightarrow> Inr (Some result)))"

definition drop_span :: "(rtu_frame \<times> nat \<times> nat) option \<times> string \<Rightarrow> rtu_frame option \<times> string" where
  "drop_span r = (map_option fst (fst r), snd r)"

definition first_valid_frame :: "byte list \<Rightarrow> rtu_frame option \<times> string" where
  "first_valid_frame data = drop_span (scan_windows (\<lambda>fr. True) data [] (windows (length data)))"

definition first_response_frame :: "byte list \<Rightarrow> rtu_frame option \<times> string" where
  "first_response_frame data =
     map_prod (map_option with_response_value) id
       (drop_span (scan_windows is_read_response data [] (windows (length data))))"

section \<open>The driver's connection\<close>

text \<open>The driver holds the serial port it opened, if any; what the port library does when a port is
  opened is an argument, closing a port always succeeds.\<close>

record monitor_driver =
  mo_device :: device_spec
  mo_tags :: "tag_spec list"
  mo_port :: "settings option"

definition new_monitor :: "device_spec \<Rightarrow> tag_spec list \<Rightarrow> monitor_driver" where
  "new_monitor dev tags = \<lparr>mo_device = dev, mo_tags = tags, mo_port = None\<rparr>"

definition monitor_connect :: "(settings \<Rightarrow> pyerr option) \<Rightarrow> monitor_driver \<Rightarrow> pyerr option \<times> monitor_driver" where
  "monitor_connect library m = (case open_serial (dev_connection (mo_device m)) of
       Inl e \<Rightarrow> (Some e, m)
     | Inr port \<Rightarrow> (case library port of
           Some e \<Rightarrow> (Some e, m)
         | None \<Rightarrow> (None, m\<lparr>mo_port := Some port\<rparr>)))"

definition monitor_disconnect :: "monitor_driver \<Rightarrow> monitor_driver" where
  "monitor_disconnect m = m\<lparr>mo_port := None\<rparr>"

definition monitor_read :: "monitor_driver \<Rightarrow> pyfloat \<Rightarrow> feed \<Rightarrow> datetime \<Rightarrow> tag_result list option res" where
  "monitor_read m t0 feed now =
     monitor_read_tags (mo_port m \<noteq> None) (mo_device m) (mo_tags m) t0 feed now"

section \<open>What a probe reports\<close>

lemma map_sum_Inr_cases: "map_sum id Some r = Inr (Some v) \<Longrightarrow> r = Inr v"
  by (cases r) auto

definition responses_ok :: "byte list \<Rightarrow> (int, rtu_frame) pydict \<Rightarrow> bool" where
  "responses_ok stream d \<longleftrightarrow> dwf d \<and> (\<forall>(k, fr) \<in> set d. k = fr_slave fr \<and>
     (\<exists>r. seen stream r \<and> is_read_response r \<and> fr = with_response_value r))"

lemma responses_ok_append: "responses_ok c d \<Longrightarrow> responses_ok (c @ x) d"
  unfolding responses_ok_def split_beta using seen_append by blast

lemma responses_ok_Nil [simp]: "responses_ok c []"
  by (simp add: responses_ok_def)

lemma slave_with_value [simp]: "fr_slave (with_response_value fr) = fr_slave fr"
  by (simp add: with_response_value_def split: option.splits list.splits)

lemma responses_ok_dset:
  "responses_ok c d \<Longrightarrow> seen c r \<Longrightarrow> is_read_response r \<Longrightarrow>
   responses_ok c (dset (fr_slave r) (with_response_value r) d)"
  using set_dset_subset [of "fr_slave r" "with_response_value r" d] by (fastforce simp: responses_ok_def)

lemma responses_ok_dupdate: "responses_ok c d \<Longrightarrow> responses_ok c e \<Longrightarrow> responses_ok c (dupdate d e)"
  using set_dupdate_subset [of d e] by (fastforce simp: responses_ok_def)

lemma drain_responses_stop:
  "first_response_frame_span b = (None, er) \<Longrightarrow>
   drain_response_frames b d l = (d, trim_buffer b, or_text er l) \<or> b = [] \<and> drain_response_frames b d l = (d, b, l)"
  by (simp add: drain_response_frames.simps [of b])

lemma drain_responses_ok:
  "drain_response_frames b d l = (d', b', l') \<Longrightarrow> responses_ok c d \<Longrightarrow>
   \<exists>c'. c' @ b' = c @ b \<and> responses_ok c' d'"
proof (induction b d l arbitrary: c rule: drain_response_frames.induct)
  case (1 b d l)
  show ?case
  proof (cases "first_response_frame_span b")
    case (Pair found er)
    show ?thesis
    proof (cases found)
      case None
      obtain a where a: "b = a @ trim_buffer b" using trim_suffix by blast
      have "d' = d \<and> (b' = trim_buffer b \<or> b' = b)"
        using 1(2) drain_responses_stop [of b er d l] Pair None by auto
      then show ?thesis using a 1(3) responses_ok_append by (metis append.assoc)
    next
      case (Some x)
      then obtain fr s e where f: "first_response_frame_span b = (Some (fr, s, e), er)"
        using Pair by (cases x) auto
      have v: "s + 4 \<le> e \<and> e \<le> length b \<and> parse_rtu_frame (window b s e) = Inr fr \<and> is_read_response fr"
        using response_scan.found [of b fr s e] f by simp
      have b: "b = take s b @ window b s e @ drop e b" by (rule window_split) (use v in auto)
      have ne: "b \<noteq> []" using v by auto
      have "seen (c @ take s b @ window b s e) fr"
        unfolding seen_def using v by (metis append.assoc append_Nil2)
      then have "responses_ok (c @ take s b @ window b s e) (dset (fr_slave fr) (with_response_value fr) d)"
        using responses_ok_dset responses_ok_append [OF 1(3)] v by metis
      then obtain c' where "c' @ b' = (c @ take s b @ window b s e) @ drop e b" "responses_ok c' d'"
        using 1(1) [OF ne f [symmetric] refl refl refl] 1(2) f ne
        by (fastforce simp: drain_response_frames.simps [of b])
      then show ?thesis using b by (metis append.assoc)
    qed
  qed
qed

definition probe_ok :: "byte list \<Rightarrow> probe_state \<Rightarrow> bool" where
  "probe_ok stream st \<longleftrightarrow> (\<exists>c. c @ fst st = stream \<and> responses_ok c (snd (snd st)))"

lemma probe_drain_ok: "probe_ok stream st \<Longrightarrow> probe_ok stream (probe_drain st)"
proof -
  assume p: "probe_ok stream st"
  obtain b l d where st: "st = (b, l, d)" by (cases st)
  obtain c where c: "c @ b = stream" "responses_ok c d" using p st by (auto simp: probe_ok_def)
  obtain d' b' er where r: "drain_response_frames b [] [] = (d', b', er)" by (cases "drain_response_frames b [] []") auto
  obtain c' where c': "c' @ b' = b" "responses_ok c' d'" using drain_responses_ok [OF r, of "[]"] by auto
  have "responses_ok (c @ c') d'"
  proof -
    have "seen c' fr \<Longrightarrow> seen (c @ c') fr" for fr unfolding seen_def by (metis append.assoc)
    then show ?thesis using c'(2) unfolding responses_ok_def by fastforce
  qed
  then have "responses_ok (c @ c') (dupdate d d')" using responses_ok_dupdate responses_ok_append c(2) by blast
  then show ?thesis using c c' r st by (auto simp: probe_drain_def probe_ok_def)
qed

lemma probe_ok_read: "probe_ok stream (b, l, d) \<Longrightarrow> probe_ok (stream @ x) (b @ x, l, d)"
  by (auto simp: probe_ok_def)

lemma probe_loop_ok:
  "probe_loop dl once feed st = Some st' \<Longrightarrow> probe_ok c st \<Longrightarrow>
   \<exists>x y. feed_bytes feed = x @ y \<and> probe_ok (c @ x) st'"
proof (induction dl once feed st arbitrary: c rule: probe_loop.induct)
  case (2 dl once clk chunk rest b l d)
  let ?st = "if b \<noteq> [] then probe_drain (b, l, d) else (b, l, d)"
  have st: "probe_ok c ?st" using 2(4) probe_drain_ok by auto
  consider "\<not> fl_le clk dl" | "fl_le clk dl" "chunk = []" once | "fl_le clk dl" "chunk = []" "\<not> once"
    | "fl_le clk dl" "chunk \<noteq> []" by blast
  then show ?case
  proof cases
    case 1
    then show ?thesis using 2(3,4) by (intro exI [of _ "[]"] exI [of _ "feed_bytes ((clk, chunk) # rest)"]) auto
  next
    case b: 2
    then show ?thesis using 2(3) st by (intro exI [of _ "[]"] exI [of _ "feed_bytes rest"]) (auto simp: Let_def)
  next
    case 3
    then show ?thesis using 2(1) [of ?st c] 2(3) st by (auto simp: Let_def)
  next
    case 4
    have "probe_ok (c @ chunk) (probe_drain (b @ chunk, l, d))"
      using 2(4) probe_ok_read probe_drain_ok by blast
    then obtain x y where "feed_bytes rest = x @ y" "probe_ok ((c @ chunk) @ x) st'"
      using 2(2) [of "c @ chunk"] 2(3) 4 by auto
    then show ?thesis by (intro exI [of _ "chunk @ x"] exI [of _ y]) auto
  qed
qed simp

lemma responses_of_stream:
  assumes "probe_responses conn t0 feed = Inr (Some (ProbeOk frames))"
  shows "frames \<noteq> [] \<and> sorted_wrt (<) (map fr_slave frames) \<and>
    (\<forall>fr \<in> set frames. \<exists>r. seen (feed_bytes feed) r \<and> is_read_response r \<and> fr = with_response_value r)"
proof -
  obtain w b l d where loop: "probe_loop (fl_add t0 w) (fl_le w fl_zero) feed ([], [], []) = Some (b, l, d)"
      and d: "d \<noteq> []" and fr: "frames = map (\<lambda>s. the (dget d s)) (sort (map fst d))"
    using assms by (auto simp: probe_responses_def rbind_Inr_iff probe_outcome_def split: prod.splits if_splits)
  obtain x y c where "feed_bytes feed = x @ y" "c @ b = x" "responses_ok c d"
    using probe_loop_ok [OF loop, of "[]"] by (auto simp: probe_ok_def)
  then have ok: "responses_ok (feed_bytes feed) d" using responses_ok_append by (metis append.assoc)
  have entry: "the (dget d s) = v \<Longrightarrow> s \<in> set (map fst d) \<Longrightarrow> (s, v) \<in> set d" for s v
    using ok by (auto simp: responses_ok_def dget_of_member)
  have "map fr_slave frames = sort (map fst d)"
    unfolding fr map_map by (rule map_idI) (use ok entry in \<open>fastforce simp: responses_ok_def\<close>)
  moreover have "sorted_wrt (<) (sort (map fst d))"
    using ok by (simp add: strict_sorted_iff responses_ok_def dwf_def)
  moreover have "\<exists>r. seen (feed_bytes feed) r \<and> is_read_response r \<and> fr = with_response_value r"
    if "fr \<in> set frames" for fr
    using that ok entry unfolding fr by (fastforce simp: responses_ok_def)
  moreover have "sort (map fst d) \<noteq> []" using d by (metis length_0_conv length_map length_sort)
  ultimately show ?thesis using d fr by auto
qed

text \<open>C32: A successful probe of the line lists the slave ids in increasing order, each once, with one
  response for each of them, and every response it shows is a valid read response that stood in the
  captured traffic.\<close>

theorem probe_lists_seen_slaves:
  assumes "probe_line conn t0 feed now = Inr (Some result)" and "item_get result ''status'' = VStr ''ok''"
  shows "\<exists>frames. item_get result ''valid_slave_ids'' = VList (map (VInt \<circ> fr_slave) frames) \<and>
    item_get result ''responses'' = VList (map (VDict \<circ> frame_dict) frames) \<and>
    frames \<noteq> [] \<and> sorted_wrt (<) (map fr_slave frames) \<and>
    (\<forall>fr \<in> set frames. \<exists>r. seen (feed_bytes feed) r \<and> is_read_response r \<and> fr = with_response_value r)"
proof -
  obtain p where p: "probe_responses conn t0 feed = Inr (Some p)" "probe_dict conn now p = Inr result"
    using assms(1) by (auto simp: probe_line_def rbind_Inr_iff split: option.splits) (metis map_sum_Inr_cases)
  show ?thesis
  proof (cases p)
    case (ProbeOk frames)
    then have "item_get result ''valid_slave_ids'' = VList (map (VInt \<circ> fr_slave) frames) \<and>
        item_get result ''responses'' = VList (map (VDict \<circ> frame_dict) frames)"
      using p(2) by (auto simp: probe_dict_def responses_probe_result_def connection_metadata_def rbind_Inr_iff
          item_get_def get_or_def Let_def)
    then show ?thesis using responses_of_stream p(1) ProbeOk by metis
  next
    case (ProbeTimeout n raw er)
    then show ?thesis using p(2) assms(2)
      by (auto simp: probe_dict_def timeout_probe_result_def rbind_Inr_iff Let_def item_get_def get_or_def)
  qed
qed

section \<open>A sample probe\<close>

lemma drain_responses_grow: "d \<noteq> [] \<Longrightarrow> fst (drain_response_frames b d l) \<noteq> []"
proof (induction b d l rule: drain_response_frames.induct)
  case (1 b d l)
  have "dset k v d \<noteq> []" for k v by (metis dget_Nil dget_dset_same option.distinct(1))
  then show ?case using 1 by (auto simp: drain_response_frames.simps [of b] split: option.splits prod.splits)
qed

lemma drain_finds_response:
  assumes "parse_rtu_frame w = Inr fr" "is_read_response fr"
  shows "fst (drain_response_frames w [] []) \<noteq> []"
proof -
  have l: "4 \<le> length w" using parse_addresses(1) [OF assms(1)] .
  then have ne: "w \<noteq> []" by auto
  have "fst (first_response_frame_span w) \<noteq> None"
    using response_scan.detects [of 0 "length w" w fr] assms l by (simp add: window_def)
  then obtain x er where s: "first_response_frame_span w = (Some x, er)"
    by (cases "first_response_frame_span w") auto
  then show ?thesis using ne drain_responses_grow
    by (auto simp: drain_response_frames.simps [of w] split: prod.splits)
qed

definition sample_probe :: "settings option res" where
  "sample_probe = probe_line [(''capture_wait_s'', VInt 0)] fl_zero [(fl_zero, ex_response sample_exchange), (fl_zero, [])] noon"

lemma sample_response_parses:
  "\<exists>fr. parse_rtu_frame (ex_response sample_exchange) = Inr fr \<and> is_read_response fr"
  using rtu_response_parses [of "ex_function sample_exchange" "ex_registers sample_exchange" "ex_slave sample_exchange"]
  by (fastforce simp: sample_exchange_def ex_response_def frame_simps read_code_cases)

lemma dupdate_nonempty: "d \<noteq> [] \<or> e \<noteq> [] \<Longrightarrow> dupdate d e \<noteq> []"
proof
  assume "d \<noteq> [] \<or> e \<noteq> []" and e: "dupdate d e = []"
  then have "fst ` set d \<union> fst ` set e \<noteq> {}" by auto
  then show False using fst_set_dupdate [of d e] e by simp
qed

lemma probe_drain_grow: "snd (snd st) \<noteq> [] \<Longrightarrow> snd (snd (probe_drain st)) \<noteq> []"
  by (cases st) (auto simp: probe_drain_def dupdate_nonempty split: prod.splits)

lemma sample_probe_ok: "\<exists>d. sample_probe = Inr (Some d) \<and> item_get d ''status'' = VStr ''ok''"
proof -
  let ?w = "ex_response sample_exchange" and ?c = "[(''capture_wait_s'', VInt 0)]"
  let ?s1 = "probe_drain (ex_response sample_exchange, [], [])"
  obtain fr where fr: "parse_rtu_frame ?w = Inr fr" "is_read_response fr" using sample_response_parses by blast
  have ne: "?w \<noteq> []" using parse_addresses(1) [OF fr(1)] by auto
  have one: "snd (snd ?s1) \<noteq> []"
    using drain_finds_response [OF fr] dupdate_nonempty
    by (cases "drain_response_frames ?w [] []") (auto simp: probe_drain_def)
  obtain b l d where s1: "?s1 = (b, l, d)" by (cases ?s1)
  have zero: "fl_add fl_zero fl_zero = fl_zero" "fl_le fl_zero fl_zero" by (simp_all add: fl_zero_def fl_eval)
  let ?st = "if b \<noteq> [] then probe_drain (b, l, d) else (b, l, d)"
  have st: "snd (snd ?st) \<noteq> []" using one s1 probe_drain_grow [of "(b, l, d)"] by auto
  have loop: "probe_loop fl_zero True [(fl_zero, ?w), (fl_zero, [])] ([], [], []) = Some ?st"
    using ne s1 zero by (simp add: Let_def)
  obtain frames where out: "probe_outcome ?st = ProbeOk frames"
    using st by (cases ?st) (auto simp: probe_outcome_def)
  have wait: "capture_wait ?c = Inr fl_zero"
    by (simp add: capture_wait_def get_or_def int_to_float_def fl_zero_def fl_eval)
  obtain port where "open_serial ?c = Inr port"
    by (simp add: open_serial_def get_or_def)
  then have "probe_responses ?c fl_zero [(fl_zero, ?w), (fl_zero, [])] = Inr (Some (ProbeOk frames))"
    using wait loop zero out by (simp add: probe_responses_def del: probe_loop.simps)
  then show ?thesis
    by (simp add: sample_probe_def probe_line_def probe_dict_def responses_probe_result_def connection_metadata_def
      get_or_def item_get_def Let_def)
qed

lemma probe_lists_seen_slaves_witness:
  "\<exists>result (frames :: rtu_frame list). sample_probe = Inr (Some result) \<and>
     item_get result ''valid_slave_ids'' = VList (map (VInt \<circ> fr_slave) frames) \<and> frames \<noteq> []"
proof -
  obtain result where r: "sample_probe = Inr (Some result)" "item_get result ''status'' = VStr ''ok''"
    using sample_probe_ok by auto
  show ?thesis using probe_lists_seen_slaves [OF r(1) [unfolded sample_probe_def] r(2)] r(1) by blast
qed

end
