(* ===== verification/Modbus_Driver.thy ===== *)
theory Modbus_Driver
  imports Modbus_Read Poller_Props Sinks
begin

text \<open>
  The driver classes \<open>ModbusTcpDriver\<close> and \<open>ModbusSerialDriver\<close> of
  \<^verbatim>\<open>src/industrial_gateway/drivers/modbus.py\<close> and a polling thread that runs them. The pymodbus package is a
  parameter: whether it can be imported, and what its constructor, \<open>connect\<close>, reads and \<open>close\<close> do to a
  client.
\<close>

section \<open>The driver\<close>

datatype modbus_kind = ModbusTcp | ModbusSerial

record 'c pymodbus =
  pm_import_error :: "exn option"
  pm_new :: "settings \<Rightarrow> exn + 'c"
  pm_connect :: "'c \<Rightarrow> (exn + bool) \<times> 'c"
  pm_read :: "'c client"
  pm_close :: "'c \<Rightarrow> exn option \<times> 'c"
  pm_frames :: "(string \<times> nat \<times> string) list"

record 'c modbus_driver =
  md_kind :: modbus_kind
  md_device :: device_spec
  md_tags :: "tag_spec list"
  md_client :: "'c option"

definition new_modbus_driver :: "modbus_kind \<Rightarrow> device_spec \<Rightarrow> tag_spec list \<Rightarrow> 'c modbus_driver" where
  "new_modbus_driver k dev tags = \<lparr>md_kind = k, md_device = dev, md_tags = tags, md_client = None\<rparr>"

definition tcp_arguments :: "settings \<Rightarrow> settings res" where
  "tcp_arguments conn =
     rbind (py_int (get_or conn ''port'' (VInt 502))) (\<lambda>port.
       Inr [(''host'', get_or conn ''host'' (VStr ''127.0.0.1'')), (''port'', VInt port)])"

definition serial_arguments :: "settings \<Rightarrow> settings res" where
  "serial_arguments conn =
     rbind (py_int (get_or conn ''baudrate'' (VInt 9600))) (\<lambda>baud.
     rbind (py_int (get_or conn ''stopbits'' (VInt 1))) (\<lambda>stop.
     rbind (py_int (get_or conn ''bytesize'' (VInt 8))) (\<lambda>size.
     rbind (py_float (get_or conn ''timeout'' (VFloat (fl_ratio False 2 1)))) (\<lambda>tmo.
       Inr [(''port'', get_or conn ''port'' (VStr ''COM1'')), (''baudrate'', VInt baud),
            (''parity'', get_or conn ''parity'' (VStr ''N'')), (''stopbits'', VInt stop),
            (''bytesize'', VInt size), (''timeout'', VFloat tmo)]))))"

definition client_arguments :: "modbus_kind \<Rightarrow> settings \<Rightarrow> settings res" where
  "client_arguments k conn = (case k of ModbusTcp \<Rightarrow> tcp_arguments conn | ModbusSerial \<Rightarrow> serial_arguments conn)"

definition refused_text :: "modbus_kind \<Rightarrow> settings \<Rightarrow> string" where
  "refused_text k args = (case k of
       ModbusTcp \<Rightarrow> ''failed to connect Modbus TCP '' @ py_str (item_get args ''host'') @ '':'' @ py_str (item_get args ''port'')
     | ModbusSerial \<Rightarrow> ''failed to connect Modbus Serial '' @ py_str (item_get args ''port''))"

definition import_text :: "modbus_kind \<Rightarrow> string" where
  "import_text k = (case k of
       ModbusTcp \<Rightarrow> ''pymodbus is required for Modbus TCP''
     | ModbusSerial \<Rightarrow> ''pymodbus is required for Modbus Serial'')"

definition md_connect :: "'c pymodbus \<Rightarrow> 'c modbus_driver \<Rightarrow> exn option \<times> 'c modbus_driver" where
  "md_connect pm d = (case pm_import_error pm of
       Some e \<Rightarrow> (Some (raised (pm_frames pm) (Raise RuntimeError (import_text (md_kind d)))), d)
     | None \<Rightarrow> (case client_arguments (md_kind d) (dev_connection (md_device d)) of
           Inl e \<Rightarrow> (Some (raised (pm_frames pm) e), d)
         | Inr args \<Rightarrow> (case pm_new pm args of
               Inl e \<Rightarrow> (Some e, d)
             | Inr client \<Rightarrow> (case pm_connect pm client of
                   (Inl e, c) \<Rightarrow> (Some e, d\<lparr>md_client := Some c\<rparr>)
                 | (Inr ok, c) \<Rightarrow>
                     (if ok then None
                      else Some (raised (pm_frames pm) (Raise RuntimeError (refused_text (md_kind d) args))),
                      d\<lparr>md_client := Some c\<rparr>)))))"

definition md_disconnect :: "'c pymodbus \<Rightarrow> 'c modbus_driver \<Rightarrow> exn option \<times> 'c modbus_driver" where
  "md_disconnect pm d = (case md_client d of
       None \<Rightarrow> (None, d)
     | Some client \<Rightarrow> (case pm_close pm client of
           (Some e, c) \<Rightarrow> (Some e, d\<lparr>md_client := Some c\<rparr>)
         | (None, c) \<Rightarrow> (None, d\<lparr>md_client := None\<rparr>)))"

definition md_read_tags :: "'c pymodbus \<Rightarrow> datetime \<Rightarrow> 'c modbus_driver \<Rightarrow> tag_result list res \<times> 'c modbus_driver" where
  "md_read_tags pm now d = (case md_client d of
       None \<Rightarrow> (fst (read_tags_grouped None now () (md_device d) (md_tags d)), d)
     | Some client \<Rightarrow>
         (let (r, c) = read_tags_grouped (Some (pm_read pm)) now client (md_device d) (md_tags d)
          in (r, d\<lparr>md_client := Some c\<rparr>)))"

section \<open>A poll\<close>

text \<open>What the calls of one poll do, as the driver record of the polling thread: connect, read when
  connected, disconnect. The driver has no \<open>read_server_status\<close>.\<close>

definition modbus_poll_calls ::
  "'c pymodbus \<Rightarrow> datetime \<Rightarrow> modbus_kind \<Rightarrow> device_spec \<Rightarrow> tag_spec list \<Rightarrow> driver" where
  "modbus_poll_calls pm now k dev tags =
     (let (e1, d1) = md_connect pm (new_modbus_driver k dev tags);
          (r, d2) = md_read_tags pm now d1;
          (e3, d3) = md_disconnect pm (if e1 = None then d2 else d1)
      in \<lparr>dr_connect = e1, dr_health = None, dr_read = map_sum (raised (pm_frames pm)) id r, dr_disconnect = e3\<rparr>)"

definition modbus_factory :: "'c pymodbus \<Rightarrow> datetime \<Rightarrow> modbus_kind \<Rightarrow> driver_factory" where
  "modbus_factory pm now k dev tags = Inr (modbus_poll_calls pm now k dev tags)"

text \<open>The client a failed connection made is kept, so that the disconnect that follows closes it.\<close>

lemma refused_client_is_closed:
  assumes "md_connect pm (new_modbus_driver k dev tags) = (Some e, d)"
    and "pm_import_error pm = None" and "client_arguments k (dev_connection dev) = Inr args"
    and "pm_new pm args = Inr client"
  shows "md_disconnect pm d = (let (e', c) = pm_close pm (snd (pm_connect pm client))
    in (e', d\<lparr>md_client := (if e' = None then None else Some c)\<rparr>))"
  using assms
  by (auto simp: md_connect_def md_disconnect_def new_modbus_driver_def split: prod.splits sum.splits if_splits option.splits)

lemma connected_reads:
  assumes "pm_import_error pm = None" and "client_arguments k (dev_connection dev) = Inr args"
    and "pm_new pm args = Inr client" and "pm_connect pm client = (Inr True, c)"
  shows "dr_connect (modbus_poll_calls pm now k dev tags) = None"
    "dr_read (modbus_poll_calls pm now k dev tags) =
       map_sum (raised (pm_frames pm)) id (fst (read_tags_grouped (Some (pm_read pm)) now c dev tags))"
  using assms
  by (simp_all add: modbus_poll_calls_def md_connect_def md_read_tags_def new_modbus_driver_def split: prod.splits)

lemma modbus_poll_outbox:
  assumes "pm_import_error pm = None" and "client_arguments k (dev_connection (wc_device w)) = Inr args"
    and "pm_new pm args = Inr client" and "pm_connect pm client = (Inr True, c)"
    and "coherent (pm_read pm) regs bits"
    and "read_plan (wc_device w) (wc_tags w) = Inr blocks" and "modbus_tags_ok (wc_tags w)"
    and "py_int (get_or (dev_connection (wc_device w)) ''max_block_gap'' (VInt 4)) = Inr gap" and "0 \<le> gap"
    and "py_int (get_or (dev_connection (wc_device w)) ''unit_id'' (VInt 1)) = Inr unit" and "0 \<le> unit" and "unit \<le> 255"
    and "tags_requestable (wc_tags w)" and "distinct (map tag_name (wc_tags w))" and "po_factory p = modbus_factory pm now k"
  shows "wk_outbox (snd (poll_once w p s)) = wk_outbox s @
    [\<lparr>rr_device = wc_device w, rr_timestamp = po_time p,
      rr_tags = map (read_alone regs bits unit now) (wc_tags w), rr_error = None\<rparr>]"
proof -
  have f: "po_factory p (wc_device w) (wc_tags w) = Inr (modbus_poll_calls pm now k (wc_device w) (wc_tags w))"
    using assms(15) by (simp add: modbus_factory_def)
  obtain x s' where r: "poll_once w p s = (x, s')" by fastforce
  have "fst (read_tags_grouped (Some (pm_read pm)) now c (wc_device w) (wc_tags w)) =
      Inr (map (read_alone regs bits unit now) (wc_tags w))"
    by (rule grouped_reads_alone [OF assms(6-13) assms(5) assms(14)])
  then show ?thesis
    using poll_once_built(2) [OF f r] r connected_reads [OF assms(1-4)] by (simp add: poll_outcome_def)
qed

text \<open>C8: A poll of a Modbus device delivers the device's data. The enabled tags are validated, have
  distinct names, lie inside the address space and fit one request each; the default unit is between 0 and
  255 and the permitted gap not negative. pymodbus can be imported, its client can be built and connects,
  and it answers every request the protocol allows from fixed tables, bits padded to whole bytes. Then one
  poll of the thread puts exactly one result, without error, whose readings are those of each tag read by
  itself, in the order of the tags.\<close>

theorem modbus_poll_delivers:
  assumes "pm_import_error pm = None" and "client_arguments k (dev_connection (wc_device w)) = Inr args"
    and "pm_new pm args = Inr client" and "pm_connect pm client = (Inr True, c)"
    and "coherent (pm_read pm) regs bits"
    and "read_plan (wc_device w) (wc_tags w) = Inr blocks" and "modbus_tags_ok (wc_tags w)"
    and "py_int (get_or (dev_connection (wc_device w)) ''max_block_gap'' (VInt 4)) = Inr gap" and "0 \<le> gap"
    and "py_int (get_or (dev_connection (wc_device w)) ''unit_id'' (VInt 1)) = Inr unit" and "0 \<le> unit" and "unit \<le> 255"
    and "tags_requestable (wc_tags w)" and "distinct (map tag_name (wc_tags w))" and "po_factory p = modbus_factory pm now k"
  shows "wk_outbox (snd (poll_once w p s)) = wk_outbox s @
    [\<lparr>rr_device = wc_device w, rr_timestamp = po_time p,
      rr_tags = map (read_alone regs bits unit now) (wc_tags w), rr_error = None\<rparr>]"
  using assms by (rule modbus_poll_outbox)

definition table_pymodbus :: "unit pymodbus" where
  "table_pymodbus = \<lparr>pm_import_error = None, pm_new = (\<lambda>args. Inr ()), pm_connect = (\<lambda>c. (Inr True, c)),
     pm_read = table_client (\<lambda>fn u a. 100 + a) (\<lambda>fn u a. a = 3), pm_close = (\<lambda>c. (None, c)), pm_frames = []\<rparr>"

definition modbus_worker :: worker_config where
  "modbus_worker = (sample_worker (sample_device []))\<lparr>wc_tags := sample_tags\<rparr>"

definition modbus_round :: poll_round where
  "modbus_round = \<lparr>po_factory = modbus_factory table_pymodbus noon ModbusTcp, po_time = noon, po_clock = fl_zero,
     po_health_time = noon\<rparr>"

lemma modbus_poll_delivers_witness:
  "wk_outbox (snd (poll_once modbus_worker modbus_round new_worker)) = wk_outbox new_worker @
    [\<lparr>rr_device = wc_device modbus_worker, rr_timestamp = po_time modbus_round,
      rr_tags = map (read_alone (\<lambda>fn u a. 100 + a) (\<lambda>fn u a. a = 3) 1 noon) (wc_tags modbus_worker), rr_error = None\<rparr>]"
proof -
  have w: "wc_device modbus_worker = sample_device []" "wc_tags modbus_worker = sample_tags"
    by (simp_all add: modbus_worker_def sample_worker_def new_worker_config_def)
  have c: "dev_connection (sample_device []) = []" by (simp add: sample_device_def)
  have d: "distinct (map tag_name sample_tags)" by (simp add: sample_tags_def new_tag_def)
  show ?thesis
    by (rule modbus_poll_delivers [where pm = table_pymodbus and k = ModbusTcp and now = noon and gap = 4
          and c = "()" and blocks = sample_plan and args = "[(''host'', VStr ''127.0.0.1''), (''port'', VInt 502)]"])
      (simp_all add: w table_pymodbus_def coherent_table_client sample_tags_requestable sample_plan_eq sample_tags_ok modbus_round_def
        client_arguments_def tcp_arguments_def get_or_def c d)
qed

end
