(* ===== verification/Web_Api.thy ===== *)
theory Web_Api
  imports Runtime_Props Config_Csv_Props Rtu_Probe
begin

text \<open>
  \<^verbatim>\<open>src/industrial_gateway/web/auth.py\<close> and \<^verbatim>\<open>src/industrial_gateway/web/api.py\<close>: the session cookie, the handlers of the
  HTTP interface, the exception handlers and the event socket.

  A request stands for what FastAPI hands to a handler after it has matched the path and parsed the parameters and the JSON
  body; the health interval of a runtime start is an integer. itsdangerous is a parameter: \<open>sg_dumps\<close> and \<open>sg_loads\<close> are \<open>dumps\<close> and
  \<open>loads\<close> of the serializer for a secret, \<open>None\<close> for \<open>BadSignature\<close>. The state is the store and the runtime manager. The static
  files are not modelled.
\<close>

section \<open>Sessions\<close>

record auth_settings =
  au_username :: string
  au_password :: string
  au_secret :: string

record signer =
  sg_dumps :: "string \<Rightarrow> settings \<Rightarrow> string"
  sg_loads :: "string \<Rightarrow> string \<Rightarrow> settings option"

datatype api_error = Http nat settings | Failed pyerr

definition error_body :: "string \<Rightarrow> string \<Rightarrow> settings" where
  "error_body e m = [(''error'', VStr e), (''message'', VStr m)]"

definition unauthorized :: api_error where
  "unauthorized = Http 401 (error_body ''unauthorized'' ''Login required'')"

text \<open>\<open>hmac.compare_digest\<close> refuses texts with characters outside ASCII.\<close>

definition ascii_only :: "string \<Rightarrow> bool" where
  "ascii_only s \<longleftrightarrow> list_all (\<lambda>c. (of_char c :: nat) < 128) s"

definition compare_digest :: "string \<Rightarrow> string \<Rightarrow> bool res" where
  "compare_digest a b =
     (if ascii_only a \<and> ascii_only b then Inr (a = b)
      else Inl (Raise TypeError ''comparing strings with non-ASCII characters is not supported''))"

definition create_session_token :: "signer \<Rightarrow> auth_settings \<Rightarrow> string" where
  "create_session_token sg a = sg_dumps sg (au_secret a) [(''username'', VStr (au_username a))]"

definition read_session_token :: "signer \<Rightarrow> string \<Rightarrow> auth_settings \<Rightarrow> api_error + settings" where
  "read_session_token sg token a = (case sg_loads sg (au_secret a) token of
       None \<Rightarrow> Inl unauthorized
     | Some data \<Rightarrow>
         if item_get data ''username'' \<noteq> VStr (au_username a) then Inl unauthorized
         else Inr [(''username'', VStr (au_username a))])"

definition verify_login :: "string \<Rightarrow> string \<Rightarrow> auth_settings \<Rightarrow> bool res" where
  "verify_login username password a =
     rbind (compare_digest username (au_username a)) (\<lambda>ok.
       if ok then compare_digest password (au_password a) else Inr False)"

definition require_session :: "signer \<Rightarrow> auth_settings \<Rightarrow> string option \<Rightarrow> api_error + settings" where
  "require_session sg a token = (case token of
       None \<Rightarrow> Inl unauthorized
     | Some t \<Rightarrow> if t = [] then Inl unauthorized else read_session_token sg t a)"

section \<open>Requests and responses\<close>

datatype request =
    Login string string | Logout | Session | Health | AppInfo | DriverSchema | PluginSchema
  | ListDevices | CreateDevice settings | UpdateDevice int settings | DeleteDevice int
  | ExportDevices | ImportDevices string
  | ListTags int | ListAllTags | CreateTag int settings | UpdateTag int settings | DeleteTag int
  | ExportTags int | ImportTags int string
  | ProbeMonitor settings
  | ListPlugins | ExportPlugins | ImportPlugins string | GetPlugin string | SavePlugin string settings
  | ListRoutes | ExportRoutes | ImportRoutes string | SaveRoute settings | UpdateRoute int settings
  | ResolveRoute int | DeleteRoute int
  | StartRuntime "int option" pyval | StopRuntime | RuntimeStatus

datatype body = Json pyval | CsvFile string string | Plain string | Pending

datatype cookie_change = KeepCookie | SetCookie string | ClearCookie

record response =
  rp_status :: nat
  rp_body :: body
  rp_cookie :: cookie_change

definition reply :: "body \<Rightarrow> response" where
  "reply b = \<lparr>rp_status = 200, rp_body = b, rp_cookie = KeepCookie\<rparr>"

text \<open>The exception handlers; an exception without one is answered by the server itself.\<close>

definition error_response :: "api_error \<Rightarrow> response" where
  "error_response e = (case e of
       Http code detail \<Rightarrow> \<lparr>rp_status = code, rp_body = Json (VDict detail), rp_cookie = KeepCookie\<rparr>
     | Failed x \<Rightarrow>
         if err_kind x = KeyError
         then \<lparr>rp_status = 404, rp_body = Json (VDict (error_body ''not_found'' (err_text x))), rp_cookie = KeepCookie\<rparr>
         else if err_kind x = ValueError
         then \<lparr>rp_status = 400, rp_body = Json (VDict (error_body ''bad_request'' (err_text x))), rp_cookie = KeepCookie\<rparr>
         else \<lparr>rp_status = 500, rp_body = Plain ''Internal Server Error'', rp_cookie = KeepCookie\<rparr>)"

section \<open>Uploaded files\<close>

definition continuation :: "nat \<Rightarrow> bool" where
  "continuation b \<longleftrightarrow> 0x80 \<le> b \<and> b < 0xC0"

fun valid_utf8 :: "nat list \<Rightarrow> bool" where
  "valid_utf8 [] = True"
| "valid_utf8 (b # bs) =
     (if b < 0x80 then valid_utf8 bs
      else case bs of
        [] \<Rightarrow> False
      | c # cs \<Rightarrow>
          if 0xC2 \<le> b \<and> b < 0xE0 then continuation c \<and> valid_utf8 cs
          else (case cs of
            [] \<Rightarrow> False
          | d # ds \<Rightarrow>
              if 0xE0 \<le> b \<and> b < 0xF0
              then continuation c \<and> (b = 0xE0 \<longrightarrow> 0xA0 \<le> c) \<and> (b = 0xED \<longrightarrow> c < 0xA0) \<and> continuation d \<and> valid_utf8 ds
              else (case ds of
                [] \<Rightarrow> False
              | e # es \<Rightarrow>
                  0xF0 \<le> b \<and> b < 0xF5 \<and> continuation c \<and> (b = 0xF0 \<longrightarrow> 0x90 \<le> c) \<and> (b = 0xF4 \<longrightarrow> c < 0x90) \<and>
                  continuation d \<and> continuation e \<and> valid_utf8 es)))"

definition utf8_mark :: string where
  "utf8_mark = map char_of [0xEF :: nat, 0xBB, 0xBF]"

text \<open>\<open>body.decode("utf-8-sig")\<close>; the text of a \<open>UnicodeDecodeError\<close> is a parameter.\<close>

definition decode_upload :: "(string \<Rightarrow> string) \<Rightarrow> string \<Rightarrow> string res" where
  "decode_upload error_text bytes =
     (let rest = (if take 3 bytes = utf8_mark then drop 3 bytes else bytes)
      in if valid_utf8 (map of_char rest) then Inr rest else value_error (error_text bytes))"

section \<open>Handlers\<close>

record api_env =
  ae_auth :: auth_settings
  ae_signer :: signer
  ae_runtime :: runtime_env
  ae_version :: string
  ae_decode_error :: "string \<Rightarrow> string"
  ae_serial_clock :: pyfloat
  ae_serial_feed :: feed

type_synonym app_state = "db \<times> runtime"
type_synonym handler = "app_state \<Rightarrow> body res \<times> app_state"

definition on_store :: "('a \<Rightarrow> body) \<Rightarrow> 'a svc \<Rightarrow> handler" where
  "on_store f m st = (case m (fst st) of (r, db) \<Rightarrow> (map_sum id f r, db, snd st))"

definition json_dict :: "settings \<Rightarrow> body" where
  "json_dict d = Json (VDict d)"

definition json_list :: "settings list \<Rightarrow> body" where
  "json_list xs = Json (VList (map VDict xs))"

definition json_deleted :: "unit \<Rightarrow> body" where
  "json_deleted u = json_dict [(''deleted'', VBool True)]"

definition upload :: "api_env \<Rightarrow> (string \<Rightarrow> settings svc) \<Rightarrow> string \<Rightarrow> handler" where
  "upload env f bytes = on_store json_dict (sbind (sfrom (decode_upload (ae_decode_error env) bytes)) f)"

definition probe_modbus_rtu_monitor :: "api_env \<Rightarrow> settings \<Rightarrow> handler" where
  "probe_modbus_rtu_monitor env payload st =
     (rbind (settings_of (or_val (item_get payload ''connection'') (VDict []))) (\<lambda>conn.
        map_sum id (\<lambda>answer. case answer of None \<Rightarrow> Pending | Some result \<Rightarrow> json_dict result)
          (probe_line conn (ae_serial_clock env) (ae_serial_feed env) (re_now (ae_runtime env)))), st)"

definition start_runtime :: "api_env \<Rightarrow> int option \<Rightarrow> pyval \<Rightarrow> handler" where
  "start_runtime env health logging st =
     (case rm_start (ae_runtime env) health (if logging = VNone then None else Some (truthy logging)) st of
        (r, st') \<Rightarrow> (map_sum id json_dict r, st'))"

definition stop_runtime :: handler where
  "stop_runtime st = (case rm_stop (snd st) of (d, s) \<Rightarrow> (Inr (json_dict d), fst st, s))"

definition runtime_status :: "api_env \<Rightarrow> handler" where
  "runtime_status env st = (case drain_events (ae_runtime env) 1000 (snd st) of
       (Inl e, s) \<Rightarrow> (Inl e, fst st, s)
     | (Inr _, s) \<Rightarrow> (Inr (json_dict (rm_snapshot s)), fst st, s))"

text \<open>The bodies of the handlers that declare a session; the last equation stands for the four that do not and is not used.
  \<open>Pending\<close> is the answer of a request that is still running, a probe on a line whose feed has no end.\<close>

fun api_call :: "api_env \<Rightarrow> settings \<Rightarrow> request \<Rightarrow> handler" where
  "api_call env user Session st = (Inr (json_dict [(''authenticated'', VBool True), (''username'', item_get user ''username'')]), st)"
| "api_call env user DriverSchema st = (Inr (json_dict driver_schema), st)"
| "api_call env user PluginSchema st = (Inr (json_dict (plugin_schema (re_plugins (ae_runtime env)))), st)"
| "api_call env user ListDevices st = on_store json_list cfg_list_devices st"
| "api_call env user (CreateDevice p) st = on_store json_dict (cfg_create_device p) st"
| "api_call env user (UpdateDevice i p) st = on_store json_dict (cfg_update_device i p) st"
| "api_call env user (DeleteDevice i) st = on_store json_deleted (cfg_delete_device i) st"
| "api_call env user ExportDevices st = on_store (CsvFile ''devices.csv'') cfg_export_devices_csv st"
| "api_call env user (ImportDevices b) st = upload env cfg_import_devices_csv b st"
| "api_call env user (ListTags i) st = on_store json_list (cfg_list_tags i) st"
| "api_call env user ListAllTags st = on_store json_list cfg_list_all_tags st"
| "api_call env user (CreateTag i p) st = on_store json_dict (cfg_create_tag i p) st"
| "api_call env user (UpdateTag i p) st = on_store json_dict (cfg_update_tag i p) st"
| "api_call env user (DeleteTag i) st = on_store json_deleted (cfg_delete_tag i) st"
| "api_call env user (ExportTags i) st = on_store (CsvFile (''device-'' @ show_int i @ ''-tags.csv'')) (cfg_export_tags_csv i) st"
| "api_call env user (ImportTags i b) st = upload env (cfg_import_tags_csv i) b st"
| "api_call env user (ProbeMonitor p) st = probe_modbus_rtu_monitor env p st"
| "api_call env user ListPlugins st = on_store json_list cfg_list_sink_configs st"
| "api_call env user ExportPlugins st = on_store (CsvFile ''plugins.csv'') cfg_export_plugins_csv st"
| "api_call env user (ImportPlugins b) st = upload env cfg_import_plugins_csv b st"
| "api_call env user (GetPlugin t) st = on_store json_dict (cfg_get_sink_config t) st"
| "api_call env user (SavePlugin t p) st = on_store json_dict (cfg_save_sink_config (dupdate [(''sink_type'', VStr t)] p)) st"
| "api_call env user ListRoutes st = on_store json_list cfg_list_output_routes st"
| "api_call env user ExportRoutes st = on_store (CsvFile ''plugin-routes.csv'') cfg_export_plugin_routes_csv st"
| "api_call env user (ImportRoutes b) st = upload env cfg_import_plugin_routes_csv b st"
| "api_call env user (SaveRoute p) st = on_store json_dict (cfg_save_output_route p) st"
| "api_call env user (UpdateRoute i p) st = on_store json_dict (cfg_save_output_route (dupdate [(''id'', VInt i)] p)) st"
| "api_call env user (ResolveRoute i) st = on_store json_dict (resolve_output_route_topic (re_resolver (ae_runtime env)) (re_now (ae_runtime env)) i) st"
| "api_call env user (DeleteRoute i) st = on_store json_deleted (cfg_delete_output_route i) st"
| "api_call env user (StartRuntime h l) st = start_runtime env h l st"
| "api_call env user StopRuntime st = stop_runtime st"
| "api_call env user RuntimeStatus st = runtime_status env st"
| "api_call env user r st = (Inr Pending, st)"

definition login :: "api_env \<Rightarrow> string \<Rightarrow> string \<Rightarrow> response" where
  "login env username password = (case verify_login username password (ae_auth env) of
       Inl e \<Rightarrow> error_response (Failed e)
     | Inr ok \<Rightarrow>
         if ok
         then (reply (json_dict [(''authenticated'', VBool True), (''username'', VStr (au_username (ae_auth env)))]))
           \<lparr>rp_cookie := SetCookie (create_session_token (ae_signer env) (ae_auth env))\<rparr>
         else error_response (Http 401 (error_body ''invalid_credentials'' ''Invalid username or password'')))"

text \<open>\<open>Depends(session_dependency)\<close>: FastAPI resolves it before it calls the handler, and an exception of it is the answer.\<close>

definition answer :: "body res \<times> app_state \<Rightarrow> response \<times> app_state" where
  "answer x = (case x of (Inl e, st) \<Rightarrow> (error_response (Failed e), st) | (Inr b, st) \<Rightarrow> (reply b, st))"

definition with_session :: "api_env \<Rightarrow> string option \<Rightarrow> (settings \<Rightarrow> handler) \<Rightarrow> app_state \<Rightarrow> response \<times> app_state" where
  "with_session env cookie h st = (case require_session (ae_signer env) (ae_auth env) cookie of
       Inl e \<Rightarrow> (error_response e, st)
     | Inr user \<Rightarrow> answer (h user st))"

text \<open>The routes, one equation each: four without the dependency, the others each with it.\<close>

fun handle_request :: "api_env \<Rightarrow> string option \<Rightarrow> request \<Rightarrow> app_state \<Rightarrow> response \<times> app_state" where
  "handle_request env c (Login u p) st = (login env u p, st)"
| "handle_request env c Logout st = ((reply (json_dict [(''authenticated'', VBool False)]))\<lparr>rp_cookie := ClearCookie\<rparr>, st)"
| "handle_request env c Health st = (reply (json_dict [(''status'', VStr ''ok'')]), st)"
| "handle_request env c AppInfo st = (reply (json_dict [(''name'', VStr ''Industrial Gateway''), (''version'', VStr (ae_version env))]), st)"
| "handle_request env c Session st = with_session env c (\<lambda>user. api_call env user Session) st"
| "handle_request env c DriverSchema st = with_session env c (\<lambda>user. api_call env user DriverSchema) st"
| "handle_request env c PluginSchema st = with_session env c (\<lambda>user. api_call env user PluginSchema) st"
| "handle_request env c ListDevices st = with_session env c (\<lambda>user. api_call env user ListDevices) st"
| "handle_request env c (CreateDevice p) st = with_session env c (\<lambda>user. api_call env user (CreateDevice p)) st"
| "handle_request env c (UpdateDevice i p) st = with_session env c (\<lambda>user. api_call env user (UpdateDevice i p)) st"
| "handle_request env c (DeleteDevice i) st = with_session env c (\<lambda>user. api_call env user (DeleteDevice i)) st"
| "handle_request env c ExportDevices st = with_session env c (\<lambda>user. api_call env user ExportDevices) st"
| "handle_request env c (ImportDevices b) st = with_session env c (\<lambda>user. api_call env user (ImportDevices b)) st"
| "handle_request env c (ListTags i) st = with_session env c (\<lambda>user. api_call env user (ListTags i)) st"
| "handle_request env c ListAllTags st = with_session env c (\<lambda>user. api_call env user ListAllTags) st"
| "handle_request env c (CreateTag i p) st = with_session env c (\<lambda>user. api_call env user (CreateTag i p)) st"
| "handle_request env c (UpdateTag i p) st = with_session env c (\<lambda>user. api_call env user (UpdateTag i p)) st"
| "handle_request env c (DeleteTag i) st = with_session env c (\<lambda>user. api_call env user (DeleteTag i)) st"
| "handle_request env c (ExportTags i) st = with_session env c (\<lambda>user. api_call env user (ExportTags i)) st"
| "handle_request env c (ImportTags i b) st = with_session env c (\<lambda>user. api_call env user (ImportTags i b)) st"
| "handle_request env c (ProbeMonitor p) st = with_session env c (\<lambda>user. api_call env user (ProbeMonitor p)) st"
| "handle_request env c ListPlugins st = with_session env c (\<lambda>user. api_call env user ListPlugins) st"
| "handle_request env c ExportPlugins st = with_session env c (\<lambda>user. api_call env user ExportPlugins) st"
| "handle_request env c (ImportPlugins b) st = with_session env c (\<lambda>user. api_call env user (ImportPlugins b)) st"
| "handle_request env c (GetPlugin t) st = with_session env c (\<lambda>user. api_call env user (GetPlugin t)) st"
| "handle_request env c (SavePlugin t p) st = with_session env c (\<lambda>user. api_call env user (SavePlugin t p)) st"
| "handle_request env c ListRoutes st = with_session env c (\<lambda>user. api_call env user ListRoutes) st"
| "handle_request env c ExportRoutes st = with_session env c (\<lambda>user. api_call env user ExportRoutes) st"
| "handle_request env c (ImportRoutes b) st = with_session env c (\<lambda>user. api_call env user (ImportRoutes b)) st"
| "handle_request env c (SaveRoute p) st = with_session env c (\<lambda>user. api_call env user (SaveRoute p)) st"
| "handle_request env c (UpdateRoute i p) st = with_session env c (\<lambda>user. api_call env user (UpdateRoute i p)) st"
| "handle_request env c (ResolveRoute i) st = with_session env c (\<lambda>user. api_call env user (ResolveRoute i)) st"
| "handle_request env c (DeleteRoute i) st = with_session env c (\<lambda>user. api_call env user (DeleteRoute i)) st"
| "handle_request env c (StartRuntime h l) st = with_session env c (\<lambda>user. api_call env user (StartRuntime h l)) st"
| "handle_request env c StopRuntime st = with_session env c (\<lambda>user. api_call env user StopRuntime) st"
| "handle_request env c RuntimeStatus st = with_session env c (\<lambda>user. api_call env user RuntimeStatus) st"

section \<open>The event socket\<close>

text \<open>What \<open>receive_text\<close> does within the fifth of a second it is given, one per round of the loop.\<close>

datatype socket_wait = WaitedOut | GotText | Disconnected

datatype socket_end = Closed nat | Ended | Crashed pyerr | Open

definition event_message :: "settings \<Rightarrow> settings" where
  "event_message d = [(''type'', VStr ''snapshot''), (''payload'', VDict d)]"

fun event_rounds :: "runtime_env \<Rightarrow> socket_wait list \<Rightarrow> runtime \<Rightarrow> settings list \<times> socket_end \<times> runtime" where
  "event_rounds env [] s = ([], Open, s)"
| "event_rounds env (w # ws) s = (case drain_events env 1000 s of
       (Inl e, s1) \<Rightarrow> ([], Crashed e, s1)
     | (Inr events, s1) \<Rightarrow>
         if w = Disconnected then (events, Ended, s1)
         else (let (sent, x, s2) = event_rounds env ws s1 in (events @ sent, x, s2)))"

definition runtime_events ::
  "api_env \<Rightarrow> string option \<Rightarrow> socket_wait list \<Rightarrow> runtime \<Rightarrow> settings list \<times> socket_end \<times> runtime" where
  "runtime_events env cookie ws s = (case require_session (ae_signer env) (ae_auth env) cookie of
       Inl e \<Rightarrow> ([], Closed 1008, s)
     | Inr user \<Rightarrow>
         (let (sent, x, s1) = event_rounds (ae_runtime env) ws s in (event_message (rm_snapshot s) # sent, x, s1)))"

section \<open>The application\<close>

text \<open>\<open>create_app\<close> on an initialised store: the manager is started before the application is returned, and an exception
  leaves no application. A session of the service is a list of requests with their cookies; the end of the
  application shuts the manager down.\<close>

definition create_app :: "api_env \<Rightarrow> db \<Rightarrow> app_state res" where
  "create_app env db = (case rm_start (ae_runtime env) None None (db, new_runtime) of
       (Inl e, st) \<Rightarrow> Inl e
     | (Inr _, st) \<Rightarrow> Inr st)"

fun serve :: "api_env \<Rightarrow> (string option \<times> request) list \<Rightarrow> app_state \<Rightarrow> response list \<times> app_state" where
  "serve env [] st = ([], st)"
| "serve env ((cookie, r) # rs) st =
     (let (rsp, st1) = handle_request env cookie r st; (rsps, st2) = serve env rs st1 in (rsp # rsps, st2))"

definition app_shutdown :: "app_state \<Rightarrow> app_state" where
  "app_shutdown st = (fst st, rm_shutdown (snd st))"

end
