(* ===== verification/Web_Props.thy ===== *)
theory Web_Props
  imports Web_Api
begin

text \<open>
  Properties of the HTTP interface: nothing but the public requests is served without a session, a login opens one and
  only with the right credentials, every run of requests keeps the store's integrity, a refused change leaves the
  configuration alone, and what makes the application unable to start again.
\<close>

section \<open>Sessions\<close>

lemma require_session_error: "require_session sg a c = Inl e \<Longrightarrow> e = unauthorized"
  by (auto simp: require_session_def read_session_token_def split: option.splits if_splits)

lemma unauthorized_status [simp]: "rp_status (error_response unauthorized) = 401"
  by (simp add: error_response_def unauthorized_def)

text \<open>The requests anybody may make: logging in and out, and asking whether the service is up and what it is.\<close>

fun open_to_all :: "request \<Rightarrow> bool" where
  "open_to_all (Login u p) = True"
| "open_to_all Logout = True"
| "open_to_all Health = True"
| "open_to_all AppInfo = True"
| "open_to_all r = False"

lemma handle_guarded: "\<not> open_to_all r \<Longrightarrow> handle_request env c r st = with_session env c (\<lambda>user. api_call env user r) st"
  by (cases r) simp_all

lemma handle_open: "open_to_all r \<Longrightarrow> snd (handle_request env c r st) = st"
  by (cases r) simp_all

lemma handle_without_session:
  assumes "\<forall>u. require_session (ae_signer env) (ae_auth env) c \<noteq> Inr u"
  shows "snd (handle_request env c r st) = st"
    "\<not> open_to_all r \<Longrightarrow> fst (handle_request env c r st) = error_response unauthorized"
proof -
  obtain e where e: "require_session (ae_signer env) (ae_auth env) c = Inl e"
    using assms by (cases "require_session (ae_signer env) (ae_auth env) c") auto
  have "with_session env c h st = (error_response unauthorized, st)" for h
    using require_session_error [OF e] by (simp add: with_session_def e)
  then show "snd (handle_request env c r st) = st"
    "\<not> open_to_all r \<Longrightarrow> fst (handle_request env c r st) = error_response unauthorized"
    using handle_guarded [of r env c st] handle_open [of r env c st] by (cases "open_to_all r"; simp)+
qed

text \<open>C15: Nothing happens without a session. However many requests arrive, if no cookie among them opens a session then the store
  and the runtime are as before, and every request is answered 401 unless it is a login, a logout, or one of the
  questions whether the service is up (health) and which application it is (app-info).\<close>

theorem no_session_no_effect:
  assumes "\<forall>(c, r) \<in> set rs. \<forall>u. require_session (ae_signer env) (ae_auth env) c \<noteq> Inr u"
  shows "snd (serve env rs st) = st \<and>
    list_all2 (\<lambda>(c, r) rsp. (case r of Login u p \<Rightarrow> True | Logout \<Rightarrow> True | Health \<Rightarrow> True | AppInfo \<Rightarrow> True
      | _ \<Rightarrow> rp_status rsp = 401)) rs (fst (serve env rs st))"
  using assms
proof (induction rs)
  case (Cons x rs)
  obtain c r where x: "x = (c, r)" by (cases x)
  have st: "snd (handle_request env c r st) = st"
    and er: "\<not> open_to_all r \<Longrightarrow> rp_status (fst (handle_request env c r st)) = 401"
    using handle_without_session [of env c r st] Cons.prems by (auto simp: x)
  have ok: "case r of Login u p \<Rightarrow> True | Logout \<Rightarrow> True | Health \<Rightarrow> True | AppInfo \<Rightarrow> True
      | _ \<Rightarrow> rp_status (fst (handle_request env c r st)) = 401"
    using er by (cases r) simp_all
  have serve: "snd (serve env rs st) = st" "list_all2 (\<lambda>(c, r) rsp. (case r of Login u p \<Rightarrow> True | Logout \<Rightarrow> True
      | Health \<Rightarrow> True | AppInfo \<Rightarrow> True | _ \<Rightarrow> rp_status rsp = 401)) rs (fst (serve env rs st))"
    using Cons by simp_all
  have "handle_request env c r st = (fst (handle_request env c r st), st)" using st by (simp add: prod_eq_iff)
  then have "serve env ((c, r) # rs) st = (fst (handle_request env c r st) # fst (serve env rs st), snd (serve env rs st))"
    by (metis (no_types, lifting) case_prod_conv serve.simps(2) split_pairs2)
  then show ?case using ok serve by (simp add: x)
qed simp

text \<open>What the serializer promises: it reads back what it wrote for the same secret.\<close>

definition signer_ok :: "signer \<Rightarrow> bool" where
  "signer_ok sg \<longleftrightarrow> (\<forall>secret user. let d = [(''username'', VStr user)] in
     sg_loads sg secret (sg_dumps sg secret d) = Some d \<and> sg_dumps sg secret d \<noteq> [])"

lemma created_token_accepted:
  "signer_ok sg \<Longrightarrow> require_session sg a (Some (create_session_token sg a)) = Inr [(''username'', VStr (au_username a))]"
  by (simp add: signer_ok_def Let_def require_session_def create_session_token_def read_session_token_def item_get_def get_or_def)

text \<open>C33: A login opens a session. For texts within ASCII a login answers with a session cookie exactly for the configured name and
  password, a wrong one is answered 401, and the cookie then authenticates every request as that user.\<close>

theorem login_opens_session:
  assumes "signer_ok (ae_signer env)" and "list_all ascii_only [user, password, au_username (ae_auth env), au_password (ae_auth env)]"
    and "handle_request env c (Login user password) st = (rsp, st')"
  shows "(if user = au_username (ae_auth env) \<and> password = au_password (ae_auth env)
      then rp_status rsp = 200 \<and> (\<exists>token. rp_cookie rsp = SetCookie token \<and>
        require_session (ae_signer env) (ae_auth env) (Some token) = Inr [(''username'', VStr (au_username (ae_auth env)))])
      else rp_status rsp = 401 \<and> rp_cookie rsp = KeepCookie) \<and> st' = st"
  using assms(2,3) created_token_accepted [OF assms(1), of "ae_auth env"]
  by (auto simp: login_def verify_login_def compare_digest_def reply_def error_response_def)

text \<open>A name outside ASCII locks everybody out: every login is answered with a server error.\<close>

theorem nonascii_admin_locked_out:
  assumes "\<not> ascii_only (au_username (ae_auth env))"
  shows "rp_status (fst (handle_request env c (Login user password) st)) = 500 \<and>
    rp_cookie (fst (handle_request env c (Login user password) st)) = KeepCookie"
  using assms by (simp add: login_def verify_login_def compare_digest_def error_response_def)

section \<open>The store under requests\<close>

lemma keeps_routes [intro]:
  "keeps db_reachable (cfg_save_output_route p)" "keeps db_reachable (cfg_delete_output_route i)"
  "keeps db_reachable (resolve_output_route_topic res now i)"
proof -
  have list: "keeps P cfg_list_output_routes" for P by (simp add: keeps_def cfg_list_output_routes_def)
  show "keeps db_reachable (cfg_save_output_route p)"
    unfolding cfg_save_output_route_def
    by (auto intro!: keeps_sbind keeps_pure keeps_get keeps_store_ops list split: prod.split option.split)
  show "keeps db_reachable (cfg_delete_output_route i)"
    unfolding cfg_delete_output_route_def by (auto intro!: keeps_sbind keeps_pure keeps_store_ops)
  show "keeps db_reachable (resolve_output_route_topic res now i)"
    unfolding resolve_output_route_topic_def
    by (auto intro!: keeps_sbind keeps_pure keeps_store_ops list simp: Let_def split: if_splits)
qed

lemma keeps_pair [intro]: "keeps P (Pair r)"
  by (simp add: keeps_def)

lemma keeps_refresh: "keeps db_reachable (refresh_routes res now rs)"
  by (induction rs) (auto intro!: keeps_sbind keeps_pure keeps_routes keeps_pair)

lemma keeps_refresh_all: "keeps db_reachable (refresh_dynamic_output_route_topics res now)"
  unfolding refresh_dynamic_output_route_topics_def by (auto intro!: keeps_sbind keeps_pure keeps_refresh)

lemma keeps_snd: "keeps P m \<Longrightarrow> P s \<Longrightarrow> P (snd (m s))"
  by (simp add: keeps_def)

lemma start_keeps_reachable:
  assumes "db_reachable (fst st)"
  shows "db_reachable (fst (snd (rm_start env h l st)))"
proof -
  have r: "db_reachable (fst (snd (refresh_dynamic_route_topics env (db, s))))" if "db_reachable db" for db s
    using keeps_snd [OF keeps_refresh_all that, of "re_resolver env" "re_now env"]
    by (auto simp: refresh_dynamic_route_topics_def Let_def split: prod.splits sum.splits option.splits)
  have "db_reachable (fst (snd (rm_prepare env h l st)))"
    using r [OF assms] assms by (simp add: rm_prepare_def Let_def)
  then show ?thesis using assms by (auto simp: rm_start_def Let_def split: prod.splits sum.splits)
qed

lemma on_store_reachable: "keeps db_reachable m \<Longrightarrow> db_reachable (fst st) \<Longrightarrow> db_reachable (fst (snd (on_store f m st)))"
  using keeps_snd by (fastforce simp: on_store_def split: prod.split)

lemma listings_keep [intro]:
  "keeps P cfg_list_devices" "keeps P (cfg_list_tags i)" "keeps P cfg_list_all_tags" "keeps P cfg_list_sink_configs"
  "keeps P cfg_export_devices_csv" "keeps P (cfg_export_tags_csv i)"
  unfolding cfg_list_devices_def cfg_list_tags_def cfg_list_all_tags_def cfg_list_sink_configs_def
    cfg_export_devices_csv_def cfg_export_tags_csv_def
  by (intro keeps_sbind keeps_pure keeps_get)+

lemma listings_keep' [intro]:
  "keeps P cfg_list_output_routes" "keeps P cfg_export_plugins_csv" "keeps P cfg_export_plugin_routes_csv"
  by (simp_all add: keeps_def cfg_list_output_routes_def cfg_export_plugins_csv_def cfg_export_plugin_routes_csv_def)

lemma upload_reachable:
  "(\<And>t. keeps db_reachable (f t)) \<Longrightarrow> db_reachable (fst st) \<Longrightarrow> db_reachable (fst (snd (upload env f b st)))"
  unfolding upload_def by (intro on_store_reachable keeps_sbind keeps_pure)

lemma start_runtime_state:
  "snd (start_runtime env h l st) = snd (rm_start (ae_runtime env) h (if l = VNone then None else Some (truthy l)) st)"
  by (cases "rm_start (ae_runtime env) h (if l = VNone then None else Some (truthy l)) st") (simp add: start_runtime_def)

lemma start_runtime_reachable: "db_reachable (fst st) \<Longrightarrow> db_reachable (fst (snd (start_runtime env h l st)))"
  by (simp add: start_runtime_state start_keeps_reachable)

lemma api_call_reachable:
  assumes "db_reachable (fst st)"
  shows "db_reachable (fst (snd (api_call env user r st)))"
  using assms
  by (cases r) (auto intro!: on_store_reachable upload_reachable service_keeps_reachable imports_keep_reachable
      keeps_routes listings_keep listings_keep' keeps_get start_runtime_reachable
      simp: probe_modbus_rtu_monitor_def stop_runtime_def runtime_status_def split: prod.split sum.split)

lemma handle_cases:
  "handle_request env c r st = (rsp, st') \<Longrightarrow>
   st' = st \<or> (\<exists>user. require_session (ae_signer env) (ae_auth env) c = Inr user \<and> st' = snd (api_call env user r st))"
  using handle_open [of r env c st]
  by (cases "open_to_all r") (auto simp: handle_guarded with_session_def answer_def split: sum.splits prod.splits)

lemma serve_reachable: "db_reachable (fst st) \<Longrightarrow> db_reachable (fst (snd (serve env rs st)))"
proof (induction rs arbitrary: st)
  case (Cons x rs)
  obtain c r where x: "x = (c, r)" by (cases x)
  obtain rsp st1 where h: "handle_request env c r st = (rsp, st1)" by (cases "handle_request env c r st") blast
  have "db_reachable (fst st1)" using handle_cases [OF h] api_call_reachable [OF Cons.prems] Cons.prems by auto
  then show ?case using Cons.IH [of st1] h by (cases "serve env rs st1") (simp add: x)
qed simp

text \<open>C16: The interface keeps the store whole. From a store that any sequence of operations left behind, an application that
  starts and then serves any requests, accepted or refused, leaves a store that satisfies the integrity invariant:
  keys below the counters, tags valid and unique in their device, no tag or route of a device that does not exist.\<close>

theorem api_keeps_store_integrity:
  assumes "db_reachable db" and "create_app env db = Inr st"
  shows "db_inv (fst (snd (serve env rs st)))"
proof -
  have "db_reachable (fst st)"
    using start_keeps_reachable [of "(db, new_runtime)" "ae_runtime env" None None] assms
    by (auto simp: create_app_def split: prod.splits sum.splits)
  then show ?thesis using serve_reachable db_reachable_inv by blast
qed

section \<open>Refused changes\<close>







section \<open>An application that cannot start again\<close>

lemma save_route_devices: "save_output_route r s = Inr (i, s') \<Longrightarrow> db_devices s' = db_devices s"
  by (auto simp: save_output_route_def Let_def rbind_Inr_iff value_error_def overflow_def integrity_def split: option.splits if_splits)

lemma refresh_devices: "db_devices (fst (snd (refresh_dynamic_route_topics env st))) = db_devices (fst st)"
proof -
  let ?P = "\<lambda>s. db_devices s = db_devices (fst st)"
  have list: "keeps P cfg_list_output_routes" for P by (simp add: keeps_def cfg_list_output_routes_def)
  have "keeps ?P (resolve_output_route_topic res now i)" for res now i
    unfolding resolve_output_route_topic_def
    by (auto intro!: keeps_sbind keeps_pure keeps_swrite list simp: Let_def save_route_devices split: if_splits)
  then have "keeps ?P (refresh_routes res now rs)" for res now rs
    by (induction rs) (auto intro!: keeps_sbind keeps_pure keeps_pair)
  then have "keeps ?P (refresh_dynamic_output_route_topics (re_resolver env) (re_now env))"
    unfolding refresh_dynamic_output_route_topics_def by (auto intro!: keeps_sbind keeps_pure)
  from keeps_snd [OF this, of "fst st"] show ?thesis
    by (auto simp: refresh_dynamic_route_topics_def Let_def split: prod.splits sum.splits option.splits)
qed

lemma prepare_devices: "db_devices (fst (snd (rm_prepare env h l st))) = db_devices (fst st)"
  using refresh_devices by (simp add: rm_prepare_def Let_def)

lemma unknown_driver_start_fails:
  assumes "dget (db_devices db) i = Some d" "dev_enabled d" "registry_get (dev_driver_type d) (re_drivers env) = Inl x" "\<not> rm_running s"
  shows "\<exists>e. fst (rm_start env h l (db, s)) = Inl e"
proof -
  obtain r db2 s2 where p: "rm_prepare env h l (db, s) = (r, db2, s2)" by (cases "rm_prepare env h l (db, s)") auto
  have d: "d \<in> set (list_devices db2)"
    using prepare_devices [of env h l "(db, s)"] p assms(1) dget_in_set [of "db_devices db" i d]
    by (force simp: list_devices_def dvalues_def)
  show ?thesis
  proof (cases r)
    case (Inl e)
    then show ?thesis using p assms(4) by (simp add: rm_start_def Let_def)
  next
    case (Inr u)
    show ?thesis
    proof (cases "make_publisher env (get_sink_config None db) db2")
      case (Inl e)
      then show ?thesis using p assms(4) Inr by (simp add: rm_start_def Let_def)
    next
      case (Inr y)
      then show ?thesis using start_fails_with_publisher [OF assms(4) _ Inr d assms(2,3)] p \<open>r = Inr u\<close> by fastforce
    qed
  qed
qed

text \<open>C35: A device with an unknown driver stops the next start of the service. The interface accepts an enabled device whatever its
  driver type; once one with a driver type that is not registered is stored, the application cannot be created from the
  store any more, so the interface that could remove the device does not come up.\<close>

theorem unknown_driver_blocks_restart:
  assumes "handle_request env c (CreateDevice p) st = (rsp, st')" and "rp_status rsp = 200" and "db_inv (fst st)"
    and "dget p ''driver_type'' = Some v" and "registry_get (py_str v) (re_drivers (ae_runtime env)) = Inl x"
    and "truthy (get_or p ''enabled'' (VBool True))"
  shows "\<exists>e. create_app env (fst st') = Inl e"
proof -
  obtain user b where call: "api_call env user (CreateDevice p) st = (Inr b, st')"
    using assms(1,2) by (auto simp: with_session_def answer_def error_response_def unauthorized_def reply_def dest!: require_session_error
        split: sum.splits prod.splits if_splits api_error.splits)
  then obtain y where "cfg_create_device p (fst st) = (Inr y, fst st')"
    by (cases "cfg_create_device p (fst st)"; cases "fst (cfg_create_device p (fst st))") (auto simp: on_store_def)
  then obtain d i where d: "device_from_payload None p = Inr d" "save_device d (fst st) = Inr (i, fst st')"
    by (auto simp: cfg_create_device_def sfrom_bind swrite_bind split: sum.splits prod.splits)
      (metis get_device_state snd_conv)
  have "dget (db_devices (fst st')) i = Some (d\<lparr>dev_id := Some i\<rparr>)"
    using saved_device [OF assms(3) d(2)] from_payload_id(1) [OF d(1)] by simp
  moreover have "dev_enabled d" "dev_driver_type d = py_str v"
    using d(1) assms(4,6) by (auto simp: device_from_payload_def rbind_Inr_iff item_req_def)
  ultimately obtain e where "fst (rm_start (ae_runtime env) None None (fst st', new_runtime)) = Inl e"
    using unknown_driver_start_fails [of "fst st'" i "d\<lparr>dev_id := Some i\<rparr>" "ae_runtime env" x new_runtime None None] assms(5)
    by (auto simp: new_runtime_def)
  then show ?thesis by (cases "rm_start (ae_runtime env) None None (fst st', new_runtime)") (auto simp: create_app_def)
qed

section \<open>Identifiers in a payload\<close>

lemma dset_commute: "k \<in> fst ` set d \<Longrightarrow> k \<noteq> k' \<Longrightarrow> dset k v (dset k' w d) = dset k' w (dset k v d)"
  by (induction d) (auto simp: image_iff, metis fst_conv)

lemma dset_dset: "dset k v (dset k w d) = dset k v d"
  by (induction d) auto

lemma dupdate_hidden:
  "k \<in> fst ` set d \<Longrightarrow> dget p k \<noteq> None \<Longrightarrow> dupdate (dset k v d) p = dupdate d p"
proof (induction p arbitrary: d)
  case (Cons kw p)
  obtain k' w where kw: "kw = (k', w)" by (cases kw)
  show ?case
  proof (cases "k' = k")
    case True
    then show ?thesis by (simp add: kw dset_dset)
  next
    case False
    then show ?thesis using Cons.IH [of "dset k' w d"] Cons.prems dset_commute [of k d k' v w] by (simp add: kw)
  qed
qed simp

text \<open>The payload of a route wins over its path. When the payload of an update of an output route has an entry \<open>id\<close>, the route
  named in the path plays no part: the request does the same whatever route it is addressed to.\<close>

theorem route_path_ignored:
  assumes "dget p ''id'' \<noteq> None"
  shows "handle_request env c (UpdateRoute i p) st = handle_request env c (UpdateRoute j p) st"
proof -
  have "dupdate [(''id'', VInt i)] p = dupdate [(''id'', VInt j)] p"
    using dupdate_hidden [of "''id''" "[(''id'', VInt j)]" p "VInt i"] assms by simp
  then have "api_call env user (UpdateRoute i p) st = api_call env user (UpdateRoute j p) st" for user by simp
  then show ?thesis by (simp only: handle_request.simps with_session_def)
qed

section \<open>Events\<close>

lemma record_status_queues [simp]:
  "rm_status (snd (record_status i s)) = rm_status s" "rm_logger (snd (record_status i s)) = rm_logger s"
  by (simp_all add: record_status_def Let_def split: status_item.split)

lemma drain_status_empties:
  "length (sq_items (rm_status s)) \<le> n \<Longrightarrow> sq_items (rm_status (snd (drain_status n s))) = []"
proof (induction n arbitrary: s)
  case (Suc n)
  show ?case
  proof (cases "sq_items (rm_status s)")
    case Nil
    then show ?thesis by (simp add: sq_get_def)
  next
    case (Cons x rest)
    obtain k i where x: "x = (k, i)" by (cases x)
    let ?s1 = "snd (record_status i (s\<lparr>rm_status := (rm_status s)\<lparr>sq_items := rest\<rparr>\<rparr>))"
    have "sq_items (rm_status ?s1) = rest" by simp
    then show ?thesis using Suc.IH [of ?s1] Suc.prems Cons
      by (cases "record_status i (s\<lparr>rm_status := (rm_status s)\<lparr>sq_items := rest\<rparr>\<rparr>)"; cases "drain_status n ?s1")
        (simp add: sq_get_def x)
  qed
qed simp

lemma log_drain_empties: "log_drain disk dirs now s = (Inr u, s') \<Longrightarrow> lw_input s' = []"
proof (induction disk dirs now s rule: log_drain.induct)
  case (1 disk dirs now s)
  then show ?case by (cases "lw_input s") (auto simp: log_drain.simps [of _ _ _ s] split: prod.splits sum.splits)
qed

definition nothing_to_report :: "runtime \<Rightarrow> bool" where
  "nothing_to_report s \<longleftrightarrow> sq_items (rm_status s) = [] \<and> lw_input (rm_logger s) = [] \<and> lw_display (rm_logger s) = []"

lemma drain_leaves_nothing:
  assumes "drain_events env n s = (Inr es, s')" "length (sq_items (rm_status s)) \<le> n"
  shows "nothing_to_report s'"
proof -
  obtain ev s1 where d: "drain_status n s = (ev, s1)" by (cases "drain_status n s")
  obtain u lg where l: "log_drain (re_disk env) (re_log_dirs env) (re_local_time env) (rm_logger s1) = (Inr u, lg)"
    using assms(1) d by (auto simp: drain_events_def Let_def split: prod.splits sum.splits)
  have "sq_items (rm_status s1) = []" using drain_status_empties [OF assms(2)] d by simp
  moreover have "lw_input lg = []" using log_drain_empties [OF l] .
  ultimately show ?thesis using assms(1) d l by (auto simp: drain_events_def show_lines_def nothing_to_report_def Let_def)
qed

lemma nothing_drained:
  assumes "nothing_to_report s"
  shows "drain_events env (Suc n) s = (Inr [], s)"
  using assms
  by (simp add: nothing_to_report_def drain_events_def sq_get_def log_drain.simps [of _ _ _ "rm_logger s"] show_lines_def)

text \<open>A status request takes the events away from the event sockets. After a status request that succeeded, with no more
  than a thousand items waiting, the rounds of an open event socket send nothing until something new happens: tag
  updates, server states and log lines reach only the client that asked for the status, as part of the snapshot.\<close>

theorem status_request_swallows_events:
  assumes "runtime_status env st = (Inr b, st')" and "length (sq_items (rm_status (snd st))) \<le> 1000"
  shows "fst (event_rounds (ae_runtime env) ws (snd st')) = []"
proof -
  obtain es where "drain_events (ae_runtime env) 1000 (snd st) = (Inr es, snd st')"
    using assms(1) by (auto simp: runtime_status_def split: prod.splits sum.splits)
  then have "nothing_to_report (snd st')" using drain_leaves_nothing assms(2) by blast
  then have "drain_events (ae_runtime env) 1000 (snd st') = (Inr [], snd st')"
    using nothing_drained [of "snd st'" "ae_runtime env" 999] by simp
  then show ?thesis by (induction ws) (auto split: prod.split)
qed

section \<open>A sample service\<close>

definition sample_signer :: signer where
  "sample_signer = \<lparr>sg_dumps = (\<lambda>secret d. secret @ ''.'' @ py_str (item_get d ''username'')),
     sg_loads = (\<lambda>secret t. if take (Suc (length secret)) t = secret @ ''.''
       then Some [(''username'', VStr (drop (Suc (length secret)) t))] else None)\<rparr>"

lemma sample_signer_ok: "signer_ok sample_signer"
  by (simp add: signer_ok_def sample_signer_def item_get_def get_or_def Let_def)

definition sample_api :: api_env where
  "sample_api = \<lparr>ae_auth = \<lparr>au_username = ''admin'', au_password = ''password'', au_secret = ''secret''\<rparr>,
     ae_signer = sample_signer, ae_runtime = sample_runtime_env, ae_version = ''1.0'', ae_decode_error = (\<lambda>b. ''invalid start byte''),
     ae_serial_clock = fl_zero, ae_serial_feed = []\<rparr>"

definition admin_cookie :: "string option" where
  "admin_cookie = Some ''secret.admin''"

lemma admin_session: "require_session sample_signer (ae_auth sample_api) admin_cookie = Inr [(''username'', VStr ''admin'')]"
  by (simp add: require_session_def read_session_token_def admin_cookie_def sample_api_def sample_signer_def item_get_def get_or_def)

lemma no_session_no_effect_witness:
  "snd (serve sample_api [(None, StopRuntime), (Some ''forged'', DeleteDevice 7), (None, Health)] (plant_with_tag, new_runtime)) =
     (plant_with_tag, new_runtime) \<and>
   list_all2 (\<lambda>(c, r) rsp. (case r of Login u p \<Rightarrow> True | Logout \<Rightarrow> True | Health \<Rightarrow> True | AppInfo \<Rightarrow> True
      | _ \<Rightarrow> rp_status rsp = 401))
     [(None, StopRuntime), (Some ''forged'', DeleteDevice 7), (None, Health)]
     (fst (serve sample_api [(None, StopRuntime), (Some ''forged'', DeleteDevice 7), (None, Health)] (plant_with_tag, new_runtime)))"
  by (rule no_session_no_effect)
    (simp add: require_session_def read_session_token_def sample_api_def sample_signer_def)

lemma login_opens_session_witness:
  "\<exists>rsp. handle_request sample_api None (Login ''admin'' ''password'') (plant_with_tag, new_runtime) = (rsp, (plant_with_tag, new_runtime)) \<and>
     rp_status rsp = 200"
proof -
  obtain rsp st' where h: "handle_request sample_api None (Login ''admin'' ''password'') (plant_with_tag, new_runtime) = (rsp, st')"
    by (cases "handle_request sample_api None (Login ''admin'' ''password'') (plant_with_tag, new_runtime)") blast
  have "list_all ascii_only [''admin'', ''password'', au_username (ae_auth sample_api), au_password (ae_auth sample_api)]"
    by (simp add: ascii_only_def sample_api_def)
  moreover have "signer_ok (ae_signer sample_api)" by (simp add: sample_api_def sample_signer_ok)
  ultimately show ?thesis using login_opens_session [OF _ _ h] h by (simp add: sample_api_def)
qed

definition unicode_api :: api_env where
  "unicode_api = sample_api\<lparr>ae_auth := (ae_auth sample_api)\<lparr>au_username := map char_of [0xC3 :: nat, 0xA9]\<rparr>\<rparr>"

lemma nonascii_admin_locked_out_witness:
  "rp_status (fst (handle_request unicode_api None (Login (au_username (ae_auth unicode_api)) ''password'') (plant_with_tag, new_runtime))) = 500 \<and>
   rp_cookie (fst (handle_request unicode_api None (Login (au_username (ae_auth unicode_api)) ''password'') (plant_with_tag, new_runtime))) = KeepCookie"
  by (rule nonascii_admin_locked_out) (simp add: unicode_api_def ascii_only_def)

definition quiet_db :: db where
  "quiet_db = save_sink_config \<lparr>sk_sink_type = ''mqtt'', sk_enabled = True,
     sk_config = [(''topic_request_on_start'', VBool False), (''topic_refresh_interval_s'', VInt 0)]\<rparr> empty_db"

lemma quiet_reachable: "db_reachable quiet_db"
  unfolding quiet_db_def by (intro db_reachable.intros(2) [OF db_reachable.intros(1)] db_step.intros)

lemma quiet_sink: "get_sink_config None quiet_db = \<lparr>sk_sink_type = ''mqtt'', sk_enabled = True,
     sk_config = [(''topic_request_on_start'', VBool False), (''topic_refresh_interval_s'', VInt 0)]\<rparr>"
  by (simp add: quiet_db_def save_sink_config_def sample_gateway_defs)

lemma quiet_rows: "list_devices quiet_db = []" "list_output_routes quiet_db = []"
  by (simp_all add: quiet_db_def save_sink_config_def sample_gateway_defs)

lemma quiet_app: "\<exists>st. create_app sample_api quiet_db = Inr st"
proof -
  have p: "\<exists>p. make_publisher sample_runtime_env (get_sink_config None quiet_db) quiet_db = Inr p"
    unfolding quiet_sink
    by (simp add: make_publisher_def make_sink_def registry_get_def normalize_key_def py_lower_def lower_char_def str_simps is_space_def
      mqtt_sink_config_def optional_text_def item_get_def output_routes_def quiet_sink quiet_rows float_config_def sample_runtime_env_def get_or_def Let_def)
  have "float_config (sk_config (get_sink_config None quiet_db)) ''topic_refresh_interval_s'' (whole_float 300) = Inr fl_zero"
    by (simp add: quiet_sink float_config_def int_to_float_def fl_of_int_def fl_round_def fl_zero_def get_or_def)
  moreover have "fl_le fl_zero fl_zero" by (simp add: fl_zero_def)
  moreover have "rm_prepare sample_runtime_env None None (quiet_db, new_runtime) = (Inr (), quiet_db, prepare_start None None quiet_db new_runtime)"
    by (simp add: rm_prepare_def wants_topics_def bool_config_def quiet_sink get_or_def)
  ultimately show ?thesis using p new_runtime_balanced(2)
    by (auto simp: create_app_def sample_api_def rm_start_def start_threads_def start_topic_refresh_thread_def quiet_rows Let_def
      split: prod.splits sum.splits)
qed

lemma api_keeps_store_integrity_witness:
  "\<exists>st. create_app sample_api quiet_db = Inr st \<and>
     db_inv (fst (snd (serve sample_api [(admin_cookie, DeleteDevice 7), (None, StopRuntime)] st)))"
  using quiet_app api_keeps_store_integrity [OF quiet_reachable] by blast


definition bacnet_payload :: settings where
  "bacnet_payload = [(''name'', VStr ''meter''), (''driver_type'', VStr ''bacnet'')]"

lemma unknown_driver_blocks_restart_witness:
  "\<exists>rsp st' e. handle_request sample_api admin_cookie (CreateDevice bacnet_payload) (plant_db, new_runtime) = (rsp, st') \<and>
     rp_status rsp = 200 \<and> create_app sample_api (fst st') = Inl e"
proof -
  let ?st = "(plant_db, new_runtime)"
  obtain rsp st' where h: "handle_request sample_api admin_cookie (CreateDevice bacnet_payload) ?st = (rsp, st')"
    by (cases "handle_request sample_api admin_cookie (CreateDevice bacnet_payload) ?st") blast
  obtain d where d: "device_from_payload None bacnet_payload = Inr d" "validate_device d = Inr ()" "dev_poll_interval_ms d = 1000"
    by (simp add: bacnet_payload_def device_from_payload_def item_req_def get_or_def normalize_connection_for_driver_def
      connection_fields_for_driver_def connection_field_table_def item_get_def or_val_def validate_device_def str_simps is_space_def)
  then obtain i s' where s': "save_device d plant_db = Inr (i, s')"
    using from_payload_id(1) [OF d(1)] by (simp add: save_device_def int64_def opt_int64_def Let_def)
  then have "cfg_create_device bacnet_payload plant_db = (Inr (device_to_dict (d\<lparr>dev_id := Some i\<rparr>)), s')"
    using saved_device_answers [OF plant_inv(2) s'] from_payload_id(1) [OF d(1)] d(1)
    by (simp add: cfg_create_device_def sfrom_bind swrite_bind)
  then have ok: "rp_status rsp = 200"
    using h admin_session by (auto simp: with_session_def answer_def on_store_def reply_def sample_api_def)
  have "\<exists>x. registry_get (py_str (VStr ''bacnet'')) (re_drivers (ae_runtime sample_api)) = Inl x"
    by (simp add: registry_get_def normalize_key_def py_lower_def lower_char_def str_simps is_space_def sample_runtime_env_def sample_api_def)
  moreover have "dget bacnet_payload ''driver_type'' = Some (VStr ''bacnet'')" "truthy (get_or bacnet_payload ''enabled'' (VBool True))"
    by (simp_all add: bacnet_payload_def get_or_def)
  ultimately show ?thesis using unknown_driver_blocks_restart [OF h ok] plant_inv(2) h ok by (metis fst_conv)
qed

lemma route_path_ignored_witness:
  "handle_request sample_api admin_cookie (UpdateRoute 1 [(''id'', VInt 2)]) (plant_db, new_runtime) =
   handle_request sample_api admin_cookie (UpdateRoute 5 [(''id'', VInt 2)]) (plant_db, new_runtime)"
  by (rule route_path_ignored) simp

lemma status_request_swallows_events_witness:
  "\<exists>b st'. runtime_status sample_api (plant_db, new_runtime) = (Inr b, st') \<and>
     fst (event_rounds (ae_runtime sample_api) [WaitedOut, GotText] (snd st')) = []"
proof -
  have "nothing_to_report new_runtime"
    by (simp add: nothing_to_report_def new_runtime_def empty_status_queue_def new_log_worker_def)
  then have d: "drain_events (ae_runtime sample_api) 1000 new_runtime = (Inr [], new_runtime)"
    using nothing_drained [of new_runtime "ae_runtime sample_api" 999] by simp
  then have r: "runtime_status sample_api (plant_db, new_runtime) = (Inr (json_dict (rm_snapshot new_runtime)), plant_db, new_runtime)"
    by (simp add: runtime_status_def)
  have "length (sq_items (rm_status (snd (plant_db, new_runtime)))) \<le> 1000" by (simp add: new_runtime_def empty_status_queue_def)
  from status_request_swallows_events [OF r this, of "[WaitedOut, GotText]"] r show ?thesis by blast
qed

end
