(* ===== verification/App_Entry.thy ===== *)
theory App_Entry
  imports Web_Props
begin

text \<open>
  \<^verbatim>\<open>src/industrial_gateway/web/app.py\<close>: where the service keeps its files, its settings from the command line, the
  environment and the defaults, and the start of the application.

  A path is the list of its segments below the root directory; \<open>exists\<close> is the file system. \<open>cwd\<close> and \<open>file\<close> stand for
  \<open>Path.cwd()\<close> and \<open>Path(__file__).resolve()\<close>. \<open>argparse\<close> is modelled as far as these options need it (Python 3.11):
  abbreviations, \<open>name=value\<close>, values that look like options, the exit status. The help text, Windows paths and \<open>uvicorn.run\<close>
  are not modelled.
\<close>

section \<open>Default paths\<close>

type_synonym path = "string list"

text \<open>\<open>(base, *base.parents)\<close>: the path and its ancestors, the nearest first.\<close>

fun ancestors :: "path \<Rightarrow> path list" where
  "ancestors p = (if p = [] then [[]] else p # ancestors (butlast p))"

declare ancestors.simps [simp del]

definition has_project :: "(path \<Rightarrow> bool) \<Rightarrow> path \<Rightarrow> bool" where
  "has_project exists p \<longleftrightarrow> exists (p @ [''iot_gathering'', ''pyproject.toml'']) \<or>
     exists (p @ [''iot_gathering'', ''src'', ''industrial_gateway''])"

definition default_root :: "(path \<Rightarrow> bool) \<Rightarrow> path \<Rightarrow> path \<Rightarrow> path" where
  "default_root exists cwd file =
     (case find (has_project exists) (ancestors cwd @ ancestors file) of Some p \<Rightarrow> p | None \<Rightarrow> cwd)"

definition path_text :: "path \<Rightarrow> string" where
  "path_text p = ''/'' @ py_join ''/'' p"

definition default_store_path :: "(path \<Rightarrow> bool) \<Rightarrow> path \<Rightarrow> path \<Rightarrow> path" where
  "default_store_path exists cwd file = default_root exists cwd file @ [''gateway.sqlite3'']"

definition default_log_root :: "(path \<Rightarrow> bool) \<Rightarrow> path \<Rightarrow> path \<Rightarrow> path" where
  "default_log_root exists cwd file = default_root exists cwd file @ [''industrial_gateway_log'']"

section \<open>The command line\<close>

text \<open>How the start of the service ends: with settings, with an exception, or with an exit status.\<close>

datatype 'a entry_outcome = Ready 'a | Raised pyerr | Exits nat

definition value_options :: "string list" where
  "value_options = [''--host'', ''--port'', ''--store'', ''--log-root'', ''--session-secret'', ''--admin-username'', ''--admin-password'']"

definition all_options :: "string list" where
  "all_options = [''-h'', ''--help''] @ value_options"

text \<open>\<open>Option name value joined\<close>: \<open>joined\<close> tells whether the value stood behind an equals sign.\<close>

datatype argument = Plain_Arg | Option string "string option" bool | Unknown_Option | Ambiguous | Dashes

definition negative_number :: "string \<Rightarrow> bool" where
  "negative_number a \<longleftrightarrow> (case a of [] \<Rightarrow> False | c # r \<Rightarrow> c = CHR ''-'' \<and>
     (r \<noteq> [] \<and> list_all is_digit r \<or>
      (case dropWhile is_digit r of [] \<Rightarrow> False | d # f \<Rightarrow> d = CHR ''.'' \<and> f \<noteq> [] \<and> list_all is_digit f)))"

definition before_equals :: "string \<Rightarrow> string" where
  "before_equals a = takeWhile (\<lambda>c. c \<noteq> CHR ''='') a"

definition after_equals :: "string \<Rightarrow> string option" where
  "after_equals a = (case dropWhile (\<lambda>c. c \<noteq> CHR ''='') a of [] \<Rightarrow> None | e # v \<Rightarrow> Some v)"

definition option_matches :: "string \<Rightarrow> argument list" where
  "option_matches a =
     (if starts_with ''--'' a
      then map (\<lambda>name. Option name (after_equals a) (after_equals a \<noteq> None)) (filter (starts_with (before_equals a)) all_options)
      else if take 2 a = ''-h'' then [Option ''-h'' (Some (drop 2 a)) False] else [])"

definition classify :: "string \<Rightarrow> argument" where
  "classify a =
     (if a = [] \<or> hd a \<noteq> CHR ''-'' then Plain_Arg
      else if a \<in> set all_options then Option a None False
      else if length a = 1 then Plain_Arg
      else if after_equals a \<noteq> None \<and> before_equals a \<in> set all_options then Option (before_equals a) (after_equals a) True
      else case option_matches a of
          [m] \<Rightarrow> m
        | m # m' # ms \<Rightarrow> Ambiguous
        | [] \<Rightarrow> if negative_number a \<or> CHR '' '' \<in> set a then Plain_Arg else Unknown_Option)"

fun classify_all :: "string list \<Rightarrow> (string \<times> argument) list" where
  "classify_all [] = []"
| "classify_all (a # as) =
     (if a = ''--'' then (a, Dashes) # map (\<lambda>b. (b, Plain_Arg)) as else (a, classify a) # classify_all as)"

text \<open>The exit status of \<open>-h\<close> with letters behind it: they are read as further short options.\<close>

fun short_help :: "string \<Rightarrow> nat" where
  "short_help [] = 0"
| "short_help (c # r) =
     (if c = CHR ''-'' then 2
      else if c = CHR ''h'' then (if r \<noteq> [] \<and> hd r = CHR ''='' then 2 else short_help r)
      else 0)"

definition help_status :: "string \<Rightarrow> string option \<Rightarrow> bool \<Rightarrow> nat" where
  "help_status name value joined = (case value of
     None \<Rightarrow> 0
   | Some v \<Rightarrow> if joined \<or> name = ''--help'' then 2 else short_help v)"

definition value_ok :: "string \<Rightarrow> string \<Rightarrow> bool" where
  "value_ok name v \<longleftrightarrow> (name = ''--port'' \<longrightarrow> parse_int v \<noteq> None)"

text \<open>The values of the options so far, and whether something was left over.\<close>

function parse_arguments ::
  "(string \<times> argument) list \<Rightarrow> (string, string) pydict \<Rightarrow> bool \<Rightarrow> (string, string) pydict entry_outcome" where
  "parse_arguments [] given extra = (if extra then Exits 2 else Ready given)"
| "parse_arguments ((a, k) # rest) given extra = (case k of
     Option name value joined \<Rightarrow>
       (if name = ''-h'' \<or> name = ''--help'' then Exits (help_status name value joined)
        else (case value of
            Some v \<Rightarrow> if value_ok name v then parse_arguments rest (dset name v given) extra else Exits 2
          | None \<Rightarrow> (case rest of
                (v, Plain_Arg) # rest' \<Rightarrow>
                  (if value_ok name v then parse_arguments rest' (dset name v given) extra else Exits 2)
              | _ \<Rightarrow> Exits 2)))
   | _ \<Rightarrow> parse_arguments rest given True)"
  by pat_completeness auto
termination
  by (relation "measure (\<lambda>(as, given, extra). length as)") auto

definition parse_command_line :: "string list \<Rightarrow> (string, string) pydict entry_outcome" where
  "parse_command_line argv =
     (let as = classify_all argv in
      if list_ex (\<lambda>(a, k). k = Ambiguous) as then Exits 2 else parse_arguments as [] False)"

section \<open>Settings\<close>

record entry_settings =
  en_host :: string
  en_port :: int
  en_store :: string
  en_log_root :: string
  en_auth :: auth_settings

record machine =
  mc_exists :: "path \<Rightarrow> bool"
  mc_cwd :: path
  mc_file :: path
  mc_env :: "string \<Rightarrow> string option"

definition getenv :: "machine \<Rightarrow> string \<Rightarrow> string \<Rightarrow> string" where
  "getenv mc name d = (case mc_env mc name of Some v \<Rightarrow> v | None \<Rightarrow> d)"

definition option_value :: "(string, string) pydict \<Rightarrow> string \<Rightarrow> string \<Rightarrow> string" where
  "option_value given name d = (case dget given name of Some v \<Rightarrow> v | None \<Rightarrow> d)"

text \<open>The defaults are evaluated, and the environment's port is converted, before the command line is read.\<close>

definition entry_settings :: "machine \<Rightarrow> string list \<Rightarrow> entry_settings entry_outcome" where
  "entry_settings mc argv =
     (case py_int (VStr (getenv mc ''INDUSTRIAL_GATEWAY_PORT'' ''50200'')) of
        Inl e \<Rightarrow> Raised e
      | Inr dflt_port \<Rightarrow>
          (let store = getenv mc ''INDUSTRIAL_GATEWAY_STORE'' (path_text (default_store_path (mc_exists mc) (mc_cwd mc) (mc_file mc)));
               log_root = getenv mc ''INDUSTRIAL_GATEWAY_LOG_ROOT'' (path_text (default_log_root (mc_exists mc) (mc_cwd mc) (mc_file mc)))
           in case parse_command_line argv of
                Raised e \<Rightarrow> Raised e
              | Exits n \<Rightarrow> Exits n
              | Ready given \<Rightarrow> Ready
                  \<lparr>en_host = option_value given ''--host'' (getenv mc ''INDUSTRIAL_GATEWAY_HOST'' ''0.0.0.0''),
                   en_port = (case dget given ''--port'' of None \<Rightarrow> dflt_port
                     | Some v \<Rightarrow> (case parse_int v of None \<Rightarrow> dflt_port | Some i \<Rightarrow> i)),
                   en_store = option_value given ''--store'' store, en_log_root = option_value given ''--log-root'' log_root,
                   en_auth = \<lparr>au_username = option_value given ''--admin-username'' (getenv mc ''INDUSTRIAL_GATEWAY_ADMIN_USER'' ''iotsys''),
                     au_password = option_value given ''--admin-password'' (getenv mc ''INDUSTRIAL_GATEWAY_ADMIN_PASSWORD'' ''iot123sys''),
                     au_secret = option_value given ''--session-secret''
                       (getenv mc ''INDUSTRIAL_GATEWAY_SESSION_SECRET'' ''dev-session-secret'')\<rparr>\<rparr>))"

text \<open>\<open>main\<close> up to \<open>uvicorn.run\<close>: the application on the store at the path of the settings. \<open>disk\<close> gives the initialised
  store of a path, \<open>libs\<close> what the application is built from besides the settings.\<close>

definition entry_main :: "machine \<Rightarrow> string list \<Rightarrow> (string \<Rightarrow> db) \<Rightarrow> (string \<Rightarrow> api_env)
    \<Rightarrow> (entry_settings \<times> api_env \<times> app_state) entry_outcome" where
  "entry_main mc argv disk libs = (case entry_settings mc argv of
     Raised e \<Rightarrow> Raised e
   | Exits n \<Rightarrow> Exits n
   | Ready en \<Rightarrow>
       (let env = (libs (en_log_root en))\<lparr>ae_auth := en_auth en\<rparr> in
        case create_app env (disk (en_store en)) of Inl e \<Rightarrow> Raised e | Inr st \<Rightarrow> Ready (en, env, st)))"

section \<open>Properties\<close>

lemma ancestors_prefix: "q \<in> set (ancestors p) \<Longrightarrow> \<exists>r. p = q @ r"
proof (induction p rule: ancestors.induct)
  case (1 p)
  show ?case
  proof (cases "p = []")
    case False
    then have "q = p \<or> q \<in> set (ancestors (butlast p))" using 1(2) by (subst (asm) ancestors.simps) auto
    then show ?thesis
    proof
      assume "q \<in> set (ancestors (butlast p))"
      then obtain r where "butlast p = q @ r" using 1(1) False by auto
      then show ?thesis using append_butlast_last_id [OF False] by (metis append.assoc)
    qed simp
  qed (use 1(2) in \<open>subst (asm) ancestors.simps, simp\<close>)
qed

lemma ancestors_all: "p = q @ r \<Longrightarrow> q \<in> set (ancestors p)"
proof (induction r arbitrary: p rule: rev_induct)
  case Nil
  then show ?case by (subst ancestors.simps) simp
next
  case (snoc x r)
  then have "q \<in> set (ancestors (butlast p))" by (simp add: butlast_append)
  then show ?case using snoc.prems by (subst ancestors.simps) simp
qed

lemma ancestors_iff: "q \<in> set (ancestors p) \<longleftrightarrow> (\<exists>r. p = q @ r)"
  using ancestors_prefix ancestors_all by blast

lemma find_Some_member: "find P xs = Some x \<Longrightarrow> P x \<and> x \<in> set xs"
  by (induction xs) (auto split: if_splits)

text \<open>The store lies in the working directory, or in an ancestor of it or of the program's file that holds the project
  directory; it never depends on the home directory.\<close>

theorem default_root_found:
  "default_root exists cwd file = cwd \<or>
   has_project exists (default_root exists cwd file) \<and>
   ((\<exists>r. cwd = default_root exists cwd file @ r) \<or> (\<exists>r. file = default_root exists cwd file @ r))"
proof (cases "find (has_project exists) (ancestors cwd @ ancestors file)")
  case (Some p)
  then have "has_project exists p" "p \<in> set (ancestors cwd @ ancestors file)"
    using find_Some_member by fastforce+
  then show ?thesis using Some by (simp add: default_root_def ancestors_iff)
qed (simp add: default_root_def)

text \<open>A port that is accepted from the command line is an integer.\<close>

definition port_ok :: "(string, string) pydict \<Rightarrow> bool" where
  "port_ok given \<longleftrightarrow> (\<forall>v. dget given ''--port'' = Some v \<longrightarrow> parse_int v \<noteq> None)"

lemma port_ok_dset: "port_ok given \<Longrightarrow> value_ok name v \<Longrightarrow> port_ok (dset name v given)"
  by (auto simp: port_ok_def value_ok_def dget_dset split: if_splits)

lemma parsed_port: "parse_arguments as given extra = Ready given' \<Longrightarrow> port_ok given \<Longrightarrow> port_ok given'"
  by (induction as given extra rule: parse_arguments.induct)
    (auto simp: port_ok_dset split: if_splits argument.splits option.splits list.splits prod.splits)

text \<open>How \<open>argparse\<close> reads some command lines.\<close>

lemma command_lines:
  "parse_command_line [''--po'', ''5''] = Ready [(''--port'', ''5'')]"
  "parse_command_line [''--port'', ''-5''] = Ready [(''--port'', ''-5'')]"
  "parse_command_line [''--host=a'', ''--host'', ''b''] = Ready [(''--host'', ''b'')]"
  "parse_command_line [''-h'', ''--admin'', ''x''] = Exits 2"
  "parse_command_line [''x'', ''-h''] = Exits 0"
  "parse_command_line [''--host'', ''-x''] = Exits 2"
  "parse_command_line [''--host'', ''--'', ''x''] = Exits 2"
  "parse_command_line [''-hx''] = Exits 0"
  "parse_command_line [''-h=x''] = Exits 2"
  by code_simp+

text \<open>An environment variable whose port is not an integer stops the service even when the command line gives a port.\<close>

theorem environment_port_stops:
  assumes "mc_env mc ''INDUSTRIAL_GATEWAY_PORT'' = Some v" and "parse_int v = None"
  shows "\<exists>e. entry_main mc argv disk libs = Raised e"
  using assms by (simp add: entry_main_def entry_settings_def getenv_def)

text \<open>Without options and variables the secrets are the ones in the source, so anybody who has the source can sign a
  session that the service accepts.\<close>

theorem default_secret_opens_session:
  assumes "mc_env mc = (\<lambda>name. None)" and "entry_main mc [] disk libs = Ready (en, env, st)"
    and "\<And>k v. sg_loads (ae_signer env) k (sg_dumps (ae_signer env) k v) = Some v"
    and "\<And>k v. sg_dumps (ae_signer env) k v \<noteq> []"
  shows "require_session (ae_signer env) (ae_auth env)
      (Some (sg_dumps (ae_signer env) ''dev-session-secret'' [(''username'', VStr ''iotsys'')])) =
    Inr [(''username'', VStr ''iotsys'')]"
proof -
  have "ae_auth env = \<lparr>au_username = ''iotsys'', au_password = ''iot123sys'', au_secret = ''dev-session-secret''\<rparr>"
    using assms(1,2)
    by (auto simp: entry_main_def entry_settings_def parse_command_line_def getenv_def option_value_def Let_def split: sum.splits)
  then show ?thesis
    using assms(3,4) by (simp add: require_session_def read_session_token_def item_get_def)
qed

end
