(* ===== verification/Store_Migrate.thy ===== *)
theory Store_Migrate
  imports Store
begin

text \<open>
  \<open>ConfigStore.initialize\<close> of \<^verbatim>\<open>src/industrial_gateway/store.py\<close> on a database file an older version wrote: the tables that
  are missing are created, columns that are missing are added with their defaults, and the sink table of
  the single-sink version is rebuilt with the sink type as its key. Here a file is a dictionary of tables, a table its
  column names and its rows in row order, a row a dictionary of its values. SQLite is modelled as far as these
  statements use it; an error leaves the statements before it in effect and is not followed further.
\<close>

section \<open>Tables\<close>

record sql_table =
  tb_columns :: "string list"
  tb_rows :: "settings list"

type_synonym database = "(string, sql_table) pydict"

definition new_table :: "string list \<Rightarrow> sql_table" where
  "new_table columns = \<lparr>tb_columns = columns, tb_rows = []\<rparr>"

definition schema :: "(string \<times> string list) list" where
  "schema =
     [(''devices'', [''id'', ''device_group'', ''name'', ''driver_type'', ''enabled'', ''poll_interval_ms'', ''connection_json'']),
      (''tags'', [''id'', ''device_id'', ''tag_group'', ''name'', ''address'', ''function'', ''data_type'', ''scale'', ''offset'',
         ''enabled'', ''unit_id'', ''word_count'', ''byte_order'', ''word_order'', ''node_id'']),
      (''mqtt_config'', [''id'', ''host'', ''port'', ''base_topic'', ''username'', ''password'', ''client_id'', ''qos'', ''enabled'']),
      (''sink_config'', [''sink_type'', ''enabled'', ''config_json'']),
      (''sink_selection'', [''id'', ''sink_type'']),
      (''output_routes'', [''id'', ''device_id'', ''tag_group'', ''sink_type'', ''enabled'', ''config_json''])]"

definition create_table :: "string \<times> string list \<Rightarrow> database \<Rightarrow> database" where
  "create_table t f = (if dget f (fst t) = None then dset (fst t) (new_table (snd t)) f else f)"

definition create_tables :: "database \<Rightarrow> database" where
  "create_tables f = fold create_table schema f"

text \<open>\<open>ALTER TABLE ... ADD COLUMN\<close>: every row gets the default.\<close>

definition add_column :: "string \<times> pyval \<Rightarrow> sql_table \<Rightarrow> sql_table" where
  "add_column cv t = \<lparr>tb_columns = tb_columns t @ [fst cv], tb_rows = map (\<lambda>r. r @ [cv]) (tb_rows t)\<rparr>"

definition add_missing :: "(string \<times> pyval) list \<Rightarrow> sql_table \<Rightarrow> sql_table" where
  "add_missing cvs t = fold add_column (filter (\<lambda>cv. fst cv \<notin> set (tb_columns t)) cvs) t"

definition on_table :: "string \<Rightarrow> (sql_table \<Rightarrow> sql_table) \<Rightarrow> database \<Rightarrow> database" where
  "on_table name g f = (case dget f name of None \<Rightarrow> f | Some t \<Rightarrow> dset name (g t) f)"

section \<open>Migrations\<close>

definition new_device_columns :: settings where
  "new_device_columns = [(''device_group'', VStr [])]"

definition new_tag_columns :: settings where
  "new_tag_columns = [(''word_count'', VNone), (''unit_id'', VNone), (''byte_order'', VStr ''big''), (''word_order'', VStr ''big''),
     (''node_id'', VNone), (''tag_group'', VStr []), (''offset'', VFloat fl_zero)]"

definition migrate_devices :: "database \<Rightarrow> database" where
  "migrate_devices = on_table ''devices'' (add_missing new_device_columns)"

definition migrate_tags :: "database \<Rightarrow> database" where
  "migrate_tags = on_table ''tags'' (add_missing new_tag_columns)"

text \<open>\<open>INSERT ... ON CONFLICT(key) DO UPDATE\<close>; nulls do not conflict.\<close>

definition upsert :: "string \<Rightarrow> settings \<Rightarrow> sql_table \<Rightarrow> sql_table" where
  "upsert key row t =
     (let clash = (\<lambda>r. item_get row key \<noteq> VNone \<and> item_get r key = item_get row key) in
      if list_ex clash (tb_rows t) then t\<lparr>tb_rows := map (\<lambda>r. if clash r then row else r) (tb_rows t)\<rparr>
      else t\<lparr>tb_rows := tb_rows t @ [row]\<rparr>)"

definition sink_columns :: "string list" where
  "sink_columns = [''sink_type'', ''enabled'', ''config_json'']"

definition sink_row :: "settings \<Rightarrow> settings" where
  "sink_row r = map (\<lambda>c. (c, item_get r c)) sink_columns"

definition selection_row :: "settings \<Rightarrow> settings" where
  "selection_row r = [(''id'', VInt 1), (''sink_type'', item_get r ''sink_type'')]"

text \<open>The columns declared \<open>NOT NULL\<close> of the two tables the rows go to; a text primary key may be null.\<close>

definition not_null :: "string \<Rightarrow> string list \<Rightarrow> settings \<Rightarrow> unit res" where
  "not_null table columns row = (case filter (\<lambda>c. item_get row c = VNone) columns of
     [] \<Rightarrow> Inr ()
   | c # _ \<Rightarrow> integrity (''NOT NULL constraint failed: '' @ table @ ''.'' @ c))"

definition copy_sink :: "settings \<Rightarrow> database \<Rightarrow> database res" where
  "copy_sink r f =
     rbind (not_null ''sink_config'' [''enabled'', ''config_json''] (sink_row r)) (\<lambda>_.
     rbind (not_null ''sink_selection'' [''sink_type''] (selection_row r)) (\<lambda>_.
       Inr (on_table ''sink_selection'' (upsert ''id'' (selection_row r))
         (on_table ''sink_config'' (upsert ''sink_type'' (sink_row r)) f))))"

fun copy_sinks :: "settings list \<Rightarrow> database \<Rightarrow> database res" where
  "copy_sinks [] f = Inr f"
| "copy_sinks (r # rs) f = rbind (copy_sink r f) (copy_sinks rs)"

definition operational :: "string \<Rightarrow> 'a res" where
  "operational m = Inl (Raise OperationalError m)"

definition migrate_sink_config :: "database \<Rightarrow> database res" where
  "migrate_sink_config f = (case dget f ''sink_config'' of
       None \<Rightarrow> Inr f
     | Some old \<Rightarrow>
         if ''id'' \<notin> set (tb_columns old) then Inr f
         else (case filter (\<lambda>c. c \<notin> set (tb_columns old)) sink_columns of
             c # cs \<Rightarrow> operational (''no such column: '' @ c)
           | [] \<Rightarrow>
               if dget f ''sink_config_old'' \<noteq> None
               then operational (''there is already another table or index with this name: sink_config_old'')
               else let renamed = dset ''sink_config_old'' old (ddel ''sink_config'' f);
                        created = dset ''sink_config'' (new_table sink_columns) renamed
                    in rbind (copy_sinks (map sink_row (tb_rows old)) created) (\<lambda>copied.
                         Inr (ddel ''sink_config_old'' copied))))"

definition initialize :: "database \<Rightarrow> database res" where
  "initialize f = migrate_sink_config (migrate_tags (migrate_devices (create_tables f)))"

section \<open>A file of this version\<close>

text \<open>Independent of the code: the columns every version of a table had, and those of later versions with the value a row of an
  older file is to have there.\<close>

definition first_columns :: "(string \<times> string list) list" where
  "first_columns =
     [(''devices'', [''id'', ''name'', ''driver_type'', ''enabled'', ''poll_interval_ms'', ''connection_json'']),
      (''tags'', [''id'', ''device_id'', ''name'', ''address'', ''function'', ''data_type'', ''scale'', ''enabled'']),
      (''mqtt_config'', [''id'', ''host'', ''port'', ''base_topic'', ''username'', ''password'', ''client_id'', ''qos'', ''enabled'']),
      (''sink_config'', [''sink_type'', ''enabled'', ''config_json'']),
      (''sink_selection'', [''id'', ''sink_type'']),
      (''output_routes'', [''id'', ''device_id'', ''tag_group'', ''sink_type'', ''enabled'', ''config_json''])]"

definition later_columns :: "string \<Rightarrow> settings" where
  "later_columns n =
     (if n = ''devices'' then [(''device_group'', VStr [])]
      else if n = ''tags'' then
        [(''tag_group'', VStr []), (''offset'', VFloat fl_zero), (''unit_id'', VNone), (''word_count'', VNone),
         (''byte_order'', VStr ''big''), (''word_order'', VStr ''big''), (''node_id'', VNone)]
      else [])"

definition up_to_date :: "database \<Rightarrow> bool" where
  "up_to_date f \<longleftrightarrow>
     (\<forall>(n, cols) \<in> set first_columns. \<exists>t. dget f n = Some t \<and> set cols \<union> fst ` set (later_columns n) \<subseteq> set (tb_columns t)) \<and>
     (\<forall>t. dget f ''sink_config'' = Some t \<longrightarrow> ''id'' \<notin> set (tb_columns t))"

text \<open>A file an older version may have written: each of its tables has the columns every version had, it is not in the middle of a
  migration, and a sink table with a row number has no nulls.\<close>

definition complete_sink :: "settings \<Rightarrow> bool" where
  "complete_sink r \<longleftrightarrow> item_get r ''sink_type'' \<noteq> VNone \<and> item_get r ''enabled'' \<noteq> VNone \<and> item_get r ''config_json'' \<noteq> VNone"

definition old_file :: "database \<Rightarrow> bool" where
  "old_file f \<longleftrightarrow> dget f ''sink_config_old'' = None \<and>
     (\<forall>(n, cols) \<in> set first_columns. \<forall>t. dget f n = Some t \<longrightarrow> set cols \<subseteq> set (tb_columns t)) \<and>
     (\<forall>t. dget f ''sink_config'' = Some t \<longrightarrow> ''id'' \<in> set (tb_columns t) \<longrightarrow> list_all complete_sink (tb_rows t))"

text \<open>What the code adds, and what it creates.\<close>

definition added :: "string \<Rightarrow> settings" where
  "added n = (if n = ''devices'' then new_device_columns else if n = ''tags'' then new_tag_columns else [])"

lemma added_later: "set (added n) = set (later_columns n)"
proof (cases "n = ''tags''")
  case True
  have same: "set [wc, u, bo, wo, nd, tg, off] = set [tg, off, u, wc, bo, wo, nd]" for wc u bo wo nd tg off :: "string \<times> pyval"
    by auto
  have a: "added n = new_tag_columns" using True by (simp add: added_def)
  have l: "later_columns n = [(''tag_group'', VStr []), (''offset'', VFloat fl_zero), (''unit_id'', VNone), (''word_count'', VNone),
      (''byte_order'', VStr ''big''), (''word_order'', VStr ''big''), (''node_id'', VNone)]"
    using True by (simp add: later_columns_def)
  show ?thesis unfolding a l new_tag_columns_def by (rule same)
qed (simp add: added_def later_columns_def new_device_columns_def)

lemma added_distinct: "distinct (added n)"
  by (simp add: added_def new_device_columns_def new_tag_columns_def)

lemma schema_first:
  "(n, cols) \<in> set first_columns \<Longrightarrow>
    \<exists>all. map_of schema n = Some all \<and> set all = set cols \<union> fst ` set (later_columns n)"
proof -
  have "list_all (\<lambda>(n, cols). case map_of schema n of None \<Rightarrow> False
      | Some all \<Rightarrow> set all = set (cols @ map fst (later_columns n))) first_columns"
    by code_simp
  then show "(n, cols) \<in> set first_columns \<Longrightarrow> ?thesis" by (fastforce simp: list_all_iff split: option.splits)
qed

lemma add_missing_columns: "set (tb_columns (add_missing cvs t)) = set (tb_columns t) \<union> fst ` set cvs"
proof -
  have "set (tb_columns (fold add_column cvs t)) = set (tb_columns t) \<union> fst ` set cvs" for cvs t
    by (induction cvs arbitrary: t) (auto simp: add_column_def)
  then show ?thesis by (auto simp: add_missing_def)
qed

lemma add_missing_rows:
  "tb_rows (add_missing cvs t) = map (\<lambda>r. r @ filter (\<lambda>cv. fst cv \<notin> set (tb_columns t)) cvs) (tb_rows t)"
proof -
  have "tb_rows (fold add_column cvs t) = map (\<lambda>r. r @ cvs) (tb_rows t)" for cvs t
    by (induction cvs arbitrary: t) (simp_all add: add_column_def)
  then show ?thesis by (simp add: add_missing_def)
qed

lemma add_missing_nothing: "fst ` set cvs \<subseteq> set (tb_columns t) \<Longrightarrow> add_missing cvs t = t"
proof -
  assume "fst ` set cvs \<subseteq> set (tb_columns t)"
  then have "filter (\<lambda>cv. fst cv \<notin> set (tb_columns t)) cvs = []" by (auto simp: filter_empty_conv)
  then show ?thesis by (simp add: add_missing_def)
qed

lemma dget_on_table: "dget (on_table n g f) m = (if m = n then map_option g (dget f m) else dget f m)"
  by (auto simp: on_table_def dget_dset split: option.split)

lemma dget_create_tables:
  "dget (create_tables f) n = (case dget f n of Some t \<Rightarrow> Some t | None \<Rightarrow> map_option new_table (map_of schema n))"
proof -
  have "dget (fold create_table ts f) n = (case dget f n of Some t \<Rightarrow> Some t | None \<Rightarrow> map_option new_table (map_of ts n))" for ts f
    by (induction ts arbitrary: f) (auto simp: create_table_def dget_dset split: option.split)
  then show ?thesis by (simp add: create_tables_def)
qed

lemma on_table_nothing: "(\<And>t. dget f n = Some t \<Longrightarrow> g t = t) \<Longrightarrow> on_table n g f = f"
  by (auto simp: on_table_def dset_known split: option.split)

lemma up_to_date_initialize: "up_to_date f \<Longrightarrow> initialize f = Inr f"
proof -
  assume u: "up_to_date f"
  have "fold create_table ts f = f" if "\<forall>(n, cols) \<in> set ts. dget f n \<noteq> None" for ts
    using that by (induction ts) (auto simp: create_table_def)
  moreover have "\<forall>(n, cols) \<in> set schema. dget f n \<noteq> None"
    using u by (auto simp: up_to_date_def first_columns_def schema_def)
  ultimately have "create_tables f = f" by (simp add: create_tables_def)
  moreover have "migrate_devices f = f"
    unfolding migrate_devices_def
    by (rule on_table_nothing, rule add_missing_nothing) (use u in \<open>auto simp: up_to_date_def first_columns_def later_columns_def new_device_columns_def\<close>)
  moreover have "migrate_tags f = f"
    unfolding migrate_tags_def
    by (rule on_table_nothing, rule add_missing_nothing) (use u in \<open>auto simp: up_to_date_def first_columns_def later_columns_def new_tag_columns_def\<close>)
  moreover have "migrate_sink_config f = Inr f"
    using u by (auto simp: migrate_sink_config_def up_to_date_def split: option.split)
  ultimately show ?thesis by (simp add: initialize_def)
qed

section \<open>The rebuilt sink table\<close>

definition row_with :: "string \<Rightarrow> pyval \<Rightarrow> sql_table \<Rightarrow> settings option" where
  "row_with key v t = find (\<lambda>r. item_get r key = v) (tb_rows t)"

lemma upsert_columns [simp]: "tb_columns (upsert key row t) = tb_columns t"
  by (simp add: upsert_def Let_def)

lemma row_with_upsert:
  assumes "v \<noteq> VNone"
  shows "row_with key v (upsert key row t) = (if item_get row key = v then Some row else row_with key v t)"
proof -
  let ?clash = "\<lambda>r. item_get row key \<noteq> VNone \<and> item_get r key = item_get row key"
  have replaced: "find (\<lambda>r. item_get r key = v) (map (\<lambda>r. if ?clash r then row else r) rs) =
      (if item_get row key = v \<and> list_ex ?clash rs then Some row else find (\<lambda>r. item_get r key = v) rs)" for rs
    by (induction rs) (use assms in auto)
  have added: "find P (rs @ [row]) = (case find P rs of None \<Rightarrow> if P row then Some row else None | Some r \<Rightarrow> Some r)" for P rs
    by (induction rs) auto
  have none: "find (\<lambda>r. item_get r key = v) rs = None" if "\<not> list_ex ?clash rs" "item_get row key = v" for rs
    using that assms by (auto simp: find_None_iff list_ex_iff)
  show ?thesis
  proof (cases "list_ex ?clash (tb_rows t)")
    case True
    then show ?thesis using replaced [of "tb_rows t"] by (simp add: row_with_def upsert_def Let_def)
  next
    case False
    then have "upsert key row t = t\<lparr>tb_rows := tb_rows t @ [row]\<rparr>" by (simp add: upsert_def Let_def)
    then show ?thesis using added [of "\<lambda>r. item_get r key = v" "tb_rows t"] none [OF False]
      by (auto simp: row_with_def split: option.split)
  qed
qed

definition copied_sinks :: "settings list \<Rightarrow> sql_table \<Rightarrow> sql_table" where
  "copied_sinks rs = fold (\<lambda>r. upsert ''sink_type'' (sink_row r)) rs"

definition copied_selection :: "settings list \<Rightarrow> sql_table \<Rightarrow> sql_table" where
  "copied_selection rs = fold (\<lambda>r. upsert ''id'' (selection_row r)) rs"

lemma sink_row_simps [simp]:
  "item_get (sink_row r) ''sink_type'' = item_get r ''sink_type''" "sink_row (sink_row r) = sink_row r"
  "item_get (sink_row r) ''enabled'' = item_get r ''enabled''" "item_get (sink_row r) ''config_json'' = item_get r ''config_json''"
  "item_get (selection_row r) ''sink_type'' = item_get r ''sink_type''"
  "selection_row (sink_row r) = selection_row r" "item_get (selection_row r) ''id'' = VInt 1"
  by (simp_all add: sink_row_def selection_row_def sink_columns_def item_get_def get_or_def)

lemma copy_sink_ok:
  "copy_sink r f = Inr f' \<longleftrightarrow> complete_sink r \<and>
    f' = on_table ''sink_selection'' (upsert ''id'' (selection_row r)) (on_table ''sink_config'' (upsert ''sink_type'' (sink_row r)) f)"
  by (auto simp: copy_sink_def not_null_def complete_sink_def rbind_def integrity_def)

lemma dget_copy_sinks:
  "copy_sinks rs f = Inr f' \<Longrightarrow> dget f' n =
     (if n = ''sink_config'' then map_option (copied_sinks rs) (dget f n)
      else if n = ''sink_selection'' then map_option (copied_selection rs) (dget f n) else dget f n)"
proof (induction rs arbitrary: f)
  case Nil
  then show ?case by (auto simp: copied_sinks_def copied_selection_def option.map_id [unfolded id_def] id_def)
next
  case (Cons r rs)
  then obtain g where "copy_sink r f = Inr g" "copy_sinks rs g = Inr f'" by (auto simp: rbind_Inr_iff)
  then show ?case using Cons.IH [of g]
    by (auto simp: copy_sink_ok dget_on_table option.map_comp o_def copied_sinks_def copied_selection_def)
qed

lemma copy_sinks_defined: "(\<exists>f'. copy_sinks rs f = Inr f') \<longleftrightarrow> list_all complete_sink rs"
  by (induction rs arbitrary: f) (auto simp: rbind_Inr_iff copy_sink_ok)

lemma complete_sink_row [simp]: "complete_sink (sink_row r) \<longleftrightarrow> complete_sink r"
  by (simp add: complete_sink_def)

lemma copied_rows [simp]:
  "copied_sinks (map sink_row rs) = copied_sinks rs" "copied_selection (map sink_row rs) = copied_selection rs"
  by (simp_all add: copied_sinks_def copied_selection_def fold_map o_def)

lemma fold_upsert_columns: "tb_columns (fold (\<lambda>r. upsert key (g r)) rs t) = tb_columns t"
  by (induction rs arbitrary: t) simp_all

lemma fold_upsert_row:
  "v \<noteq> VNone \<Longrightarrow> row_with key v (fold (\<lambda>r. upsert key (g r)) rs t) =
     (case find (\<lambda>r. item_get (g r) key = v) (rev rs) of None \<Rightarrow> row_with key v t | Some r \<Rightarrow> Some (g r))"
proof (induction rs rule: rev_induct)
  case (snoc r rs)
  then show ?case by (auto simp: row_with_upsert)
qed simp

lemma migrate_sink_cases:
  assumes "migrate_sink_config f = Inr f'" "dget f ''sink_config'' = Some old"
  shows "dget f' n =
    (if ''id'' \<notin> set (tb_columns old) then dget f n
     else if n = ''sink_config'' then Some (copied_sinks (tb_rows old) (new_table sink_columns))
     else if n = ''sink_selection'' then map_option (copied_selection (tb_rows old)) (dget f n)
     else if n = ''sink_config_old'' then None else dget f n)"
proof (cases "''id'' \<in> set (tb_columns old)")
  case True
  let ?created = "dset ''sink_config'' (new_table sink_columns) (dset ''sink_config_old'' old (ddel ''sink_config'' f))"
  obtain copied where c: "copy_sinks (map sink_row (tb_rows old)) ?created = Inr copied" "f' = ddel ''sink_config_old'' copied"
    using assms True by (auto simp: migrate_sink_config_def operational_def rbind_Inr_iff Let_def split: if_splits list.splits)
  show ?thesis using True by (auto simp: c(2) dget_ddel dget_dset dget_copy_sinks [OF c(1)])
next
  case False
  then show ?thesis using assms by (simp add: migrate_sink_config_def)
qed

section \<open>Initialising\<close>

lemma dget_added:
  "dget (migrate_tags (migrate_devices f)) n = map_option (add_missing (added n)) (dget f n)"
proof -
  have "map_option (add_missing []) x = x" for x by (cases x) (simp_all add: add_missing_nothing)
  then show ?thesis by (auto simp: migrate_tags_def migrate_devices_def dget_on_table added_def)
qed

lemma schema_tables:
  assumes "old_file f" "(n, cols) \<in> set first_columns"
  shows "\<exists>t. dget (migrate_tags (migrate_devices (create_tables f))) n = Some t \<and>
    set cols \<union> fst ` set (later_columns n) \<subseteq> set (tb_columns t)"
proof -
  obtain all where all: "map_of schema n = Some all" "set all = set cols \<union> fst ` set (later_columns n)"
    using schema_first [OF assms(2)] by blast
  show ?thesis
  proof (cases "dget f n")
    case None
    then show ?thesis by (auto simp: dget_added dget_create_tables all add_missing_columns new_table_def)
  next
    case (Some t)
    then have "set cols \<subseteq> set (tb_columns t)" using assms by (fastforce simp: old_file_def)
    then show ?thesis using Some by (auto simp: dget_added dget_create_tables add_missing_columns added_later)
  qed
qed

lemma first_sink: "(''sink_config'', sink_columns) \<in> set first_columns"
  by (simp add: first_columns_def sink_columns_def)

lemma migrated_tables:
  assumes "old_file f"
  obtains f' old where "initialize f = Inr f'" "migrate_sink_config (migrate_tags (migrate_devices (create_tables f))) = Inr f'"
    "dget (migrate_tags (migrate_devices (create_tables f))) ''sink_config'' = Some old"
proof -
  let ?g = "migrate_tags (migrate_devices (create_tables f))"
  obtain old where old: "dget ?g ''sink_config'' = Some old" "set sink_columns \<subseteq> set (tb_columns old)"
    using schema_tables [OF assms first_sink] by auto
  have "dget ?g ''sink_config_old'' = None"
    using assms by (simp add: dget_added dget_create_tables old_file_def schema_def)
  moreover have "filter (\<lambda>c. c \<notin> set (tb_columns old)) sink_columns = []" using old(2) by (auto simp: filter_empty_conv)
  moreover have "''id'' \<in> set (tb_columns old) \<longrightarrow> list_all complete_sink (map sink_row (tb_rows old))"
    using old(1) assms
    by (auto simp: dget_added dget_create_tables added_def add_missing_nothing old_file_def schema_def new_table_def list_all_iff
        split: option.splits)
  ultimately have "\<exists>f'. migrate_sink_config ?g = Inr f'"
    using old(1) copy_sinks_defined by (fastforce simp: migrate_sink_config_def Let_def rbind_Inr_iff)
  then obtain f' where "migrate_sink_config ?g = Inr f'" by blast
  then show ?thesis using that old(1) by (simp add: initialize_def)
qed

text \<open>C37: A file opened once is settled. Take any file whose tables, those that exist, have the columns every version had, that is not
  in the middle of a migration, and whose sink table, if it still has a row number, has no nulls. The first start
  succeeds and leaves a file with every table and column of the current schema and no row number in the sink table;
  later starts do not change it any more.\<close>

theorem initialize_settles:
  assumes "old_file f"
  shows "\<exists>f'. initialize f = Inr f' \<and> up_to_date f' \<and> initialize f' = Inr f'"
proof -
  let ?g = "migrate_tags (migrate_devices (create_tables f))"
  obtain f' old where f': "initialize f = Inr f'" "migrate_sink_config ?g = Inr f'" "dget ?g ''sink_config'' = Some old"
    using migrated_tables [OF assms] .
  note cases = migrate_sink_cases [OF f'(2,3)]
  have "\<exists>t. dget f' n = Some t \<and> set cols \<union> fst ` set (later_columns n) \<subseteq> set (tb_columns t)"
    if known: "(n, cols) \<in> set first_columns" for n cols
  proof -
    obtain t where t: "dget ?g n = Some t" "set cols \<union> fst ` set (later_columns n) \<subseteq> set (tb_columns t)"
      using schema_tables [OF assms known] by blast
    moreover have "n \<noteq> ''sink_config_old''" "n = ''sink_config'' \<Longrightarrow> cols = sink_columns"
      using known by (auto simp: first_columns_def sink_columns_def)
    ultimately show ?thesis using cases [of n]
      by (auto simp: fold_upsert_columns copied_sinks_def copied_selection_def new_table_def later_columns_def)
  qed
  moreover have "''id'' \<notin> set (tb_columns t)" if "dget f' ''sink_config'' = Some t" for t
    using cases [of "''sink_config''"] that f'(3)
    by (auto simp: fold_upsert_columns copied_sinks_def new_table_def sink_columns_def split: if_splits)
  ultimately have "up_to_date f'" by (auto simp: up_to_date_def)
  then show ?thesis using f'(1) up_to_date_initialize by blast
qed

text \<open>C38: No row is lost. In an old file as above, every row of the devices, tags, broker settings and output routes keeps all its
  values, in the order of the rows; to each is added exactly what its table lacked: for a device an empty group, for a
  tag an empty group, the offset 0.0, both orders \<open>big\<close>, and no unit, word count or node.\<close>

theorem migration_keeps_rows:
  assumes "old_file f" and "initialize f = Inr f'" and "n \<in> {''devices'', ''tags'', ''mqtt_config'', ''output_routes''}"
    and "dget f n = Some t"
  shows "\<exists>t' new. dget f' n = Some t' \<and> distinct new \<and> set new = {cv \<in> set (later_columns n). fst cv \<notin> set (tb_columns t)} \<and>
    tb_rows t' = map (\<lambda>r. r @ new) (tb_rows t)"
proof -
  let ?g = "migrate_tags (migrate_devices (create_tables f))"
  obtain old where "migrate_sink_config ?g = Inr f'" "dget ?g ''sink_config'' = Some old"
    using migrated_tables [OF assms(1)] assms(2) by (metis sum.inject(2))
  from migrate_sink_cases [OF this, of n] have "dget f' n = dget ?g n" using assms(3) by (auto split: if_splits)
  then have "dget f' n = Some (add_missing (added n) t)" using assms(4) by (simp add: dget_added dget_create_tables)
  then show ?thesis
    by (intro exI [of _ "add_missing (added n) t"] exI [of _ "filter (\<lambda>cv. fst cv \<notin> set (tb_columns t)) (added n)"])
      (simp add: add_missing_rows added_distinct flip: added_later)
qed

text \<open>The hypothesis on nulls is needed: a start succeeds on a sink table with a row number only if no row of it has a null, as the
  rebuilt table and the selection are declared \<open>NOT NULL\<close>.\<close>

lemma rebuilt_only_without_null:
  assumes "migrate_sink_config f = Inr f'" "dget f ''sink_config'' = Some old" "''id'' \<in> set (tb_columns old)"
  shows "list_all complete_sink (tb_rows old)"
proof -
  have "\<exists>g copied. copy_sinks (map sink_row (tb_rows old)) g = Inr copied"
    using assms by (auto simp: migrate_sink_config_def operational_def rbind_Inr_iff Let_def split: if_splits list.splits)
  then show ?thesis using copy_sinks_defined [of "map sink_row (tb_rows old)"] by (auto simp: list_all_iff)
qed

text \<open>The single sink of an old file is carried over. When the sink table still has its row number, the rebuilt table has for
  every sink type the settings of the last row of that type, and the sink of the last row is the selected one.\<close>

theorem old_sinks_carried_over:
  assumes "old_file f" and "initialize f = Inr f'" and "dget f ''sink_config'' = Some old" and "''id'' \<in> set (tb_columns old)"
    and "tb_rows old \<noteq> []" and "v \<noteq> VNone"
  shows "\<exists>sinks selection. dget f' ''sink_config'' = Some sinks \<and> dget f' ''sink_selection'' = Some selection \<and>
    row_with ''sink_type'' v sinks = map_option sink_row (find (\<lambda>r. item_get r ''sink_type'' = v) (rev (tb_rows old))) \<and>
    row_with ''id'' (VInt 1) selection = Some (selection_row (last (tb_rows old)))"
proof -
  let ?g = "migrate_tags (migrate_devices (create_tables f))"
  have m: "migrate_sink_config ?g = Inr f'"
    using migrated_tables [OF assms(1)] assms(2) by (metis sum.inject(2))
  have old: "dget ?g ''sink_config'' = Some old"
    using assms(3) by (simp add: dget_added dget_create_tables added_def add_missing_nothing)
  obtain sel where sel: "dget ?g ''sink_selection'' = Some sel"
    using schema_tables [OF assms(1), of "''sink_selection''"] by (auto simp: first_columns_def)
  note cases = migrate_sink_cases [OF m old]
  have "find (\<lambda>r. True) (rev (tb_rows old)) = Some (last (tb_rows old))"
    using assms(5) by (cases "tb_rows old" rule: rev_cases) auto
  moreover have "row_with k v (new_table cs) = None" for k cs by (simp add: row_with_def new_table_def)
  ultimately show ?thesis using cases [of "''sink_config''"] cases [of "''sink_selection''"] sel assms(4,6)
    by (auto simp: fold_upsert_row copied_sinks_def copied_selection_def split: option.split)
qed

section \<open>A file of the single-sink version\<close>

definition sample_file :: database where
  "sample_file =
     [(''devices'', \<lparr>tb_columns = [''id'', ''name'', ''driver_type'', ''enabled'', ''poll_interval_ms'', ''connection_json''],
        tb_rows = [[(''id'', VInt 1), (''name'', VStr ''plc'')], [(''id'', VInt 2), (''name'', VStr ''meter'')]]\<rparr>),
      (''sink_config'', \<lparr>tb_columns = [''id'', ''sink_type'', ''enabled'', ''config_json''],
        tb_rows = [[(''id'', VInt 1), (''sink_type'', VStr ''postgresql''), (''enabled'', VInt 1), (''config_json'', VStr ''{}'')]]\<rparr>)]"

lemma sample_file_old: "old_file sample_file"
  by (auto simp: old_file_def sample_file_def first_columns_def complete_sink_def item_get_def get_or_def)

lemma initialize_settles_witness:
  "\<exists>f'. initialize sample_file = Inr f' \<and> up_to_date f' \<and> initialize f' = Inr f'"
  by (rule initialize_settles [OF sample_file_old])

lemma sample_initialized: "\<exists>f'. initialize sample_file = Inr f'"
  using migrated_tables [OF sample_file_old] by blast

lemma migration_keeps_rows_witness:
  "\<exists>f' t'. initialize sample_file = Inr f' \<and> dget f' ''devices'' = Some t' \<and>
     tb_rows t' = [[(''id'', VInt 1), (''name'', VStr ''plc''), (''device_group'', VStr [])],
       [(''id'', VInt 2), (''name'', VStr ''meter''), (''device_group'', VStr [])]]"
proof -
  obtain f' where f': "initialize sample_file = Inr f'" using sample_initialized by blast
  obtain t where t: "dget sample_file ''devices'' = Some t" "''device_group'' \<notin> set (tb_columns t)"
    "tb_rows t = [[(''id'', VInt 1), (''name'', VStr ''plc'')], [(''id'', VInt 2), (''name'', VStr ''meter'')]]"
    by (simp add: sample_file_def)
  have missing: "{cv \<in> set (later_columns ''devices''). fst cv \<notin> set (tb_columns t)} = {(''device_group'', VStr [])}"
    using t(2) by (auto simp: later_columns_def)
  obtain t' new where r: "dget f' ''devices'' = Some t'" "distinct new" "set new = {(''device_group'', VStr [])}"
    "tb_rows t' = map (\<lambda>r. r @ new) (tb_rows t)"
    using migration_keeps_rows [OF sample_file_old f' _ t(1)] unfolding missing by blast
  then have "new = [(''device_group'', VStr [])]" by (cases new) (auto simp: subset_singleton_iff)
  then show ?thesis using f' r t(3) by simp
qed

lemma old_sinks_carried_over_witness:
  "\<exists>f' sinks selection. initialize sample_file = Inr f' \<and> dget f' ''sink_config'' = Some sinks \<and> dget f' ''sink_selection'' = Some selection \<and>
     row_with ''sink_type'' (VStr ''postgresql'') sinks =
       Some [(''sink_type'', VStr ''postgresql''), (''enabled'', VInt 1), (''config_json'', VStr ''{}'')] \<and>
     row_with ''id'' (VInt 1) selection = Some [(''id'', VInt 1), (''sink_type'', VStr ''postgresql'')]"
proof -
  obtain f' where f': "initialize sample_file = Inr f'" using sample_initialized by blast
  obtain old where old: "dget sample_file ''sink_config'' = Some old" "''id'' \<in> set (tb_columns old)"
    "tb_rows old = [[(''id'', VInt 1), (''sink_type'', VStr ''postgresql''), (''enabled'', VInt 1), (''config_json'', VStr ''{}'')]]"
    by (simp add: sample_file_def)
  then have "tb_rows old \<noteq> []" "VStr ''postgresql'' \<noteq> VNone" by simp_all
  from old_sinks_carried_over [OF sample_file_old f' old(1,2) this] show ?thesis
    using f' old(3) by (simp add: sink_row_def sink_columns_def selection_row_def item_get_def get_or_def)
qed

end
