(* ===== verification/Delivery.thy ===== *)
theory Delivery
  imports Publisher_Run Poller_Props
begin

text \<open>
  A result's way from the read queue through the publisher: the queue splits it into one item per tag, the publisher takes
  the items one by one, and a round soon after publishes what they held.
\<close>

section \<open>The queue in front of the publisher\<close>

text \<open>The publisher takes everything that waits in the read queue, one \<open>publish_once\<close> per item.\<close>

function deliver :: "pub_config \<Rightarrow> sink \<Rightarrow> datetime \<Rightarrow> read_queue \<Rightarrow> publisher \<Rightarrow> publisher" where
  "deliver c k now q s = (case rq_get q of
     None \<Rightarrow> s
   | Some (r, q') \<Rightarrow> deliver c k now q' (publish_once c k r now s))"
  by pat_completeness auto
termination
  by (relation "measure (\<lambda>(c, k, now, q, s). length q)") (auto simp: rq_get_def split: list.splits)

declare deliver.simps [simp del]

lemma deliver_simps [simp]:
  "deliver c k now [] s = s"
  "deliver c k now ((key, r) # q) s = deliver c k now q (publish_once c k r now s)"
  by (simp_all add: deliver.simps [of c k now "[]"] deliver.simps [of c k now "(key, r) # q"] rq_get_def)

lemma deliver_append: "deliver c k now (q @ [(key, r)]) s = publish_once c k r now (deliver c k now q s)"
  by (induction q arbitrary: s) auto

text \<open>Splitting a result changes its verdict.  A result without error that has a good reading but ends
  in a failed one, with distinct queue keys, leaves its device good when the publisher handles it
  whole; put into the read queue and delivered from there, it leaves the device bad.\<close>

theorem queue_splitting_flips_status:
  assumes "\<not> has_text (rr_error r)" "rr_tags r = ts @ [t]" "reading_failed t" "\<exists>g\<in>set ts. \<not> reading_failed g"
    and "distinct (map fst (split_items r))"
  shows "device_status (rr_device r) (publish_once c k r now s) = Some LGood \<and>
    device_status (rr_device r) (deliver c k now (rq_put r []) s) = Some LBad"
proof -
  define item where "item x = (TagKey (device_ident (rr_device r)) (res_tag_group x) (or_opt (res_node_id x) (res_name x)),
    r\<lparr>rr_tags := [x]\<rparr>)" for x
  have split: "split_items r = map item ts @ [item t]"
    using assms(1,2) by (simp add: split_items_def item_def)
  have "rq_put r [] = keep_last (split_items r)"
    using read_queue.put_all [of "[]" "split_items r"] by (simp add: rq_put_def)
  also have "\<dots> = map item ts @ [item t]" using keep_last_id [of "split_items r"] assms(5) split by (simp add: dwf_def)
  finally have "rq_put r [] = map item ts @ [(fst (item t), r\<lparr>rr_tags := [t]\<rparr>)]" by (simp add: item_def)
  then have "deliver c k now (rq_put r []) s = publish_once c k (r\<lparr>rr_tags := [t]\<rparr>) now (deliver c k now (map item ts) s)"
    by (simp add: deliver_append)
  then show ?thesis using assms by (auto simp: link_after_result)
qed

lemma queue_splitting_flips_status_witness:
  "device_status (rr_device (sample_result [sample_reading ''flow'' Good, sample_reading ''level'' Bad]))
     (publish_once sample_config working_sink (sample_result [sample_reading ''flow'' Good, sample_reading ''level'' Bad]) noon new_publisher) = Some LGood \<and>
   device_status (rr_device (sample_result [sample_reading ''flow'' Good, sample_reading ''level'' Bad]))
     (deliver sample_config working_sink noon (rq_put (sample_result [sample_reading ''flow'' Good, sample_reading ''level'' Bad]) []) new_publisher) = Some LBad"
  by (rule queue_splitting_flips_status [of _ "[sample_reading ''flow'' Good]" "sample_reading ''level'' Bad"])
    (simp_all add: sample_result_def sample_reading_def has_text_def reading_failed_def split_items_def or_opt_def)

section \<open>From the poll to the publisher\<close>

text \<open>What a poll leaves in the outbox goes through the read queue to the publisher.\<close>

definition poll_and_deliver ::
  "worker_config \<Rightarrow> poll_round \<Rightarrow> pub_config \<Rightarrow> sink \<Rightarrow> datetime \<Rightarrow> publisher \<Rightarrow> publisher" where
  "poll_and_deliver w p c k now s =
     deliver c k now (fold rq_put (wk_outbox (snd (poll_once w p new_worker))) []) s"

lemma rq_put_failed: "rr_tags r = [] \<Longrightarrow> rq_put r [] = [(ResultKey (device_ident (rr_device r)), r)]"
  by (simp add: rq_put_def rq_put1_def split_items_def)

text \<open>A failed poll is noticed by the text of its exception.  When connecting to a device or reading it raises, the
  publisher marks the device disconnected if the exception has a text, but good if its text is empty
  (a bare timeout, for one).\<close>

theorem failed_poll_status:
  assumes "po_factory p (wc_device w) (wc_tags w) = Inr dr"
    and "dr_connect dr = Some e \<or> (dr_connect dr = None \<and> dr_read dr = Inl e)"
  shows "device_status (wc_device w) (poll_and_deliver w p c k now s) =
    Some (if ex_text e = [] then LGood else LDisconnected)"
proof -
  obtain s' where p: "poll_once w p new_worker = (None, s')"
    using assms(1) by (simp add: poll_once_def Let_def)
  have "wk_outbox s' = [error_result w (po_time p) e]"
    using poll_once_built(2) [OF assms(1) p] assms(2) by (auto simp: poll_outcome_def new_worker_def)
  then show ?thesis using p
    by (simp add: poll_and_deliver_def rq_put_failed link_after_result error_result_def has_text_def)
qed

lemma failed_poll_status_witness:
  "device_status opcua_device (poll_and_deliver (sample_worker opcua_device)
     (sample_poll (Inr (good_driver\<lparr>dr_read := Inl (timeout_error\<lparr>ex_text := []\<rparr>)\<rparr>))) sample_config working_sink noon new_publisher) =
   Some (if ex_text (timeout_error\<lparr>ex_text := []\<rparr>) = [] then LGood else LDisconnected)"
  using failed_poll_status [of "sample_poll (Inr (good_driver\<lparr>dr_read := Inl (timeout_error\<lparr>ex_text := []\<rparr>)\<rparr>))"
      "sample_worker opcua_device" "good_driver\<lparr>dr_read := Inl (timeout_error\<lparr>ex_text := []\<rparr>)\<rparr>" "timeout_error\<lparr>ex_text := []\<rparr>"
      sample_config working_sink noon new_publisher]
  by (simp add: worker_sample_defs)

section \<open>From the device to the sink\<close>

lemma publish_once_keys:
  assumes "pub_inv s" "\<not> has_text (rr_error r)"
  shows "fst ` set (pb_latest (publish_once c k r now s)) = insert (device_key (rr_device r)) (fst ` set (pb_latest s))"
proof -
  have inv: "cache_inv s" using assms(1) by (simp add: pub_inv_def cache_inv_def)
  obtain st reason where "cache_result c k r now s = set_device_status c k (rr_device r) st reason now (Some now)
      (Some (rr_timestamp r)) (fold (cache_tag c (rr_device r)) (rr_tags r) (touch_snapshot r now s))"
    using cache_result_as_set by blast
  then show ?thesis using assms(2) touch_snapshot_inv [OF inv, of r now] cache_tags_inv
    by (simp add: publish_once_def Let_def)
qed

lemma single_entry: "dwf d \<Longrightarrow> fst ` set d = {k} \<Longrightarrow> dget d k = Some v \<Longrightarrow> d = [(k, v)]"
proof -
  assume d: "dwf d" "fst ` set d = {k}" "dget d k = Some v"
  then have "length d = 1" using distinct_card [of "map fst d"] by (simp add: dwf_def)
  then show ?thesis using d by (cases d) auto
qed

text \<open>The items of one result, delivered one by one to a publisher without a past.\<close>

lemma deliver_readings:
  assumes "\<not> has_text (rr_error r)" "distinct (map tag_key rs)" "list_all (\<lambda>t. \<not> reading_failed t) rs" "rs \<noteq> []"
  shows "pub_inv (deliver c k now (map (\<lambda>t. (key t, r\<lparr>rr_tags := [t]\<rparr>)) rs) new_publisher) \<and>
    pb_latest (deliver c k now (map (\<lambda>t. (key t, r\<lparr>rr_tags := [t]\<rparr>)) rs) new_publisher) =
      [(device_key (rr_device r), \<lparr>sn_device = rr_device r, sn_tags = map (\<lambda>t. (tag_key t, t)) rs, sn_received = Some now,
        sn_source = Some (rr_timestamp r)\<rparr>)] \<and>
    device_status (rr_device r) (deliver c k now (map (\<lambda>t. (key t, r\<lparr>rr_tags := [t]\<rparr>)) rs) new_publisher) = Some LGood"
  using assms
proof (induction rs rule: rev_induct)
  case (snoc t rs)
  let ?q = "map (\<lambda>t. (key t, r\<lparr>rr_tags := [t]\<rparr>)) rs" and ?r = "r\<lparr>rr_tags := [t]\<rparr>"
  define s where "s = deliver c k now ?q new_publisher"
  have old: "pub_inv s \<and> fst ` set (pb_latest s) \<subseteq> {device_key (rr_device r)} \<and>
      (case dget (pb_latest s) (device_key (rr_device r)) of None \<Rightarrow> [] | Some sn \<Rightarrow> sn_tags sn) = map (\<lambda>t. (tag_key t, t)) rs"
  proof (cases "rs = []")
    case True
    then show ?thesis using pub_reachable_inv [OF pub_reachable.start] by (simp add: s_def new_publisher_def)
  next
    case False
    then show ?thesis using snoc by (simp add: s_def)
  qed
  have new: "deliver c k now (map (\<lambda>t. (key t, r\<lparr>rr_tags := [t]\<rparr>)) (rs @ [t])) new_publisher = publish_once c k ?r now s"
    by (simp add: deliver_append s_def)
  have inv: "pub_inv (publish_once c k ?r now s)" using old publish_once_inv by blast
  have "fst ` set (pb_latest (publish_once c k ?r now s)) = {device_key (rr_device r)}"
    using publish_once_keys [of s ?r c k now] old snoc.prems(1) by auto
  moreover have "dset (tag_key t) t (map (\<lambda>t. (tag_key t, t)) rs) = map (\<lambda>t. (tag_key t, t)) (rs @ [t])"
    using snoc.prems(2) by (simp add: dset_fresh image_iff)
  ultimately have "pb_latest (publish_once c k ?r now s) =
      [(device_key (rr_device r), \<lparr>sn_device = rr_device r, sn_tags = map (\<lambda>t. (tag_key t, t)) (rs @ [t]), sn_received = Some now,
        sn_source = Some (rr_timestamp r)\<rparr>)]"
    using single_entry [of "pb_latest (publish_once c k ?r now s)"] inv cache_result_latest [of ?r c k now s] snoc.prems(1) old
    by (simp add: pub_inv_def latest_ok_def)
  moreover have "device_status (rr_device r) (publish_once c k ?r now s) = Some LGood"
    using snoc.prems(1,3) by (simp add: link_after_result)
  ultimately show ?case using inv unfolding new by blast
qed simp

lemma deliver_quiet: "quiet s (deliver c k now q s)"
proof (induction q arbitrary: s)
  case (Cons kr q)
  obtain key r where kr: "kr = (key, r)" by fastforce
  show ?case unfolding kr deliver_simps by (rule quiet_trans [OF publish_once_quiet Cons.IH])
qed (simp add: quiet_same)

text \<open>Readings without node ids, under different names: their cache and queue keys differ.\<close>

lemma no_colon_show_int: "CHR '':'' \<notin> set (show_int i)"
proof -
  have "CHR '':'' \<notin> set (show_nat n)" for n
    using show_nat_digits [of n] by (auto simp: is_digit_def)
  then show ?thesis by (simp add: show_int_def)
qed

lemma split_at_last:
  assumes "x \<notin> set ys" "x \<notin> set ys'"
  shows "xs @ x # ys = xs' @ x # ys' \<longleftrightarrow> xs = xs' \<and> ys = ys'"
proof -
  have "takeWhile (\<lambda>c. c \<noteq> x) (rev (zs @ x # zs')) = rev zs'" if "x \<notin> set zs'" for zs zs'
    using that by (induction zs' rule: rev_induct) auto
  from this [OF assms(1)] this [OF assms(2)] show ?thesis by (metis append_same_eq rev_is_rev_conv)
qed

definition plain_readings :: "tag_result list \<Rightarrow> bool" where
  "plain_readings rs \<longleftrightarrow> distinct (map res_name rs) \<and> list_all (\<lambda>t. res_node_id t = None \<and> good_tag t) rs \<and> rs \<noteq> []"

lemma keys_of_names:
  assumes "distinct (map res_name rs)" "list_all (\<lambda>t. res_node_id t = None) rs"
  shows "distinct (map tag_key rs)" "distinct (map (\<lambda>t. TagKey i (res_tag_group t) (or_opt (res_node_id t) (res_name t))) rs)"
  using assms
  by (induction rs) (auto simp: tag_key_def or_opt_def list_all_iff split_at_last no_colon_show_int)

lemma split_queue:
  assumes "plain_readings (rr_tags r)" "\<not> has_text (rr_error r)"
  shows "rq_put r [] = map (\<lambda>t. (TagKey (device_ident (rr_device r)) (res_tag_group t) (or_opt (res_node_id t) (res_name t)),
    r\<lparr>rr_tags := [t]\<rparr>)) (rr_tags r)"
proof -
  have "distinct (map fst (split_items r))"
    using assms keys_of_names(2) [of "rr_tags r"] by (simp add: split_items_def plain_readings_def list_all_iff o_def)
  then have "keep_last (split_items r) = split_items r" using keep_last_id by (simp add: dwf_def)
  then show ?thesis using read_queue.put_all [of "[]" "split_items r"] assms
    by (simp add: rq_put_def split_items_def plain_readings_def)
qed

lemma map_filter_same: "(\<And>x. x \<in> set xs \<Longrightarrow> P x \<and> f x = g x) \<Longrightarrow> map f (filter P xs) = map g xs"
  by (induction xs) auto

text \<open>A round soon after such a result publishes all of it, one message per output group.\<close>

lemma delivered_then_published:
  assumes "plain_readings (rr_tags r)" "\<not> has_text (rr_error r)"
    and "\<not> fl_le (pc_stale_timeout c) (seconds_between now received)"
  shows "filter is_measurement (pb_handed (fst (publish_cached c k now (deliver c k received (rq_put r []) new_publisher)))) =
    map (\<lambda>(grp, ts). fst (measurement_message c (rr_device r) ts grp now)) (group_by tag_output_group (rr_tags r))"
proof -
  define s where "s = deliver c k received (rq_put r []) new_publisher"
  define sn where "sn = \<lparr>sn_device = rr_device r, sn_tags = map (\<lambda>t. (tag_key t, t)) (rr_tags r),
    sn_received = Some received, sn_source = Some (rr_timestamp r)\<rparr>"
  have plain: "distinct (map tag_key (rr_tags r))" "list_all (\<lambda>t. \<not> reading_failed t) (rr_tags r)" "rr_tags r \<noteq> []"
    using assms(1) keys_of_names(1) [of "rr_tags r"]
    by (auto simp: plain_readings_def list_all_iff good_tag_def reading_failed_def)
  have s: "pb_latest s = [(device_key (rr_device r), sn)]" "device_status (rr_device r) s = Some LGood"
    using deliver_readings [OF assms(2) plain, of c k received] split_queue [OF assms(1,2)] by (simp_all add: s_def sn_def)
  have "refresh_stale_statuses c k now s = s"
    using s assms(3) by (simp add: refresh_stale_statuses_def refresh_snapshot_def dvalues_def) (simp add: sn_def)
  then have status: "device_status (rr_device r) (fst (publish_cached c k now s)) = Some LGood"
    using s(2) by (simp add: device_status_def)
  have "list_all (\<lambda>m. \<not> is_measurement m) (pb_handed s)"
    using deliver_quiet [of new_publisher c k received "rq_put r []"] by (auto simp: s_def quiet_def new_publisher_def)
  then have before: "filter is_measurement (pb_handed s) = []" by (simp add: list_all_iff)
  obtain ms where "pb_handed (fst (publish_cached c k now s)) = pb_handed s @ ms"
    using publish_cached_handed [of c k now s] by blast
  then have "filter is_measurement (pb_handed (fst (publish_cached c k now s))) =
      filter is_measurement (drop (length (pb_handed s)) (pb_handed (fst (publish_cached c k now s))))"
    using before by simp
  also have "\<dots> = map (\<lambda>(grp, ts). fst (measurement_message c (rr_device r) (filter good_tag ts) grp now))
      (filter (\<lambda>(grp, ts). filter good_tag ts \<noteq> []) (group_by tag_output_group (rr_tags r)))"
    unfolding conjunct1 [OF cached_measurements] using status s(1) by (simp add: dvalues_def sn_def tag_groups_def o_def)
  also have "\<dots> = map (\<lambda>(grp, ts). fst (measurement_message c (rr_device r) ts grp now)) (group_by tag_output_group (rr_tags r))"
  proof -
    have "filter good_tag ts = ts \<and> ts \<noteq> []" if g: "(grp, ts) \<in> set (group_by tag_output_group (rr_tags r))" for grp ts
    proof -
      have "good_tag t" if "t \<in> set ts" for t
        using group_by_member(3) [OF g that] assms(1) by (simp add: plain_readings_def list_all_iff)
      then show ?thesis using group_by_member(2) [OF g] by (simp add: filter_True)
    qed
    then show ?thesis by (intro map_filter_same) auto
  qed
  finally show ?thesis by (simp add: s_def)
qed

text \<open>The cache does not tell tag groups apart.  Of two readings without node ids that share name and address but not the group,
  the publisher keeps the second only, so the first group gets no measurement of it.\<close>

theorem groups_share_cache:
  assumes "\<not> has_text (rr_error r)" "rr_tags r = [t, u]" "tag_key u = tag_key t"
  shows "map_option sn_tags (dget (pb_latest (publish_once c k r now new_publisher)) (device_key (rr_device r))) = Some [(tag_key t, u)]"
  using cache_result_latest [OF assms(1), of c k now new_publisher] assms(2,3) by (simp add: new_publisher_def)

lemma tag_key_without_group: "tag_key (t\<lparr>res_tag_group := g\<rparr>) = tag_key t"
  by (simp add: tag_key_def)

end
