(* ===== verification/Gateway.thy ===== *)
theory Gateway
  imports Delivery Runtime_Props Config_Service_Props
begin

text \<open>
  The running gateway: the acquisition threads of a runtime, the read queue and the publisher, under every interleaving of
  their steps.

  An acquisition thread reads nothing that the others write, so what it puts into the queue is its own run, a
  \<open>poller_run\<close> or a \<open>sub_run\<close>; the scheduler decides when each of its results is put, when the publisher takes an item, when
  it publishes a round, and when the topic refresher gives it new routes. Each of these steps is atomic.

  The queue drops a waiting item when a newer one of its key arrives, and the publisher sees the others later than the
  threads made them. The abstract view is a table with the last reading of every tag: putting a result updates it,
  and nothing else changes it.
\<close>

section \<open>The interleaved gateway\<close>

record gateway =
  gw_pending :: "read_result list list"
  gw_put :: "read_result list"
  gw_queue :: read_queue
  gw_config :: pub_config
  gw_publisher :: publisher

text \<open>The gateway after a start: what each thread will put, given the rounds of the pollers and the sessions of the
  subscription workers.\<close>

definition polled :: "(worker_config \<Rightarrow> poll_round list) \<Rightarrow> worker_config \<Rightarrow> read_result list" where
  "polled polls w = wk_outbox (snd (poller_run w (polls w) new_worker))"

definition subscribed :: "(worker_config \<Rightarrow> session list) \<Rightarrow> worker_config \<Rightarrow> read_result list" where
  "subscribed sessions w = wk_outbox (snd (sub_run w (sessions w) new_worker))"

definition gateway_of ::
  "runtime \<Rightarrow> (worker_config \<Rightarrow> poll_round list) \<Rightarrow> (worker_config \<Rightarrow> session list) \<Rightarrow> gateway option" where
  "gateway_of s polls sessions = map_option (\<lambda>c.
     \<lparr>gw_pending = map (polled polls) (rm_pollers s) @ map (subscribed sessions) (rm_subs s), gw_put = [],
      gw_queue = rm_results s, gw_config = c, gw_publisher = new_publisher\<rparr>) (rm_publisher s)"

datatype gateway_event = Puts nat | Takes datetime | Publishes datetime | Reroutes "output_route list"

fun gateway_step :: "sink \<Rightarrow> gateway_event \<Rightarrow> gateway \<Rightarrow> gateway" where
  "gateway_step k (Puts i) g =
     (if i < length (gw_pending g)
      then case gw_pending g ! i of
          [] \<Rightarrow> g
        | r # rs \<Rightarrow> g\<lparr>gw_pending := (gw_pending g)[i := rs], gw_put := gw_put g @ [r], gw_queue := rq_put r (gw_queue g)\<rparr>
      else g)"
| "gateway_step k (Takes now) g =
     (case rq_get (gw_queue g) of
        None \<Rightarrow> g
      | Some (r, q) \<Rightarrow> g\<lparr>gw_queue := q, gw_publisher := publish_once (gw_config g) k r now (gw_publisher g)\<rparr>)"
| "gateway_step k (Publishes now) g = g\<lparr>gw_publisher := fst (publish_cached (gw_config g) k now (gw_publisher g))\<rparr>"
| "gateway_step k (Reroutes routes) g = g\<lparr>gw_config := (gw_config g)\<lparr>pc_routes := routes\<rparr>\<rparr>"

definition gateway_run :: "sink \<Rightarrow> gateway_event list \<Rightarrow> gateway \<Rightarrow> gateway" where
  "gateway_run k events g = fold (gateway_step k) events g"

lemma gateway_run_snoc: "gateway_run k (events @ [e]) g = gateway_step k e (gateway_run k events g)"
  by (simp add: gateway_run_def)

lemma gateway_run_invariant:
  assumes "P g" "\<And>e g. P g \<Longrightarrow> P (gateway_step k e g)"
  shows "P (gateway_run k events g)"
  by (induction events rule: rev_induct) (simp_all add: gateway_run_snoc assms, simp add: gateway_run_def assms)

lemma gateway_put_cases:
  obtains "gateway_step k (Puts i) g = g"
  | r rs where "i < length (gw_pending g)" "gw_pending g ! i = r # rs" "gateway_step k (Puts i) g =
      g\<lparr>gw_pending := (gw_pending g)[i := rs], gw_put := gw_put g @ [r], gw_queue := rq_put r (gw_queue g)\<rparr>"
  by (cases "i < length (gw_pending g)"; cases "gw_pending g ! i") auto

lemma gateway_take_cases:
  obtains "gw_queue g = []" "gateway_step k (Takes now) g = g"
  | x r q where "gw_queue g = (x, r) # q" "gateway_step k (Takes now) g =
      g\<lparr>gw_queue := q, gw_publisher := publish_once (gw_config g) k r now (gw_publisher g)\<rparr>"
  by (cases "gw_queue g") (auto simp: rq_get_def)

section \<open>The table of last readings\<close>

text \<open>The readings of a result under the keys of the publisher's cache; a result with an error has none.\<close>

definition readings :: "read_result \<Rightarrow> ((device_key \<times> string) \<times> tag_result) list" where
  "readings r = (if has_text (rr_error r) then []
     else map (\<lambda>t. ((device_key (rr_device r), tag_key t), t)) (rr_tags r))"

definition last_reading :: "read_result list \<Rightarrow> device_key \<times> string \<Rightarrow> tag_result option" where
  "last_reading rs = map_of (rev (concat (map readings rs)))"

definition cached_reading :: "publisher \<Rightarrow> device_key \<times> string \<Rightarrow> tag_result option" where
  "cached_reading s = (\<lambda>(dk, tk). case dget (pb_latest s) dk of None \<Rightarrow> None | Some sn \<Rightarrow> dget (sn_tags sn) tk)"

text \<open>What the publisher's cache will hold once everything that waits has been taken.\<close>

definition last_table :: "gateway \<Rightarrow> device_key \<times> string \<Rightarrow> tag_result option" where
  "last_table g = cached_reading (gw_publisher g) ++ last_reading (map snd (gw_queue g))"

lemma last_reading_simps [simp]:
  "last_reading [] = Map.empty"
  "last_reading (r # rs) = map_of (rev (readings r)) ++ last_reading rs"
  "last_reading (rs @ rs') = last_reading rs ++ last_reading rs'"
  by (simp_all add: last_reading_def)

lemma store_tag_other: "k \<noteq> dk \<Longrightarrow> dget (pb_latest (store_tag dk t s)) k = dget (pb_latest s) k"
  by (simp add: store_tag_def split: option.split)

lemma cache_tags_other: "k \<noteq> device_key d \<Longrightarrow> dget (pb_latest (fold (cache_tag c d) ts s)) k = dget (pb_latest s) k"
  by (induction ts arbitrary: s) (simp_all add: cache_tag_latest store_tag_other)

lemma publish_once_other:
  assumes "dk \<noteq> device_key (rr_device r)"
  shows "dget (pb_latest (publish_once c k r now s)) dk = dget (pb_latest s) dk"
proof (cases "has_text (rr_error r)")
  case False
  obtain st reason where "cache_result c k r now s = set_device_status c k (rr_device r) st reason now (Some now)
      (Some (rr_timestamp r)) (fold (cache_tag c (rr_device r)) (rr_tags r) (touch_snapshot r now s))"
    using cache_result_as_set by blast
  then show ?thesis using False assms
    by (simp add: publish_once_def cache_tags_other touch_snapshot_def Let_def)
qed (simp add: publish_once_def Let_def)

lemma publish_once_failed_latest: "has_text (rr_error r) \<Longrightarrow> pb_latest (publish_once c k r now s) = pb_latest s"
  by (simp add: publish_once_def Let_def)

lemma map_of_rev_keys: "map_of (rev (map (\<lambda>t. ((dk, f t), t)) ts)) (dk, x) = map_of (rev (map (\<lambda>t. (f t, t)) ts)) x"
  by (induction ts) (auto simp: map_add_def split: option.split)

lemma map_of_other_key: "dk \<noteq> dk' \<Longrightarrow> map_of (rev (map (\<lambda>t. ((dk, f t), t)) ts)) (dk', x) = None"
  by (induction ts) (auto simp: map_add_def)

lemma cached_publish_once:
  "cached_reading (publish_once c k r now s) = cached_reading s ++ map_of (rev (readings r))"
proof (rule ext)
  fix p :: "device_key \<times> string"
  obtain dk tk where p: "p = (dk, tk)" by fastforce
  show "cached_reading (publish_once c k r now s) p = (cached_reading s ++ map_of (rev (readings r))) p"
  proof (cases "has_text (rr_error r)")
    case True
    then show ?thesis by (simp add: cached_reading_def publish_once_failed_latest readings_def)
  next
    case False
    show ?thesis
    proof (cases "dk = device_key (rr_device r)")
      case True
      then show ?thesis using False cache_result_latest [OF False, of c k now s]
        by (simp add: p cached_reading_def readings_def map_add_def map_of_rev_keys dget_fold_tags split: option.split)
    next
      case other: False
      then have "device_key (rr_device r) \<noteq> dk" by simp
      then show ?thesis using False
        by (simp add: p cached_reading_def publish_once_other readings_def map_add_def map_of_other_key)
    qed
  qed
qed

lemma cached_publish_cached [simp]: "cached_reading (fst (publish_cached c k now s)) = cached_reading s"
  by (simp add: cached_reading_def)


section \<open>Queue keys\<close>

text \<open>The queue knows a reading by its device, tag group and node id or name, the cache by its device and its node id, or
  name and address. Nothing is lost between the two if readings under one queue key are filed under one cache key.\<close>

definition queue_key :: "read_result \<Rightarrow> tag_result \<Rightarrow> read_key" where
  "queue_key r t = TagKey (device_ident (rr_device r)) (res_tag_group t) (or_opt (res_node_id t) (res_name t))"

definition result_keys :: "read_result list \<Rightarrow> (read_key \<times> string) list" where
  "result_keys rs = concat (map (\<lambda>r. map (\<lambda>t. (queue_key r t, tag_key t)) (rr_tags r)) rs)"

definition one_tag_per_key :: "read_result list \<Rightarrow> bool" where
  "one_tag_per_key rs \<longleftrightarrow>
     list_all (\<lambda>p. list_all (\<lambda>p'. fst p = fst p' \<longrightarrow> snd p = snd p') (result_keys rs)) (result_keys rs)"

text \<open>A waiting item under \<open>x\<close> holds either no reading, or one, and \<open>slot x\<close> is its place in the cache.\<close>

definition slotted :: "(read_key \<Rightarrow> device_key \<times> string) \<Rightarrow> read_key \<times> read_result \<Rightarrow> bool" where
  "slotted slot p \<longleftrightarrow> (case fst p of ResultKey i \<Rightarrow> readings (snd p) = []
     | TagKey i g n \<Rightarrow> \<exists>t. readings (snd p) = [(slot (fst p), t)])"

lemma ident_key: "device_ident d = device_ident d' \<Longrightarrow> device_key d = device_key d'"
  by (auto simp: device_ident_def device_key_def split: option.split)

lemma result_keys_member: "r \<in> set rs \<Longrightarrow> t \<in> set (rr_tags r) \<Longrightarrow> (queue_key r t, tag_key t) \<in> set (result_keys rs)"
  by (auto simp: result_keys_def)

lemma slots_exist:
  assumes "one_tag_per_key rs"
  obtains slot where "\<And>r t. r \<in> set rs \<Longrightarrow> t \<in> set (rr_tags r) \<Longrightarrow> slot (queue_key r t) = (device_key (rr_device r), tag_key t)"
proof -
  define P where "P x p \<longleftrightarrow> (\<exists>r t. r \<in> set rs \<and> t \<in> set (rr_tags r) \<and> x = queue_key r t \<and> p = (device_key (rr_device r), tag_key t))" for x p
  have "p = p'" if p: "P x p" and p': "P x p'" for x p p'
  proof -
    obtain r t where r: "r \<in> set rs" "t \<in> set (rr_tags r)" "x = queue_key r t" "p = (device_key (rr_device r), tag_key t)"
      using p by (auto simp: P_def)
    obtain r' t' where r': "r' \<in> set rs" "t' \<in> set (rr_tags r')" "x = queue_key r' t'" "p' = (device_key (rr_device r'), tag_key t')"
      using p' by (auto simp: P_def)
    have "(x, tag_key t) \<in> set (result_keys rs)" "(x, tag_key t') \<in> set (result_keys rs)"
      using r r' result_keys_member by metis+
    then have "tag_key t = tag_key t'" using assms unfolding one_tag_per_key_def list_all_iff by fastforce
    moreover have "device_key (rr_device r) = device_key (rr_device r')"
      using r(3) r'(3) by (intro ident_key) (simp add: queue_key_def)
    ultimately show ?thesis using r r' by simp
  qed
  then have "\<exists>slot. \<forall>x p. P x p \<longrightarrow> slot x = p" by (intro exI [of _ "\<lambda>x. SOME p. P x p"]) (meson someI_ex)
  then obtain slot where "\<forall>x p. P x p \<longrightarrow> slot x = p" by blast
  then have "slot (queue_key r t) = (device_key (rr_device r), tag_key t)" if "r \<in> set rs" "t \<in> set (rr_tags r)" for r t
    using that unfolding P_def by blast
  then show thesis by (rule that)
qed

lemma split_slotted:
  assumes "\<And>t. t \<in> set (rr_tags r) \<Longrightarrow> slot (queue_key r t) = (device_key (rr_device r), tag_key t)"
  shows "list_all (slotted slot) (split_items r)"
  using assms by (auto simp: split_items_def slotted_def readings_def list_all_iff queue_key_def)

lemma split_readings: "last_reading (map snd (split_items r)) = map_of (rev (readings r))"
proof -
  have "concat (map (\<lambda>t. readings (r\<lparr>rr_tags := [t]\<rparr>)) ts) = map (\<lambda>t. ((device_key (rr_device r), tag_key t), t)) ts"
    if "\<not> has_text (rr_error r)" for ts
    using that by (induction ts) (simp_all add: readings_def)
  then have "concat (map readings (map snd (split_items r))) = readings r"
    by (auto simp: split_items_def readings_def o_def)
  then show ?thesis by (simp add: last_reading_def)
qed

text \<open>Storing an item replaces the waiting one of its key and moves it to the end.\<close>

lemma last_reading_without:
  assumes "list_all (slotted slot) q"
  shows "p \<noteq> slot x \<or> (\<exists>i. x = ResultKey i) \<Longrightarrow> last_reading (map snd (ddel x q)) p = last_reading (map snd q) p"
  using assms
proof (induction q)
  case (Cons e q)
  have "fst e = x \<Longrightarrow> map_of (rev (readings (snd e))) p = None"
    using Cons.prems by (cases x) (auto simp: slotted_def)
  then show ?case using Cons by (auto simp: ddel_def map_add_def split: option.split)
qed (simp add: ddel_def)

lemma put1_last_reading:
  assumes "list_all (slotted slot) q" "slotted slot (x, v)"
  shows "last_reading (map snd (rq_put1 x v q)) = last_reading (map snd q) ++ map_of (rev (readings v))"
proof (rule ext)
  fix p
  show "last_reading (map snd (rq_put1 x v q)) p = (last_reading (map snd q) ++ map_of (rev (readings v))) p"
  proof (cases "p = slot x \<and> (\<forall>i. x \<noteq> ResultKey i)")
    case True
    then obtain t where "readings v = [(p, t)]" using assms(2) by (cases x) (auto simp: slotted_def)
    then show ?thesis by (simp add: rq_put1_append map_add_def)
  next
    case False
    then have "last_reading (map snd (ddel x q)) p = last_reading (map snd q) p"
      by (intro last_reading_without [OF assms(1)]) blast
    then show ?thesis by (simp add: rq_put1_append map_add_def split: option.split)
  qed
qed

lemma put1_slotted: "list_all (slotted slot) q \<Longrightarrow> slotted slot (x, v) \<Longrightarrow> list_all (slotted slot) (rq_put1 x v q)"
  by (auto simp: rq_put1_append ddel_def list_all_iff)

lemma puts_last_reading:
  assumes "list_all (slotted slot) q" "list_all (slotted slot) items"
  shows "list_all (slotted slot) (fold (\<lambda>(x, v). rq_put1 x v) items q) \<and>
    last_reading (map snd (fold (\<lambda>(x, v). rq_put1 x v) items q)) = last_reading (map snd q) ++ last_reading (map snd items)"
  using assms
proof (induction items arbitrary: q)
  case (Cons e items)
  obtain x v where e: "e = (x, v)" by fastforce
  have "list_all (slotted slot) (rq_put1 x v q)" using Cons.prems put1_slotted by (simp add: e)
  then show ?case using Cons.IH [of "rq_put1 x v q"] Cons.prems put1_last_reading [of slot q x v]
    by (simp add: e map_add_assoc)
qed simp

lemma put_last_reading:
  assumes "list_all (slotted slot) q" "list_all (slotted slot) (split_items r)"
  shows "list_all (slotted slot) (rq_put r q)"
    "last_reading (map snd (rq_put r q)) = last_reading (map snd q) ++ map_of (rev (readings r))"
  using puts_last_reading [OF assms] by (simp_all add: rq_put_def split_readings)

section \<open>Refinement of the table\<close>

definition gateway_ok :: "(read_key \<Rightarrow> device_key \<times> string) \<Rightarrow> gateway \<Rightarrow> bool" where
  "gateway_ok slot g \<longleftrightarrow> list_all (slotted slot) (gw_queue g) \<and>
     list_all (list_all (\<lambda>r. list_all (slotted slot) (split_items r))) (gw_pending g)"

lemma pending_tail:
  assumes "list_all (list_all P) ps" "i < length ps" "ps ! i = r # rs"
  shows "P r" "list_all (list_all P) (ps[i := rs])"
proof -
  have "list_all P (r # rs)" using assms by (metis list_all_length)
  then show "P r" "list_all (list_all P) (ps[i := rs])"
    using assms(1) set_update_subset_insert [of ps i rs] by (auto simp: list_all_iff)
qed

text \<open>Every step of the gateway is a step of the table: a put records its readings, anything else changes nothing.\<close>

lemma gateway_step_refines:
  assumes "gateway_ok slot g"
  shows "gateway_ok slot (gateway_step k e g)"
    "\<exists>rs. gw_put (gateway_step k e g) = gw_put g @ rs \<and> last_table (gateway_step k e g) = last_table g ++ last_reading rs"
proof -
  have "gateway_ok slot (gateway_step k e g) \<and>
    (\<exists>rs. gw_put (gateway_step k e g) = gw_put g @ rs \<and> last_table (gateway_step k e g) = last_table g ++ last_reading rs)"
  proof (cases e)
    case (Puts i)
    show ?thesis
    proof (cases rule: gateway_put_cases [of k i g])
      case (2 r rs)
      have pending: "list_all (list_all (\<lambda>r. list_all (slotted slot) (split_items r))) (gw_pending g)" "list_all (slotted slot) (gw_queue g)"
        using assms by (simp_all add: gateway_ok_def)
      note tail = pending_tail [OF pending(1) 2(1,2)]
      show ?thesis using put_last_reading [OF pending(2) tail(1)] tail(2) 2(3)
        by (simp add: Puts gateway_ok_def last_table_def map_add_assoc)
    qed (use assms Puts in simp)
  next
    case (Takes now)
    show ?thesis
    proof (cases rule: gateway_take_cases [of g k now])
      case (2 x r q)
      then show ?thesis using assms
        by (simp add: Takes gateway_ok_def last_table_def cached_publish_once map_add_assoc)
    qed (use assms Takes in simp)
  qed (use assms in \<open>simp_all add: gateway_ok_def last_table_def\<close>)
  then show "gateway_ok slot (gateway_step k e g)"
    "\<exists>rs. gw_put (gateway_step k e g) = gw_put g @ rs \<and> last_table (gateway_step k e g) = last_table g ++ last_reading rs"
    by blast+
qed

lemma gateway_run_refines:
  assumes "gateway_ok slot g" "gw_put g = []" "last_table g = Map.empty"
  shows "gateway_ok slot (gateway_run k events g) \<and>
    last_table (gateway_run k events g) = last_reading (gw_put (gateway_run k events g))"
proof (rule gateway_run_invariant [where P = "\<lambda>g. gateway_ok slot g \<and> last_table g = last_reading (gw_put g)"])
  show "gateway_ok slot g \<and> last_table g = last_reading (gw_put g)" using assms by simp
next
  fix e and h :: gateway
  assume h: "gateway_ok slot h \<and> last_table h = last_reading (gw_put h)"
  then obtain rs where "gw_put (gateway_step k e h) = gw_put h @ rs"
    "last_table (gateway_step k e h) = last_table h ++ last_reading rs"
    using gateway_step_refines(2) by blast
  then show "gateway_ok slot (gateway_step k e h) \<and> last_table (gateway_step k e h) = last_reading (gw_put (gateway_step k e h))"
    using h gateway_step_refines(1) by simp
qed


text \<open>A drained state can always be reached.\<close>

lemma takes_drain: "gw_pending (gateway_run k (replicate (length (gw_queue g)) (Takes now)) g) = gw_pending g \<and>
    gw_queue (gateway_run k (replicate (length (gw_queue g)) (Takes now)) g) = []"
proof (induction "gw_queue g" arbitrary: g)
  case (Cons e q)
  obtain x r where e: "e = (x, r)" by fastforce
  have "gw_queue (gateway_step k (Takes now) g) = q" "gw_pending (gateway_step k (Takes now) g) = gw_pending g"
    by (simp_all add: rq_get_def e flip: Cons.hyps(2))
  then show ?case using Cons.hyps(1) [of "gateway_step k (Takes now) g"]
    by (simp add: gateway_run_def del: gateway_step.simps flip: Cons.hyps(2))
qed (simp add: gateway_run_def)

lemma puts_drain: "\<exists>events. list_all (\<lambda>rs. rs = []) (gw_pending (gateway_run k events g))"
proof (induction "sum_list (map length (gw_pending g))" arbitrary: g rule: less_induct)
  case less
  show ?case
  proof (cases "list_all (\<lambda>rs. rs = []) (gw_pending g)")
    case True
    then show ?thesis by (intro exI [of _ "[]"]) (simp add: gateway_run_def)
  next
    case False
    then obtain i where "i < length (gw_pending g)" "gw_pending g ! i \<noteq> []" by (auto simp: list_all_length)
    then obtain r rs where i: "i < length (gw_pending g)" "gw_pending g ! i = r # rs" by (metis list.exhaust)
    then have step: "gw_pending (gateway_step k (Puts i) g) = (gw_pending g)[i := rs]" by simp
    have "sum_list (map length ((gw_pending g)[i := rs])) < sum_list (map length (gw_pending g))"
      using i elem_le_sum_list [of i "map length (gw_pending g)"] by (simp add: map_update sum_list_update)
    then obtain events where "list_all (\<lambda>rs. rs = []) (gw_pending (gateway_run k events (gateway_step k (Puts i) g)))"
      using less [of "gateway_step k (Puts i) g"] step by auto
    then show ?thesis by (intro exI [of _ "Puts i # events"]) (simp add: gateway_run_def)
  qed
qed

lemma gateway_drains:
  "\<exists>events. list_all (\<lambda>rs. rs = []) (gw_pending (gateway_run k events g)) \<and> gw_queue (gateway_run k events g) = []"
proof -
  obtain events where "list_all (\<lambda>rs. rs = []) (gw_pending (gateway_run k events g))" using puts_drain by blast
  then show ?thesis using takes_drain [of k "gateway_run k events g"]
    by (intro exI [of _ "events @ replicate (length (gw_queue (gateway_run k events g))) (Takes noon)"]) (simp add: gateway_run_def)
qed

section \<open>Where readings come from\<close>

definition came_from :: "read_result set \<Rightarrow> device_key \<Rightarrow> tag_result \<Rightarrow> bool" where
  "came_from R dk t \<longleftrightarrow> (\<exists>r\<in>R. \<not> has_text (rr_error r) \<and> device_key (rr_device r) = dk \<and> t \<in> set (rr_tags r))"

text \<open>A measurement for a device that reported, of good readings that it reported.\<close>

definition genuine :: "read_result set \<Rightarrow> batch_message \<Rightarrow> bool" where
  "genuine R m \<longleftrightarrow> (\<exists>c d ts grp now. m = fst (measurement_message c d ts grp now) \<and> ts \<noteq> [] \<and> d \<in> rr_device ` R \<and>
     list_all (\<lambda>t. good_tag t \<and> tag_output_group t = grp \<and> came_from R (device_key d) t) ts)"

definition part_of :: "read_result set \<Rightarrow> read_result \<Rightarrow> bool" where
  "part_of R v \<longleftrightarrow> (\<exists>r\<in>R. rr_device v = rr_device r \<and> rr_error v = rr_error r \<and> set (rr_tags v) \<subseteq> set (rr_tags r))"

definition cache_genuine :: "read_result set \<Rightarrow> publisher \<Rightarrow> bool" where
  "cache_genuine R s \<longleftrightarrow> pub_inv s \<and> (\<forall>dk tk t. cached_reading s (dk, tk) = Some t \<longrightarrow> came_from R dk t) \<and>
     (\<forall>dk sn. dget (pb_latest s) dk = Some sn \<longrightarrow> sn_device sn \<in> rr_device ` R) \<and>
     (\<forall>m\<in>set (pb_handed s). is_measurement m \<longrightarrow> genuine R m)"

definition gateway_genuine :: "read_result set \<Rightarrow> gateway \<Rightarrow> bool" where
  "gateway_genuine R g \<longleftrightarrow> set (concat (gw_pending g)) \<subseteq> R \<and> list_all (\<lambda>p. part_of R (snd p)) (gw_queue g) \<and> cache_genuine R (gw_publisher g)"

lemma split_part: "r \<in> R \<Longrightarrow> list_all (\<lambda>p. part_of R (snd p)) (split_items r)"
  by (auto simp: split_items_def part_of_def list_all_iff)

lemma put_part:
  assumes "list_all (\<lambda>p. part_of R (snd p)) q" "r \<in> R"
  shows "list_all (\<lambda>p. part_of R (snd p)) (rq_put r q)"
proof -
  have "list_all (\<lambda>p. part_of R (snd p)) (fold (\<lambda>(x, v). rq_put1 x v) items q)"
    if "list_all (\<lambda>p. part_of R (snd p)) items" "list_all (\<lambda>p. part_of R (snd p)) q" for items q
    using that
  proof (induction items arbitrary: q)
    case (Cons e items)
    obtain x v where e: "e = (x, v)" by fastforce
    have "list_all (\<lambda>p. part_of R (snd p)) (rq_put1 x v q)"
      using Cons.prems by (auto simp: e rq_put1_append ddel_def list_all_iff)
    then show ?case using Cons.IH [of "rq_put1 x v q"] Cons.prems(1) by (simp add: e)
  qed simp
  then show ?thesis using assms split_part by (simp add: rq_put_def)
qed

lemma publish_once_genuine:
  assumes "cache_genuine R s" "part_of R v"
  shows "cache_genuine R (publish_once c k v now s)"
proof -
  obtain r where r: "r \<in> R" "rr_device v = rr_device r" "rr_error v = rr_error r" "set (rr_tags v) \<subseteq> set (rr_tags r)"
    using assms(2) by (auto simp: part_of_def)
  have new: "came_from R (fst p) t" if "map_of (rev (readings v)) p = Some t" for p t
    using map_of_SomeD [OF that] r by (auto simp: readings_def came_from_def split: if_splits)
  have "came_from R dk t" if "cached_reading (publish_once c k v now s) (dk, tk) = Some t" for dk tk t
    using that assms(1) new [of "(dk, tk)" t]
    by (auto simp: cached_publish_once cache_genuine_def map_add_Some_iff)
  moreover have "sn_device sn \<in> rr_device ` R" if "dget (pb_latest (publish_once c k v now s)) dk = Some sn" for dk sn
  proof (cases "dk = device_key (rr_device v) \<and> \<not> has_text (rr_error v)")
    case True
    then have "sn_device sn = rr_device v" using that cache_result_latest [of v c k now s] by auto
    then show ?thesis using r by simp
  next
    case False
    then have "dget (pb_latest s) dk = Some sn"
      using that publish_once_other publish_once_failed_latest by metis
    then show ?thesis using assms(1) by (auto simp: cache_genuine_def)
  qed
  moreover have "\<forall>m\<in>set (pb_handed (publish_once c k v now s)). is_measurement m \<longrightarrow> genuine R m"
    using publish_once_quiet [of s c k v now] assms(1) by (auto simp: quiet_def cache_genuine_def list_all_iff)
  ultimately show ?thesis using assms(1) publish_once_inv by (simp add: cache_genuine_def)
qed

lemma snapshot_readings:
  assumes "pub_inv s" "sn \<in> set (dvalues (pb_latest s))"
  shows "dget (pb_latest s) (device_key (sn_device sn)) = Some sn"
    "t \<in> set (dvalues (sn_tags sn)) \<Longrightarrow> cached_reading s (device_key (sn_device sn), tag_key t) = Some t"
proof -
  obtain dk where dk: "(dk, sn) \<in> set (pb_latest s)" using assms(2) by (auto simp: dvalues_def)
  then have ok: "snapshot_ok dk sn" "dwf (pb_latest s)" using assms(1) by (auto simp: pub_inv_def latest_ok_def list_all_iff)
  then show sn: "dget (pb_latest s) (device_key (sn_device sn)) = Some sn"
    using dk by (simp add: dget_of_member snapshot_ok_def)
  assume "t \<in> set (dvalues (sn_tags sn))"
  then obtain tk where "(tk, t) \<in> set (sn_tags sn)" by (auto simp: dvalues_def)
  then have "dget (sn_tags sn) (tag_key t) = Some t"
    using ok(1) dget_of_member [of "sn_tags sn" tk t] by (auto simp: snapshot_ok_def list_all_iff)
  then show "cached_reading s (device_key (sn_device sn), tag_key t) = Some t" using sn by (simp add: cached_reading_def)
qed

lemma publish_cached_genuine:
  assumes "cache_genuine R s"
  shows "cache_genuine R (fst (publish_cached c k now s))"
proof -
  let ?s = "fst (publish_cached c k now s)"
  have inv: "pub_inv s" using assms by (simp add: cache_genuine_def)
  have new: "genuine R m" if m: "m \<in> set (drop (length (pb_handed s)) (pb_handed ?s))" "is_measurement m" for m
  proof -
    have "m \<in> set (filter is_measurement (drop (length (pb_handed s)) (pb_handed ?s)))" using m by simp
    then obtain sn grp ts where sn: "sn \<in> set (dvalues (pb_latest s))" and grp: "(grp, ts) \<in> set (tag_groups sn)"
      and ts: "filter good_tag ts \<noteq> []" "m = fst (measurement_message c (sn_device sn) (filter good_tag ts) grp now)"
      unfolding conjunct1 [OF cached_measurements] by (auto split: if_splits)
    have "tag_output_group t = grp \<and> came_from R (device_key (sn_device sn)) t" if "t \<in> set ts" for t
      using group_by_member(3) [OF grp [unfolded tag_groups_def] that] snapshot_readings(2) [OF inv sn] assms
      by (auto simp: cache_genuine_def)
    moreover have "sn_device sn \<in> rr_device ` R" using snapshot_readings(1) [OF inv sn] assms by (auto simp: cache_genuine_def)
    ultimately show ?thesis using ts unfolding genuine_def
      by (intro exI [of _ c] exI [of _ "sn_device sn"] exI [of _ "filter good_tag ts"] exI [of _ grp] exI [of _ now])
        (simp add: list_all_iff)
  qed
  obtain ms where ms: "pb_handed ?s = pb_handed s @ ms" using publish_cached_handed [of c k now s] by blast
  have "\<forall>m\<in>set (pb_handed ?s). is_measurement m \<longrightarrow> genuine R m"
    using new assms by (auto simp: ms cache_genuine_def)
  then show ?thesis using assms publish_cached_inv by (simp add: cache_genuine_def)
qed

lemma gateway_step_genuine:
  assumes "gateway_genuine R g"
  shows "gateway_genuine R (gateway_step k e g)"
proof (cases e)
  case (Puts i)
  show ?thesis
  proof (cases rule: gateway_put_cases [of k i g])
    case (2 r rs)
    have "list_all (list_all (\<lambda>r. r \<in> R)) (gw_pending g)" using assms by (auto simp: gateway_genuine_def list_all_iff)
    note tail = pending_tail [OF this 2(1,2)]
    have "set (concat ((gw_pending g)[i := rs])) \<subseteq> R" using tail(2) by (auto simp: list_all_iff)
    then show ?thesis using assms put_part [OF _ tail(1), of "gw_queue g"] 2(3)
      by (simp add: Puts gateway_genuine_def del: gateway_step.simps)
  qed (use assms Puts in simp)
next
  case (Takes now)
  show ?thesis
  proof (cases rule: gateway_take_cases [of g k now])
    case (2 x r q)
    then show ?thesis using assms publish_once_genuine by (simp add: Takes gateway_genuine_def)
  qed (use assms Takes in simp)
qed (use assms publish_cached_genuine in \<open>simp_all add: gateway_genuine_def\<close>)


lemma gateway_run_genuine: "gateway_genuine R g \<Longrightarrow> gateway_genuine R (gateway_run k events g)"
  using gateway_run_invariant [where P = "gateway_genuine R"] gateway_step_genuine by blast

section \<open>The order of a thread's results\<close>

definition of_device :: "device_key \<Rightarrow> read_result list \<Rightarrow> read_result list" where
  "of_device dk rs = filter (\<lambda>r. device_key (rr_device r) = dk) rs"

lemma of_device_simps [simp]:
  "of_device dk [] = []" "of_device dk (rs @ rs') = of_device dk rs @ of_device dk rs'"
  "of_device dk (r # rs) = (if device_key (rr_device r) = dk then r # of_device dk rs else of_device dk rs)"
  by (simp_all add: of_device_def)

lemma last_reading_of_device: "last_reading (of_device dk rs) (dk, tk) = last_reading rs (dk, tk)"
proof (induction rs)
  case (Cons r rs)
  have "map_of (rev (readings r)) (dk, tk) = None" if "device_key (rr_device r) \<noteq> dk"
    using that by (simp add: readings_def map_of_other_key)
  then show ?case using Cons by (simp add: map_add_def split: option.split)
qed simp

text \<open>When only thread \<open>i\<close> reports a device, its results are put in the thread's own order.\<close>

definition sole_reporter :: "device_key \<Rightarrow> nat \<Rightarrow> read_result list list \<Rightarrow> bool" where
  "sole_reporter dk i ps \<longleftrightarrow> (\<forall>j<length ps. j \<noteq> i \<longrightarrow> of_device dk (ps ! j) = [])"

lemma puts_in_order:
  assumes "i < length (gw_pending g)" "sole_reporter dk i (gw_pending g)" "gw_put g = []"
  shows "length (gw_pending (gateway_run k events g)) = length (gw_pending g) \<and>
    sole_reporter dk i (gw_pending (gateway_run k events g)) \<and>
    of_device dk (gw_put (gateway_run k events g)) @ of_device dk (gw_pending (gateway_run k events g) ! i) =
      of_device dk (gw_pending g ! i)"
proof (rule gateway_run_invariant [where P = "\<lambda>h. length (gw_pending h) = length (gw_pending g) \<and>
    sole_reporter dk i (gw_pending h) \<and> of_device dk (gw_put h) @ of_device dk (gw_pending h ! i) = of_device dk (gw_pending g ! i)"])
  fix e and h :: gateway
  assume h: "length (gw_pending h) = length (gw_pending g) \<and> sole_reporter dk i (gw_pending h) \<and>
    of_device dk (gw_put h) @ of_device dk (gw_pending h ! i) = of_device dk (gw_pending g ! i)"
  show "length (gw_pending (gateway_step k e h)) = length (gw_pending g) \<and> sole_reporter dk i (gw_pending (gateway_step k e h)) \<and>
    of_device dk (gw_put (gateway_step k e h)) @ of_device dk (gw_pending (gateway_step k e h) ! i) = of_device dk (gw_pending g ! i)"
  proof (cases e)
    case (Puts j)
    show ?thesis
    proof (cases rule: gateway_put_cases [of k j h])
      case (2 r rs)
      have other: "of_device dk (r # rs) = []" if "j \<noteq> i"
        using that 2(1,2) h unfolding sole_reporter_def by metis
      have none: "of_device dk rs = [] \<and> of_device dk [r] = []" if "j \<noteq> i"
        using other [OF that] by (auto split: if_splits)
      have sole: "sole_reporter dk i ((gw_pending h)[j := rs])"
        unfolding sole_reporter_def
      proof (intro allI impI)
        fix m assume m: "m < length ((gw_pending h)[j := rs])" "m \<noteq> i"
        have "of_device dk (gw_pending h ! m) = []" using h m unfolding sole_reporter_def by simp
        then show "of_device dk ((gw_pending h)[j := rs] ! m) = []"
          using m none by (cases "m = j") (simp_all add: nth_list_update)
      qed
      have "of_device dk (gw_put h @ [r]) @ of_device dk ((gw_pending h)[j := rs] ! i) = of_device dk (gw_pending g ! i)"
      proof (cases "j = i")
        case True
        then have "of_device dk (gw_pending h ! i) = of_device dk [r] @ of_device dk rs" using 2(2) by simp
        then show ?thesis using h 2(1) True by simp
      next
        case False
        then show ?thesis using h none by simp
      qed
      then show ?thesis unfolding Puts 2(3) using h sole by simp
    qed (use h Puts in simp)
  next
    case (Takes now)
    show ?thesis by (cases rule: gateway_take_cases [of h k now]) (use h Takes in simp_all)
  qed (use h in simp_all)
qed (use assms in simp)

section \<open>After a start\<close>

definition acquired ::
  "(worker_config \<Rightarrow> poll_round list) \<Rightarrow> (worker_config \<Rightarrow> session list) \<Rightarrow> worker_config \<Rightarrow> read_result list" where
  "acquired polls sessions w = (if uses_subscription_worker (wc_device w) then subscribed sessions w else polled polls w)"

lemma refresh_results: "refresh_dynamic_route_topics env st = (r, st') \<Longrightarrow> rm_results (snd st') = rm_results (snd st)"
  by (auto simp: refresh_dynamic_route_topics_def Let_def split: prod.splits sum.splits option.splits)

lemma prepare_results: "rm_prepare env h l (db, s) = (r, db', s') \<Longrightarrow> rm_results s' = []"
  by (auto simp: rm_prepare_def prepare_start_def clear_queues_def Let_def split: if_splits dest!: refresh_results)

lemma start_devices_results: "start_devices env db ds s = (r, s') \<Longrightarrow> rm_results s' = rm_results s"
proof (induction ds arbitrary: s)
  case (Cons d ds)
  show ?case
  proof (cases "dev_enabled d")
    case True
    obtain q s1 where s1: "start_device env db d s = (q, s1)" by fastforce
    then have "rm_results s1 = rm_results s"
      by (auto simp: start_device_def trace_def Let_def split: sum.splits if_splits)
    then show ?thesis using Cons.IH [of s1] Cons.prems True s1 by (cases q) auto
  qed (use Cons in simp)
qed simp

lemma start_threads_results: "start_threads env k db p s = (r, s') \<Longrightarrow> rm_results s' = rm_results s"
  by (auto simp: start_threads_def start_topic_refresh_thread_def start_responder_def trace_def Let_def
      split: prod.splits sum.splits if_splits dest!: start_devices_results)

lemma filter_mset_parts: "filter_mset (\<lambda>x. P x \<and> \<not> Q x) M + filter_mset (\<lambda>x. P x \<and> Q x) M = filter_mset P M"
  by (induction M) auto

lemma start_gateway:
  assumes "rm_start env h l (db, s) = (Inr x, db', s')" "\<not> rm_running s" "gateway_of s' polls sessions = Some g"
  shows "gw_pending g = map (acquired polls sessions) (rm_pollers s' @ rm_subs s')" "gw_put g = []" "gw_queue g = []"
    "gw_publisher g = new_publisher"
    "mset (map wc_device (rm_pollers s' @ rm_subs s')) = mset (filter dev_enabled (list_devices db'))"
proof -
  obtain p s2 where p: "rm_prepare env h l (db, s) = (Inr (), db', s2)"
    "start_threads env (get_sink_config None db) db' p s2 = (Inr x, s')"
    using rm_start_ok [OF assms(1,2)] by metis
  note ok = start_threads_ok(5,6) [OF p(2)]
  have w: "wc_device (device_worker s' db' d) = d" for d by (rule wc_device_worker)
  have "rm_results s' = []" using start_threads_results [OF p(2)] prepare_results [OF p(1)] by simp
  moreover have "map (polled polls) (rm_pollers s') @ map (subscribed sessions) (rm_subs s') =
      map (acquired polls sessions) (rm_pollers s' @ rm_subs s')"
    unfolding ok by (auto simp: acquired_def w)
  ultimately show "gw_pending g = map (acquired polls sessions) (rm_pollers s' @ rm_subs s')" "gw_put g = []" "gw_queue g = []"
    "gw_publisher g = new_publisher"
    using assms(3) by (auto simp: gateway_of_def)
  have "mset (map wc_device (rm_pollers s' @ rm_subs s')) =
      filter_mset (\<lambda>d. dev_enabled d \<and> \<not> uses_subscription_worker d) (mset (list_devices db')) +
      filter_mset (\<lambda>d. dev_enabled d \<and> uses_subscription_worker d) (mset (list_devices db'))"
    unfolding ok by (simp add: w o_def)
  also have "\<dots> = mset (filter dev_enabled (list_devices db'))"
    by (simp add: filter_mset_parts)
  finally show "mset (map wc_device (rm_pollers s' @ rm_subs s')) = mset (filter dev_enabled (list_devices db'))" .
qed

lemma polled_results: "polled polls w = poll_results w (polls w)"
  using poller_run_results [of w "polls w" new_worker]
  by (cases "poller_run w (polls w) new_worker") (simp add: polled_def balanced_polls_def new_worker_def)

lemma poll_outcome_device: "rr_device (poll_outcome w dr t) = wc_device w"
  by (simp add: poll_outcome_def error_result_def split: sum.split option.split)

lemma polled_device: "r \<in> set (polled polls w) \<Longrightarrow> rr_device r = wc_device w"
proof -
  have "r \<in> set (poll_results w ps) \<Longrightarrow> rr_device r = wc_device w" for ps
    by (induction ps) (auto simp: poll_outcome_device split: sum.splits)
  then show "r \<in> set (polled polls w) \<Longrightarrow> rr_device r = wc_device w" by (simp add: polled_results)
qed

text \<open>The devices of a sound store have different keys, and so have the workers of a start.\<close>

lemma distinct_device_keys:
  assumes "db_inv db"
  shows "distinct (map device_key (filter dev_enabled (list_devices db)))"
proof -
  have ids: "distinct (map dev_id (list_devices db))" using assms by (rule device_rows(1))
  have row: "\<exists>i. dev_id d = Some i" if "d \<in> set (list_devices db)" for d
    using that assms by (auto simp: list_devices_def dvalues_def db_inv_def table_ok_def list_all_iff device_row_def)
  have "inj_on device_key (set (list_devices db))"
  proof (rule inj_onI)
    fix d d' assume d: "d \<in> set (list_devices db)" "d' \<in> set (list_devices db)" "device_key d = device_key d'"
    obtain i i' where i: "dev_id d = Some i" "dev_id d' = Some i'" using row [OF d(1)] row [OF d(2)] by blast
    then have "dev_id d = dev_id d'" using d(3) by (simp add: device_key_def show_int_inj)
    then show "d = d'" using ids d(1,2) by (metis distinct_map inj_onD)
  qed
  then show ?thesis using ids by (auto simp: distinct_map intro: inj_on_subset)
qed

lemma worker_keys:
  assumes "mset (map wc_device ws) = mset (filter dev_enabled (list_devices db))" "db_inv db"
  shows "distinct (map (device_key \<circ> wc_device) ws)"
proof -
  have "mset (map (device_key \<circ> wc_device) ws) = image_mset device_key (mset (map wc_device ws))"
    by (simp add: image_mset.compositionality)
  also have "\<dots> = mset (map device_key (filter dev_enabled (list_devices db)))" unfolding assms(1) by simp
  finally show ?thesis using distinct_device_keys [OF assms(2)] mset_eq_imp_distinct_iff by blast
qed

lemma acquired_device:
  assumes "list_all (\<lambda>w. list_all (\<lambda>r. rr_device r = wc_device w) (subscribed sessions w)) subs"
    and "w \<in> set subs \<or> \<not> uses_subscription_worker (wc_device w)" "r \<in> set (acquired polls sessions w)"
  shows "rr_device r = wc_device w"
  using assms polled_device by (auto simp: acquired_def list_all_iff split: if_splits)

lemma poller_not_subscribing:
  assumes "rm_start env h l (db, s) = (Inr x, db', s')" "\<not> rm_running s" "w \<in> set (rm_pollers s' @ rm_subs s')"
  shows "w \<in> set (rm_subs s') \<or> \<not> uses_subscription_worker (wc_device w)"
proof -
  obtain p s2 where "start_threads env (get_sink_config None db) db' p s2 = (Inr x, s')"
    using rm_start_ok [OF assms(1,2)] by metis
  then show ?thesis using start_threads_ok(5) assms(3) by (auto simp: wc_device_worker)
qed

text \<open>C1: Nothing is published that was not read.  After a start on a sound store, whatever the threads do and in whatever order
  they put, take and publish, every measurement handed to the sink is about an enabled device, and it carries at least one reading, all of
  them good, of the message's tag group, and out of results without error that this device's own worker put.\<close>

theorem handed_measurements_acquired:
  assumes "rm_start env h l (db, s) = (Inr x, db', s')" and "\<not> rm_running s" and "db_inv db'"
    and "gateway_of s' polls sessions = Some g"
    and "list_all (\<lambda>w. list_all (\<lambda>r. rr_device r = wc_device w) (subscribed sessions w)) (rm_subs s')"
    and "m \<in> set (pb_handed (gw_publisher (gateway_run k events g)))" and "is_measurement m"
  shows "\<exists>w c ts grp now. w \<in> set (rm_pollers s' @ rm_subs s') \<and> wc_device w \<in> set (filter dev_enabled (list_devices db')) \<and>
    m = fst (measurement_message c (wc_device w) ts grp now) \<and> ts \<noteq> [] \<and>
    list_all (\<lambda>t. good_tag t \<and> tag_output_group t = grp \<and>
      list_ex (\<lambda>r. \<not> has_text (rr_error r) \<and> t \<in> set (rr_tags r)) (acquired polls sessions w)) ts"
proof -
  let ?ws = "rm_pollers s' @ rm_subs s'"
  note g = start_gateway [OF assms(1,2,4)]
  have own: "rr_device r = wc_device w" if "w \<in> set ?ws" "r \<in> set (acquired polls sessions w)" for w r
    using acquired_device [OF assms(5) poller_not_subscribing [OF assms(1,2) that(1)] that(2)] .
  define R where "R = set (concat (gw_pending g))"
  have R: "\<exists>w\<in>set ?ws. r \<in> set (acquired polls sessions w) \<and> rr_device r = wc_device w" if "r \<in> R" for r
    using that own by (auto simp: R_def g(1))
  have "cache_genuine R new_publisher"
    using pub_reachable_inv [OF pub_reachable.start] by (simp add: cache_genuine_def cached_reading_def) (simp add: new_publisher_def)
  then have "gateway_genuine R g" using g(3,4) by (simp add: gateway_genuine_def R_def)
  then have "genuine R m"
    using gateway_run_genuine [of R g k events] assms(6,7) by (simp add: gateway_genuine_def cache_genuine_def)
  then obtain c d ts grp now where m: "m = fst (measurement_message c d ts grp now)" "ts \<noteq> []" "d \<in> rr_device ` R"
      "list_all (\<lambda>t. good_tag t \<and> tag_output_group t = grp \<and> came_from R (device_key d) t) ts"
    by (auto simp: genuine_def)
  then obtain w where w: "w \<in> set ?ws" "d = wc_device w" using R by auto
  have keys: "inj_on (device_key \<circ> wc_device) (set ?ws)" using worker_keys [OF g(5) assms(3)] by (simp only: distinct_map)
  have "list_ex (\<lambda>r. \<not> has_text (rr_error r) \<and> t \<in> set (rr_tags r)) (acquired polls sessions w)" if t: "t \<in> set ts" for t
  proof -
    obtain r where r: "r \<in> R" "\<not> has_text (rr_error r)" "device_key (rr_device r) = device_key d" "t \<in> set (rr_tags r)"
      using m(4) t by (auto simp: list_all_iff came_from_def)
    obtain w' where w': "w' \<in> set ?ws" "r \<in> set (acquired polls sessions w')" "rr_device r = wc_device w'" using R [OF r(1)] by blast
    have "w' = w" using inj_onD [OF keys _ w'(1) w(1)] r(3) w(2) w'(3) by simp
    then show ?thesis using w'(2) r by (auto simp: list_ex_iff)
  qed
  moreover have "wc_device w \<in> set (filter dev_enabled (list_devices db'))"
    using w(1) mset_eq_setD [OF g(5)] by auto
  ultimately show ?thesis using m w
    by (intro exI [of _ w] exI [of _ c] exI [of _ ts] exI [of _ grp] exI [of _ now]) (simp add: list_all_iff)
qed

text \<open>C2: The schedule does not matter in the end.  The publisher's cache has one place per node of a device, or per name and
  address for tags without a node. After a start on a sound store, once every result has been put and every item taken, each
  place of a worker's device holds the last reading for that place in the worker's own run, whatever the order was in
  which the threads put, which waiting items were replaced, when rounds were published, and how the routes changed. Two
  tags of one name and address in two groups, which the store accepts, share a place: it holds the later of their
  readings, so the claim is one about places, not about tags (see \<open>groups_share_cache\<close>). Two conditions: the results of a
  subscription worker carry its own device, as those of both subscription drivers do; and readings that the queue
  files under one key, by group and node or name, belong to one place (\<open>one_tag_per_key\<close>).\<close>

theorem drained_cache_current:
  assumes "rm_start env h l (db, s) = (Inr x, db', s')" and "\<not> rm_running s" and "db_inv db'"
    and "gateway_of s' polls sessions = Some g"
    and "list_all (\<lambda>w. list_all (\<lambda>r. rr_device r = wc_device w) (subscribed sessions w)) (rm_subs s')"
    and "one_tag_per_key (concat (gw_pending g))"
    and "list_all (\<lambda>rs. rs = []) (gw_pending (gateway_run k events g))" and "gw_queue (gateway_run k events g) = []"
    and "w \<in> set (rm_pollers s' @ rm_subs s')"
  shows "cached_reading (gw_publisher (gateway_run k events g)) (device_key (wc_device w), tk) =
    last_reading (acquired polls sessions w) (device_key (wc_device w), tk)"
proof -
  let ?ws = "rm_pollers s' @ rm_subs s'" and ?g = "gateway_run k events g" and ?dk = "device_key (wc_device w)"
  note g = start_gateway [OF assms(1,2,4)]
  have own: "rr_device r = wc_device v" if "v \<in> set ?ws" "r \<in> set (acquired polls sessions v)" for v r
    using acquired_device [OF assms(5) poller_not_subscribing [OF assms(1,2) that(1)] that(2)] .
  obtain slot where slot: "\<And>r t. r \<in> set (concat (gw_pending g)) \<Longrightarrow> t \<in> set (rr_tags r) \<Longrightarrow>
      slot (queue_key r t) = (device_key (rr_device r), tag_key t)"
    using slots_exist [OF assms(6)] by metis
  have "list_all (slotted slot) (split_items r)" if "r \<in> set (concat (gw_pending g))" for r
    using slot [OF that] by (rule split_slotted)
  then have "gateway_ok slot g" using g(3) by (fastforce simp: gateway_ok_def list_all_iff)
  moreover have "last_table g = Map.empty" using g(3,4) by (auto simp: last_table_def cached_reading_def new_publisher_def)
  ultimately have "last_table ?g = last_reading (gw_put ?g)" using gateway_run_refines g(2) by blast
  then have "cached_reading (gw_publisher ?g) (?dk, tk) = last_reading (gw_put ?g) (?dk, tk)"
    using assms(8) by (simp add: last_table_def)
  also have "\<dots> = last_reading (of_device ?dk (gw_put ?g)) (?dk, tk)" by (rule last_reading_of_device [symmetric])
  also have "of_device ?dk (gw_put ?g) = of_device ?dk (acquired polls sessions w)"
  proof -
    obtain i where i: "i < length ?ws" "?ws ! i = w" using assms(9) by (metis in_set_conv_nth)
    have keys: "distinct (map (device_key \<circ> wc_device) ?ws)" by (rule worker_keys [OF g(5) assms(3)])
    have "of_device ?dk (acquired polls sessions (?ws ! j)) = []" if j: "j < length ?ws" "j \<noteq> i" for j
    proof -
      have "device_key (wc_device (?ws ! j)) \<noteq> ?dk"
        using nth_eq_iff_index_eq [OF keys, of j i] i j by (simp del: map_append)
      then show ?thesis using own [OF nth_mem [OF j(1)]] by (auto simp: of_device_def filter_empty_conv)
    qed
    then have "sole_reporter ?dk i (gw_pending g)" by (simp add: sole_reporter_def g(1) del: map_append)
    then have order: "of_device ?dk (gw_put ?g) @ of_device ?dk (gw_pending ?g ! i) = of_device ?dk (gw_pending g ! i)"
      "length (gw_pending ?g) = length (gw_pending g)"
      using puts_in_order [of i g ?dk k events] i(1) g(1,2) by (simp_all del: map_append)
    have "gw_pending ?g ! i = []" using assms(7) order(2) i(1) g(1) by (simp add: list_all_length del: map_append)
    then show ?thesis using order(1) i by (simp add: g(1) del: map_append)
  qed
  also have "last_reading \<dots> (?dk, tk) = last_reading (acquired polls sessions w) (?dk, tk)" by (rule last_reading_of_device)
  finally show ?thesis .
qed


section \<open>A sample run\<close>

text \<open>One device, first without an answer, then with a reading.\<close>

definition flow_polls :: "worker_config \<Rightarrow> poll_round list" where
  "flow_polls w = [sample_poll (Inr (good_driver\<lparr>dr_connect := Some timeout_error\<rparr>)), sample_poll (Inr good_driver)]"

definition no_sessions :: "worker_config \<Rightarrow> session list" where
  "no_sessions w = []"

definition flow_events :: "gateway_event list" where
  "flow_events = [Puts 0, Puts 0, Takes noon, Publishes noon, Takes noon, Publishes noon]"

lemma sample_gateway_inv: "db_inv (sample_gateway ''modbus_tcp'')"
  by (simp add: db_inv_def table_ok_def dwf_def device_row_def sample_gateway_defs validate_device_def str_simps is_space_def)

lemma sample_running:
  obtains x s' w g where
    "rm_start sample_runtime_env None None (sample_gateway ''modbus_tcp'', new_runtime) = (Inr x, sample_gateway ''modbus_tcp'', s')"
    "rm_pollers s' = [w]" "rm_subs s' = []" "wc_device w = sample_device []"
    "gateway_of s' flow_polls no_sessions = Some g" "pc_stale_timeout (gw_config g) = whole_float 15"
proof (rule sample_start_parts)
  fix x db' s'
  assume start: "rm_start sample_runtime_env None None (sample_gateway ''modbus_tcp'', new_runtime) = (Inr x, db', s')"
  obtain p s2 where p: "rm_prepare sample_runtime_env None None (sample_gateway ''modbus_tcp'', new_runtime) = (Inr (), db', s2)"
    "make_publisher sample_runtime_env (get_sink_config None (sample_gateway ''modbus_tcp'')) db' = Inr p"
    "start_threads sample_runtime_env (get_sink_config None (sample_gateway ''modbus_tcp'')) db' p s2 = (Inr x, s')"
    using rm_start_ok [OF start new_runtime_balanced(2)] by metis
  have db: "db' = sample_gateway ''modbus_tcp''" using p(1) by (simp add: sample_prepare)
  have d: "(sample_device [])\<lparr>dev_driver_type := ''modbus_tcp''\<rparr> = sample_device []" by (simp add: sample_device_def)
  have subs: "\<not> uses_subscription_worker (sample_device [])" by (simp add: uses_subscription_worker_def sample_device_def)
  note ok = start_threads_ok [OF p(3)]
  have w: "rm_pollers s' = [device_worker s' db' (sample_device [])]" "rm_subs s' = []"
    using ok(5,6) subs by (simp_all add: db sample_devices d sample_enabled)
  have "pc_stale_timeout (snd p) = whole_float 15"
    using p(2) by (auto simp: make_publisher_def Let_def rbind_def float_config_def sample_gateway_defs split: sum.splits)
  then show thesis using that [of x s' "device_worker s' db' (sample_device [])"] start w ok(2)
    by (simp add: db gateway_of_def wc_device_worker)
qed

lemma flow_results:
  assumes "wc_device w = sample_device []"
  shows "acquired flow_polls no_sessions w = [error_result w noon timeout_error, sample_result [sample_reading ''flow'' Good]]"
proof -
  have "\<not> uses_subscription_worker (wc_device w)" by (simp add: assms uses_subscription_worker_def sample_device_def)
  moreover have "poll_results w (flow_polls w) = [error_result w noon timeout_error, sample_result [sample_reading ''flow'' Good]]"
    by (simp add: flow_polls_def sample_poll_def poll_outcome_def good_driver_def sample_result_def assms)
  ultimately show ?thesis by (simp add: acquired_def polled_results)
qed


lemma flow_queue:
  "gateway_run k flow_events g = (let c = gw_config g; r = sample_result [sample_reading ''flow'' Good] in
     g\<lparr>gw_pending := [[]], gw_put := [error_result w noon timeout_error, r], gw_queue := [],
       gw_publisher := fst (publish_cached c k noon (publish_once c k r noon
         (fst (publish_cached c k noon (publish_once c k (error_result w noon timeout_error) noon (gw_publisher g))))))\<rparr>)"
  if "gw_pending g = [[error_result w noon timeout_error, sample_result [sample_reading ''flow'' Good]]]"
    "gw_put g = []" "gw_queue g = []"
proof -
  have first: "rq_put (error_result w noon timeout_error) [] = [(ResultKey (device_ident (wc_device w)), error_result w noon timeout_error)]"
    by (simp add: rq_put_failed error_result_def)
  have second: "rq_put (sample_result [sample_reading ''flow'' Good]) [(ResultKey i, r)] = [(ResultKey i, r),
      (TagKey (device_ident (sample_device [])) [] ''flow'', sample_result [sample_reading ''flow'' Good])]" for i r
    by (simp add: rq_put_def split_items_def rq_put1_append ddel_def sample_result_def sample_reading_def has_text_def or_opt_def)
  show ?thesis using that by (simp add: gateway_run_def flow_events_def first second rq_get_def Let_def)
qed

lemma flow_published:
  fixes s :: publisher and k :: sink
  assumes "pub_inv s" "pb_latest s = []" "pc_stale_timeout c = whole_float 15"
  defines "s' \<equiv> publish_once c k (sample_result [sample_reading ''flow'' Good]) noon s"
  shows "filter is_measurement (pb_handed (fst (publish_cached c k noon s'))) \<noteq> []"
proof -
  let ?r = "sample_result [sample_reading ''flow'' Good]" and ?t = "sample_reading ''flow'' Good" and ?dk = "device_key (sample_device [])"
  have r: "\<not> has_text (rr_error ?r)" "rr_device ?r = sample_device []" "rr_tags ?r = [?t]" "good_tag ?t" "\<not> reading_failed ?t"
    by (simp_all add: sample_result_def has_text_def sample_reading_def good_tag_def reading_failed_def)
  obtain sn where sn: "dget (pb_latest s') ?dk = Some sn" "sn_device sn = sample_device []" "sn_tags sn = [(tag_key ?t, ?t)]" "sn_received sn = Some noon"
    using cache_result_latest [OF r(1), of c k noon s] r(2,3) assms(2) by (auto simp: s'_def)
  have "pub_inv s'" using publish_once_inv assms(1) by (simp add: s'_def)
  then have latest: "pb_latest s' = [(?dk, sn)]"
    using publish_once_keys [OF assms(1) r(1), of c k noon] assms(2) sn(1)
    by (intro single_entry) (simp_all add: s'_def r(2) pub_inv_def latest_ok_def)
  have status: "device_status (sample_device []) s' = Some LGood"
    by (simp add: s'_def link_after_result r)
  have "\<not> fl_le (pc_stale_timeout c) (seconds_between noon noon)"
    by (simp add: assms(3) whole_float_def seconds_between_def fl_ratio_def Let_def fl_eval round_half_even_def)
  then have "refresh_stale_statuses c k noon s' = s'"
    using status by (simp add: refresh_stale_statuses_def refresh_snapshot_def latest dvalues_def sn)
  then have good: "device_status (sn_device sn) (fst (publish_cached c k noon s')) = Some LGood"
    using status by (simp add: device_status_def sn)
  have "group_by tag_output_group [?t] = [(tag_output_group ?t, [?t])]" by (simp add: group_by_def group_add_def)
  then have "filter is_measurement (drop (length (pb_handed s')) (pb_handed (fst (publish_cached c k noon s')))) \<noteq> []"
    unfolding conjunct1 [OF cached_measurements] using good by (simp add: latest dvalues_def tag_groups_def sn r)
  then show ?thesis by (auto simp: filter_empty_conv dest: in_set_dropD)
qed

lemma flow_run:
  assumes "gw_pending g = [[error_result w noon timeout_error, sample_result [sample_reading ''flow'' Good]]]"
    "gw_put g = []" "gw_queue g = []" "gw_publisher g = new_publisher"
  shows "gw_pending (gateway_run k flow_events g) = [[]]" "gw_queue (gateway_run k flow_events g) = []"
    "pc_stale_timeout (gw_config g) = whole_float 15 \<Longrightarrow>
      filter is_measurement (pb_handed (gw_publisher (gateway_run k flow_events g))) \<noteq> []"
proof -
  note run = flow_queue [OF assms(1-3), of k]
  show "gw_pending (gateway_run k flow_events g) = [[]]" "gw_queue (gateway_run k flow_events g) = []"
    unfolding run by (simp_all add: Let_def)
  let ?s = "fst (publish_cached (gw_config g) k noon (publish_once (gw_config g) k (error_result w noon timeout_error) noon new_publisher))"
  have "pub_inv new_publisher" using pub_reachable_inv [OF pub_reachable.start] .
  then have inv: "pub_inv ?s" by (intro publish_cached_inv publish_once_inv)
  have "has_text (rr_error (error_result w noon timeout_error))" by (simp add: error_result_def timeout_error_def has_text_def)
  then have "pb_latest ?s = []" by (simp add: publish_once_failed_latest) (simp add: new_publisher_def)
  then show "pc_stale_timeout (gw_config g) = whole_float 15 \<Longrightarrow>
      filter is_measurement (pb_handed (gw_publisher (gateway_run k flow_events g))) \<noteq> []"
    unfolding run using flow_published [OF inv] by (simp add: Let_def assms(4))
qed

lemma handed_measurements_acquired_witness:
  "\<exists>x s' g m w c ts grp now.
    rm_start sample_runtime_env None None (sample_gateway ''modbus_tcp'', new_runtime) = (Inr x, sample_gateway ''modbus_tcp'', s') \<and>
    gateway_of s' flow_polls no_sessions = Some g \<and>
    m \<in> set (pb_handed (gw_publisher (gateway_run working_sink flow_events g))) \<and> is_measurement m \<and>
    wc_device w \<in> set (filter dev_enabled (list_devices (sample_gateway ''modbus_tcp''))) \<and>
    m = fst (measurement_message c (wc_device w) ts grp now) \<and> ts \<noteq> [] \<and>
    list_all (\<lambda>t. good_tag t \<and> tag_output_group t = grp \<and>
      list_ex (\<lambda>r. \<not> has_text (rr_error r) \<and> t \<in> set (rr_tags r)) (acquired flow_polls no_sessions w)) ts"
proof (rule sample_running)
  fix x s' w g
  assume start: "rm_start sample_runtime_env None None (sample_gateway ''modbus_tcp'', new_runtime) = (Inr x, sample_gateway ''modbus_tcp'', s')"
    and w: "rm_pollers s' = [w]" "rm_subs s' = []" "wc_device w = sample_device []"
    and g: "gateway_of s' flow_polls no_sessions = Some g" "pc_stale_timeout (gw_config g) = whole_float 15"
  note sg = start_gateway [OF start new_runtime_balanced(2) g(1)]
  have "filter is_measurement (pb_handed (gw_publisher (gateway_run working_sink flow_events g))) \<noteq> []"
    using flow_run(3) [of g w working_sink] sg g(2) w flow_results [OF w(3)] by simp
  then obtain m where "m \<in> set (filter is_measurement (pb_handed (gw_publisher (gateway_run working_sink flow_events g))))"
    by (metis list.set_sel(1))
  then have m: "m \<in> set (pb_handed (gw_publisher (gateway_run working_sink flow_events g)))" "is_measurement m" by simp_all
  have "list_all (\<lambda>w. list_all (\<lambda>r. rr_device r = wc_device w) (subscribed no_sessions w)) (rm_subs s')" using w(2) by simp
  from handed_measurements_acquired [OF start new_runtime_balanced(2) sample_gateway_inv g(1) this m]
  show ?thesis using start g(1) m by blast
qed

lemma drained_cache_current_witness:
  "\<exists>x s' g w.
    rm_start sample_runtime_env None None (sample_gateway ''modbus_tcp'', new_runtime) = (Inr x, sample_gateway ''modbus_tcp'', s') \<and>
    gateway_of s' flow_polls no_sessions = Some g \<and> wc_device w = sample_device [] \<and>
    acquired flow_polls no_sessions w = [error_result w noon timeout_error, sample_result [sample_reading ''flow'' Good]] \<and>
    cached_reading (gw_publisher (gateway_run working_sink flow_events g)) (device_key (wc_device w), ''flow:0'') =
      last_reading (acquired flow_polls no_sessions w) (device_key (wc_device w), ''flow:0'')"
proof (rule sample_running)
  fix x s' w g
  assume start: "rm_start sample_runtime_env None None (sample_gateway ''modbus_tcp'', new_runtime) = (Inr x, sample_gateway ''modbus_tcp'', s')"
    and w: "rm_pollers s' = [w]" "rm_subs s' = []" "wc_device w = sample_device []"
    and g: "gateway_of s' flow_polls no_sessions = Some g" "pc_stale_timeout (gw_config g) = whole_float 15"
  note sg = start_gateway [OF start new_runtime_balanced(2) g(1)]
  note res = flow_results [OF w(3)]
  have pending: "gw_pending g = [[error_result w noon timeout_error, sample_result [sample_reading ''flow'' Good]]]"
    using sg(1) w res by simp
  note run = flow_run(1,2) [OF pending sg(2,3,4), of working_sink]
  have "one_tag_per_key (concat (gw_pending g))"
    by (simp add: pending one_tag_per_key_def result_keys_def error_result_def sample_result_def)
  from drained_cache_current [OF start new_runtime_balanced(2) sample_gateway_inv g(1) _ this, of working_sink flow_events w "''flow:0''"]
  show ?thesis using start g(1) w res run by auto
qed

end
