(* ===== verification/Spec2Isabelle.thy ===== *)
theory Spec2Isabelle
  imports Modbus_Read Rtu_Stream Poller_Props Publisher_Run Config_Csv_Props Output_Routes_Props Registry Mqtt_Input_Props Runtime_Props Topic_Props Opcua Rtu_Probe Modbus_Driver App_Entry Store_Migrate Gateway
begin

text \<open>
  A verification development for the industrial gateway, the Python package under
  \<^verbatim>\<open>src/src/industrial_gateway/\<close> (file names below are relative to it).

  \<^bold>\<open>The program.\<close> The gateway reads industrial devices and publishes their readings. A configuration database holds
  devices, their tags, the plugins and the output routes; an HTTP interface edits it and starts and stops the runtime. The
  runtime manager builds a sink, a publisher thread and one acquisition thread per enabled device. An acquisition thread polls
  a driver, or subscribes to it, and puts one result per poll into a queue that keeps the latest item of each tag. The publisher
  takes items from the queue, keeps a snapshot and a status per device, and hands measurement and status messages per output
  group to the sink once per interval. Status updates and log records go through queues of their own to the manager and the log
  worker. A topic request and its responder look up the topics of output routes over MQTT.

  \<^bold>\<open>Where things are.\<close> A theory \<open>X_Props\<close> holds the lemmas on the definitions of \<open>X\<close>.

  \<^item> The language and its library: \<open>Prelude\<close> (exceptions as values, insertion-ordered dictionaries, the locale \<open>dict_ops\<close> with
    its interpretation), \<open>Py_Str\<close>, \<open>Py_Float\<close> (binary64 as \<open>FFin\<close> sign, mantissa, exponent, with rounding), \<open>Py_Value\<close> (values of unknown
    type, conversions, times), \<open>Py_Repr\<close>, \<open>Py_Date\<close>, \<open>Csv_Text\<close>, \<open>Json_Text\<close>.
  \<^item> \<open>Models\<close>: the records and checks of \<^verbatim>\<open>models.py\<close>; \<open>Registry\<close>: \<^verbatim>\<open>registry.py\<close> and \<^verbatim>\<open>defaults.py\<close>.
  \<^item> \<^verbatim>\<open>drivers/modbus.py\<close>: \<open>Modbus\<close> (planning, reading and decoding of blocks), \<open>Modbus_Plan\<close> (the planner's invariant, coverage and
    protocol limits), \<open>Modbus_Read\<close> (a grouped read agrees with reading each tag alone; decoding inverts encoding),
    \<open>Modbus_Driver\<close> (the driver classes and a poll with them).
  \<^item> \<^verbatim>\<open>drivers/modbus_rtu_monitor.py\<close>: \<open>Rtu\<close> (CRC, parser, scanners, draining, capture), \<open>Rtu_Props\<close> (the CRC notices bursts; parser),
    \<open>Rtu_Stream\<close> (transcripts, soundness of captured pairs and readings), \<open>Rtu_Probe\<close> (the probe and its texts).
  \<^item> \<^verbatim>\<open>drivers/mqtt.py\<close>: \<open>Mqtt_Input\<close>, \<open>Mqtt_Input_Props\<close>. \<^verbatim>\<open>drivers/opcua.py\<close>: \<open>Opcua\<close>.
  \<^item> \<^verbatim>\<open>workers.py\<close>: \<open>Poller\<close>, \<open>Poller_Props\<close> (the acquisition threads); \<open>Publisher\<close>, \<open>Publisher_Props\<close> (what each operation leaves alone, the
    cache invariant by rule induction over reachable states), \<open>Publisher_Thms\<close> (freshness, completeness, status, routes,
    independence from the sink), \<open>Publisher_Run\<close> (the thread's loop).
  \<^item> \<^verbatim>\<open>services/runtime_manager.py\<close>: \<open>Queues\<close> (both queues refine the sequence of their stores, by the locale \<open>latest_queue\<close>),
    \<open>Runtime_Manager\<close>, \<open>Runtime_Props\<close> (what a start makes; every thread is told to stop, then joined). \<^verbatim>\<open>logging_worker.py\<close>: \<open>Logging\<close>.
  \<^item> \<^verbatim>\<open>sinks/\<close>: \<open>Sinks\<close>, \<open>Sinks_Props\<close>.
  \<^item> \<^verbatim>\<open>store.py\<close>: \<open>Store\<close>, \<open>Store_Props\<close> (the integrity invariant of reachable databases), \<open>Store_Migrate\<close> (old files; the columns
    and defaults a migrated file must have are written out apart from the code's).
  \<^item> \<^verbatim>\<open>config_schema.py\<close>: \<open>Config_Schema\<close>. \<^verbatim>\<open>services/config_service.py\<close>: \<open>Config_Service\<close>, \<open>Output_Routes\<close>, \<open>Config_Csv\<close> and their
    \<open>_Props\<close>.
  \<^item> \<^verbatim>\<open>services/topic_responder.py\<close> and \<^verbatim>\<open>services/topic_request_client.py\<close>: \<open>Topic_Service\<close>, \<open>Topic_Props\<close>.
  \<^item> \<^verbatim>\<open>web/auth.py\<close>, \<^verbatim>\<open>web/api.py\<close>: \<open>Web_Api\<close> (one equation per route, each with its own session dependency), \<open>Web_Props\<close>. \<^verbatim>\<open>web/app.py\<close>: \<open>App_Entry\<close>.
  \<^item> \<open>Delivery\<close>: a result on its way through the queue and the publisher. \<open>Gateway\<close>: the acquisition threads of a started
    runtime, the queue and the publisher under every interleaving; it refines a table of the last reading of every tag, and
    what it publishes was read. This theory: the way of a Modbus device's registers to the sink.

  \<^bold>\<open>How code becomes definitions.\<close> A class is a record of its fields, a method a function from the record to the updated
  record; an object that other code calls is a record of functions or of recorded outcomes. Operations of the store and the
  configuration service are state transformers \<open>db \<Rightarrow> 'a res \<times> db\<close>. An exception is a value, and what a caller catches is a case
  distinction on it. Calls that leave the process (publishing, starting and joining threads, statements sent to PostgreSQL) are
  appended to a trace in the state. Everything computes, so the witnesses evaluate.

  \<^bold>\<open>Parameters.\<close> Code outside the repository and the outside world are arguments: the clients of pymodbus, asyncua, paho and
  psycopg, the serial port as the feed of what it reads, the serializer of itsdangerous, the clocks, the disk, the local time zone, the
  error texts of the JSON decoder, \<open>strptime\<close> and the Unicode decoder, the topic database. What a theorem needs of them is
  a hypothesis with a witness (\<open>coherent\<close>: a Modbus client answers a request the protocol allows with the device's cells at the addresses asked for, bits padded to whole bytes; \<open>steady\<close>: an OPC UA server answers the same whatever was asked before; \<open>signer_ok\<close>: the
  serializer reads back what it wrote). The object an OPC UA notification carries, with the text asyncua renders its node as, is
  a parameter too (\<open>opc_object\<close>).

  \<^bold>\<open>Bounds.\<close> The JSON reader has fuel twice the length of the text and two; \<open>json_fuel_enough\<close> shows that more changes nothing. Loops
  that wait for the outside world (captures, subscriptions, the threads' loops, the event socket) are functions over the list of
  what the world does in each round, so every theorem on them holds for every number of rounds; a run of the whole gateway is
  a list of events, and \<open>gateway_drains\<close> shows that one always leads to a state where nothing waits; that a capture ends when
  its clock passes the deadline and that the publisher's inner loop ends are theorems. All other recursions are total.

  \<^bold>\<open>Choices to know.\<close> A \<open>str\<close> is the list of its UTF-8 bytes, with white space and letter case those of ASCII. Each operation of a queue is
  atomic, and a poll or a publishing round reads the clock once. A heartbeat's last time is kept by the position of its route (the
  code keeps it by the route object, so after a refresh of the routes every heartbeat is due at once). Rows of a table are in
  the order of their ids. The health interval of a start is an integer. Waiting times do not appear: telling a thread to stop and
  joining it are entries of the trace, a join returns within its two seconds whether the thread has ended or not, as in the code,
  which does not ask, and no theorem says that a thread ends. Where the code puts a value of another type into a text column, the model stops at \<open>text_item\<close>.

  \<^bold>\<open>Not modelled.\<close> The help text of the command line and uvicorn; FastAPI's matching of paths, parsing of bodies and rendering of responses
  (a body with NaN, which it refuses, among them); the static files and the browser's client, which is another language; the condition
  variables inside the queues; packaging.
\<close>

section \<open>From the device to the sink\<close>

text \<open>C7: A Modbus device's registers reach the sink. The enabled tags, at least one, are validated, have distinct names,
  lie inside the address space and fit one request each; the default unit is between 0 and 255 and the permitted gap
  not negative. The pymodbus client can be built, connects, and answers every request the protocol allows from fixed
  tables, bits padded to whole bytes; every tag's cells decode without error. One poll, its delivery through the read
  queue to a publisher without a past, and one publishing round before the data is older than the stale timeout hand
  the sink exactly one measurement message per output group, with the value of each tag as decoded from its own cells.\<close>

theorem modbus_values_reach_sink:
  assumes "pm_import_error pm = None" and "client_arguments m (dev_connection (wc_device w)) = Inr args"
    and "pm_new pm args = Inr client" and "pm_connect pm client = (Inr True, cl)"
    and "coherent (pm_read pm) regs bits"
    and "read_plan (wc_device w) (wc_tags w) = Inr blocks" and "modbus_tags_ok (wc_tags w)"
    and "py_int (get_or (dev_connection (wc_device w)) ''max_block_gap'' (VInt 4)) = Inr gap" and "0 \<le> gap"
    and "py_int (get_or (dev_connection (wc_device w)) ''unit_id'' (VInt 1)) = Inr unit" and "0 \<le> unit" and "unit \<le> 255"
    and "tags_requestable (wc_tags w)" and "distinct (map tag_name (wc_tags w))" and "po_factory p = modbus_factory pm read_at m"
    and "wc_tags w \<noteq> []" and "list_all (\<lambda>t. res_quality (read_alone regs bits unit read_at t) = Good) (wc_tags w)"
    and "\<not> fl_le (pc_stale_timeout c) (seconds_between now received)"
  shows "filter is_measurement (pb_handed (fst (publish_cached c k now (poll_and_deliver w p c k received new_publisher)))) =
    map (\<lambda>(grp, ts). fst (measurement_message c (wc_device w) ts grp now))
      (group_by tag_output_group (map (read_alone regs bits unit read_at) (wc_tags w)))"
proof -
  let ?r = "\<lparr>rr_device = wc_device w, rr_timestamp = po_time p, rr_tags = map (read_alone regs bits unit read_at) (wc_tags w), rr_error = None\<rparr>"
  have "res_node_id t = None \<and> good_tag t" if "t \<in> set (rr_tags ?r)" for t
    using that assms(17)
    by (fastforce simp: list_all_iff read_alone_def result_of_def bad_def good_result_def good_tag_def has_text_def split: sum.splits)
  moreover have names: "map res_name (rr_tags ?r) = map tag_name (wc_tags w)" by (simp add: read_alone_def result_of_name)
  have "distinct (map res_name (rr_tags ?r))" unfolding names by (rule assms(14))
  ultimately have "plain_readings (rr_tags ?r)" using assms(16) unfolding plain_readings_def list_all_iff by (intro conjI ballI) (assumption, simp_all)
  then show ?thesis
    using delivered_then_published [of ?r c now received k] modbus_poll_outbox [OF assms(1-15), of new_worker] assms(18)
    by (simp add: poll_and_deliver_def has_text_def new_worker_def)
qed

definition two_tags :: "tag_spec list" where
  "two_tags = [new_tag ''pressure'' 8 ''holding_register'' ''uint16'', new_tag ''pump'' 3 ''coil'' ''bool'']"

definition two_tag_worker :: worker_config where
  "two_tag_worker = (sample_worker (sample_device []))\<lparr>wc_tags := two_tags\<rparr>"

lemma two_tags_good:
  "list_all (\<lambda>t. res_quality (read_alone (\<lambda>fn u a. 100 + a) (\<lambda>fn u a. a = 3) 1 noon t) = Good) two_tags"
proof -
  obtain x where "register_value [108] 0 (new_tag ''pressure'' 8 ''holding_register'' ''uint16'') = Inr (VFloat x)"
    using integer_value_exact [of "new_tag ''pressure'' 8 ''holding_register'' ''uint16''" 108]
    by (auto simp: new_tag_def value_count_def int_range_def words_per_value_def device_registers_def)
  moreover have "tag_value (\<lambda>fn u a. 100 + a) (\<lambda>fn u a. a = 3) 1 (new_tag ''pressure'' 8 ''holding_register'' ''uint16'') =
      register_value [108] 0 (new_tag ''pressure'' 8 ''holding_register'' ''uint16'')"
    by (simp add: tag_value_def new_tag_def item_count_def register_count_def value_count_def words_per_value_def table_slice_def)
  moreover have "tag_value (\<lambda>fn u a. 100 + a) (\<lambda>fn u a. a = 3) 1 (new_tag ''pump'' 3 ''coil'' ''bool'') = Inr (VBool True)"
    by (simp add: tag_value_def new_tag_def item_count_def value_count_def table_slice_def bit_value_def py_slice_def py_index_def clamp_index_def Let_def)
  ultimately show ?thesis by (simp add: two_tags_def read_alone_def result_of_def good_result_def)
qed

lemma two_tags_plan: "read_plan (sample_device []) two_tags = Inr
    [mk_block ''holding_register'' 1 [new_tag ''pressure'' 8 ''holding_register'' ''uint16''] 8 9,
     mk_block ''coil'' 1 [new_tag ''pump'' 3 ''coil'' ''bool''] 3 4]"
  by (simp add: two_tags_def plan_eval)

lemma two_tags_ok: "modbus_tags_ok two_tags"
  by (simp add: two_tags_def tag_eval)

lemma two_tags_requestable: "tags_requestable two_tags"
  by (simp add: two_tags_def tags_requestable_def new_tag_def item_count_def register_count_def
      value_count_def words_per_value_def bit_function_def)

lemma modbus_values_reach_sink_witness:
  "filter is_measurement (pb_handed (fst (publish_cached sample_config working_sink noon
     (poll_and_deliver two_tag_worker modbus_round sample_config working_sink noon new_publisher)))) =
   map (\<lambda>(grp, ts). fst (measurement_message sample_config (wc_device two_tag_worker) ts grp noon))
     (group_by tag_output_group (map (read_alone (\<lambda>fn u a. 100 + a) (\<lambda>fn u a. a = 3) 1 noon) (wc_tags two_tag_worker)))"
proof -
  have w: "wc_device two_tag_worker = sample_device []" "wc_tags two_tag_worker = two_tags"
    by (simp_all add: two_tag_worker_def sample_worker_def new_worker_config_def)
  have c: "dev_connection (sample_device []) = []" by (simp add: sample_device_def)
  have d: "distinct (map tag_name two_tags)" "two_tags \<noteq> []" by (simp_all add: two_tags_def new_tag_def)
  have fresh: "\<not> fl_le (pc_stale_timeout sample_config) (seconds_between noon noon)"
    by (simp add: seconds_between_def sample_config_def fl_ratio_def Let_def fl_eval)
  show ?thesis
    by (rule modbus_values_reach_sink [where pm = table_pymodbus and m = ModbusTcp and gap = 4
          and cl = "()" and args = "[(''host'', VStr ''127.0.0.1''), (''port'', VInt 502)]"])
      (simp_all add: w table_pymodbus_def coherent_table_client two_tags_requestable two_tags_plan two_tags_ok modbus_round_def
        client_arguments_def tcp_arguments_def get_or_def c d two_tags_good fresh)
qed

end
